(* ===== verification/Xib_Prelude.thy ===== *)
theory Xib_Prelude
  imports Main "HOL-Library.Word" "HOL-Library.Monad_Syntax"
begin

text \<open>
  What the components share: the C integer types as words, the errno values the sources return,
  bit lemmas for fixed-width words, and case-insensitive comparison of strings.  The collection
  \<open>dev_run\<close> holds, for every computation that accesses device registers, what running it does.
\<close>

named_theorems dev_run

subsection \<open>C integer types\<close>

type_synonym u8 = "8 word"
type_synonym u16 = "16 word"
type_synonym u32 = "32 word"
type_synonym u64 = "64 word"

text \<open>The errno values the sources return, negated, from \<open>int\<close> functions.\<close>

abbreviation EAGAIN :: int where "EAGAIN \<equiv> 11"
abbreviation ENOMEM :: int where "ENOMEM \<equiv> 12"
abbreviation EFAULT :: int where "EFAULT \<equiv> 14"
abbreviation ENODEV :: int where "ENODEV \<equiv> 19"
abbreviation EINVAL :: int where "EINVAL \<equiv> 22"
abbreviation ENOTTY :: int where "ENOTTY \<equiv> 25"

subsection \<open>Words\<close>

unbundle bit_operations_syntax

lemma unat_add_no_wrap:
  fixes a b :: "'a::len word"
  assumes "unat a + unat b < 2 ^ LENGTH('a)"
  shows "unat (a + b) = unat a + unat b"
  using assms by (simp add: unat_word_ariths)

lemma unat_sub_le:
  fixes a b :: "'a::len word"
  assumes "unat b \<le> unat a"
  shows "unat (a - b) = unat a - unat b"
  using assms by (simp add: unat_sub word_le_nat_alt)

lemma unat_inc_less:
  fixes i n :: "'a::len word"
  assumes "i < n"
  shows "unat (i + 1) = Suc (unat i)"
proof -
  have "unat i + unat (1::'a word) < 2 ^ LENGTH('a)"
    using assms order.strict_trans1 [OF Suc_leI unsigned_less [of n], of "unat i"]
    by (simp add: word_less_nat_alt)
  then show ?thesis by (simp add: unat_add_no_wrap)
qed

lemma word_eq_0_iff_bits:
  fixes x :: "'a::len word"
  shows "x = 0 \<longleftrightarrow> (\<forall>i < LENGTH('a). \<not> bit x i)"
  by (auto simp: bit_eq_iff bit_imp_le_length dest: bit_imp_le_length)

lemma round_up_32:
  fixes l r m :: nat
  assumes "0 < r" "32 * l + r = m"
  shows "32 * l + 32 \<le> 32 * ((m + 31) div 32)"
proof -
  have "l + 1 \<le> (m + 31) div 32" using assms by (simp add: less_eq_div_iff_mult_less_eq)
  then show ?thesis by simp
qed

lemma u32_less_power: "unat (x::u32) < 4294967296"
  using unsigned_less [of x] by simp

lemma u64_less_power: "unat (x::u64) < 18446744073709551616"
  using unsigned_less [of x] by simp

lemma not_bit_beyond_32: "32 \<le> i \<Longrightarrow> \<not> bit (x::u32) i"
  using bit_imp_le_length [of x i] by auto

lemma and_not_plus_and:
  fixes x m :: "'a::len word"
  shows "x = (x AND NOT m) + (x AND m)"
proof -
  have "(x AND NOT m) AND (x AND m) = 0" by (rule bit_eqI) (auto simp: bit_and_iff bit_not_iff)
  then have "(x AND NOT m) + (x AND m) = (x AND NOT m) OR (x AND m)"
    by (rule disjunctive_add_eq_or)
  also have "\<dots> = x" by (rule bit_eqI) (auto simp: bit_simps)
  finally show ?thesis by simp
qed

lemma div_round_up_4096:
  fixes n :: nat
  assumes "n mod 4096 \<noteq> 0"
  shows "(n + 4095) div 4096 = n div 4096 + 1"
proof -
  define q r where "q = n div 4096" and "r = n mod 4096"
  have r: "0 < r" "r < 4096" "n = 4096 * q + r" using assms by (simp_all add: q_def r_def)
  then have "n + 4095 = (r - 1) + (q + 1) * 4096" by simp
  then have "(n + 4095) div 4096 = (q + 1) + (r - 1) div 4096" by (simp only: div_mult_self1)
  then show ?thesis using r(2) by (simp add: q_def)
qed

lemma unat_ucast_32_64 [simp]: "unat (ucast (x::u32) :: u64) = unat x"
  using u32_less_power [of x] by (simp add: unsigned_ucast_eq take_bit_nat_eq_self_iff)

lemma unat_ucast_64_32: "unat (x::u64) < 2 ^ 32 \<Longrightarrow> unat (ucast x :: u32) = unat x"
  by (simp add: unsigned_ucast_eq take_bit_nat_eq_self_iff)

lemma unat_and_255: "unat (x AND 0xFF :: u32) = unat x mod 256"
proof -
  have "x AND 0xFF = take_bit 8 x" by (simp add: take_bit_eq_mask mask_eq_exp_minus_1)
  then show ?thesis by (simp add: unsigned_take_bit_eq take_bit_eq_mod unat_mod)
qed

lemma unat_minus_word:
  fixes x :: "'a::len word"
  assumes "x \<noteq> 0"
  shows "unat (- x) = 2 ^ LENGTH('a) - unat x"
proof -
  let ?L = "2 ^ LENGTH('a) :: nat"
  have "(unat (- x) + unat x) mod ?L = 0" using unat_word_ariths(1) [of "- x" x] by simp
  then obtain k where k: "unat (- x) + unat x = ?L * k" by auto
  have pos: "0 < unat x" using assms by (simp add: unat_gt_0)
  have "unat x < ?L" "unat (- x) < ?L" by (rule unsigned_less)+
  then have "?L * k < ?L * 2" using k by linarith
  then have "k < 2" by simp
  moreover have "k \<noteq> 0" using k pos by (intro notI) simp
  ultimately show ?thesis using k by (cases "k = 1") auto
qed

lemma or_eq_plus:
  fixes x m :: "'a::len word"
  shows "x OR m = (x AND NOT m) + m"
proof -
  have "(x AND NOT m) AND m = 0" by (rule bit_eqI) (auto simp: bit_and_iff bit_not_iff)
  then have "(x AND NOT m) + m = (x AND NOT m) OR m" by (rule disjunctive_add_eq_or)
  also have "\<dots> = x OR m" by (rule bit_eqI) (auto simp: bit_simps dest: bit_imp_le_length)
  finally show ?thesis by simp
qed

text \<open>The test \<open>x & (x + 1)\<close> for a mask of low ones, against its specification.\<close>

lemma mask_test_nat: "x AND (x + 1) = 0 \<Longrightarrow> \<exists>n. x = 2 ^ n - (1::nat)"
proof (induction x rule: less_induct)
  case (less x)
  note step = less.prems [unfolded and_rec [of x "x + 1"]]
  show ?case
  proof (cases "even x")
    case True
    then have "x div 2 = 0" using step by simp
    then have "x = 0" using True by auto
    then show ?thesis by (intro exI [of _ 0]) simp
  next
    case False
    then obtain y where y: "x = 2 * y + 1" by (auto elim: oddE)
    have "y AND (y + 1) = 0" using step y by simp
    then obtain n where "y = 2 ^ n - 1" using less.IH [of y] y by auto
    then have "x = 2 * 2 ^ n - 1" using y one_le_power [of "2::nat" n] by linarith
    then have "x = 2 ^ Suc n - 1" by simp
    then show ?thesis by blast
  qed
qed

lemma mask_test: "(x::u32) AND (x + 1) = 0 \<longleftrightarrow> (\<exists>n\<le>32. unat x = 2 ^ n - 1)"
proof
  assume z: "x AND (x + 1) = 0"
  show "\<exists>n\<le>32. unat x = 2 ^ n - 1"
  proof (cases "x = - 1")
    case True
    then show ?thesis by (intro exI [of _ 32]) (simp add: unsigned_minus_1_eq_mask mask_eq_exp_minus_1)
  next
    case False
    then have "unat x \<noteq> unat (- 1 :: u32)" by (simp add: word_unat_eq_iff)
    moreover have "unat (- 1 :: u32) = 2 ^ 32 - 1" by (simp add: unsigned_minus_1_eq_mask mask_eq_exp_minus_1)
    moreover have lt: "unat x < 2 ^ 32" using unsigned_less [of x] by simp
    ultimately have u: "unat (x + 1) = unat x + 1" by (subst unat_add_no_wrap) auto
    have "unat x AND (unat x + 1) = 0" using z unsigned_and_eq [of x "x + 1"] u by (metis unsigned_0)
    then obtain n where n: "unat x = 2 ^ n - 1" using mask_test_nat by blast
    have "n \<le> 32"
    proof (rule ccontr)
      assume "\<not> n \<le> 32"
      then have "(2::nat) ^ 32 < 2 ^ n" by (intro power_strict_increasing) auto
      then show False using n lt by simp
    qed
    then show ?thesis using n by blast
  qed
next
  assume "\<exists>n\<le>32. unat x = 2 ^ n - 1"
  then obtain n where n: "n \<le> 32" "unat x = 2 ^ n - 1" by blast
  have "of_nat (2 ^ n - 1) = x" unfolding n(2) [symmetric] by simp
  then have x: "x = mask n" by (auto simp: mask_eq_exp_minus_1 of_nat_diff)
  have "x + 1 = 2 ^ n" using x by (simp add: mask_eq_exp_minus_1)
  moreover have "mask n AND (2 ^ n :: u32) = 0"
    by (rule bit_word_eqI) (simp add: bit_simps)
  ultimately show "x AND (x + 1) = 0" using x by simp
qed

subsection \<open>Strings\<close>

text \<open>\<open>strcasecmp\<close> of two strings is 0.\<close>

definition to_lower :: "char \<Rightarrow> char" where
  "to_lower ch =
     (let n = of_char ch :: nat in if 65 \<le> n \<and> n \<le> 90 then char_of (n + 32) else ch)"

definition strcaseeq :: "string \<Rightarrow> string \<Rightarrow> bool" where
  "strcaseeq a b \<longleftrightarrow> map to_lower a = map to_lower b"

end
