(* ===== verification/Xib_Regs.thy ===== *)
theory Xib_Regs
  imports Xib_Prelude "HOL-Library.State_Monad"
begin

text \<open>
  The register interface of the ERNIC core, \<open>recipes-modules/xib-module/files/rnic.h\<close> (the
  \<open>ERNIC_V4\<close> branch).  Register accesses run in the state monad over the log of accesses made so
  far; what a read returns is a function \<open>hw\<close> of the log, a parameter of the model, because the
  device is not part of the sources.  \<open>readback\<close> names the registers that keep what was last written.
\<close>

subsection \<open>Accesses\<close>

datatype io = IoW u32 u32 | IoR u32

type_synonym hardware = "io list \<Rightarrow> u32 \<Rightarrow> u32"

type_synonym 'a dev = "(io list, 'a) state"

definition xrnic_iow :: "u32 \<Rightarrow> u32 \<Rightarrow> unit dev" where
  "xrnic_iow off v = State (\<lambda>log. ((), log @ [IoW off v]))"

definition xrnic_ior :: "hardware \<Rightarrow> u32 \<Rightarrow> u32 dev" where
  "xrnic_ior hw off = State (\<lambda>log. (hw log off, log @ [IoR off]))"

text \<open>The value a register holds if it keeps what was last written, starting from \<open>init\<close>.\<close>

fun io_effect :: "io \<Rightarrow> (u32 \<Rightarrow> u32) \<Rightarrow> u32 \<Rightarrow> u32" where
  "io_effect (IoW off v) r = r(off := v)"
| "io_effect (IoR off) r = r"

definition reg_value :: "(u32 \<Rightarrow> u32) \<Rightarrow> io list \<Rightarrow> u32 \<Rightarrow> u32" where
  "reg_value init log = fold io_effect log init"

text \<open>The registers of \<open>R\<close> are plain storage.\<close>

definition readback :: "hardware \<Rightarrow> u32 set \<Rightarrow> bool" where
  "readback hw R \<longleftrightarrow> (\<forall>log. \<forall>off \<in> R. hw log off = reg_value (hw []) log off)"

lemma reg_value_simps [simp]:
  "reg_value init [] = init"
  "reg_value init (log @ new) = fold io_effect new (reg_value init log)"
  by (simp_all add: reg_value_def)

lemma reg_value_cong: "init off = init' off \<Longrightarrow> reg_value init log off = reg_value init' log off"
proof (induction log rule: rev_induct)
  case (snoc x log)
  then show ?case by (cases x) simp_all
qed simp

lemma run_iow [simp, dev_run]: "run_state (xrnic_iow off v) log = ((), log @ [IoW off v])"
  by (simp add: xrnic_iow_def)

lemma run_ior [simp, dev_run]: "run_state (xrnic_ior hw off) log = (hw log off, log @ [IoR off])"
  by (simp add: xrnic_ior_def)

lemma readback_mem: "readback (reg_value init) R"
  by (simp add: readback_def)

subsection \<open>What a computation may write\<close>

text \<open>A computation touches at most the registers of \<open>R\<close>: whatever it adds to the log, every write in it
  is to a register of \<open>R\<close>.\<close>

definition touches :: "'a dev \<Rightarrow> u32 set \<Rightarrow> bool" where
  "touches m R \<longleftrightarrow>
     (\<forall>log. \<exists>new. snd (run_state m log) = log @ new \<and> (\<forall>off v. IoW off v \<in> set new \<longrightarrow> off \<in> R))"

named_theorems touches_intros

lemma touches_iow [touches_intros]: "off \<in> R \<Longrightarrow> touches (xrnic_iow off v) R"
  by (simp add: touches_def)

lemma touches_ior [touches_intros]: "touches (xrnic_ior hw off) R"
  by (simp add: touches_def)

lemma touches_return [touches_intros]: "touches (State_Monad.return x) R"
  by (simp add: touches_def)

lemma touches_bind [touches_intros]:
  assumes "touches m R" "\<And>x. touches (f x) R"
  shows "touches (State_Monad.bind m f) R"
  unfolding touches_def
proof
  fix log
  obtain new1 where n1: "snd (run_state m log) = log @ new1" "\<forall>off v. IoW off v \<in> set new1 \<longrightarrow> off \<in> R"
    using assms(1) unfolding touches_def by blast
  obtain new2 where n2: "snd (run_state (f (fst (run_state m log))) (log @ new1)) = (log @ new1) @ new2"
      "\<forall>off v. IoW off v \<in> set new2 \<longrightarrow> off \<in> R"
    using assms(2) unfolding touches_def by blast
  have "snd (run_state (State_Monad.bind m f) log) = log @ (new1 @ new2)"
    using n1(1) n2(1) by (simp add: case_prod_beta)
  then show "\<exists>new. snd (run_state (State_Monad.bind m f) log) = log @ new \<and>
      (\<forall>off v. IoW off v \<in> set new \<longrightarrow> off \<in> R)"
    using n1(2) n2(2) by (intro exI [of _ "new1 @ new2"]) auto
qed

lemma touches_if [touches_intros]: "touches m R \<Longrightarrow> touches n R \<Longrightarrow> touches (if b then m else n) R"
  by simp

lemma touches_keeps:
  assumes "touches m R" "off \<notin> R"
  shows "reg_value init (snd (run_state m log)) off = reg_value init log off"
proof -
  obtain new where new: "snd (run_state m log) = log @ new" "\<forall>o' v. IoW o' v \<in> set new \<longrightarrow> o' \<in> R"
    using assms(1) unfolding touches_def by blast
  have "reg_value init (log @ new) off = reg_value init log off"
    using new(2)
  proof (induction new rule: rev_induct)
    case (snoc x xs)
    have ih: "reg_value init (log @ xs) off = reg_value init log off"
      using snoc.prems by (intro snoc.IH) auto
    have "off \<noteq> o'" if "x = IoW o' v" for o' v using snoc.prems that assms(2) by auto
    then show ?case using ih by (cases x) simp_all
  qed simp
  then show ?thesis using new(1) by simp
qed

subsection \<open>Register offsets\<close>

definition XRNIC_GLOBAL_REG_OFFSET :: u32 where "XRNIC_GLOBAL_REG_OFFSET = 0x100000"
definition XRNIC_PER_QP_OFFSET :: u32 where "XRNIC_PER_QP_OFFSET = 0x180000"

definition greg :: "u32 \<Rightarrow> u32" where
  "greg ofs = XRNIC_GLOBAL_REG_OFFSET + ofs"

definition XRNIC_CONF :: u32 where "XRNIC_CONF = greg 0x0"
definition XRNIC_ADV_CONF :: u32 where "XRNIC_ADV_CONF = greg 0x4"
definition XRNIC_CNCT_IO_CONF :: u32 where "XRNIC_CNCT_IO_CONF = greg 0xAC"
definition XRNIC_CONF_QP_EN :: u32 where "XRNIC_CONF_QP_EN = greg 0x44"
definition XRNIC_MAC_ADDR_LO :: u32 where "XRNIC_MAC_ADDR_LO = greg 0x10"
definition XRNIC_MAC_ADDR_HI :: u32 where "XRNIC_MAC_ADDR_HI = greg 0x14"
definition XRNIC_IPV6_ADD_1 :: u32 where "XRNIC_IPV6_ADD_1 = greg 0x20"
definition XRNIC_IPV6_ADD_2 :: u32 where "XRNIC_IPV6_ADD_2 = greg 0x24"
definition XRNIC_IPV6_ADD_3 :: u32 where "XRNIC_IPV6_ADD_3 = greg 0x28"
definition XRNIC_IPV6_ADD_4 :: u32 where "XRNIC_IPV6_ADD_4 = greg 0x2c"
definition XRNIC_ERR_BUF_BASE_LSB :: u32 where "XRNIC_ERR_BUF_BASE_LSB = greg 0x60"
definition XRNIC_ERR_BUF_BASE_MSB :: u32 where "XRNIC_ERR_BUF_BASE_MSB = greg 0x64"
definition XRNIC_ERR_BUF_SZ :: u32 where "XRNIC_ERR_BUF_SZ = greg 0x68"
definition XRNIC_IPV4_ADDR :: u32 where "XRNIC_IPV4_ADDR = greg 0x70"
definition XRNIC_INCG_PKT_ERRQ_BASE_LSB :: u32 where "XRNIC_INCG_PKT_ERRQ_BASE_LSB = greg 0x88"
definition XRNIC_INCG_PKT_ERRQ_BASE_MSB :: u32 where "XRNIC_INCG_PKT_ERRQ_BASE_MSB = greg 0x8C"
definition XRNIC_INCG_PKT_ERRQ_SZ :: u32 where "XRNIC_INCG_PKT_ERRQ_SZ = greg 0x90"
definition XRNIC_INCG_PKT_ERRQ_WPTR :: u32 where "XRNIC_INCG_PKT_ERRQ_WPTR = greg 0x94"
definition XRNIC_DATA_BUF_BASE_LSB :: u32 where "XRNIC_DATA_BUF_BASE_LSB = greg 0xA0"
definition XRNIC_DATA_BUF_BASE_MSB :: u32 where "XRNIC_DATA_BUF_BASE_MSB = greg 0xA4"
definition XRNIC_DATA_BUF_SZ :: u32 where "XRNIC_DATA_BUF_SZ = greg 0xA8"
definition XRNIC_RSP_ERR_BUF_BA_LSB :: u32 where "XRNIC_RSP_ERR_BUF_BA_LSB = greg 0xB0"
definition XRNIC_RSP_ERR_BUF_BA_MSB :: u32 where "XRNIC_RSP_ERR_BUF_BA_MSB = greg 0xB4"
definition XRNIC_RSP_ERR_BUF_DEPTH :: u32 where "XRNIC_RSP_ERR_BUF_DEPTH = greg 0xB8"
definition XRNIC_INT_EN :: u32 where "XRNIC_INT_EN = greg 0x180"
definition XRNIC_INT_STAT :: u32 where "XRNIC_INT_STAT = greg 0x184"
definition XRNIC_RCVQ_INT_STAT_0_31 :: u32 where "XRNIC_RCVQ_INT_STAT_0_31 = greg 0x190"
definition XRNIC_COMPQ_INT_STAT_0_31 :: u32 where "XRNIC_COMPQ_INT_STAT_0_31 = greg 0x290"
definition XRNIC_CNP_INT_STAT_0_31 :: u32 where "XRNIC_CNP_INT_STAT_0_31 = greg 0x390"

text \<open>Per queue pair: base, offset, and 0x100 bytes per pair.\<close>

definition qreg :: "u32 \<Rightarrow> u32 \<Rightarrow> u32" where
  "qreg ofs q = XRNIC_PER_QP_OFFSET + ofs + q * 0x100"

definition XRNIC_QP_CONF :: "u32 \<Rightarrow> u32" where "XRNIC_QP_CONF = qreg 0x00"
definition XRNIC_QP_ADV_CONF :: "u32 \<Rightarrow> u32" where "XRNIC_QP_ADV_CONF = qreg 0x04"
definition XRNIC_RCVQ_BUF_BASE_LSB :: "u32 \<Rightarrow> u32" where "XRNIC_RCVQ_BUF_BASE_LSB = qreg 0x08"
definition XRNIC_RCVQ_BUF_BASE_MSB :: "u32 \<Rightarrow> u32" where "XRNIC_RCVQ_BUF_BASE_MSB = qreg 0xC0"
definition XRNIC_SNDQ_BUF_BASE_LSB :: "u32 \<Rightarrow> u32" where "XRNIC_SNDQ_BUF_BASE_LSB = qreg 0x10"
definition XRNIC_SNDQ_BUF_BASE_MSB :: "u32 \<Rightarrow> u32" where "XRNIC_SNDQ_BUF_BASE_MSB = qreg 0xC8"
definition XRNIC_CQ_BUF_BASE_LSB :: "u32 \<Rightarrow> u32" where "XRNIC_CQ_BUF_BASE_LSB = qreg 0x18"
definition XRNIC_CQ_BUF_BASE_MSB :: "u32 \<Rightarrow> u32" where "XRNIC_CQ_BUF_BASE_MSB = qreg 0xD0"
definition XRNIC_RCVQ_WP_DB_ADDR_LSB :: "u32 \<Rightarrow> u32" where "XRNIC_RCVQ_WP_DB_ADDR_LSB = qreg 0x20"
definition XRNIC_RCVQ_WP_DB_ADDR_MSB :: "u32 \<Rightarrow> u32" where "XRNIC_RCVQ_WP_DB_ADDR_MSB = qreg 0x24"
definition XRNIC_CQ_DB_ADDR_LSB :: "u32 \<Rightarrow> u32" where "XRNIC_CQ_DB_ADDR_LSB = qreg 0x28"
definition XRNIC_CQ_DB_ADDR_MSB :: "u32 \<Rightarrow> u32" where "XRNIC_CQ_DB_ADDR_MSB = qreg 0x2C"
definition XRNIC_CQ_HEAD_PTR :: "u32 \<Rightarrow> u32" where "XRNIC_CQ_HEAD_PTR = qreg 0x30"
definition XRNIC_RQ_CONS_IDX :: "u32 \<Rightarrow> u32" where "XRNIC_RQ_CONS_IDX = qreg 0x34"
definition XRNIC_SQ_PROD_IDX :: "u32 \<Rightarrow> u32" where "XRNIC_SQ_PROD_IDX = qreg 0x38"
definition XRNIC_QUEUE_DEPTH :: "u32 \<Rightarrow> u32" where "XRNIC_QUEUE_DEPTH = qreg 0x3C"
definition XRNIC_SNDQ_PSN :: "u32 \<Rightarrow> u32" where "XRNIC_SNDQ_PSN = qreg 0x40"
definition XRNIC_LAST_RQ_PSN :: "u32 \<Rightarrow> u32" where "XRNIC_LAST_RQ_PSN = qreg 0x44"
definition XRNIC_DEST_QP_CONF :: "u32 \<Rightarrow> u32" where "XRNIC_DEST_QP_CONF = qreg 0x48"
definition XRNIC_TIMEOUT_CONF :: "u32 \<Rightarrow> u32" where "XRNIC_TIMEOUT_CONF = qreg 0x4C"
definition XRNIC_MAC_DEST_ADDR_LO :: "u32 \<Rightarrow> u32" where "XRNIC_MAC_DEST_ADDR_LO = qreg 0x50"
definition XRNIC_MAC_DEST_ADDR_HI :: "u32 \<Rightarrow> u32" where "XRNIC_MAC_DEST_ADDR_HI = qreg 0x54"
definition XRNIC_IP_DEST_ADDR_1 :: "u32 \<Rightarrow> u32" where "XRNIC_IP_DEST_ADDR_1 = qreg 0x60"
definition XRNIC_STAT_QP :: "u32 \<Rightarrow> u32" where "XRNIC_STAT_QP = qreg 0x88"
definition XRNIC_STAT_CUR_SQ_PTR :: "u32 \<Rightarrow> u32" where "XRNIC_STAT_CUR_SQ_PTR = qreg 0x8C"
definition XRNIC_STAT_RQ_PROD_IDX :: "u32 \<Rightarrow> u32" where "XRNIC_STAT_RQ_PROD_IDX = qreg 0x9c"
definition XRNIC_QP_PD_NUM :: "u32 \<Rightarrow> u32" where "XRNIC_QP_PD_NUM = qreg 0xB0"

text \<open>Per memory region.\<close>

definition mreg :: "u32 \<Rightarrow> u32 \<Rightarrow> u32" where
  "mreg ofs mrn = ofs + mrn * 0x100"

definition XRNIC_MR_PDNUM :: "u32 \<Rightarrow> u32" where "XRNIC_MR_PDNUM = mreg 0x00"
definition XRNIC_MR_VA_LO :: "u32 \<Rightarrow> u32" where "XRNIC_MR_VA_LO = mreg 0x04"
definition XRNIC_MR_VA_HI :: "u32 \<Rightarrow> u32" where "XRNIC_MR_VA_HI = mreg 0x08"
definition XRNIC_MR_BUF_BASE_LO :: "u32 \<Rightarrow> u32" where "XRNIC_MR_BUF_BASE_LO = mreg 0x0c"
definition XRNIC_MR_BUF_BASE_HI :: "u32 \<Rightarrow> u32" where "XRNIC_MR_BUF_BASE_HI = mreg 0x10"
definition XRNIC_MR_BUF_RKEY :: "u32 \<Rightarrow> u32" where "XRNIC_MR_BUF_RKEY = mreg 0x14"
definition XRNIC_MR_WRRD_BUF_LEN :: "u32 \<Rightarrow> u32" where "XRNIC_MR_WRRD_BUF_LEN = mreg 0x18"
definition XRNIC_MR_ACC_DESC :: "u32 \<Rightarrow> u32" where "XRNIC_MR_ACC_DESC = mreg 0x1c"

lemmas greg_defs = XRNIC_GLOBAL_REG_OFFSET_def greg_def XRNIC_CONF_def XRNIC_CONF_QP_EN_def
  XRNIC_MAC_ADDR_LO_def XRNIC_MAC_ADDR_HI_def XRNIC_IPV6_ADD_1_def XRNIC_IPV6_ADD_2_def
  XRNIC_IPV6_ADD_3_def XRNIC_IPV6_ADD_4_def XRNIC_IPV4_ADDR_def XRNIC_INT_EN_def XRNIC_INT_STAT_def
  XRNIC_RCVQ_INT_STAT_0_31_def XRNIC_COMPQ_INT_STAT_0_31_def XRNIC_CNP_INT_STAT_0_31_def
  XRNIC_INCG_PKT_ERRQ_WPTR_def

lemmas qreg_defs = XRNIC_QP_CONF_def XRNIC_QP_ADV_CONF_def XRNIC_SQ_PROD_IDX_def XRNIC_CQ_HEAD_PTR_def
  XRNIC_RQ_CONS_IDX_def XRNIC_SNDQ_PSN_def XRNIC_LAST_RQ_PSN_def XRNIC_DEST_QP_CONF_def
  XRNIC_TIMEOUT_CONF_def XRNIC_MAC_DEST_ADDR_LO_def XRNIC_MAC_DEST_ADDR_HI_def
  XRNIC_IP_DEST_ADDR_1_def XRNIC_STAT_QP_def XRNIC_QP_PD_NUM_def

lemmas mreg_defs = XRNIC_MR_PDNUM_def XRNIC_MR_VA_LO_def XRNIC_MR_VA_HI_def XRNIC_MR_BUF_BASE_LO_def
  XRNIC_MR_BUF_BASE_HI_def XRNIC_MR_BUF_RKEY_def XRNIC_MR_WRRD_BUF_LEN_def XRNIC_MR_ACC_DESC_def

subsection \<open>Registers of different queue pairs do not collide\<close>

lemma unat_qreg:
  assumes "unat q < 2 ^ 12" "unat ofs < 0x100"
  shows "unat (qreg ofs q) = 0x180000 + unat ofs + unat q * 0x100"
proof -
  have "unat (q * 0x100) = unat q * 0x100" using assms(1) by (simp add: unat_mult_lem [THEN iffD1])
  moreover have "unat (0x180000 + ofs) = 0x180000 + unat ofs"
    using assms(2) by (subst unat_add_no_wrap) auto
  ultimately show ?thesis
    using assms unfolding qreg_def XRNIC_PER_QP_OFFSET_def by (subst unat_add_no_wrap) auto
qed

lemma unat_mreg:
  assumes "unat m < 2 ^ 12" "unat ofs < 0x100"
  shows "unat (mreg ofs m) = unat ofs + unat m * 0x100"
proof -
  have "unat (m * 0x100) = unat m * 0x100" using assms(1) by (simp add: unat_mult_lem [THEN iffD1])
  then show ?thesis using assms unfolding mreg_def by (subst unat_add_no_wrap) auto
qed

lemma qreg_eq_iff:
  assumes "unat q < 2 ^ 12" "unat q' < 2 ^ 12" "unat ofs < 0x100" "unat ofs' < 0x100"
  shows "qreg ofs q = qreg ofs' q' \<longleftrightarrow> ofs = ofs' \<and> q = q'"
proof -
  have inj: "a = b \<and> x = y" if "a + x * 0x100 = b + y * 0x100" "a < 0x100" "b < 0x100" for a b x y :: nat
  proof -
    have "(a + x * 0x100) mod 0x100 = a" "(b + y * 0x100) mod 0x100 = b"
      using that(2,3) by (simp_all only: mod_mult_self1 mod_less)
    then have "a = b" using that(1) by (simp only:)
    then show ?thesis using that(1) by simp
  qed
  then have "unat ofs + unat q * 0x100 = unat ofs' + unat q' * 0x100 \<longleftrightarrow> unat ofs = unat ofs' \<and> unat q = unat q'"
    using inj [of "unat ofs" "unat q" "unat ofs'" "unat q'"] assms(3,4) by auto
  then show ?thesis
    using unat_qreg [OF assms(1,3)] unat_qreg [OF assms(2,4)] by (simp add: word_unat_eq_iff)
qed

text \<open>Two registers of one queue pair, or of one memory region, whatever its number.\<close>

lemma qreg_same [simp]: "qreg ofs q = qreg ofs' q \<longleftrightarrow> ofs = ofs'"
  by (simp add: qreg_def)

lemma mreg_same [simp]: "mreg ofs m = mreg ofs' m \<longleftrightarrow> ofs = ofs'"
  by (simp add: mreg_def)

text \<open>with at most 4096 queue pairs and memory regions, the register of one pair is never the register
  of another pair, of another kind, or of a memory region.\<close>

theorem qp_registers_separate:
  assumes "unat q < 2 ^ 12" "unat q' < 2 ^ 12" "unat ofs < 0x100" "unat ofs' < 0x100" "unat m < 2 ^ 12"
  shows "(qreg ofs q = qreg ofs' q' \<longleftrightarrow> ofs = ofs' \<and> q = q') \<and> qreg ofs q \<noteq> mreg ofs' m"
proof -
  have "unat (qreg ofs q) \<noteq> unat (mreg ofs' m)"
    using unat_qreg [OF assms(1,3)] unat_mreg [OF assms(5,4)] assms(4,5) by simp
  then show ?thesis using qreg_eq_iff [OF assms(1-4)] by auto
qed

theorem qp_registers_separate_witness:
  "qreg 0x34 5 \<noteq> qreg 0x38 5 \<and> qreg 0x34 5 \<noteq> qreg 0x34 6 \<and> qreg 0x34 5 \<noteq> mreg 0x14 3"
  using qp_registers_separate [of 5 5 "0x34" "0x38" 3] qp_registers_separate [of 5 6 "0x34" "0x34" 3]
    qp_registers_separate [of 5 6 "0x34" "0x14" 3] by simp

end
