(* ===== verification/Xib_Types.thy ===== *)
theory Xib_Types
  imports Xib_Prelude
begin

text \<open>
  The data of the RDMA driver, \<open>recipes-modules/xib-module/files/ib_verbs.h\<close> and \<open>xib.h\<close>: queue pairs
  with their send and receive rings, and the ring counters.
\<close>

subsection \<open>Queue pairs\<close>

datatype xib_qp_type = XIB_QP_TYPE_GSI | XIB_QP_TYPE_KERNEL | XIB_QP_TYPE_USER

datatype xib_qp_state =
    XIB_QP_STATE_RESET | XIB_QP_STATE_INIT | XIB_QP_STATE_RTR | XIB_QP_STATE_RTS
  | XIB_QP_STATE_SQD | XIB_QP_STATE_ERR | XIB_QP_STATE_SQE

record ib_sge =
  sge_addr :: u64
  sge_length :: u32
  sge_lkey :: u32

record xib_rqe =
  rqe_wr_id :: u64
  rqe_num_sge :: u32
  rqe_ip_version :: u32
  rqe_sg_list :: "ib_sge list"

record xib_rq =
  rq_ba_v :: u64
  rq_ba_p :: u64
  rq_wrptr_db_local :: u32
  rq_ci_db_local :: u32
  prod :: u32
  cons :: u32
  gsi_cons :: u32
  rq_max_wr :: u32
  rqe_list :: "xib_rqe list"

record xib_pl_buf =
  plb_va :: u64
  plb_pa :: u64
  plb_sgl_addr :: u64
  plb_len :: u64

text \<open>The list of \<open>xib_sqd\<close> cells, requests posted while the send queue is drained, is the list of their
  \<open>wr_id\<close>s.\<close>

record xib_sq =
  sq_cmpl_db_local :: u32
  send_cq_db_local :: u32
  wr_id_array :: "(u64 \<times> bool) list"
  sqd_wr_list :: "u64 list"
  sqd_length :: u64
  pl_buf_list :: "xib_pl_buf list"
  sq_max_wr :: u32

text \<open>The 64-byte work request the hardware reads, \<open>struct xrnic_wr\<close> of \<open>rnic.h\<close>.\<close>

record xrnic_wr =
  wrid :: u32
  l_addr :: u64
  wr_length :: u32
  wr_opcode :: u8
  r_offset :: u64
  r_tag :: u32
  sdata :: "u8 list"
  imm_data :: u32

record xib_imm_inv =
  inv_data :: u32
  inv_type :: u8
  isvalid :: bool

text \<open>The memory behind \<open>sq_ba_v\<close> (work requests), \<open>send_sgl_v\<close> and \<open>rq_ba_v\<close> (received packets,
  \<open>rq_buf_size\<close> bytes each) is part of the queue pair.\<close>

record xib_qp =
  sq_ba_p :: u64
  sq_wqes :: "xrnic_wr list"
  send_sgl_busy :: bool
  is_ipv6 :: bool
  send_sgl_p :: u64
  send_sgl :: "u8 list"
  qp_state :: xib_qp_state
  rq :: xib_rq
  rq_mem :: "u8 list"
  sq :: xib_sq
  hw_qpn :: u32
  qp_type :: xib_qp_type
  send_psn :: u32
  io_qp :: bool
  sq_drained :: bool
  sq_polled_count :: u32
  post_send_count :: u32
  rq_buf_size :: u32
  imm_inv_data :: "xib_imm_inv list"

subsection \<open>The ring counters\<close>

definition xib_rq_prod_inc :: "xib_rq \<Rightarrow> xib_rq" where
  "xib_rq_prod_inc r = r\<lparr>prod := (prod r + 1) mod rq_max_wr r\<rparr>"

definition xib_rq_cons_inc :: "xib_rq \<Rightarrow> xib_rq" where
  "xib_rq_cons_inc r = r\<lparr>cons := (cons r + 1) mod rq_max_wr r\<rparr>"

definition xib_inc_sw_gsi_cons :: "xib_rq \<Rightarrow> xib_rq" where
  "xib_inc_sw_gsi_cons r = r\<lparr>gsi_cons := (gsi_cons r + 1) mod rq_max_wr r\<rparr>"

text \<open>How many packets arrived since the driver's copy of the write pointer, as the C \<open>int\<close>.\<close>

definition xib_get_rq_recd :: "xib_rq \<Rightarrow> u32 \<Rightarrow> int" where
  "xib_get_rq_recd r rq_wr_current =
     (if rq_wr_current = rq_wrptr_db_local r then 0
      else if rq_wr_current < rq_wrptr_db_local r
      then sint ((rq_wr_current + rq_max_wr r) - rq_wrptr_db_local r)
      else sint (rq_wr_current - rq_wrptr_db_local r))"

lemma ring_inc:
  assumes "i < n"
  shows "unat ((i + 1) mod n) = Suc (unat i) mod unat n" "(i + 1) mod n < n"
proof -
  show "unat ((i + 1) mod n) = Suc (unat i) mod unat n" using assms by (simp add: unat_mod unat_inc_less)
  show "(i + 1) mod n < n" using assms by (simp add: word_less_nat_alt unat_mod)
qed

lemma sint_small: "unat (x::u32) < 2 ^ 31 \<Longrightarrow> sint x = int (unat x)"
proof -
  assume x: "unat x < 2 ^ 31"
  have u: "uint x = int (unat x)" by (rule uint_nat)
  have "uint x < 2 ^ 31" unfolding u using x by (metis of_nat_less_iff of_nat_numeral of_nat_power)
  moreover have "0 \<le> uint x" by simp
  ultimately have "signed_take_bit 31 (uint x) = uint x"
    unfolding signed_take_bit_int_eq_self_iff by linarith
  then show ?thesis unfolding sint_uint u [symmetric] by simp
qed

subsection \<open>Bytes in memory\<close>

type_synonym memory = "u64 \<Rightarrow> u8"

text \<open>\<open>memcpy\<close> to a physical address, and a read from a buffer (None past its end).\<close>

fun write_bytes :: "memory \<Rightarrow> u64 \<Rightarrow> u8 list \<Rightarrow> memory" where
  "write_bytes m a [] = m"
| "write_bytes m a (b # bs) = write_bytes (m(a := b)) (a + 1) bs"

definition read_bytes :: "u8 list \<Rightarrow> nat \<Rightarrow> nat \<Rightarrow> u8 list option" where
  "read_bytes buf ofs n = (if ofs + n \<le> length buf then Some (take n (drop ofs buf)) else None)"

lemma write_bytes_outside:
  "(\<And>k. k < length bs \<Longrightarrow> x \<noteq> a + of_nat k) \<Longrightarrow> write_bytes m a bs x = m x"
proof (induction bs arbitrary: m a)
  case (Cons b bs)
  have "x \<noteq> a + 1 + of_nat k" if "k < length bs" for k
    using Cons.prems [of "Suc k"] that by (simp add: algebra_simps)
  moreover have "x \<noteq> a" using Cons.prems [of 0] by simp
  ultimately show ?case using Cons.IH by simp
qed simp

lemma write_bytes_inside:
  "length bs \<le> 2 ^ 64 \<Longrightarrow> k < length bs \<Longrightarrow> write_bytes m a bs (a + of_nat k) = bs ! k"
proof (induction bs arbitrary: m a k)
  case (Cons b bs)
  show ?case
  proof (cases k)
    case 0
    have "a \<noteq> a + 1 + of_nat j" if "j < length bs" for j
    proof
      assume "a = a + 1 + of_nat j"
      then have "of_nat (Suc j) = (0 :: u64)" by (simp add: algebra_simps)
      then have "2 ^ 64 dvd Suc j" by (simp only: word_of_nat_eq_0_iff) simp
      then show False using that Cons.prems(1) by (auto dest: dvd_imp_le)
    qed
    then show ?thesis using 0 write_bytes_outside [of bs a "a + 1"] by simp
  next
    case (Suc j)
    then show ?thesis using Cons.IH [of j _ "a + 1"] Cons.prems by (simp add: add.assoc)
  qed
qed simp

end
