(* ===== verification/Range_Alloc.thy ===== *)
theory Range_Alloc
  imports Xib_Prelude
begin

text \<open>
  The contract of an allocator of address ranges, as a locale: a state has a set of free addresses,
  an allocation takes a range out of it, a release puts a range back.  What a client may rely on is
  proved once here: whatever sequence of allocations and releases it makes, the ranges it holds
  never overlap.  The driver's memory managers interpret it.
\<close>

subsection \<open>Clients\<close>

text \<open>A client asks for memory with a request, or gives back (the first \<open>m\<close> addresses of) one of the
  ranges it holds.\<close>

datatype 'r mem_op = Alloc 'r | Release nat nat

text \<open>A run of a client: the allocator's state and the list of ranges the client holds.  A call that
  fails changes nothing.\<close>

fun run_ops ::
  "('r \<Rightarrow> 's \<Rightarrow> (nat \<times> nat \<times> 's) option) \<Rightarrow> ('s \<Rightarrow> nat \<Rightarrow> nat \<Rightarrow> 's option) \<Rightarrow> 'r mem_op list \<Rightarrow>
     's \<times> (nat \<times> nat) list \<Rightarrow> 's \<times> (nat \<times> nat) list" where
  "run_ops alloc release [] st = st"
| "run_ops alloc release (Alloc r # ops) (s, held) =
     (case alloc r s of
        None \<Rightarrow> run_ops alloc release ops (s, held)
      | Some (a, n, s') \<Rightarrow> run_ops alloc release ops (s', (a, n) # held))"
| "run_ops alloc release (Release i m # ops) (s, held) =
     (if i < length held then
        (case release s (fst (held ! i)) (min m (snd (held ! i))) of
           None \<Rightarrow> run_ops alloc release ops (s, held)
         | Some s' \<Rightarrow> run_ops alloc release ops (s', take i held @ drop (Suc i) held))
      else run_ops alloc release ops (s, held))"

definition addrs :: "nat \<times> nat \<Rightarrow> nat set" where
  "addrs r = {fst r..<fst r + snd r}"

text \<open>No two ranges of the list share an address.\<close>

fun disjoint_ranges :: "(nat \<times> nat) list \<Rightarrow> bool" where
  "disjoint_ranges [] = True"
| "disjoint_ranges (r # rs) = ((\<forall>q \<in> set rs. addrs r \<inter> addrs q = {}) \<and> disjoint_ranges rs)"

lemma disjoint_ranges_append:
  "disjoint_ranges (xs @ ys) \<longleftrightarrow>
     disjoint_ranges xs \<and> disjoint_ranges ys \<and> (\<forall>x \<in> set xs. \<forall>y \<in> set ys. addrs x \<inter> addrs y = {})"
  by (induction xs) auto

lemma disjoint_ranges_drop_one:
  assumes "disjoint_ranges held" "i < length held"
  shows "disjoint_ranges (take i held @ drop (Suc i) held) \<and>
    (\<forall>r \<in> set (take i held @ drop (Suc i) held). addrs (held ! i) \<inter> addrs r = {})"
proof -
  have "disjoint_ranges (take i held @ held ! i # drop (Suc i) held)"
    using assms id_take_nth_drop [of i held] by simp
  then show ?thesis by (auto simp: disjoint_ranges_append)
qed

subsection \<open>The contract\<close>

locale range_allocator =
  fixes inv :: "'s \<Rightarrow> bool"
    and free_set :: "'s \<Rightarrow> nat set"
    and alloc :: "'r \<Rightarrow> 's \<Rightarrow> (nat \<times> nat \<times> 's) option"
    and release :: "'s \<Rightarrow> nat \<Rightarrow> nat \<Rightarrow> 's option"
  assumes alloc_inv: "inv s \<Longrightarrow> alloc r s = Some (a, n, s') \<Longrightarrow> inv s'"
    and alloc_takes: "inv s \<Longrightarrow> alloc r s = Some (a, n, s') \<Longrightarrow>
      {a..<a + n} \<subseteq> free_set s \<and> free_set s' = free_set s - {a..<a + n}"
    and release_inv: "inv s \<Longrightarrow> {a..<a + n} \<inter> free_set s = {} \<Longrightarrow> release s a n = Some s' \<Longrightarrow> inv s'"
    and release_gives: "inv s \<Longrightarrow> {a..<a + n} \<inter> free_set s = {} \<Longrightarrow> release s a n = Some s' \<Longrightarrow>
      free_set s' = free_set s \<union> {a..<a + n}"
begin

definition separate :: "'s \<times> (nat \<times> nat) list \<Rightarrow> bool" where
  "separate st \<longleftrightarrow> inv (fst st) \<and> disjoint_ranges (snd st) \<and>
     (\<forall>r \<in> set (snd st). addrs r \<inter> free_set (fst st) = {})"

lemma separate_alloc:
  assumes "separate (s, held)" "alloc r s = Some (a, n, s')"
  shows "separate (s', (a, n) # held)"
proof -
  have inv: "inv s" and held: "disjoint_ranges held" "\<And>q. q \<in> set held \<Longrightarrow> addrs q \<inter> free_set s = {}"
    using assms(1) by (auto simp: separate_def)
  have new: "inv s'" "addrs (a, n) \<subseteq> free_set s" "free_set s' = free_set s - addrs (a, n)"
    using alloc_inv [OF inv assms(2)] alloc_takes [OF inv assms(2)] by (auto simp: addrs_def)
  have "addrs (a, n) \<inter> addrs q = {} \<and> addrs q \<inter> free_set s' = {}" if "q \<in> set held" for q
    using held(2) [OF that] new(2,3) by blast
  moreover have "addrs (a, n) \<inter> free_set s' = {}" using new(3) by blast
  ultimately show ?thesis using new(1) held(1) by (simp add: separate_def)
qed

lemma separate_release:
  assumes sep: "separate (s, held)" and i: "i < length held"
    and rel: "release s (fst (held ! i)) (min m (snd (held ! i))) = Some s'"
  shows "separate (s', take i held @ drop (Suc i) held)"
proof -
  let ?part = "{fst (held ! i)..<fst (held ! i) + min m (snd (held ! i))}"
  let ?rest = "take i held @ drop (Suc i) held"
  have d: "disjoint_ranges ?rest" "\<And>r. r \<in> set ?rest \<Longrightarrow> addrs (held ! i) \<inter> addrs r = {}"
    using disjoint_ranges_drop_one [OF _ i] sep by (auto simp: separate_def)
  have sub: "?part \<subseteq> addrs (held ! i)" by (auto simp: addrs_def)
  moreover have "addrs (held ! i) \<inter> free_set s = {}"
    using sep nth_mem [OF i] by (simp add: separate_def)
  ultimately have "?part \<inter> free_set s = {}" by blast
  then have s': "inv s'" "free_set s' = free_set s \<union> ?part"
    using release_inv [OF _ _ rel] release_gives [OF _ _ rel] sep by (simp_all add: separate_def)
  have "addrs r \<inter> free_set s' = {}" if "r \<in> set ?rest" for r
  proof -
    have "r \<in> set held" using that by (auto dest: in_set_takeD in_set_dropD)
    then show ?thesis using d(2) [OF that] sub sep s'(2) by (auto simp: separate_def)
  qed
  then show ?thesis using d(1) s'(1) by (simp add: separate_def)
qed

lemma run_ops_separate: "separate st \<Longrightarrow> separate (run_ops alloc release ops st)"
proof (induction ops arbitrary: st)
  case (Cons op ops)
  obtain s held where st: "st = (s, held)" by force
  show ?case
  proof (cases op)
    case (Alloc r)
    then show ?thesis using Cons st by (auto split: option.split simp: separate_alloc)
  next
    case (Release i m)
    then show ?thesis using Cons st by (auto split: option.split simp: separate_release)
  qed
qed simp

lemma run_ops_disjoint:
  assumes "inv s"
  shows "disjoint_ranges (snd (run_ops alloc release ops (s, [])))"
  using run_ops_separate [of "(s, [])" ops] assms by (simp add: separate_def)

end

end
