(* ===== verification/Xib_Bmap.thy ===== *)
theory Xib_Bmap
  imports Range_Alloc
begin

text \<open>
  Identifiers of protection domains, queue pairs and memory regions: the bitmaps of
  \<open>recipes-modules/xib-module/files/verbs.c\<close>.  A bitmap is the list of the bits of its words; the
  contract of \<open>Range_Alloc\<close> is interpreted with identifiers as ranges of length one.
\<close>

record xib_bmap =
  bitmap :: "bool list"
  max_count :: u32

text \<open>\<open>BITS_TO_LONGS\<close> words of 64 bits, zeroed by \<open>kcalloc\<close>, which may fail.\<close>

definition xib_bmap_alloc :: "bool \<Rightarrow> u32 \<Rightarrow> xib_bmap option" where
  "xib_bmap_alloc kcalloc_ok n =
     (if kcalloc_ok then Some \<lparr>bitmap = replicate (64 * ((unat n + 63) div 64)) False, max_count = n\<rparr> else None)"

definition find_first_zero_bit :: "bool list \<Rightarrow> nat \<Rightarrow> nat" where
  "find_first_zero_bit bs n = (case List.find (\<lambda>i. \<not> bs ! i) [0..<n] of Some i \<Rightarrow> i | None \<Rightarrow> n)"

text \<open>The return value, the number stored to \<open>*id_num\<close>, and the bitmap.\<close>

definition xib_bmap_alloc_id :: "xib_bmap \<Rightarrow> int \<times> u32 \<times> xib_bmap" where
  "xib_bmap_alloc_id b =
     (let i = find_first_zero_bit (bitmap b) (unat (max_count b)); num = of_nat i :: u32
      in if max_count b \<le> num then (- EINVAL, num, b)
         else (0, num, b\<lparr>bitmap := (bitmap b)[i := True]\<rparr>))"

text \<open>\<open>test_and_clear_bit\<close> does not look at \<open>max_count\<close>: \<open>None\<close> is a write outside the words.\<close>

definition xib_bmap_release_id :: "xib_bmap \<Rightarrow> u32 \<Rightarrow> xib_bmap option" where
  "xib_bmap_release_id b num =
     (if unat num < length (bitmap b) then Some (b\<lparr>bitmap := (bitmap b)[unat num := False]\<rparr>) else None)"

subsection \<open>Identifiers\<close>

definition bmap_ok :: "xib_bmap \<Rightarrow> bool" where
  "bmap_ok b \<longleftrightarrow> unat (max_count b) \<le> length (bitmap b)"

definition bmap_free :: "xib_bmap \<Rightarrow> nat set" where
  "bmap_free b = {i. i < unat (max_count b) \<and> \<not> bitmap b ! i}"

lemma find_first_zero_bit_bound: "find_first_zero_bit bs n \<le> n"
  by (auto simp: find_first_zero_bit_def find_Some_iff split: option.split)

lemma find_first_zero_bit_less:
  assumes "find_first_zero_bit bs n < n"
  shows "\<not> bs ! find_first_zero_bit bs n" "j < find_first_zero_bit bs n \<Longrightarrow> bs ! j"
  using assms by (cases "List.find (\<lambda>i. \<not> bs ! i) [0..<n]"; auto simp: find_first_zero_bit_def find_Some_iff)+

lemma find_first_zero_bit_full: "find_first_zero_bit bs n = n \<Longrightarrow> i < n \<Longrightarrow> bs ! i"
  by (cases "List.find (\<lambda>i. \<not> bs ! i) [0..<n]")
    (auto simp: find_first_zero_bit_def find_Some_iff find_None_iff)

lemma bmap_alloc_ok: "xib_bmap_alloc ok n = Some b \<Longrightarrow> bmap_ok b \<and> bmap_free b = {..<unat n}"
proof -
  assume "xib_bmap_alloc ok n = Some b"
  then have b: "b = \<lparr>bitmap = replicate (64 * ((unat n + 63) div 64)) False, max_count = n\<rparr>"
    by (auto simp: xib_bmap_alloc_def split: if_splits)
  have "unat n \<le> 64 * ((unat n + 63) div 64)" by linarith
  then show ?thesis unfolding b by (auto simp: bmap_ok_def bmap_free_def)
qed

lemma alloc_id_cases:
  assumes "bmap_ok b" "xib_bmap_alloc_id b = (ret, num, b')"
  obtains (full) "ret = - EINVAL" "num = max_count b" "b' = b" "bmap_free b = {}"
  | (found) "ret = 0" "unat num \<in> bmap_free b" "\<forall>j \<in> bmap_free b. unat num \<le> j"
      "b' = b\<lparr>bitmap := (bitmap b)[unat num := True]\<rparr>"
proof -
  let ?n = "unat (max_count b)" and ?i = "find_first_zero_bit (bitmap b) (unat (max_count b))"
  have le: "?i \<le> ?n" by (rule find_first_zero_bit_bound)
  then have u: "unat (of_nat ?i :: u32) = ?i"
    using u32_less_power [of "max_count b"] by (simp add: unsigned_of_nat take_bit_nat_eq_self_iff)
  show ?thesis
  proof (cases "?i < ?n")
    case True
    then have "\<not> max_count b \<le> of_nat ?i" by (simp only: word_le_nat_alt u)
    then have r: "ret = 0" "num = of_nat ?i" "b' = b\<lparr>bitmap := (bitmap b)[?i := True]\<rparr>"
      using assms(2) by (simp_all add: xib_bmap_alloc_id_def Let_def)
    have "\<forall>j \<in> bmap_free b. ?i \<le> j"
      using find_first_zero_bit_less(2) [OF True] by (auto simp: bmap_free_def not_less [symmetric])
    then show ?thesis
      using found r u True find_first_zero_bit_less(1) [OF True] by (auto simp: bmap_free_def)
  next
    case False
    then have eq: "?i = ?n" using le by simp
    then have "bmap_free b = {}" using find_first_zero_bit_full [of "bitmap b" ?n] by (auto simp: bmap_free_def)
    moreover have "(ret, num, b') = (- EINVAL, max_count b, b)"
      using assms(2) unfolding xib_bmap_alloc_id_def eq Let_def by auto
    ultimately show ?thesis using full by simp
  qed
qed

text \<open>The two operations as those of a range allocator.\<close>

definition id_alloc :: "unit \<Rightarrow> xib_bmap \<Rightarrow> (nat \<times> nat \<times> xib_bmap) option" where
  "id_alloc u b = (case xib_bmap_alloc_id b of (ret, num, b') \<Rightarrow> if ret = 0 then Some (unat num, 1, b') else None)"

definition id_release :: "xib_bmap \<Rightarrow> nat \<Rightarrow> nat \<Rightarrow> xib_bmap option" where
  "id_release b i n =
     (if n = 1 \<and> i < unat (max_count b) then xib_bmap_release_id b (of_nat i) else None)"

interpretation ids: range_allocator bmap_ok bmap_free id_alloc id_release
proof
  fix s r a n s'
  assume ok: "bmap_ok s" and al: "id_alloc r s = Some (a, n, s')"
  obtain ret num b' where x: "xib_bmap_alloc_id s = (ret, num, b')" by (metis prod_cases3)
  then have eq: "ret = 0" "a = unat num" "n = 1" "s' = b'" using al by (auto simp: id_alloc_def split: if_splits)
  have f: "unat num \<in> bmap_free s" "b' = s\<lparr>bitmap := (bitmap s)[unat num := True]\<rparr>"
    using alloc_id_cases [OF ok x] eq(1) by auto
  then show "bmap_ok s'" using ok eq by (simp add: bmap_ok_def)
  show "{a..<a + n} \<subseteq> bmap_free s \<and> bmap_free s' = bmap_free s - {a..<a + n}"
    using f ok eq by (auto simp: bmap_free_def bmap_ok_def nth_list_update split: if_splits)
next
  fix s a n s'
  assume ok: "bmap_ok s" and rel: "id_release s a n = Some s'"
  have u: "unat (of_nat a :: u32) = a" if "a < unat (max_count s)"
    using that u32_less_power [of "max_count s"] by (simp add: unsigned_of_nat take_bit_nat_eq_self_iff)
  have f: "n = 1" "a < unat (max_count s)" "s' = s\<lparr>bitmap := (bitmap s)[a := False]\<rparr>"
    using rel u by (auto simp: id_release_def xib_bmap_release_id_def split: if_splits)
  then show "bmap_ok s'" "bmap_free s' = bmap_free s \<union> {a..<a + n}"
    using ok by (auto simp: bmap_free_def bmap_ok_def nth_list_update split: if_splits)
qed

lemma disjoint_units_distinct:
  "\<forall>r \<in> set rs. snd r = 1 \<Longrightarrow> disjoint_ranges rs \<Longrightarrow> distinct (map fst rs)"
proof (induction rs)
  case (Cons r rs)
  have "fst r \<noteq> fst q" if "q \<in> set rs" for q
    using Cons.prems that by (auto simp: addrs_def)
  then show ?case using Cons by auto
qed simp

lemma run_ops_units:
  "\<forall>r \<in> set (snd st). snd r = 1 \<Longrightarrow> \<forall>r \<in> set (snd (run_ops id_alloc id_release ops st)). snd r = 1"
proof (induction ops arbitrary: st)
  case (Cons op ops)
  obtain s held where st: "st = (s, held)" by force
  have held: "\<forall>r \<in> set held. snd r = 1" using Cons.prems st by simp
  show ?case
  proof (cases op)
    case (Alloc r)
    have one: "n = 1" if "id_alloc r s = Some (a, n, s')" for a n s'
      using that by (auto simp: id_alloc_def split: prod.splits if_splits)
    show ?thesis
    proof (cases "id_alloc r s")
      case None
      then show ?thesis using Alloc st Cons.IH [of "(s, held)"] held by simp
    next
      case (Some x)
      obtain a n s' where x: "x = (a, n, s')" by (rule prod_cases3)
      then have "n = 1" using one Some by blast
      then show ?thesis using Alloc st Cons.IH [of "(s', (a, n) # held)"] held Some x by simp
    qed
  next
    case (Release i m)
    let ?rest = "take i held @ drop (Suc i) held"
    have "\<forall>r \<in> set ?rest. snd r = 1" using held by (auto dest: in_set_takeD in_set_dropD)
    then have rest: "\<forall>r \<in> set (snd (run_ops id_alloc id_release ops (s', ?rest))). snd r = 1" for s'
      using Cons.IH [of "(s', ?rest)"] by simp
    have "\<forall>r \<in> set (snd (run_ops id_alloc id_release ops (s, held))). snd r = 1"
      using Cons.IH [of "(s, held)"] held by simp
    then show ?thesis
      using rest Release st by (cases "id_release s (fst (held ! i)) (min m (snd (held ! i)))") simp_all
  qed
qed simp

text \<open>C19: whatever sequence of allocations and releases is made on a bitmap, the identifiers held at any
  time are pairwise different.\<close>

theorem xib_bmap_ids_unique:
  assumes "xib_bmap_alloc ok n = Some b"
  shows "distinct (map fst (snd (run_ops id_alloc id_release ops (b, []))))"
  using disjoint_units_distinct run_ops_units [of "(b, [])" ops] ids.run_ops_disjoint [of b ops]
    bmap_alloc_ok [OF assms] by simp

theorem xib_bmap_ids_unique_witness:
  "\<exists>b. xib_bmap_alloc True 2 = Some b \<and>
     distinct (map fst (snd (run_ops id_alloc id_release [Alloc (), Alloc (), Alloc (), Release 1 1, Alloc ()] (b, []))))"
  using xib_bmap_ids_unique [of True 2 "\<lparr>bitmap = replicate 64 False, max_count = 2\<rparr>"
      "[Alloc (), Alloc (), Alloc (), Release 1 1, Alloc ()]"]
  by (simp add: xib_bmap_alloc_def del: run_ops.simps)

text \<open>allocation returns the smallest free identifier, below \<open>max_count\<close>, and fails only when none is free.\<close>

theorem xib_bmap_alloc_id_smallest:
  assumes "bmap_ok b"
  shows "(bmap_free b = {} \<and> fst (xib_bmap_alloc_id b) = - EINVAL) \<or>
    (\<exists>num b'. xib_bmap_alloc_id b = (0, num, b') \<and> num < max_count b \<and> unat num = Min (bmap_free b) \<and>
       bmap_free b' = bmap_free b - {unat num})"
proof (cases "xib_bmap_alloc_id b" rule: prod_cases3)
  case (fields ret num b')
  show ?thesis
  proof (cases rule: alloc_id_cases [OF assms fields])
    case 1
    then show ?thesis using fields by simp
  next
    case 2
    have fin: "finite (bmap_free b)" by (simp add: bmap_free_def)
    have "unat num = Min (bmap_free b)" using 2(2,3) by (simp add: Min_eqI [OF fin, symmetric])
    moreover have "id_alloc () b = Some (unat num, 1, b')" using fields 2(1) by (simp add: id_alloc_def)
    then have "bmap_free b' = bmap_free b - {unat num}" using ids.alloc_takes [OF assms] by force
    ultimately show ?thesis using fields 2(1,2) by (simp add: bmap_free_def word_less_nat_alt)
  qed
qed

end
