(* ===== verification/Xib_Kmm.thy ===== *)
theory Xib_Kmm
  imports Xib_Prelude
begin

text \<open>
  The kernel memory manager, \<open>recipes-modules/xib-kmm/files/xib_kmm.c\<close> with its headers, in the
  configuration of the board (no \<open>CONFIG_MICROBLAZE\<close>, 4 KiB pages).  It owns one region per memory
  type (\<open>struct xib_kmem_info\<close>) and carves chunks out of it for the user-space manager (ioctl) and
  for the RDMA driver (exported functions).  Kernel lists are HOL lists in list order; the spin
  lock \<open>mm_list_lock\<close> is a flag, and taking it while it is held is \<open>None\<close> (the caller spins for
  ever).  What the kernel returns (\<open>kmalloc\<close>, \<open>copy_to_user\<close>, the device tree, ...) is an argument.
\<close>

subsection \<open>Data\<close>

definition XMEM_PL_DDR :: u32 where "XMEM_PL_DDR = 1"
definition XMEM_PS_DDR :: u32 where "XMEM_PS_DDR = 2"
definition XMEM_EXT_DDR :: u32 where "XMEM_EXT_DDR = 3"
definition XMEM_PCI_DDR :: u32 where "XMEM_PCI_DDR = 4"
definition XMEM_BRAM :: u32 where "XMEM_BRAM = 5"
definition XMEM_MAX_MEM_TYPES :: u32 where "XMEM_MAX_MEM_TYPES = 6"

lemmas mem_type_defs = XMEM_PL_DDR_def XMEM_PS_DDR_def XMEM_EXT_DDR_def XMEM_PCI_DDR_def
  XMEM_BRAM_def XMEM_MAX_MEM_TYPES_def

definition PAGE_SHIFT :: nat where "PAGE_SHIFT = 12"
definition PAGE_SIZE :: u64 where "PAGE_SIZE = 4096"

record xib_kmem_chunk =
  start_addr :: u64
  chunk_size :: u64
  chunk_id :: u32

text \<open>The page array \<open>pages\<close> holds one entry per mapped page: here the page's virtual address.\<close>

record xib_kmem_info =
  mem_type :: u32
  base_addr :: u64
  pages :: "u64 list"
  base_va :: u64
  mem_size :: u64
  available_size :: u64
  max_chunk :: u32
  chunk_list :: "xib_kmem_chunk list"

text \<open>The module's globals.  \<open>mmr_set\<close> is \<open>mmr \<noteq> NULL\<close>.\<close>

record kmm =
  mmr_head :: "xib_kmem_info list"
  mmr_set :: bool
  file_open_cnt :: u32
  mm_list_lock :: bool
  supported_mem_types :: u32
  processor_access :: u32

record xib_umem_ioctl_info =
  req_type :: u32
  req_size :: u64
  req_chunk_ofs :: u64
  req_chunk_id :: u32

text \<open>The spin lock: taking it while it is held never returns.\<close>

definition spin_lock :: "kmm \<Rightarrow> kmm option" where
  "spin_lock s = (if mm_list_lock s then None else Some (s\<lparr>mm_list_lock := True\<rparr>))"

definition spin_unlock :: "kmm \<Rightarrow> kmm" where
  "spin_unlock s = s\<lparr>mm_list_lock := False\<rparr>"

subsection \<open>Allocation of a chunk\<close>

text \<open>The search loops over \<open>mmr_head\<close>: the first region of the type, and its replacement.\<close>

fun find_node :: "xib_kmem_info list \<Rightarrow> u32 \<Rightarrow> xib_kmem_info option" where
  "find_node [] t = None"
| "find_node (n # ns) t = (if mem_type n = t then Some n else find_node ns t)"

fun update_node :: "xib_kmem_info list \<Rightarrow> xib_kmem_info \<Rightarrow> xib_kmem_info list" where
  "update_node [] n' = []"
| "update_node (n # ns) n' = (if mem_type n = mem_type n' then n' # ns else n # update_node ns n')"

definition chunk_end :: "xib_kmem_chunk \<Rightarrow> u64" where
  "chunk_end c = start_addr c + chunk_size c"

text \<open>The loop over \<open>chunk_list\<close> in \<open>alloc_mem\<close>.  \<open>prev\<close> is \<open>prev_chunk\<close>, \<open>i\<close> the position of the
  current chunk; \<open>Inl (addr, i)\<close> is the \<open>found\<close> exit (start address of the new chunk and the
  position where \<open>list_add\<close> puts it), \<open>Inr prev\<close> the end of the loop.\<close>

fun find_gap :: "u64 \<Rightarrow> u64 \<Rightarrow> xib_kmem_chunk option \<Rightarrow> nat \<Rightarrow> xib_kmem_chunk list \<Rightarrow>
    (u64 \<times> nat) + xib_kmem_chunk option" where
  "find_gap base sz prev i [] = Inr prev"
| "find_gap base sz prev i (c # cs) =
     (case prev of
        Some p \<Rightarrow>
          if start_addr c - chunk_end p \<ge> sz then Inl (chunk_end p, i)
          else find_gap base sz (Some c) (Suc i) cs
      | None \<Rightarrow>
          if start_addr c - base \<ge> sz then Inl (start_addr c, i)
          else find_gap base sz (Some c) (Suc i) cs)"

text \<open>The choice of the new chunk's address and place: the empty list, a gap, or behind the last
  chunk; \<open>None\<close> when it does not fit.\<close>

definition place_chunk :: "xib_kmem_info \<Rightarrow> u64 \<Rightarrow> (u64 \<times> nat) option" where
  "place_chunk node sz =
     (if chunk_list node = [] then Some (base_addr node, 0)
      else case find_gap (base_addr node) sz None 0 (chunk_list node) of
             Inl found \<Rightarrow> Some found
           | Inr None \<Rightarrow> None
           | Inr (Some p) \<Rightarrow>
               if (base_addr node + mem_size node) - chunk_end p \<ge> sz
               then Some (chunk_end p, length (chunk_list node)) else None)"

definition insert_at :: "nat \<Rightarrow> 'a \<Rightarrow> 'a list \<Rightarrow> 'a list" where
  "insert_at i x xs = take i xs @ x # drop i xs"

text \<open>\<open>kmalloc_ok\<close> is whether \<open>kmalloc\<close> returned memory for the chunk record.\<close>

definition alloc_mem ::
  "bool \<Rightarrow> kmm \<Rightarrow> xib_umem_ioctl_info \<Rightarrow> (int \<times> xib_umem_ioctl_info \<times> kmm) option" where
  "alloc_mem kmalloc_ok s0 req = do {
     s \<leftarrow> spin_lock s0;
     case find_node (mmr_head s) (req_type req) of
       None \<Rightarrow> Some (- ENOMEM, req, spin_unlock s)
     | Some node \<Rightarrow>
         if req_size req > available_size node then Some (- ENOMEM, req, spin_unlock s)
         else if \<not> kmalloc_ok then Some (- ENOMEM, req, spin_unlock s)
         else (case place_chunk node (req_size req) of
             None \<Rightarrow> Some (- ENOMEM, req, spin_unlock s)
           | Some (addr, i) \<Rightarrow>
               let cid = (max_chunk node AND 0x00FFFFFF) OR push_bit 24 (req_type req);
                   chunk = \<lparr>start_addr = addr, chunk_size = req_size req, chunk_id = cid\<rparr>;
                   node' = node\<lparr>chunk_list := insert_at i chunk (chunk_list node),
                                max_chunk := max_chunk node + 1,
                                available_size := available_size node - req_size req\<rparr>
               in Some (0, req\<lparr>req_chunk_ofs := addr, req_chunk_id := cid\<rparr>,
                        spin_unlock (s\<lparr>mmr_head := update_node (mmr_head s) node'\<rparr>)))}"

fun remove_chunk :: "xib_kmem_chunk list \<Rightarrow> u32 \<Rightarrow> (xib_kmem_chunk \<times> xib_kmem_chunk list) option" where
  "remove_chunk [] cid = None"
| "remove_chunk (c # cs) cid =
     (if chunk_id c = cid then Some (c, cs)
      else map_option (\<lambda>(d, ds). (d, c # ds)) (remove_chunk cs cid))"

definition free_mem :: "kmm \<Rightarrow> xib_umem_ioctl_info \<Rightarrow> (int \<times> xib_umem_ioctl_info \<times> kmm) option" where
  "free_mem s0 req = do {
     s \<leftarrow> spin_lock s0;
     case find_node (mmr_head s) (req_type req) of
       None \<Rightarrow> Some (- ENOMEM, req, spin_unlock s)
     | Some node \<Rightarrow>
         (case remove_chunk (chunk_list node) (req_chunk_id req) of
            None \<Rightarrow> Some (- EFAULT, req, spin_unlock s)
          | Some (c, cs) \<Rightarrow>
              let node' = node\<lparr>chunk_list := cs, available_size := available_size node + chunk_size c\<rparr>
              in Some (0, req\<lparr>req_chunk_ofs := start_addr c\<rparr>,
                       spin_unlock (s\<lparr>mmr_head := update_node (mmr_head s) node'\<rparr>)))}"

subsection \<open>The exported functions\<close>

definition xib_kmm_free_mem :: "kmm \<Rightarrow> u32 \<Rightarrow> u32 \<Rightarrow> (int \<times> kmm) option" where
  "xib_kmm_free_mem s memtype cid = do {
     (ret, req, s') \<leftarrow> free_mem s
       \<lparr>req_type = memtype, req_size = 0, req_chunk_ofs = 0, req_chunk_id = cid\<rparr>;
     Some (if ret \<noteq> 0 then - EINVAL else 0, s')}"

definition is_xib_memory_available :: "kmm \<Rightarrow> u32 \<Rightarrow> bool" where
  "is_xib_memory_available s t =
     (if t \<ge> XMEM_MAX_MEM_TYPES then False
      else supported_mem_types s AND push_bit (unat t) 1 \<noteq> 0)"

definition get_xib_mem_accessible_status :: "kmm \<Rightarrow> u32 \<Rightarrow> bool" where
  "get_xib_mem_accessible_status s t =
     (if \<not> is_xib_memory_available s t then False
      else processor_access s AND push_bit (unat t) 1 \<noteq> 0)"

definition page_round :: "u64 \<Rightarrow> u64" where
  "page_round sz =
     (if sz AND (PAGE_SIZE - 1) \<noteq> 0 then (sz AND NOT (PAGE_SIZE - 1)) + PAGE_SIZE else sz)"

text \<open>The result is the chunk's address, 0 on failure, and \<open>-EINVAL\<close> as a \<open>uint64_t\<close> when the id
  pointer is \<open>NULL\<close>; the second component is what is stored to \<open>*id\<close>.\<close>

definition xib_kmm_alloc_mem ::
  "bool \<Rightarrow> kmm \<Rightarrow> u32 \<Rightarrow> u64 \<Rightarrow> bool \<Rightarrow> (u64 \<times> u32 option \<times> kmm) option" where
  "xib_kmm_alloc_mem kmalloc_ok s memtype sz id_set =
     (if \<not> id_set then Some (word_of_int (- EINVAL), None, s)
      else do {
        (ret, req, s') \<leftarrow> alloc_mem kmalloc_ok s
          \<lparr>req_type = memtype, req_size = page_round sz, req_chunk_ofs = 0, req_chunk_id = 0\<rparr>;
        Some (if ret \<noteq> 0 then (0, None, s')
              else (req_chunk_ofs req, Some (req_chunk_id req), s'))})"

subsection \<open>File operations\<close>

definition IOC_NR :: "u32 \<Rightarrow> u32" where "IOC_NR cmd = cmd AND 0xFF"
definition IOC_TYPE :: "u32 \<Rightarrow> u32" where "IOC_TYPE cmd = drop_bit 8 cmd AND 0xFF"
definition IOC_DIR :: "u32 \<Rightarrow> u32" where "IOC_DIR cmd = drop_bit 30 cmd AND 3"

text \<open>\<open>_IOWR(type, nr, size)\<close>: direction 3, the argument's size, the type and the number.\<close>

definition IOWR :: "u32 \<Rightarrow> u32 \<Rightarrow> u32 \<Rightarrow> u32" where
  "IOWR t nr sz = push_bit 30 3 OR push_bit 16 sz OR push_bit 8 t OR nr"

definition XMEM_MGR_MAGIC_KEY :: u32 where "XMEM_MGR_MAGIC_KEY = 0x4D"
definition XMEM_MAX_KMM_FNS :: u32 where "XMEM_MAX_KMM_FNS = 3"
definition XMM_ALLOC_OPC :: u32 where "XMM_ALLOC_OPC = IOWR XMEM_MGR_MAGIC_KEY 0 32"
definition XMM_FREE_OPC :: u32 where "XMM_FREE_OPC = IOWR XMEM_MGR_MAGIC_KEY 1 32"
definition XMM_SUPPORT_OPC :: u32 where "XMM_SUPPORT_OPC = IOWR XMEM_MGR_MAGIC_KEY 2 8"

lemmas ioctl_defs = IOC_NR_def IOC_TYPE_def IOC_DIR_def IOWR_def XMEM_MGR_MAGIC_KEY_def
  XMEM_MAX_KMM_FNS_def XMM_ALLOC_OPC_def XMM_FREE_OPC_def XMM_SUPPORT_OPC_def

text \<open>What \<open>copy_to_user\<close> writes to the caller's buffer.\<close>

datatype ioctl_reply = NoReply | InfoReply xib_umem_ioctl_info | SupportReply u32 u32

text \<open>The kernel's answers to one \<open>ioctl\<close>: \<open>access_ok\<close>, \<open>kmalloc\<close>, and the number of bytes
  \<open>copy_to_user\<close> could not copy (then the caller's buffer is not relied on).\<close>

record ioctl_env =
  access_ok :: bool
  env_kmalloc_ok :: bool
  copy_to_user :: nat

definition reply :: "ioctl_env \<Rightarrow> ioctl_reply \<Rightarrow> int \<times> ioctl_reply" where
  "reply e r = (int (copy_to_user e), if copy_to_user e = 0 then r else NoReply)"

definition xib_ioctl ::
  "ioctl_env \<Rightarrow> kmm \<Rightarrow> u32 \<Rightarrow> xib_umem_ioctl_info \<Rightarrow> (int \<times> ioctl_reply \<times> kmm) option" where
  "xib_ioctl e s cmd req =
     (if IOC_TYPE cmd \<noteq> XMEM_MGR_MAGIC_KEY then Some (- ENOTTY, NoReply, s)
      else if IOC_NR cmd > XMEM_MAX_KMM_FNS then Some (- ENOTTY, NoReply, s)
      else if IOC_DIR cmd AND 3 \<noteq> 0 \<and> \<not> access_ok e then Some (- EFAULT, NoReply, s)
      else if cmd = XMM_ALLOC_OPC then do {
        (err, req', s') \<leftarrow> alloc_mem (env_kmalloc_ok e) s req;
        if err \<noteq> 0 then Some (err, NoReply, s')
        else let (err', r) = reply e (InfoReply req') in Some (err', r, s')}
      else if cmd = XMM_FREE_OPC then do {
        (err, req', s') \<leftarrow> free_mem s req;
        let (err', r) = reply e (InfoReply req') in Some (err', r, s')}
      else if cmd = XMM_SUPPORT_OPC then
        (let (err', r) = reply e (SupportReply (supported_mem_types s) (processor_access s))
         in Some (err', r, s))
      else Some (- EFAULT, NoReply, s))"

definition free_all_chunks :: "xib_kmem_info \<Rightarrow> xib_kmem_info" where
  "free_all_chunks n =
     n\<lparr>available_size := foldl (\<lambda>a c. a + chunk_size c) (available_size n) (chunk_list n),
       chunk_list := []\<rparr>"

definition xib_close :: "kmm \<Rightarrow> (int \<times> kmm) option" where
  "xib_close s0 =
     (let s = s0\<lparr>file_open_cnt := file_open_cnt s0 - 1\<rparr>
      in if file_open_cnt s \<noteq> 0 then Some (0, s)
         else do {
           s1 \<leftarrow> spin_lock s;
           Some (0, spin_unlock (s1\<lparr>mmr_head := map free_all_chunks (mmr_head s1)\<rparr>))})"

definition xib_open :: "kmm \<Rightarrow> int \<times> kmm" where
  "xib_open s = (0, s\<lparr>file_open_cnt := file_open_cnt s + 1\<rparr>)"

text \<open>\<open>VM_MAYSHARE\<close> is bit 7 of the mapping's flags; the mapping gets \<open>nopage_vm_ops\<close> when it is
  accepted.\<close>

definition VM_MAYSHARE :: u64 where "VM_MAYSHARE = 0x80"

definition xib_mmap :: "u64 \<Rightarrow> int" where
  "xib_mmap vm_flags = (if vm_flags AND VM_MAYSHARE \<noteq> VM_MAYSHARE then - EINVAL else 0)"

fun xkmm_get_page_info :: "xib_kmem_info list \<Rightarrow> u64 \<Rightarrow> (u64 list \<times> u32) option" where
  "xkmm_get_page_info [] pa = None"
| "xkmm_get_page_info (n # ns) pa =
     (if base_addr n \<le> pa \<and> base_addr n + mem_size n \<ge> pa
      then Some (pages n, ucast (((pa - base_addr n) + (PAGE_SIZE - 1)) div PAGE_SIZE))
      else xkmm_get_page_info ns pa)"

datatype vm_fault = VmInval | VmZero | VM_FAULT_NOPAGE | VM_FAULT_OOM | VM_FAULT_SIGBUS | VmOutOfRange

abbreviation ERESTARTSYS :: int where "ERESTARTSYS \<equiv> 512"

text \<open>The fault handler.  \<open>vm_insert_page\<close> maps the page; its result is a function of the page.  Every
  turn of the loop returns, so at most one page is inserted.  \<open>VmOutOfRange\<close> is the read of
  \<open>pg_info[pg_idx]\<close> past the array.\<close>

definition vma_nopage :: "(u64 \<Rightarrow> int) \<Rightarrow> kmm \<Rightarrow> u64 \<Rightarrow> u64 \<Rightarrow> u64 \<Rightarrow> u64 \<Rightarrow> vm_fault" where
  "vma_nopage vm_insert_page s address vm_start vm_end vm_pgoff =
     (let offset = push_bit PAGE_SHIFT vm_pgoff;
          physaddr = address - vm_start + offset
      in case xkmm_get_page_info (mmr_head s) physaddr of
           None \<Rightarrow> VmInval
         | Some (pg_info, pg_idx) \<Rightarrow>
             if (ucast ((vm_end - vm_start) div PAGE_SIZE) :: u32) = 0 then VmZero
             else if length pg_info \<le> unat pg_idx then VmOutOfRange
             else let ret = vm_insert_page (pg_info ! unat pg_idx)
                  in if ret = - EAGAIN \<or> ret = 0 \<or> ret = - ERESTARTSYS then VM_FAULT_NOPAGE
                     else if ret = - ENOMEM then VM_FAULT_OOM
                     else VM_FAULT_SIGBUS)"

subsection \<open>Set-up and tear-down\<close>

record resource =
  r_start :: u64
  r_end :: u64

definition resource_size :: "resource \<Rightarrow> u64" where
  "resource_size r = r_end r - r_start r + 1"

text \<open>The kernel's answers to one \<open>add_node\<close>: \<open>kmalloc\<close>, the address \<open>devm_memremap_pages\<close> returns (0
  when it fails), \<open>vmalloc\<close>, and for every page whether \<open>virt_to_page\<close> gives an error pointer.\<close>

record node_env =
  node_kmalloc_ok :: bool
  memremap_pages :: u64
  vmalloc_ok :: bool
  page_is_err :: "u64 \<Rightarrow> bool"

definition page_addrs :: "u64 \<Rightarrow> u32 \<Rightarrow> u64 list" where
  "page_addrs va nr_pages =
     map (\<lambda>i. va + of_nat i * PAGE_SIZE) [0..<unat nr_pages]"

text \<open>A region that fails to map stays in the list; only its support bits are not set.\<close>

definition add_node ::
  "node_env \<Rightarrow> kmm \<Rightarrow> u32 \<Rightarrow> u64 \<Rightarrow> u64 \<Rightarrow> resource option \<Rightarrow> bool \<Rightarrow> bool \<Rightarrow> int \<times> kmm" where
  "add_node e s type base sz res dev_set proc_access =
     (case res of
        None \<Rightarrow> (- EINVAL, s)
      | Some r \<Rightarrow>
          if \<not> dev_set then (- EINVAL, s)
          else if \<not> node_kmalloc_ok e then (- ENOMEM, s)
          else
            let node = \<lparr>mem_type = type, base_addr = base, pages = [], base_va = memremap_pages e,
                        mem_size = sz, available_size = sz, max_chunk = 1, chunk_list = []\<rparr>;
                nr_pages = ucast (drop_bit PAGE_SHIFT (resource_size r)) :: u32;
                ps = page_addrs (memremap_pages e) nr_pages;
                add = (\<lambda>n. s\<lparr>mmr_head := mmr_head s @ [n], mmr_set := True\<rparr>)
            in if memremap_pages e = 0 then (- EFAULT, add node)
               else if \<not> vmalloc_ok e then (- EFAULT, add node)
               else if \<exists>p \<in> set ps. page_is_err e p then (- EFAULT, add (node\<lparr>pages := ps\<rparr>))
               else let s' = add (node\<lparr>pages := ps\<rparr>);
                        bit = push_bit (unat type) 1
                    in (0, s'\<lparr>supported_mem_types := supported_mem_types s' OR bit,
                              processor_access := (if proc_access then processor_access s' OR bit
                                                   else processor_access s')\<rparr>))"

text \<open>\<open>of_property_read_u32\<close> returns an error code and the value of \<open>val\<close> after the call, which is
  whatever the stack held when the property is missing.\<close>

definition xib_check_processor_access :: "(int \<times> int) option \<Rightarrow> int" where
  "xib_check_processor_access np =
     (case np of
        None \<Rightarrow> 0
      | Some (ret, val) \<Rightarrow>
          if val = 0 then 0 else if ret < 0 \<or> val \<noteq> 0 then 1 else 0)"

text \<open>The device tree as the set-up functions see it: for every memory node the resource (\<open>None\<close>
  when there is none) and the answer to the access property.\<close>

type_synonym dt_node = "resource option \<times> int \<times> int"

definition node_access :: "dt_node \<Rightarrow> bool" where
  "node_access np = (xib_check_processor_access (Some (snd np)) \<noteq> 0)"

definition XIB_BRAM1_BASE :: u64 where "XIB_BRAM1_BASE = 0x91000000"

fun find_bram1 :: "dt_node list \<Rightarrow> (resource \<times> dt_node) option" where
  "find_bram1 [] = None"
| "find_bram1 (np # nps) =
     (case fst np of
        None \<Rightarrow> find_bram1 nps
      | Some r \<Rightarrow> if r_start r = XIB_BRAM1_BASE then Some (r, np) else find_bram1 nps)"

definition xib_bram_init :: "node_env \<Rightarrow> kmm \<Rightarrow> dt_node list \<Rightarrow> int \<times> kmm" where
  "xib_bram_init e s brams =
     (case find_bram1 brams of
        None \<Rightarrow> (- ENOMEM, s)
      | Some (r, np) \<Rightarrow>
          add_node e s XMEM_BRAM (r_start r) (resource_size r) (Some r) True (node_access np))"

text \<open>\<open>ext_ddr\<close> and \<open>pci_ddr\<close> read the four cells of \<open>reg\<close>; \<open>None\<close> is a read error.\<close>

type_synonym reg_cells = "(u32 \<times> u32 \<times> u32 \<times> u32) option"

definition cells64 :: "u32 \<Rightarrow> u32 \<Rightarrow> u64" where
  "cells64 hi lo = push_bit 32 (ucast hi) OR ucast lo"

definition xib_ext_ddr_init :: "node_env \<Rightarrow> kmm \<Rightarrow> (reg_cells \<times> int \<times> int) option \<Rightarrow> int \<times> kmm" where
  "xib_ext_ddr_init e s np =
     (case np of
        None \<Rightarrow> (- ENOMEM, s)
      | Some (None, _) \<Rightarrow> (- ENOMEM, s)
      | Some (Some (c0, c1, c2, c3), acc) \<Rightarrow>
          let start = cells64 c0 c1; sz = cells64 c2 c3
          in add_node e s XMEM_EXT_DDR start sz (Some \<lparr>r_start = start, r_end = start + sz\<rparr>) True
               (xib_check_processor_access (Some acc) \<noteq> 0))"

definition region_init :: "u32 \<Rightarrow> node_env \<Rightarrow> kmm \<Rightarrow> dt_node option \<Rightarrow> int \<times> kmm" where
  "region_init type e s np =
     (case np of
        None \<Rightarrow> (- EFAULT, s)
      | Some nd \<Rightarrow>
          (case fst nd of
             None \<Rightarrow> (- EFAULT, s)
           | Some r \<Rightarrow>
               add_node e s type (r_start r) (resource_size r) (Some r) True (node_access nd)))"

definition xib_pl_ddr_init :: "node_env \<Rightarrow> kmm \<Rightarrow> dt_node option \<Rightarrow> int \<times> kmm" where
  "xib_pl_ddr_init = region_init XMEM_PL_DDR"

definition xib_ps_ddr_init :: "node_env \<Rightarrow> kmm \<Rightarrow> dt_node option \<Rightarrow> int \<times> kmm" where
  "xib_ps_ddr_init = region_init XMEM_PS_DDR"

text \<open>The resource passed for PCI memory is an uninitialised variable (\<open>garbage\<close>) and the device is
  \<open>NULL\<close>.\<close>

definition xib_pci_ddr_init ::
  "resource \<Rightarrow> node_env \<Rightarrow> kmm \<Rightarrow> (reg_cells \<times> int \<times> int) option \<Rightarrow> int \<times> kmm" where
  "xib_pci_ddr_init garbage e s np =
     (case np of
        None \<Rightarrow> (- ENOMEM, s)
      | Some (None, _) \<Rightarrow> (- ENOMEM, s)
      | Some (Some (c0, c1, c2, c3), acc) \<Rightarrow>
          add_node e s XMEM_PCI_DDR (cells64 c0 c1) (cells64 c2 c3) (Some garbage) False
            (xib_check_processor_access (Some acc) \<noteq> 0))"

text \<open>The character device's registrations, and the kernel's answers while the driver probes.\<close>

record chrdev =
  region_registered :: bool
  cdev_added :: bool
  class_created :: bool
  device_created :: bool

definition no_chrdev :: chrdev where
  "no_chrdev = \<lparr>region_registered = False, cdev_added = False, class_created = False,
                device_created = False\<rparr>"

record probe_env =
  rnic_node :: bool
  chrdev_region_ok :: bool
  cdev_alloc_ok :: bool
  cdev_add_ok :: bool
  class_create_ok :: bool
  device_create_ok :: bool
  pl_env :: node_env
  pl_node :: "dt_node option"
  eddr_env :: node_env
  eddr_node :: "(reg_cells \<times> int \<times> int) option"
  bram_env :: node_env
  bram_nodes :: "dt_node list"
  ps_env :: node_env
  ps_node :: "dt_node option"
  pci_env :: node_env
  pci_node :: "(reg_cells \<times> int \<times> int) option"
  pci_res :: resource

definition init_regions :: "probe_env \<Rightarrow> kmm \<Rightarrow> kmm" where
  "init_regions e s0 =
     (let s1 = snd (xib_pl_ddr_init (pl_env e) s0 (pl_node e));
          s2 = snd (xib_ext_ddr_init (eddr_env e) s1 (eddr_node e));
          s3 = snd (xib_bram_init (bram_env e) s2 (bram_nodes e));
          s4 = snd (xib_ps_ddr_init (ps_env e) s3 (ps_node e));
          s5 = snd (xib_pci_ddr_init (pci_res e) (pci_env e) s4 (pci_node e))
      in s5\<lparr>mm_list_lock := False\<rparr>)"

definition xib_kmm_probe :: "probe_env \<Rightarrow> kmm \<Rightarrow> int \<times> chrdev \<times> kmm" where
  "xib_kmm_probe e s =
     (if \<not> rnic_node e then (- EFAULT, no_chrdev, s)
      else if \<not> chrdev_region_ok e then (- EFAULT, no_chrdev, s)
      else let c1 = no_chrdev\<lparr>region_registered := True\<rparr>
      in if \<not> cdev_alloc_ok e then (- EFAULT, c1\<lparr>region_registered := False\<rparr>, s)
      else if \<not> cdev_add_ok e then (- EFAULT, c1\<lparr>region_registered := False\<rparr>, s)
      else let c2 = c1\<lparr>cdev_added := True\<rparr>
      in if \<not> class_create_ok e
         then (- EFAULT, c2\<lparr>cdev_added := False, region_registered := False\<rparr>, s)
      else let c3 = c2\<lparr>class_created := True\<rparr>;
               c4 = (if device_create_ok e then c3\<lparr>device_created := True\<rparr>
                     else c3\<lparr>class_created := False, cdev_added := False, region_registered := False\<rparr>)
      in (0, c4, init_regions e s))"

text \<open>\<open>xib_kmm_remove\<close> frees every chunk and region record and does not unlink them from \<open>mmr_head\<close>:
  the module's memory state is gone after it, so only the registrations are returned.\<close>

definition xib_kmm_remove :: "kmm \<Rightarrow> chrdev \<Rightarrow> (int \<times> chrdev) option" where
  "xib_kmm_remove s c = do {
     _ \<leftarrow> spin_lock s;
     Some (0, c\<lparr>device_created := False, class_created := False, cdev_added := False,
                region_registered := False\<rparr>)}"

subsection \<open>The invariant of a region\<close>

text \<open>The chunks of a list lie in order, without overlap, between \<open>lo\<close> and \<open>hi\<close>.\<close>

fun chunks_ok :: "nat \<Rightarrow> xib_kmem_chunk list \<Rightarrow> nat \<Rightarrow> bool" where
  "chunks_ok lo [] hi = (lo \<le> hi)"
| "chunks_ok lo (c # cs) hi =
     (lo \<le> unat (start_addr c) \<and> chunks_ok (unat (start_addr c) + unat (chunk_size c)) cs hi)"

definition used_size :: "xib_kmem_chunk list \<Rightarrow> nat" where
  "used_size cs = sum_list (map (\<lambda>c. unat (chunk_size c)) cs)"

definition node_ok :: "xib_kmem_info \<Rightarrow> bool" where
  "node_ok n \<longleftrightarrow>
     unat (base_addr n) + unat (mem_size n) < 2 ^ 64 \<and>
     chunks_ok (unat (base_addr n)) (chunk_list n) (unat (base_addr n) + unat (mem_size n)) \<and>
     unat (available_size n) + used_size (chunk_list n) = unat (mem_size n)"

definition kmm_inv :: "kmm \<Rightarrow> bool" where
  "kmm_inv s \<longleftrightarrow> \<not> mm_list_lock s \<and> (\<forall>n \<in> set (mmr_head s). node_ok n)"

text \<open>The gap in front of the first chunk.\<close>

definition head_gap :: "xib_kmem_info \<Rightarrow> u64" where
  "head_gap n = (case chunk_list n of [] \<Rightarrow> 0 | c # _ \<Rightarrow> start_addr c - base_addr n)"

lemma chunks_ok_bound: "chunks_ok lo cs hi \<Longrightarrow> lo \<le> hi"
  by (induction cs arbitrary: lo) fastforce+

lemma chunks_ok_mono: "chunks_ok lo cs hi \<Longrightarrow> lo' \<le> lo \<Longrightarrow> chunks_ok lo' cs hi"
  by (cases cs) auto

lemma chunks_ok_in_range:
  "chunks_ok lo cs hi \<Longrightarrow> c \<in> set cs \<Longrightarrow>
     lo \<le> unat (start_addr c) \<and> unat (start_addr c) + unat (chunk_size c) \<le> hi"
proof (induction cs arbitrary: lo)
  case (Cons d cs)
  let ?lo = "unat (start_addr d) + unat (chunk_size d)"
  have "chunks_ok ?lo cs hi" "lo \<le> unat (start_addr d)" using Cons.prems by auto
  moreover have "?lo \<le> hi" using calculation chunks_ok_bound by blast
  ultimately show ?case using Cons.IH [of ?lo] Cons.prems(2) by auto
qed simp

lemma chunks_ok_append:
  "chunks_ok lo (xs @ c # ys) hi \<Longrightarrow> d \<in> set xs \<Longrightarrow>
     unat (start_addr d) + unat (chunk_size d) \<le> unat (start_addr c)"
  by (induction xs arbitrary: lo) (auto dest: chunks_ok_in_range)

lemma chunk_end_unat:
  assumes "chunks_ok (unat (start_addr c) + unat (chunk_size c)) cs hi" "hi < 2 ^ 64"
  shows "unat (chunk_end c) = unat (start_addr c) + unat (chunk_size c)"
  using chunks_ok_bound [OF assms(1)] assms(2) by (simp add: chunk_end_def unat_add_no_wrap)

lemma insert_at_simps [simp]:
  "insert_at 0 x xs = x # xs" "insert_at (Suc i) x (y # ys) = y # insert_at i x ys"
  "insert_at (length xs) x xs = xs @ [x]"
  by (simp_all add: insert_at_def)

definition new_chunk :: "u64 \<Rightarrow> u64 \<Rightarrow> u32 \<Rightarrow> xib_kmem_chunk" where
  "new_chunk a sz cid = \<lparr>start_addr = a, chunk_size = sz, chunk_id = cid\<rparr>"

lemma find_gap_found:
  assumes "find_gap base sz (Some p) i cs = Inl (a, j)"
    and "chunks_ok lo cs hi" "lo = unat (chunk_end p)" "hi < 2 ^ 64"
  shows "i \<le> j \<and> chunks_ok lo (insert_at (j - i) (new_chunk a sz cid) cs) hi"
  using assms
proof (induction cs arbitrary: p i lo)
  case Nil
  then show ?case by simp
next
  case (Cons c cs)
  have b: "lo \<le> unat (start_addr c)" using Cons.prems by simp
  show ?case
  proof (cases "sz \<le> start_addr c - chunk_end p")
    case True
    then have "unat sz \<le> unat (start_addr c) - lo"
      using b Cons.prems(3) by (simp add: word_le_nat_alt unat_sub_le)
    then show ?thesis using True Cons.prems b by (auto simp: new_chunk_def)
  next
    case False
    have e: "unat (chunk_end c) = unat (start_addr c) + unat (chunk_size c)"
      using Cons.prems by (auto intro: chunk_end_unat)
    with False Cons.prems Cons.IH [of c "Suc i" "unat (chunk_end c)"]
    have "Suc i \<le> j \<and> chunks_ok (unat (chunk_end c)) (insert_at (j - Suc i) (new_chunk a sz cid) cs) hi"
      by simp
    then obtain k where "j = Suc (i + k)"
      "chunks_ok (unat (chunk_end c)) (insert_at k (new_chunk a sz cid) cs) hi"
      using less_iff_Suc_add [of i j] by (auto simp: Suc_le_eq)
    then show ?thesis using b e by simp
  qed
qed

lemma find_gap_end:
  assumes "find_gap base sz (Some p) i cs = Inr r"
    and "chunks_ok lo cs hi" "lo = unat (chunk_end p)" "hi < 2 ^ 64"
  shows "\<exists>q. r = Some q \<and> unat (chunk_end q) \<le> hi \<and>
    (unat sz \<le> hi - unat (chunk_end q) \<longrightarrow>
       chunks_ok lo (cs @ [new_chunk (chunk_end q) sz cid]) hi)"
  using assms
proof (induction cs arbitrary: p i lo)
  case Nil
  then show ?case by (auto simp: new_chunk_def)
next
  case (Cons c cs)
  have e: "unat (chunk_end c) = unat (start_addr c) + unat (chunk_size c)"
    using Cons.prems by (auto intro: chunk_end_unat)
  with Cons.prems Cons.IH [of c "Suc i" "unat (chunk_end c)"] show ?case
    by (auto split: if_splits)
qed

lemma place_chunk_ok:
  assumes ok: "node_ok n" and p: "place_chunk n sz = Some (a, i)"
    and gap: "head_gap n < sz \<or> head_gap n = 0" and avail: "sz \<le> available_size n"
  shows "chunks_ok (unat (base_addr n)) (insert_at i (new_chunk a sz cid) (chunk_list n))
    (unat (base_addr n) + unat (mem_size n))"
proof -
  let ?lo = "unat (base_addr n)" and ?hi = "unat (base_addr n) + unat (mem_size n)"
  have cs: "chunks_ok ?lo (chunk_list n) ?hi" and hi: "?hi < 2 ^ 64"
    and av: "unat (available_size n) + used_size (chunk_list n) = unat (mem_size n)"
    using ok by (auto simp: node_ok_def)
  have top: "unat (base_addr n + mem_size n) = ?hi" using hi by (simp add: unat_add_no_wrap)
  show ?thesis
  proof (cases "chunk_list n")
    case Nil
    then show ?thesis
      using p av avail by (simp add: place_chunk_def new_chunk_def word_le_nat_alt used_size_def)
  next
    case (Cons c cs')
    have e: "unat (chunk_end c) = unat (start_addr c) + unat (chunk_size c)"
      using cs hi Cons by (auto intro: chunk_end_unat)
    have c: "?lo \<le> unat (start_addr c)" "chunks_ok (unat (chunk_end c)) cs' ?hi"
      using cs Cons e by auto
    show ?thesis
    proof (cases "sz \<le> start_addr c - base_addr n")
      case True
      with gap Cons have "start_addr c = base_addr n" "sz = 0" by (auto simp: head_gap_def)
      with True p Cons c e show ?thesis by (simp add: place_chunk_def new_chunk_def)
    next
      case False
      let ?g = "find_gap (base_addr n) sz (Some c) (Suc 0) cs'"
      show ?thesis
      proof (cases ?g)
        case (Inl x)
        then have "?g = Inl (a, i)" using p Cons False by (simp add: place_chunk_def)
        from find_gap_found [OF this c(2) refl hi, of cid] obtain k where "i = Suc k"
          "chunks_ok (unat (chunk_end c)) (insert_at k (new_chunk a sz cid) cs') ?hi"
          by (cases i) auto
        then show ?thesis using Cons c(1) e by simp
      next
        case (Inr r)
        from find_gap_end [OF this c(2) refl hi, of cid] obtain q where q: "r = Some q"
            "unat (chunk_end q) \<le> ?hi" "unat sz \<le> ?hi - unat (chunk_end q) \<longrightarrow>
             chunks_ok (unat (chunk_end c)) (cs' @ [new_chunk (chunk_end q) sz cid]) ?hi"
          by auto
        with p Cons False Inr have pq: "sz \<le> base_addr n + mem_size n - chunk_end q"
            "a = chunk_end q" "i = length (chunk_list n)"
          by (auto simp: place_chunk_def split: if_splits)
        then have "unat sz \<le> ?hi - unat (chunk_end q)"
          using q(2) top by (simp add: word_le_nat_alt unat_sub_le)
        then show ?thesis using q(3) pq Cons c(1) e by (simp only: insert_at_simps) simp
      qed
    qed
  qed
qed

subsection \<open>Every operation keeps the invariant\<close>

lemma find_node_SomeD: "find_node ns t = Some n \<Longrightarrow> n \<in> set ns \<and> mem_type n = t"
  by (induction ns) (auto split: if_splits)

lemma find_node_update:
  "find_node ns (mem_type n') = Some n \<Longrightarrow> find_node (update_node ns n') (mem_type n') = Some n'"
  by (induction ns) (auto split: if_splits)

lemma find_node_update_other:
  "t \<noteq> mem_type n' \<Longrightarrow> find_node (update_node ns n') t = find_node ns t"
  by (induction ns) auto

lemma set_update_node: "n \<in> set (update_node ns n') \<Longrightarrow> n = n' \<or> n \<in> set ns"
  by (induction ns) (auto split: if_splits)

lemma used_size_insert_at: "used_size (insert_at i c cs) = used_size cs + unat (chunk_size c)"
proof -
  have "used_size (take i cs) + used_size (drop i cs) = used_size cs"
    by (metis append_take_drop_id map_append sum_list_append used_size_def)
  then show ?thesis by (simp add: insert_at_def used_size_def)
qed

lemma kmm_inv_update:
  assumes "kmm_inv s" "node_ok n'"
  shows "kmm_inv (spin_unlock (s\<lparr>mm_list_lock := b, mmr_head := update_node (mmr_head s) n'\<rparr>))"
  using assms by (auto simp: kmm_inv_def spin_unlock_def dest: set_update_node)

lemma spin_lock_inv: "kmm_inv s \<Longrightarrow> spin_lock s = Some (s\<lparr>mm_list_lock := True\<rparr>)"
  by (simp add: kmm_inv_def spin_lock_def)

lemma spin_unlock_inv [simp]: "kmm_inv s \<Longrightarrow> spin_unlock (s\<lparr>mm_list_lock := True\<rparr>) = s"
  by (simp add: kmm_inv_def spin_unlock_def)

text \<open>The new region record of a successful \<open>alloc_mem\<close>.\<close>

definition chunk_added :: "xib_kmem_info \<Rightarrow> nat \<Rightarrow> u64 \<Rightarrow> u64 \<Rightarrow> u32 \<Rightarrow> xib_kmem_info" where
  "chunk_added n i a sz t =
     n\<lparr>chunk_list := insert_at i (new_chunk a sz ((max_chunk n AND 0x00FFFFFF) OR push_bit 24 t))
                       (chunk_list n),
       max_chunk := max_chunk n + 1, available_size := available_size n - sz\<rparr>"

lemma chunk_added_ok:
  assumes "node_ok n" "place_chunk n sz = Some (a, i)" "head_gap n < sz \<or> head_gap n = 0"
    "sz \<le> available_size n"
  shows "node_ok (chunk_added n i a sz t)"
  using place_chunk_ok [OF assms] assms(1,4)
  by (auto simp: node_ok_def chunk_added_def used_size_insert_at word_le_nat_alt unat_sub_le)
    (simp add: new_chunk_def)

lemma alloc_mem_success:
  assumes "kmm_inv s" "alloc_mem k s req = Some (0, req', s')"
  obtains n a i where "find_node (mmr_head s) (req_type req) = Some n"
    "req_size req \<le> available_size n" "place_chunk n (req_size req) = Some (a, i)"
    "req' = req\<lparr>req_chunk_ofs := a,
                req_chunk_id := (max_chunk n AND 0x00FFFFFF) OR push_bit 24 (req_type req)\<rparr>"
    "s' = s\<lparr>mmr_head := update_node (mmr_head s)
              (chunk_added n i a (req_size req) (req_type req))\<rparr>"
  using assms
  by (auto simp: alloc_mem_def spin_lock_inv Let_def spin_unlock_def kmm_inv_def chunk_added_def
      new_chunk_def not_less split: option.splits if_splits prod.splits)

lemma alloc_mem_failure:
  assumes "kmm_inv s" "alloc_mem k s req = Some (r, req', s')" "r \<noteq> 0"
  shows "r = - ENOMEM \<and> req' = req \<and> s' = s"
  using assms
  by (auto simp: alloc_mem_def spin_lock_inv Let_def split: option.splits if_splits prod.splits)

definition chunks_of :: "kmm \<Rightarrow> u32 \<Rightarrow> xib_kmem_chunk list" where
  "chunks_of s t = (case find_node (mmr_head s) t of None \<Rightarrow> [] | Some n \<Rightarrow> chunk_list n)"

definition gap_of :: "kmm \<Rightarrow> u32 \<Rightarrow> u64" where
  "gap_of s t = (case find_node (mmr_head s) t of None \<Rightarrow> 0 | Some n \<Rightarrow> head_gap n)"

lemma chunk_added_disjoint:
  assumes "node_ok (chunk_added n i a sz t)" "c \<in> set (chunk_list n)"
  shows "unat (start_addr c) + unat (chunk_size c) \<le> unat a \<or> unat a + unat sz \<le> unat (start_addr c)"
proof -
  let ?x = "new_chunk a sz ((max_chunk n AND 0x00FFFFFF) OR push_bit 24 t)"
  obtain lo hi where ok: "chunks_ok lo (take i (chunk_list n) @ ?x # drop i (chunk_list n)) hi"
    using assms(1) by (auto simp: node_ok_def chunk_added_def insert_at_def)
  have "c \<in> set (take i (chunk_list n)) \<or> c \<in> set (drop i (chunk_list n))"
    using assms(2) by (metis Un_iff append_take_drop_id set_append)
  then show ?thesis
  proof
    assume "c \<in> set (take i (chunk_list n))"
    then show ?thesis using chunks_ok_append [OF ok] by (simp add: new_chunk_def)
  next
    assume "c \<in> set (drop i (chunk_list n))"
    then obtain ys zs where "drop i (chunk_list n) = ys @ c # zs" by (meson split_list)
    then show ?thesis
      using chunks_ok_append [of lo "take i (chunk_list n) @ ?x # ys" c zs hi ?x] ok
      by (simp add: new_chunk_def)
  qed
qed

lemma alloc_mem_disjoint:
  assumes "kmm_inv s" "alloc_mem k s req = Some (0, req', s')"
    and "gap_of s (req_type req) < req_size req \<or> gap_of s (req_type req) = 0"
  shows "kmm_inv s' \<and>
    (\<forall>c \<in> set (chunks_of s (req_type req)).
       unat (start_addr c) + unat (chunk_size c) \<le> unat (req_chunk_ofs req') \<or>
       unat (req_chunk_ofs req') + unat (req_size req) \<le> unat (start_addr c))"
proof -
  obtain n a i where n: "find_node (mmr_head s) (req_type req) = Some n"
      "req_size req \<le> available_size n" "place_chunk n (req_size req) = Some (a, i)"
      "req' = req\<lparr>req_chunk_ofs := a,
                  req_chunk_id := (max_chunk n AND 0x00FFFFFF) OR push_bit 24 (req_type req)\<rparr>"
      "s' = s\<lparr>mmr_head := update_node (mmr_head s) (chunk_added n i a (req_size req) (req_type req))\<rparr>"
    by (rule alloc_mem_success [OF assms(1,2)])
  have "node_ok n" using assms(1) n(1) by (auto simp: kmm_inv_def dest: find_node_SomeD)
  then have ok: "node_ok (chunk_added n i a (req_size req) (req_type req))"
    using n assms(3) by (intro chunk_added_ok) (auto simp: gap_of_def)
  have "kmm_inv s'" using kmm_inv_update [OF assms(1) ok, of False] n(5) assms(1)
    by (simp add: spin_unlock_def kmm_inv_def)
  then show ?thesis using chunk_added_disjoint [OF ok] n(1,4) by (auto simp: chunks_of_def)
qed

text \<open>C7: \<open>alloc_mem\<close> keeps the invariant of the regions (chunks in address order, no two overlapping,
  inside the region, bytes accounted for), and the range it returns overlaps no live chunk of the
  region, whenever the request does not take the gap in front of the first chunk.\<close>

theorem alloc_mem_keeps_disjoint:
  assumes "kmm_inv s" "alloc_mem k s req = Some (0, req', s')"
    and "gap_of s (req_type req) < req_size req \<or> gap_of s (req_type req) = 0"
  shows "kmm_inv s' \<and>
    (\<forall>c \<in> set (chunks_of s (req_type req)).
       unat (start_addr c) + unat (chunk_size c) \<le> unat (req_chunk_ofs req') \<or>
       unat (req_chunk_ofs req') + unat (req_size req) \<le> unat (start_addr c))"
  using assms by (rule alloc_mem_disjoint)

lemma remove_chunk_SomeD:
  "remove_chunk cs cid = Some (c, ds) \<Longrightarrow>
     \<exists>xs ys. cs = xs @ c # ys \<and> ds = xs @ ys \<and> chunk_id c = cid \<and> (\<forall>x \<in> set xs. chunk_id x \<noteq> cid)"
proof (induction cs arbitrary: ds)
  case (Cons d cs)
  show ?case
  proof (cases "chunk_id d = cid")
    case True
    then show ?thesis using Cons.prems by (intro exI [of _ "[]"] exI [of _ ds]) auto
  next
    case False
    then obtain es where e: "remove_chunk cs cid = Some (c, es)" "ds = d # es"
      using Cons.prems by auto
    from Cons.IH [OF e(1)] obtain xs ys where "cs = xs @ c # ys" "es = xs @ ys" "chunk_id c = cid"
      "\<forall>x \<in> set xs. chunk_id x \<noteq> cid" by blast
    then show ?thesis using e(2) False by (intro exI [of _ "d # xs"] exI [of _ ys]) auto
  qed
qed simp

lemma chunks_ok_remove: "chunks_ok lo (xs @ c # ys) hi \<Longrightarrow> chunks_ok lo (xs @ ys) hi"
  by (induction xs arbitrary: lo) (auto intro: chunks_ok_mono)

lemma free_node_ok:
  assumes "node_ok n" "remove_chunk (chunk_list n) cid = Some (c, cs)"
  shows "node_ok (n\<lparr>chunk_list := cs, available_size := available_size n + chunk_size c\<rparr>)"
proof -
  obtain xs ys where x: "chunk_list n = xs @ c # ys" "cs = xs @ ys"
    using remove_chunk_SomeD [OF assms(2)] by blast
  have u: "unat (available_size n) + unat (chunk_size c) + used_size cs = unat (mem_size n)"
    using assms(1) x by (auto simp: node_ok_def used_size_def)
  then have "unat (available_size n) + unat (chunk_size c) < 2 ^ 64"
    using u64_less_power [of "mem_size n"] by simp
  with u x assms(1) show ?thesis
    by (auto simp: node_ok_def unat_add_no_wrap dest: chunks_ok_remove)
qed

lemma free_mem_returns: "kmm_inv s \<Longrightarrow> \<exists>r req' s'. free_mem s req = Some (r, req', s')"
  by (auto simp: free_mem_def spin_lock_inv Let_def split: option.split)

text \<open>C34: \<open>free_mem\<close> keeps the invariant on every branch; when it succeeds it removes one chunk with
  the given id, gives its bytes back, and keeps every other chunk.\<close>

theorem free_mem_keeps_inv:
  assumes "kmm_inv s" "free_mem s req = Some (r, req', s')"
  shows "kmm_inv s' \<and> (r \<noteq> 0 \<longrightarrow> s' = s) \<and>
    (r = 0 \<longrightarrow> (\<exists>xs c ys. chunks_of s (req_type req) = xs @ c # ys \<and>
       chunks_of s' (req_type req) = xs @ ys \<and> chunk_id c = req_chunk_id req \<and>
       req_chunk_ofs req' = start_addr c))"
proof (cases "find_node (mmr_head s) (req_type req)")
  case None
  then show ?thesis using assms by (auto simp: free_mem_def spin_lock_inv)
next
  case (Some n)
  have n: "node_ok n" "mem_type n = req_type req"
    using assms(1) Some by (auto simp: kmm_inv_def dest: find_node_SomeD)
  show ?thesis
  proof (cases "remove_chunk (chunk_list n) (req_chunk_id req)")
    case None
    then show ?thesis using assms Some by (auto simp: free_mem_def spin_lock_inv)
  next
    case (Some x)
    obtain c cs where x: "x = (c, cs)" by force
    let ?n = "n\<lparr>chunk_list := cs, available_size := available_size n + chunk_size c\<rparr>"
    have s': "r = 0" "req' = req\<lparr>req_chunk_ofs := start_addr c\<rparr>"
        "s' = spin_unlock (s\<lparr>mm_list_lock := True, mmr_head := update_node (mmr_head s) ?n\<rparr>)"
      using assms Some x \<open>find_node _ _ = Some n\<close>
      by (auto simp: free_mem_def spin_lock_inv Let_def)
    have "kmm_inv s'"
      unfolding s' using assms(1) free_node_ok [OF n(1) Some [unfolded x]] by (rule kmm_inv_update)
    moreover have "find_node (mmr_head s') (req_type req) = Some ?n"
      using find_node_update [of "mmr_head s" ?n n] \<open>find_node _ _ = Some n\<close> n(2)
      by (simp add: s'(3) spin_unlock_def)
    ultimately show ?thesis
      using remove_chunk_SomeD [OF Some [unfolded x]] \<open>find_node _ _ = Some n\<close> s'(1,2)
      by (auto simp: chunks_of_def)
  qed
qed

text \<open>A region of 64 KiB with the given chunks, and a request for one page of it.\<close>

definition demo_chunk :: "u64 \<Rightarrow> u32 \<Rightarrow> xib_kmem_chunk" where
  "demo_chunk a cid = \<lparr>start_addr = a, chunk_size = 0x1000, chunk_id = cid\<rparr>"

definition demo_state :: "u64 \<Rightarrow> u32 \<Rightarrow> xib_kmem_chunk list \<Rightarrow> kmm" where
  "demo_state avail mc cs = \<lparr>mmr_head = [\<lparr>mem_type = XMEM_PL_DDR, base_addr = 0x80000000,
      pages = [], base_va = 0, mem_size = 0x10000, available_size = avail, max_chunk = mc,
      chunk_list = cs\<rparr>],
    mmr_set = True, file_open_cnt = 1, mm_list_lock = False, supported_mem_types = 2,
    processor_access = 2\<rparr>"

definition demo_kmm :: kmm where
  "demo_kmm = demo_state 0x10000 1 []"

definition demo_req :: xib_umem_ioctl_info where
  "demo_req = \<lparr>req_type = XMEM_PL_DDR, req_size = 0x1000, req_chunk_ofs = 0, req_chunk_id = 0\<rparr>"

definition demo_kmm1 :: kmm where
  "demo_kmm1 = demo_state 0xF000 2 [demo_chunk 0x80000000 0x1000001]"

lemmas demo_defs = demo_chunk_def demo_state_def demo_req_def spin_lock_def spin_unlock_def
  XMEM_PL_DDR_def place_chunk_def insert_at_def chunk_end_def

lemma demo_kmm_inv: "kmm_inv demo_kmm"
  by (simp add: kmm_inv_def demo_kmm_def demo_state_def node_ok_def used_size_def)

lemma demo_alloc:
  "alloc_mem True demo_kmm demo_req =
     Some (0, demo_req\<lparr>req_chunk_ofs := 0x80000000, req_chunk_id := 0x1000001\<rparr>, demo_kmm1)"
  by (simp add: alloc_mem_def demo_kmm_def demo_kmm1_def demo_defs)

lemma demo_alloc2:
  "alloc_mem True demo_kmm1 demo_req =
     Some (0, demo_req\<lparr>req_chunk_ofs := 0x80001000, req_chunk_id := 0x1000002\<rparr>,
       demo_state 0xE000 3 [demo_chunk 0x80000000 0x1000001, demo_chunk 0x80001000 0x1000002])"
  by (simp add: alloc_mem_def demo_kmm1_def demo_defs)

lemma demo_free:
  "free_mem (demo_state 0xE000 3 [demo_chunk 0x80000000 0x1000001, demo_chunk 0x80001000 0x1000002])
     (demo_req\<lparr>req_chunk_ofs := 0x80000000, req_chunk_id := 0x1000001\<rparr>) =
   Some (0, demo_req\<lparr>req_chunk_ofs := 0x80000000, req_chunk_id := 0x1000001\<rparr>,
     demo_state 0xF000 3 [demo_chunk 0x80001000 0x1000002])"
  by (simp add: free_mem_def demo_defs)

lemma demo_alloc3:
  "alloc_mem True (demo_state 0xF000 3 [demo_chunk 0x80001000 0x1000002]) demo_req =
   Some (0, demo_req\<lparr>req_chunk_ofs := 0x80001000, req_chunk_id := 0x1000003\<rparr>,
     demo_state 0xE000 4 [demo_chunk 0x80001000 0x1000003, demo_chunk 0x80001000 0x1000002])"
  by (simp add: alloc_mem_def demo_defs)

theorem alloc_mem_keeps_disjoint_witness:
  "kmm_inv demo_kmm1 \<and> chunks_of demo_kmm XMEM_PL_DDR = []"
  using alloc_mem_keeps_disjoint [OF demo_kmm_inv demo_alloc]
  by (simp add: gap_of_def head_gap_def demo_kmm_def demo_state_def demo_req_def chunks_of_def)

theorem free_mem_keeps_inv_witness:
  "\<exists>r req' s'. free_mem demo_kmm1 (demo_req\<lparr>req_chunk_id := 0x1000001\<rparr>) = Some (r, req', s') \<and> kmm_inv s'"
proof -
  have inv: "kmm_inv demo_kmm1"
    by (simp add: kmm_inv_def demo_kmm1_def demo_state_def demo_chunk_def node_ok_def used_size_def)
  obtain r req' s' where f: "free_mem demo_kmm1 (demo_req\<lparr>req_chunk_id := 0x1000001\<rparr>) = Some (r, req', s')"
    using free_mem_returns [OF inv] by blast
  with free_mem_keeps_inv [OF inv f] show ?thesis by blast
qed


subsection \<open>Allocation followed by release\<close>

lemma remove_inserted:
  assumes "\<forall>c \<in> set cs. chunk_id c \<noteq> chunk_id x"
  shows "remove_chunk (insert_at i x cs) (chunk_id x) = Some (x, cs)"
proof -
  have "remove_chunk (xs @ x # ys) (chunk_id x) = Some (x, xs @ ys)"
    if "\<forall>c \<in> set xs. chunk_id c \<noteq> chunk_id x" for xs ys
    using that by (induction xs) auto
  moreover have "\<forall>c \<in> set (take i cs). chunk_id c \<noteq> chunk_id x"
    using assms by (auto dest: in_set_takeD)
  ultimately show ?thesis by (simp add: insert_at_def)
qed

lemma update_node_twice:
  "mem_type n = mem_type m \<Longrightarrow> update_node (update_node ns n) m = update_node ns m"
  by (induction ns) auto

text \<open>releasing a chunk that was just allocated undoes the allocation: the region's chunks and its
  free bytes are as before, and only the id counter has moved on.  The id must not be in use, which
  holds until the 24-bit counter wraps.\<close>

theorem free_after_alloc:
  assumes "kmm_inv s" "alloc_mem k s req = Some (0, req', s')"
    and "\<forall>c \<in> set (chunks_of s (req_type req)). chunk_id c \<noteq> req_chunk_id req'"
  shows "\<exists>n. find_node (mmr_head s) (req_type req) = Some n \<and>
    free_mem s' req' = Some (0, req',
      s\<lparr>mmr_head := update_node (mmr_head s) (n\<lparr>max_chunk := max_chunk n + 1\<rparr>)\<rparr>)"
proof -
  obtain n a i where n: "find_node (mmr_head s) (req_type req) = Some n"
      "req_size req \<le> available_size n" "place_chunk n (req_size req) = Some (a, i)"
      "req' = req\<lparr>req_chunk_ofs := a,
                  req_chunk_id := (max_chunk n AND 0x00FFFFFF) OR push_bit 24 (req_type req)\<rparr>"
      "s' = s\<lparr>mmr_head := update_node (mmr_head s) (chunk_added n i a (req_size req) (req_type req))\<rparr>"
    by (rule alloc_mem_success [OF assms(1,2)])
  let ?n = "chunk_added n i a (req_size req) (req_type req)"
  let ?x = "new_chunk a (req_size req) (req_chunk_id req')"
  have t: "mem_type ?n = req_type req"
    using find_node_SomeD [OF n(1)] by (simp add: chunk_added_def)
  have "find_node (mmr_head s') (req_type req) = Some ?n"
    using find_node_update [of "mmr_head s" ?n n] n(1,5) t by simp
  moreover have "remove_chunk (chunk_list ?n) (req_chunk_id req') = Some (?x, chunk_list n)"
    using remove_inserted [of "chunk_list n" ?x i] assms(3) n(1,4)
    by (simp add: chunk_added_def new_chunk_def chunks_of_def)
  moreover have "mm_list_lock s' = False" "mm_list_lock s = False"
    using assms(1) n(5) by (auto simp: kmm_inv_def)
  ultimately have "free_mem s' req' = Some (0, req',
      s\<lparr>mmr_head := update_node (mmr_head s) (n\<lparr>max_chunk := max_chunk n + 1\<rparr>)\<rparr>)"
    using n(4,5) t
    by (simp add: free_mem_def spin_lock_def spin_unlock_def Let_def update_node_twice)
      (simp add: chunk_added_def new_chunk_def)
  with n(1) show ?thesis by blast
qed

theorem free_after_alloc_witness:
  "\<exists>n. find_node (mmr_head demo_kmm) XMEM_PL_DDR = Some n \<and>
     free_mem demo_kmm1 (demo_req\<lparr>req_chunk_ofs := 0x80000000, req_chunk_id := 0x1000001\<rparr>) =
       Some (0, demo_req\<lparr>req_chunk_ofs := 0x80000000, req_chunk_id := 0x1000001\<rparr>,
         demo_kmm\<lparr>mmr_head := update_node (mmr_head demo_kmm) (n\<lparr>max_chunk := max_chunk n + 1\<rparr>)\<rparr>)"
  using free_after_alloc [OF demo_kmm_inv demo_alloc]
  by (simp add: demo_req_def chunks_of_def demo_kmm_def demo_state_def XMEM_PL_DDR_def)

subsection \<open>The file operations\<close>

lemma foldl_avail:
  assumes "unat a + used_size cs < 2 ^ 64"
  shows "unat (foldl (\<lambda>a c. a + chunk_size c) a cs) = unat a + used_size cs"
  using assms
proof (induction cs arbitrary: a)
  case (Cons c cs)
  then have "unat (a + chunk_size c) = unat a + unat (chunk_size c)"
    by (intro unat_add_no_wrap) (simp add: used_size_def)
  then show ?case using Cons by (simp add: used_size_def)
qed (simp add: used_size_def)

lemma free_all_chunks_ok:
  assumes "node_ok n"
  shows "node_ok (free_all_chunks n) \<and> available_size (free_all_chunks n) = mem_size n"
proof -
  have "unat (foldl (\<lambda>a c. a + chunk_size c) (available_size n) (chunk_list n)) = unat (mem_size n)"
    using assms foldl_avail [of "available_size n" "chunk_list n"]
    by (simp add: node_ok_def)
  then show ?thesis using assms
    by (auto simp: node_ok_def free_all_chunks_def used_size_def word_unat_eq_iff)
qed

text \<open>the last close of the device gives every byte of every region back: no chunk is left, also
  none that the kernel allocated with \<open>xib_kmm_alloc_mem\<close>, and the invariant holds.  While other
  files are open, closing changes nothing but the count.\<close>

theorem xib_close_frees_all:
  assumes "kmm_inv s"
  shows "\<exists>s'. xib_close s = Some (0, s') \<and> kmm_inv s' \<and>
    (file_open_cnt s = 1 \<longrightarrow>
       (\<forall>n \<in> set (mmr_head s'). chunk_list n = [] \<and> available_size n = mem_size n)) \<and>
    (file_open_cnt s \<noteq> 1 \<longrightarrow> mmr_head s' = mmr_head s)"
proof -
  have eq: "file_open_cnt s - 1 \<noteq> 0 \<longleftrightarrow> file_open_cnt s \<noteq> 1" by auto
  show ?thesis
  proof (cases "file_open_cnt s = 1")
    case False
    with assms eq show ?thesis by (simp add: xib_close_def kmm_inv_def)
  next
    case True
    with assms show ?thesis
      by (auto simp: xib_close_def kmm_inv_def spin_lock_def spin_unlock_def free_all_chunks_ok)
        (auto simp: free_all_chunks_def dest: free_all_chunks_ok)
  qed
qed

theorem xib_close_frees_all_witness:
  "\<exists>s'. xib_close demo_kmm = Some (0, s') \<and>
    (\<forall>n \<in> set (mmr_head s'). chunk_list n = [] \<and> available_size n = mem_size n)"
  using xib_close_frees_all [OF demo_kmm_inv] by (auto simp: demo_kmm_def demo_state_def)

text \<open>the free command of \<open>xib_ioctl\<close> reports success for a chunk that does not exist: the error
  of \<open>free_mem\<close> is overwritten by the result of \<open>copy_to_user\<close>.\<close>

theorem xib_ioctl_free_hides_error:
  "free_mem demo_kmm (demo_req\<lparr>req_chunk_id := 7\<rparr>) = Some (- EFAULT, demo_req\<lparr>req_chunk_id := 7\<rparr>, demo_kmm) \<and>
   xib_ioctl \<lparr>access_ok = True, env_kmalloc_ok = True, copy_to_user = 0\<rparr> demo_kmm XMM_FREE_OPC
     (demo_req\<lparr>req_chunk_id := 7\<rparr>) =
   Some (0, InfoReply (demo_req\<lparr>req_chunk_id := 7\<rparr>), demo_kmm)"
proof -
  have f: "free_mem demo_kmm (demo_req\<lparr>req_chunk_id := 7\<rparr>) =
      Some (- EFAULT, demo_req\<lparr>req_chunk_id := 7\<rparr>, demo_kmm)"
    by (simp add: free_mem_def demo_kmm_def demo_defs)
  then show ?thesis by (simp add: xib_ioctl_def ioctl_defs reply_def)
qed

text \<open>a command of another driver, or one with a number above the known ones, or a buffer the
  caller may not access, is refused and changes nothing; the same holds for a failed allocation.\<close>

theorem xib_ioctl_refuses:
  assumes "kmm_inv s" "xib_ioctl e s cmd req = Some (r, rep, s')" "r < 0"
  shows "s' = s \<and> rep = NoReply \<and> r \<in> {- ENOTTY, - EFAULT, - ENOMEM}"
proof -
  have alloc: "a = - ENOMEM \<and> q = req \<and> t = s" if "alloc_mem k s req = Some (a, q, t)" "a \<noteq> 0" for k a q t
    using alloc_mem_failure [OF assms(1) that] .
  show ?thesis
    using assms(2,3)
    by (auto simp: xib_ioctl_def reply_def bind_eq_Some_conv dest: alloc split: if_splits prod.splits)
qed

theorem xib_ioctl_refuses_witness:
  "\<exists>r rep s'. xib_ioctl \<lparr>access_ok = True, env_kmalloc_ok = True, copy_to_user = 0\<rparr> demo_kmm
     0xC0204E00 demo_req = Some (r, rep, s') \<and> s' = demo_kmm \<and> r < 0"
proof -
  have "xib_ioctl \<lparr>access_ok = True, env_kmalloc_ok = True, copy_to_user = 0\<rparr> demo_kmm 0xC0204E00 demo_req =
      Some (- ENOTTY, NoReply, demo_kmm)"
    by (simp add: xib_ioctl_def ioctl_defs)
  with xib_ioctl_refuses [OF demo_kmm_inv this] show ?thesis by simp
qed

text \<open>the size an exported allocation asks for is the caller's size rounded up to whole pages.\<close>

theorem page_round_spec:
  assumes "unat sz + 4095 < 2 ^ 64"
  shows "unat (page_round sz) = (unat sz + 4095) div 4096 * 4096"
proof -
  have low: "sz AND 0xFFF = take_bit 12 sz" by (simp add: take_bit_eq_mask mask_eq_exp_minus_1)
  then have m: "unat (sz AND 0xFFF) = unat sz mod 4096" by (simp add: unsigned_take_bit_eq take_bit_eq_mod unat_mod)
  have split: "sz = (sz AND NOT 0xFFF) + (sz AND 0xFFF)" by (rule and_not_plus_and)
  have h: "sz AND NOT 0xFFF = sz - (sz AND 0xFFF)" using split by (metis add_diff_cancel_right')
  have le: "unat (sz AND 0xFFF) \<le> unat sz" using m by simp
  have u: "unat (sz AND NOT 0xFFF) = unat sz - unat sz mod 4096" unfolding h using le m by (simp add: unat_sub_le)
  have dm: "unat sz = 4096 * (unat sz div 4096) + unat sz mod 4096" by simp
  show ?thesis
  proof (cases "unat sz mod 4096 = 0")
    case True
    then have "sz AND 0xFFF = 0" using m by (simp flip: unat_eq_0)
    moreover obtain q where "unat sz = 4096 * q" using True by auto
    ultimately show ?thesis by (simp add: page_round_def PAGE_SIZE_def)
  next
    case False
    then have ne: "sz AND 0xFFF \<noteq> 0" using m by (simp flip: unat_eq_0)
    have "unat ((sz AND NOT 0xFFF) + 0x1000) = unat sz - unat sz mod 4096 + 4096"
      using u assms False by (subst unat_add_no_wrap) auto
    moreover have "(unat sz + 4095) div 4096 = unat sz div 4096 + 1"
      using False by (rule div_round_up_4096)
    moreover have "unat sz - unat sz mod 4096 = unat sz div 4096 * 4096"
      by (simp add: minus_mod_eq_div_mult)
    ultimately show ?thesis using ne by (simp add: page_round_def PAGE_SIZE_def)
  qed
qed

theorem page_round_spec_witness: "unat (page_round 5000) = (unat (5000::u64) + 4095) div 4096 * 4096"
  by (rule page_round_spec) simp

subsection \<open>Set-up\<close>

lemma add_node_available:
  assumes "add_node e s t base sz res dev acc = (0, s')" "t < XMEM_MAX_MEM_TYPES"
  shows "is_xib_memory_available s' t \<and> (acc \<longrightarrow> get_xib_mem_accessible_status s' t)"
proof -
  have t: "unat t < 32" using assms(2) by (simp add: mem_type_defs word_less_nat_alt)
  have "(x OR push_bit (unat t) 1) AND push_bit (unat t) 1 \<noteq> 0" for x :: u32
  proof -
    have "bit ((x OR push_bit (unat t) 1) AND push_bit (unat t) 1) (unat t)"
      using t by (simp add: bit_simps)
    then show ?thesis by (metis bit_0_eq bot_fun_def bot_bool_def)
  qed
  then show ?thesis
    using assms
    by (auto simp: add_node_def Let_def is_xib_memory_available_def get_xib_mem_accessible_status_def
        not_less split: option.splits if_splits)
qed

lemma add_node_inv:
  assumes "kmm_inv s" "unat base + unat sz < 2 ^ 64"
  shows "kmm_inv (snd (add_node e s t base sz res dev acc))"
  using assms
  by (auto simp: add_node_def Let_def kmm_inv_def node_ok_def used_size_def split: option.split)

lemma pci_never_added: "snd (xib_pci_ddr_init g e s np) = s"
  by (auto simp: xib_pci_ddr_init_def add_node_def split: option.split)

lemma probe_error_registers_nothing:
  assumes "xib_kmm_probe e s = (r, c, s')" "r \<noteq> 0"
  shows "c = no_chrdev \<and> s' = s"
  using assms by (auto simp: xib_kmm_probe_def no_chrdev_def Let_def split: if_splits)

lemma probe_without_device_succeeds:
  assumes "rnic_node e" "chrdev_region_ok e" "cdev_alloc_ok e" "cdev_add_ok e" "class_create_ok e"
    "\<not> device_create_ok e"
  shows "xib_kmm_probe e s = (0, no_chrdev, init_regions e s)"
  using assms by (simp add: xib_kmm_probe_def no_chrdev_def)

text \<open>a page fault at the \<open>k\<close>-th page of a region is answered with the \<open>k\<close>-th page of the region's
  page array; the address one past the region is accepted too, and indexes one past the array.\<close>

theorem xkmm_get_page_info_index:
  assumes "unat (base_addr n) + 4096 * np < 2 ^ 64" "mem_size n = of_nat (4096 * np)"
    and "np < 2 ^ 32" "k \<le> np"
  shows "xkmm_get_page_info (n # ns) (base_addr n + of_nat (4096 * k)) = Some (pages n, of_nat k)"
proof -
  have z: "unat (of_nat (4096 * k) :: u64) = 4096 * k" "unat (of_nat (4096 * np) :: u64) = 4096 * np"
    using assms by (auto simp: unat_of_nat simp del: of_nat_mult)
  have le: "base_addr n \<le> base_addr n + of_nat (4096 * k)"
    "base_addr n + of_nat (4096 * k) \<le> base_addr n + mem_size n"
    using assms z by (simp_all add: word_le_nat_alt unat_add_no_wrap del: of_nat_mult)
  have "4096 * k + 4095 < 2 ^ 64" using assms(3,4) by simp
  then have "unat ((of_nat (4096 * k) + 4095 :: u64) div 4096) = k"
    using z(1) by (simp add: unat_div unat_add_no_wrap del: of_nat_mult)
  then have "(ucast ((of_nat (4096 * k) + 4095 :: u64) div 4096) :: u32) = of_nat k"
    by (metis of_nat_unat)
  then show ?thesis using le by (simp add: PAGE_SIZE_def del: of_nat_mult)
qed

theorem xkmm_get_page_info_index_witness:
  "xkmm_get_page_info [\<lparr>mem_type = XMEM_BRAM, base_addr = 0x91000000, pages = [1, 2], base_va = 0,
       mem_size = 0x2000, available_size = 0x2000, max_chunk = 1, chunk_list = []\<rparr>] 0x91001000 =
     Some ([1, 2], 1)"
  using xkmm_get_page_info_index [of "\<lparr>mem_type = XMEM_BRAM, base_addr = 0x91000000, pages = [1, 2],
    base_va = 0, mem_size = 0x2000, available_size = 0x2000, max_chunk = 1, chunk_list = []\<rparr>" 2 1 "[]"]
  by simp

end
