(* ===== verification/Xib_Mem.thy ===== *)
theory Xib_Mem
  imports Range_Alloc Xib_Kmm
begin

text \<open>
  The RDMA driver's own memory managers, \<open>recipes-modules/xib-module/files/mem.c\<close>: first-fit
  allocators over sorted free lists, for the block RAMs and the external DDR, and the routing of
  coherent allocations between them and the kernel's DMA allocator.  Kernel lists are HOL lists in
  list order; \<open>kzalloc\<close> and the DMA allocator are arguments.  The file proves that an allocation
  takes free addresses only, that a release gives back exactly its range where the merge test is
  right, and interprets the contract of \<open>Range_Alloc\<close> on the managers.
\<close>

subsection \<open>Data\<close>

record mem_container =
  phy_addr :: u64
  cont_size :: u64

record mem_mgr_info =
  mem_free :: "mem_container list"
  mem_alloc :: "mem_container list"
  free_mem_size :: u64
  used_mem :: u64
  tot_mem :: u64
  mem_base_p :: u64
  mem_base_va :: u64

definition BRAM_ALLOC_UNIT :: u64 where "BRAM_ALLOC_UNIT = 4096"
definition BRAM_CTRL_CNT :: nat where "BRAM_CTRL_CNT = 2"

subsection \<open>Release\<close>

text \<open>\<open>free_alloc_table\<close>: the size of the removed entry and the rest of the table.\<close>

fun free_alloc_table :: "u64 \<Rightarrow> mem_container list \<Rightarrow> u64 \<times> mem_container list" where
  "free_alloc_table addr [] = (0, [])"
| "free_alloc_table addr (c # cs) =
     (if phy_addr c = addr then (cont_size c, cs)
      else let (sz, cs') = free_alloc_table addr cs in (sz, c # cs'))"

text \<open>The result of \<open>is_mem_overlapped\<close>: the free list, which the scan may already have changed, and
  for \<open>false\<close> the position of \<open>*pos\<close> in it.\<close>

datatype overlap_result = Overlapped "mem_container list" | NotOverlapped "mem_container list" "nat option"

text \<open>The loop.  \<open>ds\<close> are the containers already passed (\<open>*pos\<close> is the last of them), \<open>merged\<close> is
  \<open>addr_merged\<close>.\<close>

fun overlap_scan :: "u64 \<Rightarrow> u64 \<Rightarrow> mem_container list \<Rightarrow> mem_container list \<Rightarrow> bool \<Rightarrow> overlap_result" where
  "overlap_scan addr sz ds [] merged =
     NotOverlapped ds (if merged \<or> ds = [] then None else Some (length ds - 1))"
| "overlap_scan addr sz ds (c # cs) merged =
     (if phy_addr c \<le> addr \<and> phy_addr c + cont_size c > addr then Overlapped (ds @ c # cs)
      else if merged then
        (let p = last ds
         in if phy_addr p + cont_size p = phy_addr c
            then NotOverlapped (butlast ds @ p\<lparr>cont_size := cont_size p + cont_size c\<rparr> # cs) None
            else NotOverlapped (ds @ c # cs) None)
      else if addr < phy_addr c then
        (if addr + sz = phy_addr c
         then overlap_scan addr sz (ds @ [c\<lparr>phy_addr := addr, cont_size := cont_size c + sz\<rparr>]) cs True
         else NotOverlapped (ds @ c # cs) (Some (length ds)))
      else if addr = phy_addr c + sz
        then overlap_scan addr sz (ds @ [c\<lparr>cont_size := cont_size c + sz\<rparr>]) cs True
      else overlap_scan addr sz (ds @ [c]) cs False)"

definition is_mem_overlapped :: "mem_container list \<Rightarrow> u64 \<Rightarrow> u64 \<Rightarrow> overlap_result" where
  "is_mem_overlapped head addr sz = overlap_scan addr sz [] head False"

text \<open>The end of \<open>free_mem_alloc\<close>, at \<open>done\<close>.\<close>

definition free_done :: "mem_mgr_info \<Rightarrow> mem_container list \<Rightarrow> u64 \<Rightarrow> u64 \<Rightarrow> mem_mgr_info" where
  "free_done mgr fl addr sz =
     mgr\<lparr>mem_free := fl, free_mem_size := free_mem_size mgr + sz,
         mem_alloc := snd (free_alloc_table addr (mem_alloc mgr))\<rparr>"

definition free_mem_alloc :: "bool \<Rightarrow> mem_mgr_info \<Rightarrow> u64 \<Rightarrow> u64 \<Rightarrow> int \<times> mem_mgr_info" where
  "free_mem_alloc kzalloc_ok mgr addr sz =
     (let tmp = \<lparr>phy_addr = addr, cont_size = sz\<rparr>
      in if tot_mem mgr < free_mem_size mgr + sz then (- EFAULT, mgr)
         else if \<not> kzalloc_ok then (- ENOMEM, mgr)
         else if mem_free mgr = [] then (0, free_done mgr [tmp] addr sz)
         else case is_mem_overlapped (mem_free mgr) addr sz of
                Overlapped fl \<Rightarrow> (- EFAULT, mgr\<lparr>mem_free := fl\<rparr>)
              | NotOverlapped fl None \<Rightarrow> (0, free_done mgr fl addr sz)
              | NotOverlapped fl (Some i) \<Rightarrow>
                  if addr < phy_addr (fl ! i) then (0, free_done mgr (insert_at i tmp fl) addr sz)
                  else (0, free_done mgr (insert_at (Suc i) tmp fl) addr sz))"

subsection \<open>Allocation\<close>

definition mgr_has_memory :: "mem_mgr_info \<Rightarrow> u64 \<Rightarrow> bool" where
  "mgr_has_memory mgr sz \<longleftrightarrow> free_mem_size mgr \<ge> sz"

definition get_mem_ofs :: "mem_mgr_info \<Rightarrow> u64 \<Rightarrow> u32" where
  "get_mem_ofs mgr addr = ucast (mem_base_p mgr - addr)"

text \<open>\<open>round_up(size, 256)\<close> on a \<open>u32\<close>.\<close>

definition round_up_256 :: "u32 \<Rightarrow> u32" where
  "round_up_256 n = ((n - 1) OR 0xFF) + 1"

text \<open>The search for the first container that is large enough and what becomes of it: the address, the
  size taken and the new free list.\<close>

fun first_fit :: "u64 \<Rightarrow> mem_container list \<Rightarrow> (u64 \<times> u64 \<times> mem_container list) option" where
  "first_fit sz [] = None"
| "first_fit sz (c # cs) =
     (if cont_size c \<ge> sz then
        (if cont_size c - sz \<ge> BRAM_ALLOC_UNIT
         then Some (phy_addr c, sz,
                c\<lparr>phy_addr := phy_addr c + sz, cont_size := cont_size c - sz\<rparr> # cs)
         else Some (phy_addr c, cont_size c, cs))
      else map_option (\<lambda>(a, n, cs'). (a, n, c # cs')) (first_fit sz cs))"

text \<open>The size recorded and subtracted is a \<open>u32\<close>: it is cut to 32 bits when a whole container is
  taken.\<close>

definition mgr_alloc_mem :: "bool \<Rightarrow> mem_mgr_info \<Rightarrow> u32 \<Rightarrow> int \<times> u64 option \<times> mem_mgr_info" where
  "mgr_alloc_mem kzalloc_ok mgr size0 =
     (let sz = round_up_256 size0
      in if \<not> mgr_has_memory mgr (ucast sz) then (- ENOMEM, None, mgr)
         else case first_fit (ucast sz) (mem_free mgr) of
                None \<Rightarrow> (- ENOMEM, None, mgr)
              | Some (addr, n, fl) \<Rightarrow>
                  if \<not> kzalloc_ok then (- ENOMEM, None, mgr)
                  else let n32 = ucast (ucast n :: u32) in
                    (0, Some addr,
                     mgr\<lparr>mem_free := fl, free_mem_size := free_mem_size mgr - n32,
                         mem_alloc := mem_alloc mgr @ [\<lparr>phy_addr = addr, cont_size = n32\<rparr>]\<rparr>))"

subsection \<open>The managers and the routing of allocations\<close>

record mem_state =
  bram_mem_mgr :: "mem_mgr_info option list"
  bram_ctrl_cnt :: u32
  eddr_mem_mgr :: "mem_mgr_info option"
  pl_alloc_dev :: bool

definition xib_register_pl_allocator :: "mem_state \<Rightarrow> int \<times> mem_state" where
  "xib_register_pl_allocator s = (0, s\<lparr>pl_alloc_dev := True\<rparr>)"

definition fresh_mgr :: "u64 \<Rightarrow> u64 \<Rightarrow> u64 \<Rightarrow> mem_mgr_info" where
  "fresh_mgr base va sz =
     \<lparr>mem_free = [], mem_alloc = [], free_mem_size = 0, used_mem = 0, tot_mem = sz,
      mem_base_p = base, mem_base_va = va\<rparr>"

text \<open>\<open>xib_bram_init\<close>: \<open>np\<close> is the first block RAM node with its resource (\<open>Inl\<close> the error of
  \<open>of_address_to_resource\<close>), \<open>va\<close> the address of the mapping.  \<open>None\<close> is a write past the array of
  managers.\<close>

definition mgr_bram_init ::
  "bool \<Rightarrow> bool \<Rightarrow> u64 \<Rightarrow> mem_state \<Rightarrow> (int + resource) option \<Rightarrow> (int \<times> mem_state) option" where
  "mgr_bram_init kmalloc_ok kzalloc_ok va s np =
     (let i = unat (bram_ctrl_cnt s);
          none = s\<lparr>bram_mem_mgr := (bram_mem_mgr s)[i := None]\<rparr>
      in if length (bram_mem_mgr s) \<le> i then None
         else case np of
           None \<Rightarrow> Some (- ENOMEM, none)
         | Some (Inl err) \<Rightarrow> Some (err, none)
         | Some (Inr r) \<Rightarrow>
             if \<not> kmalloc_ok then Some (- ENOMEM, none)
             else let (ret, mgr) = free_mem_alloc kzalloc_ok
                        (fresh_mgr (r_start r) va (resource_size r)) (r_start r) (resource_size r)
                  in Some (ret, s\<lparr>bram_mem_mgr := (bram_mem_mgr s)[i := Some mgr],
                                  bram_ctrl_cnt := bram_ctrl_cnt s + 1\<rparr>))"

text \<open>The external DDR's manager has no virtual base: the field is left as allocated (\<open>garbage\<close>).\<close>

definition mgr_ext_ddr_init ::
  "bool \<Rightarrow> bool \<Rightarrow> u64 \<Rightarrow> mem_state \<Rightarrow> reg_cells option \<Rightarrow> int \<times> mem_state" where
  "mgr_ext_ddr_init kmalloc_ok kzalloc_ok garbage s np =
     (case np of
        None \<Rightarrow> (- ENOMEM, s\<lparr>eddr_mem_mgr := None\<rparr>)
      | Some None \<Rightarrow> (- ENOMEM, s\<lparr>eddr_mem_mgr := None\<rparr>)
      | Some (Some (c0, c1, c2, c3)) \<Rightarrow>
          if \<not> kmalloc_ok then (- ENOMEM, s\<lparr>eddr_mem_mgr := None\<rparr>)
          else let start = cells64 c0 c1; sz = cells64 c2 c3;
                   (ret, mgr) = free_mem_alloc kzalloc_ok (fresh_mgr start garbage sz) start sz
               in (ret, s\<lparr>eddr_mem_mgr := Some mgr\<rparr>))"

definition is_mgr_addr_block :: "mem_mgr_info \<Rightarrow> u64 \<Rightarrow> bool" where
  "is_mgr_addr_block m addr \<longleftrightarrow> addr \<ge> mem_base_p m \<and> addr \<le> mem_base_p m + tot_mem m"

fun bram_index :: "mem_mgr_info option list \<Rightarrow> nat \<Rightarrow> u64 \<Rightarrow> nat option" where
  "bram_index [] i addr = None"
| "bram_index (m # ms) i addr =
     (case m of
        Some mgr \<Rightarrow> if is_mgr_addr_block mgr addr then Some i else bram_index ms (Suc i) addr
      | None \<Rightarrow> bram_index ms (Suc i) addr)"

text \<open>\<open>is_bram_addr\<close>; \<open>None\<close> is its \<open>-EINVAL\<close>.\<close>

definition is_bram_addr :: "mem_state \<Rightarrow> u64 \<Rightarrow> nat option" where
  "is_bram_addr s addr = bram_index (take (unat (bram_ctrl_cnt s)) (bram_mem_mgr s)) 0 addr"

definition xib_pl_present :: "mem_state \<Rightarrow> bool" where
  "xib_pl_present s = pl_alloc_dev s"

datatype alloc_device = DevPl | DevPs

definition xib_get_alloc_dev :: "string \<Rightarrow> mem_state \<Rightarrow> alloc_device option" where
  "xib_get_alloc_dev from s =
     (if strcaseeq from ''pl'' then Some (if pl_alloc_dev s then DevPl else DevPs)
      else if strcaseeq from ''ps'' then Some DevPs
      else None)"

text \<open>\<open>strstr\<close>: the position of the first occurrence.\<close>

fun find_sub :: "string \<Rightarrow> string \<Rightarrow> nat option" where
  "find_sub pat [] = (if pat = [] then Some 0 else None)"
| "find_sub pat (c # cs) =
     (if take (length pat) (c # cs) = pat then Some 0 else map_option Suc (find_sub pat cs))"

text \<open>The number of the block RAM: \<open>bram\<close> is the first; otherwise the last character, as a digit, minus
  one.  \<open>None\<close> is a read behind the string (\<open>bram\<close> not at the start), \<open>Some None\<close> a conversion
  error.\<close>

definition bram_num :: "string \<Rightarrow> nat \<Rightarrow> int option option" where
  "bram_num from pos =
     (if from = ''bram'' then Some (Some 0)
      else if pos \<noteq> 0 then None
      else let d = of_char (last from) :: nat
           in if 48 \<le> d \<and> d \<le> 57 then Some (Some (int d - 48 - 1)) else Some None)"

type_synonym dma_alloc = "alloc_device \<Rightarrow> u64 \<Rightarrow> (u64 \<times> u64) option"

definition dma_fallback :: "dma_alloc \<Rightarrow> alloc_device option \<Rightarrow> u64 \<Rightarrow> u64 \<times> u64 option" where
  "dma_fallback dma dev len =
     (case dev of
        None \<Rightarrow> (0, None)
      | Some d \<Rightarrow> (case dma d len of None \<Rightarrow> (0, None) | Some (va, pa) \<Rightarrow> (va, Some pa)))"

text \<open>The result: the virtual address (0 is \<open>NULL\<close>) and the bus address stored to \<open>*dma_handle\<close>.  The
  outer \<open>None\<close> is an index outside the array of managers, or a manager that is \<open>NULL\<close>.\<close>

definition xib_alloc_coherent ::
  "dma_alloc \<Rightarrow> bool \<Rightarrow> mem_state \<Rightarrow> string \<Rightarrow> u64 \<Rightarrow> ((u64 \<times> u64 option) \<times> mem_state) option" where
  "xib_alloc_coherent dma kzalloc_ok s from len =
     (case find_sub ''bram'' from of
        None \<Rightarrow> Some (dma_fallback dma (xib_get_alloc_dev from s) len, s)
      | Some pos \<Rightarrow> do {
          num \<leftarrow> bram_num from pos;
          case num of
            None \<Rightarrow> Some ((0, None), s)
          | Some n \<Rightarrow>
              if n < 0 \<or> int (length (bram_mem_mgr s)) \<le> n then None
              else do {
                mgr \<leftarrow> bram_mem_mgr s ! nat n;
                let (ret, pa, mgr') = mgr_alloc_mem kzalloc_ok mgr (ucast len);
                if ret < 0 then
                  Some (dma_fallback dma
                    (case xib_get_alloc_dev ''pl'' s of
                       None \<Rightarrow> xib_get_alloc_dev ''ps'' s | Some d \<Rightarrow> Some d) len, s)
                else do {
                  a \<leftarrow> pa;
                  Some ((mem_base_va mgr' + ucast (get_mem_ofs mgr' a), Some a),
                        s\<lparr>bram_mem_mgr := (bram_mem_mgr s)[nat n := Some mgr']\<rparr>)}}})"

definition xib_alloc_eddr_mem :: "bool \<Rightarrow> mem_state \<Rightarrow> string \<Rightarrow> u32 \<Rightarrow> u64 \<times> u64 option \<times> mem_state" where
  "xib_alloc_eddr_mem kzalloc_ok s from len =
     (if find_sub ''eddr'' from = None then (0, None, s)
      else case eddr_mem_mgr s of
             None \<Rightarrow> (0, None, s)
           | Some mgr \<Rightarrow>
               (case mgr_alloc_mem kzalloc_ok mgr len of
                  (ret, Some pa, mgr') \<Rightarrow> (pa OR 0xFF0000000000, Some pa, s\<lparr>eddr_mem_mgr := Some mgr'\<rparr>)
                | (ret, None, mgr') \<Rightarrow> (0, None, s)))"

text \<open>Where \<open>xib_free_coherent\<close> gives memory back.\<close>

datatype free_route = ToBram nat | ToEddr | ToDma alloc_device | ToNone

definition dma_route :: "mem_state \<Rightarrow> bool \<Rightarrow> free_route" where
  "dma_route s virt_valid =
     (case xib_get_alloc_dev (if virt_valid then ''ps'' else ''pl'') s of
        Some dev \<Rightarrow> ToDma dev | None \<Rightarrow> ToNone)"

definition xib_free_coherent ::
  "bool \<Rightarrow> bool \<Rightarrow> mem_state \<Rightarrow> u64 \<Rightarrow> u64 \<Rightarrow> free_route \<times> mem_state" where
  "xib_free_coherent kzalloc_ok virt_valid s sz dma_handle =
     (case is_bram_addr s dma_handle of
        Some i \<Rightarrow>
          (ToBram i,
           (case bram_mem_mgr s ! i of
              Some mgr \<Rightarrow> s\<lparr>bram_mem_mgr := (bram_mem_mgr s)
                             [i := Some (snd (free_mem_alloc kzalloc_ok mgr dma_handle sz))]\<rparr>
            | None \<Rightarrow> s))
      | None \<Rightarrow>
          (case eddr_mem_mgr s of
             Some mgr \<Rightarrow>
               if is_mgr_addr_block mgr dma_handle
               then (ToEddr, s\<lparr>eddr_mem_mgr := Some (snd (free_mem_alloc kzalloc_ok mgr dma_handle sz))\<rparr>)
               else (dma_route s virt_valid, s)
           | None \<Rightarrow> (dma_route s virt_valid, s)))"

subsection \<open>The free list\<close>

text \<open>Containers in address order, not empty, without overlap, between \<open>lo\<close> and \<open>hi\<close>.\<close>

fun free_ok :: "nat \<Rightarrow> mem_container list \<Rightarrow> nat \<Rightarrow> bool" where
  "free_ok lo [] hi = (lo \<le> hi)"
| "free_ok lo (c # cs) hi =
     (lo \<le> unat (phy_addr c) \<and> 0 < unat (cont_size c) \<and>
      free_ok (unat (phy_addr c) + unat (cont_size c)) cs hi)"

definition cont_addrs :: "mem_container \<Rightarrow> nat set" where
  "cont_addrs c = {unat (phy_addr c)..<unat (phy_addr c) + unat (cont_size c)}"

definition free_addrs :: "mem_container list \<Rightarrow> nat set" where
  "free_addrs cs = (\<Union>c \<in> set cs. cont_addrs c)"

definition free_total :: "mem_container list \<Rightarrow> nat" where
  "free_total cs = sum_list (map (\<lambda>c. unat (cont_size c)) cs)"

definition mgr_ok :: "mem_mgr_info \<Rightarrow> bool" where
  "mgr_ok m \<longleftrightarrow>
     unat (mem_base_p m) + unat (tot_mem m) < 2 ^ 64 \<and> unat (tot_mem m) < 2 ^ 32 \<and>
     free_ok (unat (mem_base_p m)) (mem_free m) (unat (mem_base_p m) + unat (tot_mem m)) \<and>
     unat (free_mem_size m) = free_total (mem_free m)"

lemma free_simps [simp]:
  "free_addrs [] = {}" "free_addrs (c # cs) = cont_addrs c \<union> free_addrs cs"
  "free_addrs (xs @ ys) = free_addrs xs \<union> free_addrs ys"
  "free_total [] = 0" "free_total (c # cs) = unat (cont_size c) + free_total cs"
  "free_total (xs @ ys) = free_total xs + free_total ys"
  by (auto simp: free_addrs_def free_total_def)

lemma free_ok_bound: "free_ok lo cs hi \<Longrightarrow> lo + free_total cs \<le> hi"
  by (induction cs arbitrary: lo) fastforce+

lemma free_ok_mono: "free_ok lo cs hi \<Longrightarrow> lo' \<le> lo \<Longrightarrow> free_ok lo' cs hi"
  by (cases cs) auto

lemma free_ok_addrs: "free_ok lo cs hi \<Longrightarrow> free_addrs cs \<subseteq> {lo..<hi}"
proof (induction cs arbitrary: lo)
  case (Cons c cs)
  then have "free_addrs cs \<subseteq> {unat (phy_addr c) + unat (cont_size c)..<hi}"
    "unat (phy_addr c) + unat (cont_size c) \<le> hi"
    using free_ok_bound [of "unat (phy_addr c) + unat (cont_size c)" cs hi] by auto
  then show ?case using Cons.prems by (force simp: cont_addrs_def)
qed simp

lemma free_ok_append:
  "free_ok lo (xs @ ys) hi \<longleftrightarrow> (\<exists>m. free_ok lo xs m \<and> free_ok m ys hi)"
proof (induction xs arbitrary: lo)
  case Nil
  then show ?case by (auto intro: free_ok_mono)
qed auto

lemma free_ok_end:
  assumes "free_ok lo xs m" "lo \<le> e" "\<forall>c \<in> set xs. unat (phy_addr c) + unat (cont_size c) \<le> e"
  shows "free_ok lo xs e"
  using assms by (induction xs arbitrary: lo) auto

lemma first_fit_takes:
  assumes "free_ok lo cs hi" "hi < 2 ^ 64" "first_fit sz cs = Some (a, n, cs')"
  shows "unat sz \<le> unat n \<and> {unat a..<unat a + unat n} \<subseteq> free_addrs cs \<and>
    free_addrs cs' = free_addrs cs - {unat a..<unat a + unat n} \<and> free_ok lo cs' hi \<and>
    free_total cs = free_total cs' + unat n"
  using assms
proof (induction cs arbitrary: lo a n cs')
  case (Cons c cs)
  let ?p = "unat (phy_addr c)" and ?s = "unat (cont_size c)"
  have c: "lo \<le> ?p" "0 < ?s" "free_ok (?p + ?s) cs hi" using Cons.prems by auto
  have rest: "free_addrs cs \<subseteq> {?p + ?s..<hi}" using free_ok_addrs [OF c(3)] .
  have hi: "?p + ?s < 2 ^ 64" using free_ok_bound [OF c(3)] Cons.prems(2) by simp
  show ?case
  proof (cases "sz \<le> cont_size c")
    case fits: True
    then have s: "unat sz \<le> ?s" "unat (cont_size c - sz) = ?s - unat sz"
      by (auto simp: word_le_nat_alt unat_sub_le)
    show ?thesis
    proof (cases "cont_size c - sz \<ge> BRAM_ALLOC_UNIT")
      case True
      then have "4096 \<le> ?s - unat sz" using s by (simp add: BRAM_ALLOC_UNIT_def word_le_nat_alt)
      moreover have "unat (phy_addr c + sz) = ?p + unat sz" using s hi by (simp add: unat_add_no_wrap)
      ultimately show ?thesis
        using Cons.prems(3) fits True s c rest by (auto simp: cont_addrs_def)
    next
      case False
      then show ?thesis
        using Cons.prems(3) fits s c rest by (auto simp: cont_addrs_def intro: free_ok_mono)
    qed
  next
    case False
    then obtain ds where ds: "first_fit sz cs = Some (a, n, ds)" "cs' = c # ds"
      using Cons.prems(3) by auto
    note ih = Cons.IH [OF c(3) Cons.prems(2) ds(1)]
    then have "{unat a..<unat a + unat n} \<subseteq> {?p + ?s..<hi}" using rest by blast
    moreover have "cont_addrs c \<inter> {?p + ?s..<hi} = {}" by (auto simp: cont_addrs_def)
    ultimately have "{unat a..<unat a + unat n} \<inter> cont_addrs c = {}" by blast
    then show ?thesis using ih ds(2) c by auto
  qed
qed simp

subsection \<open>Release is exact where the merge test is right\<close>

text \<open>The test for merging with the container in front compares the address with that container's start
  plus the \<open>size being freed\<close>: it is right when such a container has exactly that size.\<close>

definition merge_guard :: "u64 \<Rightarrow> u64 \<Rightarrow> mem_container list \<Rightarrow> bool" where
  "merge_guard addr sz cs \<longleftrightarrow> (\<forall>c \<in> set cs. addr = phy_addr c + sz \<longrightarrow> cont_size c = sz)"

text \<open>The free list after \<open>free_mem_alloc\<close> when the scan does not report an overlap.\<close>

fun finish_free :: "u64 \<Rightarrow> u64 \<Rightarrow> overlap_result \<Rightarrow> mem_container list option" where
  "finish_free addr sz (Overlapped fl) = None"
| "finish_free addr sz (NotOverlapped fl None) = Some fl"
| "finish_free addr sz (NotOverlapped fl (Some i)) =
     Some (insert_at (if addr < phy_addr (fl ! i) then i else Suc i)
             \<lparr>phy_addr = addr, cont_size = sz\<rparr> fl)"

text \<open>A correct new free list for the old list \<open>cs\<close>.\<close>

definition released :: "nat \<Rightarrow> nat \<Rightarrow> u64 \<Rightarrow> u64 \<Rightarrow> mem_container list \<Rightarrow> mem_container list option \<Rightarrow> bool" where
  "released lo hi addr sz cs res =
     (\<exists>fl. res = Some fl \<and> free_ok lo fl hi \<and>
        free_addrs fl = free_addrs cs \<union> {unat addr..<unat addr + unat sz} \<and>
        free_total fl = free_total cs + unat sz)"

lemma free_ok_skip:
  assumes "free_ok lo cs hi" "{lo..<lo + n} \<inter> free_addrs cs = {}" "lo + n \<le> hi"
  shows "free_ok (lo + n) cs hi"
proof (cases cs)
  case (Cons c ds)
  have "lo + n \<le> unat (phy_addr c)"
  proof (rule ccontr)
    assume "\<not> ?thesis"
    then have "unat (phy_addr c) \<in> {lo..<lo + n} \<inter> free_addrs cs"
      using assms(1) Cons by (auto simp: cont_addrs_def)
    with assms(2) show False by simp
  qed
  then show ?thesis using assms(1) Cons by auto
qed (use assms in simp)

lemma merged_scan:
  assumes ok: "free_ok lo (ds @ p # cs) hi" "hi < 2 ^ 64" and a: "unat addr < unat (phy_addr p) + unat (cont_size p)"
  shows "\<exists>fl. finish_free addr sz (overlap_scan addr sz (ds @ [p]) cs True) = Some fl \<and>
    free_ok lo fl hi \<and> free_addrs fl = free_addrs (ds @ p # cs) \<and> free_total fl = free_total (ds @ p # cs)"
proof (cases cs)
  case Nil
  then show ?thesis using ok by simp
next
  case (Cons c cs')
  obtain m where m: "free_ok lo ds m" "free_ok m (p # c # cs') hi"
    using ok Cons by (auto simp: free_ok_append)
  have pe: "unat (phy_addr p + cont_size p) = unat (phy_addr p) + unat (cont_size p)"
    and le: "unat (phy_addr p) + unat (cont_size p) \<le> unat (phy_addr c)"
    and ce: "unat (phy_addr c) + unat (cont_size c) < 2 ^ 64"
    using m(2) ok(2) free_ok_bound [of "unat (phy_addr c) + unat (cont_size c)" cs' hi]
    by (auto simp: unat_add_no_wrap)
  have na: "\<not> phy_addr c \<le> addr" using a le by (simp add: word_le_nat_alt)
  show ?thesis
  proof (cases "phy_addr p + cont_size p = phy_addr c")
    case True
    then have e: "unat (phy_addr c) = unat (phy_addr p) + unat (cont_size p)" using pe by simp
    then have "unat (cont_size p + cont_size c) = unat (cont_size p) + unat (cont_size c)"
      using ce by (simp add: unat_add_no_wrap)
    then show ?thesis
      using Cons na True m e
      by (auto simp: free_ok_append cont_addrs_def add.assoc intro!: exI [of _ m])
  next
    case False
    then show ?thesis using Cons na ok(1) by simp
  qed
qed

lemma overlap_scan_released:
  assumes "free_ok lo (ds @ cs) hi" "hi < 2 ^ 64" "lo \<le> unat addr" "unat addr + unat sz \<le> hi" "0 < unat sz"
    and "\<forall>d \<in> set ds. unat (phy_addr d) + unat (cont_size d) \<le> unat addr"
    and "{unat addr..<unat addr + unat sz} \<inter> free_addrs cs = {}"
    and "merge_guard addr sz cs" "ds @ cs \<noteq> []"
  shows "released lo hi addr sz (ds @ cs) (finish_free addr sz (overlap_scan addr sz ds cs False))"
  using assms
proof (induction cs arbitrary: ds)
  case Nil
  let ?new = "\<lparr>phy_addr = addr, cont_size = sz\<rparr>"
  obtain es d where ds: "ds = es @ [d]" using Nil.prems(9) by (metis append_Nil2 rev_exhaust)
  have "\<not> addr < phy_addr (ds ! (length ds - 1))"
    using Nil.prems(6) ds by (auto simp: word_less_nat_alt not_less)
  then have "finish_free addr sz (overlap_scan addr sz ds [] False) = Some (ds @ [?new])"
    using ds by (simp add: insert_at_def)
  moreover have "free_ok lo ds (unat addr)" using free_ok_end [of lo ds hi] Nil.prems(1,3,6) by simp
  then have "free_ok lo (ds @ [?new]) hi"
    using Nil.prems(4,5) by (auto simp: free_ok_append intro!: exI [of _ "unat addr"])
  ultimately show ?case using Nil.prems by (auto simp: released_def cont_addrs_def)
next
  case (Cons c cs)
  let ?p = "unat (phy_addr c)" and ?s = "unat (cont_size c)" and ?new = "\<lparr>phy_addr = addr, cont_size = sz\<rparr>"
  obtain m where m: "free_ok lo ds m" "m \<le> ?p" "0 < ?s" "free_ok (?p + ?s) cs hi"
    using Cons.prems(1) by (auto simp: free_ok_append)
  have hi: "?p + ?s < 2 ^ 64" using free_ok_bound [OF m(4)] Cons.prems(2) by simp
  then have ce: "unat (phy_addr c + cont_size c) = ?p + ?s" by (simp add: unat_add_no_wrap)
  have upto: "free_ok lo ds (unat addr)" using free_ok_end [OF m(1) Cons.prems(3,6)] .
  have dis: "{unat addr..<unat addr + unat sz} \<inter> cont_addrs c = {}" using Cons.prems(7) by auto
  have "\<not> (unat addr < ?p + ?s \<and> ?p < unat addr + unat sz)"
  proof
    assume "unat addr < ?p + ?s \<and> ?p < unat addr + unat sz"
    then have "max (unat addr) ?p \<in> {unat addr..<unat addr + unat sz} \<inter> cont_addrs c"
      using m(3) Cons.prems(5) by (auto simp: cont_addrs_def)
    with dis show False by simp
  qed
  then consider (behind) "?p + ?s \<le> unat addr" | (before) "unat addr + unat sz \<le> ?p" by linarith
  then show ?case
  proof cases
    case behind
    then have t: "\<not> (phy_addr c \<le> addr \<and> addr < phy_addr c + cont_size c)" "\<not> addr < phy_addr c"
      using ce by (auto simp: word_less_nat_alt not_less)
    show ?thesis
    proof (cases "addr = phy_addr c + sz")
      case True
      with Cons.prems(8) have sz: "cont_size c = sz" by (simp add: merge_guard_def)
      let ?c = "c\<lparr>cont_size := cont_size c + sz\<rparr>"
      have a: "unat addr = ?p + ?s" using True sz ce by simp
      have cs: "unat (cont_size c + sz) = ?s + unat sz"
        using a sz Cons.prems(2,4) by (intro unat_add_no_wrap) simp
      have "free_ok (unat addr + unat sz) cs hi"
        using free_ok_skip [of "unat addr" cs hi "unat sz"] m(4) a Cons.prems(4,7) by auto
      then have ok: "free_ok lo (ds @ ?c # cs) hi"
        using m cs a by (auto simp: free_ok_append add.assoc intro!: exI [of _ m])
      have "unat addr < unat (phy_addr ?c) + unat (cont_size ?c)" using a cs Cons.prems(5) by simp
      from merged_scan [OF ok Cons.prems(2) this, of sz] show ?thesis
        using t True a cs by (auto simp: released_def cont_addrs_def add.assoc)
    next
      case False
      have "released lo hi addr sz ((ds @ [c]) @ cs)
          (finish_free addr sz (overlap_scan addr sz (ds @ [c]) cs False))"
        using Cons.prems behind by (intro Cons.IH) (auto simp: merge_guard_def)
      then show ?thesis using t False by simp
    qed
  next
    case before
    then have t: "\<not> phy_addr c \<le> addr" "addr < phy_addr c"
      using Cons.prems(5) by (auto simp: word_le_nat_alt word_less_nat_alt)
    have e: "unat (addr + sz) = unat addr + unat sz"
      using Cons.prems(2,4) by (intro unat_add_no_wrap) simp
    show ?thesis
    proof (cases "addr + sz = phy_addr c")
      case True
      let ?c = "c\<lparr>phy_addr := addr, cont_size := cont_size c + sz\<rparr>"
      have a: "?p = unat addr + unat sz" using True e by simp
      have cs: "unat (cont_size c + sz) = ?s + unat sz"
        using a hi by (intro unat_add_no_wrap) simp
      have ok: "free_ok lo (ds @ ?c # cs) hi"
        using upto m(3,4) cs a by (auto simp: free_ok_append ac_simps intro!: exI [of _ "unat addr"])
      have "unat addr < unat (phy_addr ?c) + unat (cont_size ?c)" using cs Cons.prems(5) by simp
      from merged_scan [OF ok Cons.prems(2) this, of sz] show ?thesis
        using t True a cs by (auto simp: released_def cont_addrs_def)
    next
      case False
      then have "finish_free addr sz (overlap_scan addr sz ds (c # cs) False) = Some (ds @ ?new # c # cs)"
        using t by (simp add: insert_at_def)
      moreover have "free_ok lo (ds @ ?new # c # cs) hi"
        using upto before m(3,4) Cons.prems(5)
        by (auto simp: free_ok_append intro!: exI [of _ "unat addr"])
      ultimately show ?thesis by (auto simp: released_def cont_addrs_def)
    qed
  qed
qed

definition mgr_free_addrs :: "mem_mgr_info \<Rightarrow> nat set" where
  "mgr_free_addrs m = free_addrs (mem_free m)"

text \<open>The addresses a manager owns.\<close>

definition in_mgr :: "mem_mgr_info \<Rightarrow> u64 \<Rightarrow> u64 \<Rightarrow> bool" where
  "in_mgr m addr sz \<longleftrightarrow> unat (mem_base_p m) \<le> unat addr \<and>
     unat addr + unat sz \<le> unat (mem_base_p m) + unat (tot_mem m)"

lemma free_mem_alloc_cases:
  assumes "free_mem_alloc k m addr sz = (0, m')"
  obtains fl where "m' = free_done m fl addr sz" "\<not> tot_mem m < free_mem_size m + sz"
    "mem_free m = [] \<and> fl = [\<lparr>phy_addr = addr, cont_size = sz\<rparr>] \<or>
     mem_free m \<noteq> [] \<and> finish_free addr sz (is_mem_overlapped (mem_free m) addr sz) = Some fl"
  using assms
  by (auto simp: free_mem_alloc_def Let_def split: if_splits overlap_result.splits option.splits)

lemma free_mem_alloc_releases:
  assumes ok: "mgr_ok m" and r: "in_mgr m addr sz" "0 < unat sz"
    and dis: "{unat addr..<unat addr + unat sz} \<inter> mgr_free_addrs m = {}"
    and g: "merge_guard addr sz (mem_free m)" and f: "free_mem_alloc k m addr sz = (0, m')"
  shows "mgr_ok m' \<and> mgr_free_addrs m' = mgr_free_addrs m \<union> {unat addr..<unat addr + unat sz}"
proof -
  let ?lo = "unat (mem_base_p m)" and ?hi = "unat (mem_base_p m) + unat (tot_mem m)"
  have m: "?hi < 2 ^ 64" "free_ok ?lo (mem_free m) ?hi" "unat (free_mem_size m) = free_total (mem_free m)"
    "unat (tot_mem m) < 2 ^ 32"
    using ok by (auto simp: mgr_ok_def)
  obtain fl where fl: "m' = free_done m fl addr sz"
      "mem_free m = [] \<and> fl = [\<lparr>phy_addr = addr, cont_size = sz\<rparr>] \<or>
       mem_free m \<noteq> [] \<and> finish_free addr sz (is_mem_overlapped (mem_free m) addr sz) = Some fl"
    using f by (rule free_mem_alloc_cases)
  have "released ?lo ?hi addr sz (mem_free m) (Some fl)"
  proof (cases "mem_free m = []")
    case True
    then show ?thesis using fl(2) r by (auto simp: released_def in_mgr_def cont_addrs_def)
  next
    case False
    then show ?thesis
      using overlap_scan_released [of ?lo "[]" "mem_free m" ?hi addr sz] m r g dis fl(2)
      by (auto simp: in_mgr_def mgr_free_addrs_def is_mem_overlapped_def)
  qed
  then have fl': "free_ok ?lo fl ?hi" "free_addrs fl = free_addrs (mem_free m) \<union> {unat addr..<unat addr + unat sz}"
      "free_total fl = free_total (mem_free m) + unat sz"
    by (auto simp: released_def)
  have "free_total fl \<le> unat (tot_mem m)" using free_ok_bound [OF fl'(1)] by simp
  then have "unat (free_mem_size m + sz) = free_total fl"
    using m(3,4) fl'(3) by (subst unat_add_no_wrap) auto
  then show ?thesis
    using fl(1) fl' m by (auto simp: mgr_ok_def free_done_def mgr_free_addrs_def)
qed

lemma mgr_alloc_mem_takes:
  assumes ok: "mgr_ok m" and a: "mgr_alloc_mem k m size0 = (0, Some addr, m')"
  shows "\<exists>n. cont_size (last (mem_alloc m')) = n \<and> unat (round_up_256 size0) \<le> unat n \<and>
    {unat addr..<unat addr + unat n} \<subseteq> mgr_free_addrs m \<and>
    mgr_free_addrs m' = mgr_free_addrs m - {unat addr..<unat addr + unat n} \<and> mgr_ok m'"
proof -
  let ?lo = "unat (mem_base_p m)" and ?hi = "unat (mem_base_p m) + unat (tot_mem m)"
  have m: "?hi < 2 ^ 64" "free_ok ?lo (mem_free m) ?hi" "unat (free_mem_size m) = free_total (mem_free m)"
    "unat (tot_mem m) < 2 ^ 32"
    using ok by (auto simp: mgr_ok_def)
  obtain n fl where ff: "first_fit (ucast (round_up_256 size0)) (mem_free m) = Some (addr, n, fl)"
      and m': "m' = m\<lparr>mem_free := fl, free_mem_size := free_mem_size m - ucast (ucast n :: u32),
                mem_alloc := mem_alloc m @ [\<lparr>phy_addr = addr, cont_size = ucast (ucast n :: u32)\<rparr>]\<rparr>"
    using a by (auto simp: mgr_alloc_mem_def Let_def split: if_splits option.splits)
  have t: "unat (round_up_256 size0) \<le> unat n" "{unat addr..<unat addr + unat n} \<subseteq> free_addrs (mem_free m)"
      "free_addrs fl = free_addrs (mem_free m) - {unat addr..<unat addr + unat n}"
      "free_ok ?lo fl ?hi" "free_total (mem_free m) = free_total fl + unat n"
    using first_fit_takes [OF m(2,1) ff] by auto
  have "unat n \<le> unat (tot_mem m)" using free_ok_bound [OF m(2)] t(5) by simp
  then have n32: "unat n < 2 ^ 32" using m(4) by simp
  have cut: "(ucast (ucast n :: u32) :: u64) = n"
    using unat_ucast_64_32 [OF n32] by (simp add: word_unat_eq_iff)
  have "unat (free_mem_size m - n) = free_total fl"
    using m(3) t(5) by (simp add: unat_sub_le)
  then show ?thesis
    using m' t m by (auto simp: cut mgr_ok_def mgr_free_addrs_def)
qed

text \<open>an allocation from a manager takes only free addresses, at least as many as asked for (rounded
  up to 256), and keeps the manager's accounts.\<close>

theorem mgr_alloc_mem_sound:
  assumes "mgr_ok m" "mgr_alloc_mem k m size0 = (0, Some addr, m')"
  shows "\<exists>n. unat (round_up_256 size0) \<le> n \<and> {unat addr..<unat addr + n} \<subseteq> mgr_free_addrs m \<and>
    mgr_free_addrs m' = mgr_free_addrs m - {unat addr..<unat addr + n} \<and> mgr_ok m'"
  using mgr_alloc_mem_takes [OF assms] by blast

text \<open>a release gives back exactly its range, merged with its neighbours or not, when no container
  that starts the freed size below the address has another size.\<close>

theorem free_mem_alloc_exact:
  assumes "mgr_ok m" "in_mgr m addr sz" "0 < unat sz"
    and "{unat addr..<unat addr + unat sz} \<inter> mgr_free_addrs m = {}"
    and "merge_guard addr sz (mem_free m)" "free_mem_alloc k m addr sz = (0, m')"
  shows "mgr_ok m' \<and> mgr_free_addrs m' = mgr_free_addrs m \<union> {unat addr..<unat addr + unat sz}"
  using assms by (rule free_mem_alloc_releases)

subsection \<open>The managers keep the contract of an allocator\<close>

definition mgr_alloc :: "u32 \<Rightarrow> mem_mgr_info \<Rightarrow> (nat \<times> nat \<times> mem_mgr_info) option" where
  "mgr_alloc sz m =
     (case mgr_alloc_mem True m sz of
        (r, Some a, m') \<Rightarrow> if r = 0 then Some (unat a, unat (cont_size (last (mem_alloc m'))), m') else None
      | (r, None, m') \<Rightarrow> None)"

text \<open>Releases that the merge test handles right.\<close>

definition mgr_release :: "mem_mgr_info \<Rightarrow> nat \<Rightarrow> nat \<Rightarrow> mem_mgr_info option" where
  "mgr_release m a n =
     (let addr = of_nat a; sz = of_nat n
      in if unat addr = a \<and> unat sz = n \<and> 0 < n \<and> in_mgr m addr sz \<and> merge_guard addr sz (mem_free m)
         then (case free_mem_alloc True m addr sz of (r, m') \<Rightarrow> if r = 0 then Some m' else None)
         else None)"

interpretation mgr: range_allocator mgr_ok mgr_free_addrs mgr_alloc mgr_release
proof
  fix s r a n s'
  assume ok: "mgr_ok s" and al: "mgr_alloc r s = Some (a, n, s')"
  then obtain addr where addr: "mgr_alloc_mem True s r = (0, Some addr, s')" "a = unat addr"
      "n = unat (cont_size (last (mem_alloc s')))"
    by (auto simp: mgr_alloc_def split: prod.splits option.splits if_splits)
  from mgr_alloc_mem_takes [OF ok addr(1)] addr(2,3)
  show "mgr_ok s'" and "{a..<a + n} \<subseteq> mgr_free_addrs s \<and> mgr_free_addrs s' = mgr_free_addrs s - {a..<a + n}"
    by auto
next
  fix s a n s'
  assume ok: "mgr_ok s" and dis: "{a..<a + n} \<inter> mgr_free_addrs s = {}" and rel: "mgr_release s a n = Some s'"
  define addr sz where "addr = (of_nat a :: u64)" and "sz = (of_nat n :: u64)"
  have w: "unat addr = a" "unat sz = n" "0 < n" "in_mgr s addr sz" "merge_guard addr sz (mem_free s)"
      "free_mem_alloc True s addr sz = (0, s')"
    using rel by (auto simp: mgr_release_def Let_def addr_def sz_def split: if_splits prod.splits)
  from free_mem_alloc_releases [OF ok w(4) _ _ w(5,6)] w(1-3) dis
  show "mgr_ok s'" and "mgr_free_addrs s' = mgr_free_addrs s \<union> {a..<a + n}" by auto
qed


subsection \<open>A manager with 64 KiB\<close>

definition demo_cont :: "u64 \<Rightarrow> u64 \<Rightarrow> mem_container" where
  "demo_cont a n = \<lparr>phy_addr = a, cont_size = n\<rparr>"

definition demo_mgr :: "mem_container list \<Rightarrow> mem_container list \<Rightarrow> u64 \<Rightarrow> mem_mgr_info" where
  "demo_mgr fl al fr = \<lparr>mem_free = fl, mem_alloc = al, free_mem_size = fr, used_mem = 0,
     tot_mem = 0x10000, mem_base_p = 0x91000000, mem_base_va = 0xFFFF000000000000\<rparr>"

definition demo_bram :: mem_mgr_info where
  "demo_bram = demo_mgr [demo_cont 0x91000000 0x10000] [] 0x10000"

definition demo_bram1 :: mem_mgr_info where
  "demo_bram1 = demo_mgr [demo_cont 0x91001000 0xF000] [demo_cont 0x91000000 0x1000] 0xF000"

lemmas demo_mem_defs = demo_cont_def demo_mgr_def mgr_alloc_mem_def mgr_has_memory_def round_up_256_def
  BRAM_ALLOC_UNIT_def free_mem_alloc_def is_mem_overlapped_def free_done_def insert_at_def

lemma demo_bram_ok: "mgr_ok demo_bram"
  by (simp add: mgr_ok_def demo_bram_def demo_mgr_def demo_cont_def)

lemma demo_bram_alloc:
  "mgr_alloc_mem True demo_bram 0x1000 = (0, Some 0x91000000, demo_bram1)"
  by (simp add: demo_bram_def demo_bram1_def demo_mem_defs Let_def)

lemma demo_bram1_ok: "mgr_ok demo_bram1"
  by (simp add: mgr_ok_def demo_bram1_def demo_mgr_def demo_cont_def)

lemma demo_bram_free: "free_mem_alloc True demo_bram1 0x91000000 0x1000 = (0, demo_bram)"
  by (simp add: demo_bram_def demo_bram1_def demo_mem_defs Let_def)

theorem mgr_alloc_mem_sound_witness:
  "\<exists>n. unat (round_up_256 0x1000) \<le> n \<and> mgr_free_addrs demo_bram1 = mgr_free_addrs demo_bram - {0x91000000..<0x91000000 + n}"
  using mgr_alloc_mem_sound [OF demo_bram_ok demo_bram_alloc] by auto

theorem free_mem_alloc_exact_witness:
  "mgr_free_addrs demo_bram = mgr_free_addrs demo_bram1 \<union> {0x91000000..<0x91001000}"
proof -
  have "{unat (0x91000000::u64)..<unat (0x91000000::u64) + unat (0x1000::u64)} \<inter> mgr_free_addrs demo_bram1 = {}"
    by (auto simp: mgr_free_addrs_def demo_bram1_def demo_mgr_def demo_cont_def cont_addrs_def)
  from free_mem_alloc_exact [OF demo_bram1_ok _ _ this _ demo_bram_free] show ?thesis
    by (simp add: in_mgr_def merge_guard_def) (simp add: demo_bram1_def demo_mgr_def demo_cont_def)
qed


lemma demo_trace:
  "mgr_alloc_mem True demo_bram1 0x1000 = (0, Some 0x91001000,
     demo_mgr [demo_cont 0x91002000 0xE000] [demo_cont 0x91000000 0x1000, demo_cont 0x91001000 0x1000] 0xE000)"
  "mgr_alloc_mem True (demo_mgr [demo_cont 0x91002000 0xE000]
       [demo_cont 0x91000000 0x1000, demo_cont 0x91001000 0x1000] 0xE000) 0x2000 = (0, Some 0x91002000,
     demo_mgr [demo_cont 0x91004000 0xC000]
       [demo_cont 0x91000000 0x1000, demo_cont 0x91001000 0x1000, demo_cont 0x91002000 0x2000] 0xC000)"
  "free_mem_alloc True (demo_mgr [demo_cont 0x91004000 0xC000]
       [demo_cont 0x91000000 0x1000, demo_cont 0x91001000 0x1000, demo_cont 0x91002000 0x2000] 0xC000)
     0x91000000 0x1000 = (0, demo_mgr [demo_cont 0x91000000 0x1000, demo_cont 0x91004000 0xC000]
       [demo_cont 0x91001000 0x1000, demo_cont 0x91002000 0x2000] 0xD000)"
  "free_mem_alloc True (demo_mgr [demo_cont 0x91000000 0x1000, demo_cont 0x91004000 0xC000]
       [demo_cont 0x91001000 0x1000, demo_cont 0x91002000 0x2000] 0xD000) 0x91002000 0x2000 =
     (0, demo_mgr [demo_cont 0x91000000 0x3000, demo_cont 0x91004000 0xC000]
       [demo_cont 0x91001000 0x1000] 0xF000)"
  "mgr_alloc_mem True (demo_mgr [demo_cont 0x91000000 0x3000, demo_cont 0x91004000 0xC000]
       [demo_cont 0x91001000 0x1000] 0xF000) 0x2000 = (0, Some 0x91000000,
     demo_mgr [demo_cont 0x91002000 0x1000, demo_cont 0x91004000 0xC000]
       [demo_cont 0x91001000 0x1000, demo_cont 0x91000000 0x2000] 0xD000)"
  by (simp_all add: demo_bram1_def demo_mem_defs Let_def)

text \<open>the merge test of \<open>is_mem_overlapped\<close> uses the wrong size: allocate A, B (a page each) and C
  (two pages), free A and C; the free list then claims B, and the next request gets B's page.\<close>

theorem free_mem_alloc_claims_live:
  "(let (_, a, m1) = mgr_alloc_mem True demo_bram 0x1000;
        (_, b, m2) = mgr_alloc_mem True m1 0x1000;
        (_, c, m3) = mgr_alloc_mem True m2 0x2000;
        (r1, m4) = free_mem_alloc True m3 0x91000000 0x1000;
        (r2, m5) = free_mem_alloc True m4 0x91002000 0x2000;
        (_, d, m6) = mgr_alloc_mem True m5 0x2000
    in (a, b, c, r1, r2, d, mem_alloc m6)) =
   (Some 0x91000000, Some 0x91001000, Some 0x91002000, 0, 0, Some 0x91000000,
    [demo_cont 0x91001000 0x1000, demo_cont 0x91000000 0x2000])"
  unfolding demo_bram_alloc Let_def prod.case demo_trace by (simp add: demo_mgr_def)

text \<open>the offset of a block RAM buffer is computed the wrong way round: a buffer that starts \<open>d\<close>
  bytes above the base gets the virtual address \<open>4 GiB - d\<close> above the base of the mapping.\<close>

theorem get_mem_ofs_reversed:
  assumes "unat addr = unat (mem_base_p m) + d" "0 < d" "d < 2 ^ 32"
  shows "unat (get_mem_ofs m addr) = 2 ^ 32 - d"
proof -
  let ?x = "addr - mem_base_p m"
  have x: "unat ?x = d" using assms(1) by (simp add: unat_sub_le)
  then have "?x \<noteq> 0" using assms(2) by auto
  have lt: "d < 2 ^ 64" using x u64_less_power [of ?x] by simp
  have "unat (mem_base_p m - addr) = 2 ^ 64 - d"
    using x \<open>?x \<noteq> 0\<close> unat_minus_word [of ?x] by simp
  moreover have "(2 ^ 64 - d) mod 2 ^ 32 = 2 ^ 32 - d"
  proof -
    have "2 ^ 64 - d = (2 ^ 32 - d) + (2 ^ 32 - 1) * (2 ^ 32 :: nat)" using assms(3) by simp
    then show ?thesis using assms(2) by (simp only: mod_mult_self1) simp
  qed
  ultimately show ?thesis by (simp add: get_mem_ofs_def unsigned_ucast_eq take_bit_eq_mod)
qed

theorem get_mem_ofs_reversed_witness: "unat (get_mem_ofs demo_bram 0x91001000) = 2 ^ 32 - 0x1000"
  by (rule get_mem_ofs_reversed) (simp_all add: demo_bram_def demo_mgr_def)

lemma round_up_256_spec:
  assumes "0 < unat n" "unat n + 255 < 2 ^ 32"
  shows "unat (round_up_256 n) = (unat n - 1) div 256 * 256 + 256"
proof -
  let ?x = "n - 1" and ?m = "0xFF :: u32"
  have x: "unat ?x = unat n - 1" using assms(1) by (simp add: unat_sub_le)
  have m: "unat (?x AND ?m) = unat ?x mod 256" by (rule unat_and_255)
  have h: "?x AND NOT ?m = ?x - (?x AND ?m)" using and_not_plus_and [of ?x ?m] by (metis add_diff_cancel_right')
  have hi: "unat (?x AND NOT ?m) = unat ?x div 256 * 256"
    unfolding h using m by (simp add: unat_sub_le minus_mod_eq_div_mult)
  have "?x OR ?m = (?x AND NOT ?m) + ?m" by (rule or_eq_plus)
  then have eq: "round_up_256 n = (?x AND NOT ?m) + 0x100" by (simp add: round_up_256_def)
  have "unat ?x div 256 * 256 \<le> unat ?x" by simp
  then have "unat (?x AND NOT ?m) + 256 < 2 ^ 32" using hi x assms by linarith
  then show ?thesis unfolding eq using hi x by (subst unat_add_no_wrap) auto
qed

text \<open>the size of an allocation is rounded up to a multiple of 256 that is at least as large.\<close>

theorem round_up_256_bounds:
  assumes "0 < unat n" "unat n + 255 < 2 ^ 32"
  shows "unat n \<le> unat (round_up_256 n) \<and> unat (round_up_256 n) < unat n + 256 \<and>
    256 dvd unat (round_up_256 n)"
proof -
  define q r where "q = (unat n - 1) div 256" and "r = (unat n - 1) mod 256"
  have "unat n = q * 256 + r + 1" "r < 256" using assms(1) by (simp_all add: q_def r_def)
  moreover have "unat (round_up_256 n) = q * 256 + 256" using round_up_256_spec [OF assms] by (simp add: q_def)
  ultimately show ?thesis by simp
qed

theorem round_up_256_bounds_witness:
  "unat (300::u32) \<le> unat (round_up_256 300) \<and> 256 dvd unat (round_up_256 300)"
  using round_up_256_bounds [of 300] by simp

end
