(* ===== verification/Xib_Rnic.thy ===== *)
theory Xib_Rnic
  imports Xib_Regs Xib_Types Xib_Bmap Xib_Mem
begin

text \<open>
  The hardware layer of the RDMA driver, \<open>recipes-modules/xib-module/files/rnic.c\<close>: addresses,
  configuration of queue pairs and memory regions, doorbells, interrupts and congestion
  notification packets.  Every function is a computation in the register-access monad of
  \<open>Xib_Regs\<close>; what the kernel's library does (header packing, page allocation, tasklets) is an
  argument or part of the result.  The processor is little-endian (arm64).
\<close>

subsection \<open>Doorbell of the send queue\<close>

definition xrnic_send_wr :: "xib_qp \<Rightarrow> xib_qp dev" where
  "xrnic_send_wr qp = do {
     let n = sq_cmpl_db_local (sq qp) + 1;
     xrnic_iow (XRNIC_SQ_PROD_IDX (hw_qpn qp)) n;
     State_Monad.return (qp\<lparr>sq := (sq qp)\<lparr>sq_cmpl_db_local := (if n = sq_max_wr (sq qp) then 0 else n)\<rparr>,
                            send_sgl_busy := False\<rparr>)}"

subsection \<open>Addresses\<close>

text \<open>\<open>cpu_to_be32\<close> and \<open>ntohl\<close> on a little-endian processor.\<close>

definition bswap32 :: "u32 \<Rightarrow> u32" where
  "bswap32 x = push_bit 24 (x AND 0xFF) OR push_bit 8 (x AND 0xFF00) OR
               (drop_bit 8 x AND 0xFF00) OR drop_bit 24 x"

text \<open>A big-endian and a little-endian group of four bytes as a number.\<close>

definition be_bytes :: "u8 \<Rightarrow> u8 \<Rightarrow> u8 \<Rightarrow> u8 \<Rightarrow> u32" where
  "be_bytes a b c d = ucast d OR push_bit 8 (ucast c) OR push_bit 16 (ucast b) OR push_bit 24 (ucast a)"

definition be_bytes2 :: "u8 \<Rightarrow> u8 \<Rightarrow> u32" where
  "be_bytes2 a b = ucast b OR push_bit 8 (ucast a)"

definition xrnic_set_dest_ip :: "xib_qp \<Rightarrow> u32 \<Rightarrow> unit dev" where
  "xrnic_set_dest_ip qp daddr = xrnic_iow (XRNIC_IP_DEST_ADDR_1 (hw_qpn qp)) daddr"

fun config_words :: "u32 \<Rightarrow> u32 list \<Rightarrow> nat \<Rightarrow> unit dev" where
  "config_words base [] i = State_Monad.return ()"
| "config_words base (w # ws) i = do {
     xrnic_iow (base + of_nat (3 - i) * 4) (bswap32 w);
     config_words base ws (Suc i)}"

text \<open>The address is one word (IPv4) or four (IPv6).\<close>

definition config_raw_ip :: "u32 \<Rightarrow> u32 list \<Rightarrow> bool \<Rightarrow> unit dev" where
  "config_raw_ip base ip ipv6 =
     (if \<not> ipv6 then xrnic_iow base (bswap32 (ip ! 0)) else config_words base (take 4 ip) 0)"

definition qp_set_ipv6_destination :: "u32 \<Rightarrow> u32 list \<Rightarrow> unit dev" where
  "qp_set_ipv6_destination qpn raw_ipv6 = config_raw_ip (XRNIC_IP_DEST_ADDR_1 qpn) raw_ipv6 True"

definition xrnic_set_mac :: "u8 list \<Rightarrow> unit dev" where
  "xrnic_set_mac mac = do {
     xrnic_iow XRNIC_MAC_ADDR_LO (be_bytes (mac ! 2) (mac ! 3) (mac ! 4) (mac ! 5));
     xrnic_iow XRNIC_MAC_ADDR_HI (be_bytes2 (mac ! 0) (mac ! 1))}"

fun get_words :: "hardware \<Rightarrow> u32 \<Rightarrow> nat list \<Rightarrow> u32 list dev" where
  "get_words hw base [] = State_Monad.return []"
| "get_words hw base (i # is) = do {
     v \<leftarrow> xrnic_ior hw (base + of_nat (3 - i) * 4);
     ws \<leftarrow> get_words hw base is;
     State_Monad.return (bswap32 v # ws)}"

definition get_raw_ip :: "hardware \<Rightarrow> u32 \<Rightarrow> bool \<Rightarrow> u32 list dev" where
  "get_raw_ip hw base ipv6 =
     (if \<not> ipv6 then do {v \<leftarrow> xrnic_ior hw base; State_Monad.return [bswap32 v]}
      else get_words hw base [0, 1, 2, 3])"

definition xrnic_set_ip_address :: "u8 list \<Rightarrow> int \<Rightarrow> unit dev" where
  "xrnic_set_ip_address a len = do {
     (if len = 4 then xrnic_iow XRNIC_IPV4_ADDR (be_bytes (a ! 0) (a ! 1) (a ! 2) (a ! 3))
      else State_Monad.return ());
     (if len = 16 then do {
        xrnic_iow XRNIC_IPV6_ADD_1 (be_bytes (a ! 3) (a ! 2) (a ! 1) (a ! 0));
        xrnic_iow XRNIC_IPV6_ADD_2 (be_bytes (a ! 7) (a ! 6) (a ! 5) (a ! 4));
        xrnic_iow XRNIC_IPV6_ADD_3 (be_bytes (a ! 11) (a ! 10) (a ! 9) (a ! 8));
        xrnic_iow XRNIC_IPV6_ADD_4 (be_bytes (a ! 15) (a ! 14) (a ! 13) (a ! 12))}
      else State_Monad.return ())}"

subsection \<open>Configuration of a queue pair\<close>

definition QP_ENABLE :: u32 where "QP_ENABLE = 1"
definition QP_RQ_IRQ_EN :: u32 where "QP_RQ_IRQ_EN = 4"
definition QP_CQ_IRQ_EN :: u32 where "QP_CQ_IRQ_EN = 8"
definition QP_HW_HSK_DIS :: u32 where "QP_HW_HSK_DIS = 16"
definition QP_CQE_EN :: u32 where "QP_CQE_EN = 32"
definition QP_UNDER_RECOVERY :: u32 where "QP_UNDER_RECOVERY = 64"
definition QP_CONF_IPV6 :: u32 where "QP_CONF_IPV6 = 128"

lemmas qp_conf_bits = QP_ENABLE_def QP_RQ_IRQ_EN_def QP_CQ_IRQ_EN_def QP_HW_HSK_DIS_def QP_CQE_EN_def
  QP_UNDER_RECOVERY_def QP_CONF_IPV6_def

record xib_qp_modify_params =
  flags :: u32
  new_state :: xib_qp_state
  dest_qp :: u32
  traffic_class :: u8
  hop_limit :: u8
  dmac :: "u8 list"
  retry_cnt :: u8
  rnr_retry_cnt :: u8
  rq_psn :: u32
  sq_psn :: u32
  ip_version :: u8
  ip4_daddr :: u32
  ipv6_addr :: "u32 list"

definition XIB_MODIFY_QP_SQ_PSN :: u32 where "XIB_MODIFY_QP_SQ_PSN = 1"
definition XIB_MODIFY_QP_DEST_QP :: u32 where "XIB_MODIFY_QP_DEST_QP = 4"
definition XIB_MODIFY_QP_STATE :: u32 where "XIB_MODIFY_QP_STATE = 8"
definition XIB_MODIFY_QP_AV :: u32 where "XIB_MODIFY_QP_AV = 16"
definition XIB_MODIFY_QP_DEST_MAC :: u32 where "XIB_MODIFY_QP_DEST_MAC = 32"
definition XIB_MODIFY_QP_TIMEOUT :: u32 where "XIB_MODIFY_QP_TIMEOUT = 64"
definition XIB_MODIFY_QP_RQ_PSN :: u32 where "XIB_MODIFY_QP_RQ_PSN = 128"

definition do_when :: "bool \<Rightarrow> unit dev \<Rightarrow> unit dev" where
  "do_when b m = (if b then m else State_Monad.return ())"

text \<open>The blocks of \<open>xrnic_qp_modify\<close>, one per flag.\<close>

definition modify_dest_mac :: "u32 \<Rightarrow> u8 list \<Rightarrow> unit dev" where
  "modify_dest_mac q mac = do {
     xrnic_iow (XRNIC_MAC_DEST_ADDR_LO q) (be_bytes (mac ! 2) (mac ! 3) (mac ! 4) (mac ! 5));
     xrnic_iow (XRNIC_MAC_DEST_ADDR_HI q) (be_bytes2 (mac ! 0) (mac ! 1))}"

definition av_conf :: "bool \<Rightarrow> u32 \<Rightarrow> u32" where
  "av_conf v6 config = (if v6 then config OR QP_CONF_IPV6 else config AND NOT QP_CONF_IPV6)"

definition av_adv_conf :: "u8 \<Rightarrow> u8 \<Rightarrow> u32 \<Rightarrow> u32" where
  "av_adv_conf hl tc adv =
     (((adv AND NOT (push_bit 8 0xFF)) OR push_bit 8 (ucast hl)) AND NOT 0x1F) OR ucast tc OR
       push_bit 16 0xFFFF"

definition modify_av :: "hardware \<Rightarrow> u32 \<Rightarrow> xib_qp_modify_params \<Rightarrow> unit dev" where
  "modify_av hw q p = do {
     (if ip_version p = 6 then qp_set_ipv6_destination q (ipv6_addr p)
      else xrnic_iow (XRNIC_IP_DEST_ADDR_1 q) (bswap32 (ip4_daddr p)));
     config \<leftarrow> xrnic_ior hw (XRNIC_QP_CONF q);
     xrnic_iow (XRNIC_QP_CONF q) (av_conf (ip_version p = 6) config);
     adv \<leftarrow> xrnic_ior hw (XRNIC_QP_ADV_CONF q);
     xrnic_iow (XRNIC_QP_ADV_CONF q) (av_adv_conf (hop_limit p) (traffic_class p) adv)}"

definition timeout_conf :: "u32 \<Rightarrow> u8 \<Rightarrow> u8 \<Rightarrow> u32" where
  "timeout_conf retry_time rc rnr =
     retry_time OR push_bit 8 (ucast rc) OR push_bit 11 (ucast rnr) OR push_bit 16 0x10"

definition rq_psn_conf :: "u32 \<Rightarrow> u32" where
  "rq_psn_conf psn = ((psn - 1) AND 0xFFFFFF) OR push_bit 24 2"

definition init_conf :: "xib_qp \<Rightarrow> u16 \<Rightarrow> u32" where
  "init_conf qp mtu =
     (let c0 = QP_ENABLE OR QP_HW_HSK_DIS OR QP_CQE_EN;
          c1 = (if hw_qpn qp = 0 then c0 OR QP_CQ_IRQ_EN
                else if qp_type qp = XIB_QP_TYPE_USER then c0 AND NOT (QP_RQ_IRQ_EN OR QP_CQ_IRQ_EN)
                else c0 OR QP_CQ_IRQ_EN OR QP_RQ_IRQ_EN)
      in c1 OR push_bit 8 (ucast mtu) OR push_bit 16 (drop_bit 8 (rq_buf_size qp)))"

text \<open>\<open>mtu\<close> is \<open>xib->mtu\<close> and \<open>retry_time\<close> the module parameter.\<close>

definition xrnic_qp_modify :: "hardware \<Rightarrow> u16 \<Rightarrow> u32 \<Rightarrow> xib_qp \<Rightarrow> xib_qp_modify_params \<Rightarrow> xib_qp dev" where
  "xrnic_qp_modify hw mtu retry_time qp p = do {
     let q = hw_qpn qp;
     do_when (flags p AND XIB_MODIFY_QP_DEST_QP \<noteq> 0) (xrnic_iow (XRNIC_DEST_QP_CONF q) (dest_qp p));
     do_when (flags p AND XIB_MODIFY_QP_DEST_MAC \<noteq> 0) (modify_dest_mac q (dmac p));
     do_when (flags p AND XIB_MODIFY_QP_AV \<noteq> 0) (modify_av hw q p);
     do_when (flags p AND XIB_MODIFY_QP_TIMEOUT \<noteq> 0)
       (xrnic_iow (XRNIC_TIMEOUT_CONF q) (timeout_conf retry_time (retry_cnt p) (rnr_retry_cnt p)));
     do_when (flags p AND XIB_MODIFY_QP_SQ_PSN \<noteq> 0) (xrnic_iow (XRNIC_SNDQ_PSN q) (sq_psn p AND 0xFFFFFF));
     do_when (flags p AND XIB_MODIFY_QP_RQ_PSN \<noteq> 0) (xrnic_iow (XRNIC_LAST_RQ_PSN q) (rq_psn_conf (rq_psn p)));
     do_when (flags p AND XIB_MODIFY_QP_STATE \<noteq> 0 \<and> new_state p = XIB_QP_STATE_INIT)
       (xrnic_iow (XRNIC_QP_CONF q) (init_conf qp mtu));
     State_Monad.return
       (qp\<lparr>is_ipv6 := (if flags p AND XIB_MODIFY_QP_AV \<noteq> 0 then ip_version p = 6 else is_ipv6 qp),
           qp_state := (if flags p AND XIB_MODIFY_QP_STATE \<noteq> 0 then new_state p else qp_state qp)\<rparr>)}"

definition xrnic_qp_under_recovery :: "hardware \<Rightarrow> u32 \<Rightarrow> int dev" where
  "xrnic_qp_under_recovery hw q = do {
     v \<leftarrow> xrnic_ior hw (XRNIC_QP_CONF q);
     let val = v AND NOT QP_ENABLE;
     xrnic_iow (XRNIC_QP_CONF q) val;
     xrnic_iow (XRNIC_QP_CONF q) val;
     xrnic_iow (XRNIC_QP_CONF q) (val OR QP_UNDER_RECOVERY);
     State_Monad.return 0}"

definition xrnic_qp_disable :: "xib_qp \<Rightarrow> int dev" where
  "xrnic_qp_disable qp = do {xrnic_iow (XRNIC_QP_CONF (hw_qpn qp)) 0; State_Monad.return 0}"

subsection \<open>Memory regions and protection domains\<close>

definition xrnic_reg_mr :: "u64 \<Rightarrow> u64 \<Rightarrow> u64 list \<Rightarrow> u32 \<Rightarrow> u32 \<Rightarrow> u8 \<Rightarrow> int dev" where
  "xrnic_reg_mr va len pbl_tbl pdn mr_idx rkey = do {
     let pa = pbl_tbl ! 0;
     xrnic_iow (XRNIC_MR_PDNUM mr_idx) pdn;
     xrnic_iow (XRNIC_MR_VA_LO mr_idx) (ucast va);
     xrnic_iow (XRNIC_MR_VA_HI mr_idx) (ucast (drop_bit 32 va));
     xrnic_iow (XRNIC_MR_BUF_BASE_LO mr_idx) (ucast pa);
     xrnic_iow (XRNIC_MR_BUF_BASE_HI mr_idx) (ucast (drop_bit 32 pa));
     xrnic_iow (XRNIC_MR_BUF_RKEY mr_idx) (ucast rkey AND 0xFF);
     xrnic_iow (XRNIC_MR_WRRD_BUF_LEN mr_idx) (ucast len);
     xrnic_iow (XRNIC_MR_ACC_DESC mr_idx) (2 OR ucast (push_bit 16 (drop_bit 32 len)));
     State_Monad.return 0}"

definition xrnic_qp_set_pd :: "u32 \<Rightarrow> u32 \<Rightarrow> int dev" where
  "xrnic_qp_set_pd qpn pdn = do {xrnic_iow (XRNIC_QP_PD_NUM qpn) pdn; State_Monad.return 0}"

definition xrnic_set_pd :: "u32 \<Rightarrow> int dev" where
  "xrnic_set_pd pdn = do {xrnic_iow (XRNIC_MR_PDNUM pdn) pdn; State_Monad.return 0}"

text \<open>Unregistering clears the key and the access rights of the region and gives its number back.  The
  region's number is the \<open>rkey\<close> without its low byte.\<close>

definition xrnic_unreg_mr :: "xib_bmap \<Rightarrow> u32 \<Rightarrow> xib_bmap option dev" where
  "xrnic_unreg_mr mr_map rkey = do {
     let mr_idx = (drop_bit 8 rkey :: u32);
     xrnic_iow (XRNIC_MR_BUF_RKEY mr_idx) 0;
     xrnic_iow (XRNIC_MR_ACC_DESC mr_idx) 0xF;
     State_Monad.return (xib_bmap_release_id mr_map mr_idx)}"

subsection \<open>Recovery of a queue pair after a fatal error\<close>

text \<open>The first loop waits for the hardware and may not end.\<close>

partial_function (option) wait_sq_empty :: "hardware \<Rightarrow> u32 \<Rightarrow> io list \<Rightarrow> io list option" where
  "wait_sq_empty hw q log =
     (let val = hw log (XRNIC_STAT_QP q); log' = log @ [IoR (XRNIC_STAT_QP q)]
      in if drop_bit 9 val AND 3 \<noteq> 0 then Some log' else wait_sq_empty hw q log')"

text \<open>The second ends at the latest one second (\<open>hz\<close> ticks) after it began; \<open>jiffies\<close> is the clock, as a
  function of the accesses made so far.\<close>

partial_function (option) wait_sq_drained ::
  "hardware \<Rightarrow> (io list \<Rightarrow> nat) \<Rightarrow> nat \<Rightarrow> nat \<Rightarrow> u32 \<Rightarrow> io list \<Rightarrow> io list option" where
  "wait_sq_drained hw jiffies hz timeout q log =
     (let val = hw log (XRNIC_SQ_PROD_IDX q); log1 = log @ [IoR (XRNIC_SQ_PROD_IDX q)];
          ret = hw log1 (XRNIC_CQ_HEAD_PTR q); log2 = log1 @ [IoR (XRNIC_CQ_HEAD_PTR q)]
      in if timeout + hz < jiffies log2 then Some log2
         else if val = ret then Some log2
         else wait_sq_drained hw jiffies hz timeout q log2)"

definition xib_fatal_handler ::
  "hardware \<Rightarrow> (io list \<Rightarrow> nat) \<Rightarrow> nat \<Rightarrow> xib_qp \<Rightarrow> io list \<Rightarrow> io list option" where
  "xib_fatal_handler hw jiffies hz qp log = do {
     log1 \<leftarrow> wait_sq_empty hw (hw_qpn qp) (log @ [IoR (XRNIC_STAT_QP (hw_qpn qp))]);
     log2 \<leftarrow> wait_sq_drained hw jiffies hz (jiffies log1) (hw_qpn qp) log1;
     Some (snd (run_state (xrnic_qp_under_recovery hw (hw_qpn qp)) log2))}"

subsection \<open>Set-up of the device\<close>

text \<open>\<open>get_pages\<close> and \<open>dma_map\<close> stand for the kernel's page and DMA allocators; 0 is a failure.\<close>

definition page_align32 :: "u32 \<Rightarrow> u32" where
  "page_align32 x = (x + 4095) AND NOT 4095"

definition xrnic_buf_alloc :: "(u32 \<Rightarrow> u64 option) \<Rightarrow> (u64 \<Rightarrow> u32 \<Rightarrow> u64 option) \<Rightarrow> u32 \<Rightarrow> u32 \<Rightarrow> u64" where
  "xrnic_buf_alloc get_pages dma_map sz count =
     (case get_pages (page_align32 (sz * count)) of
        None \<Rightarrow> 0
      | Some buf \<Rightarrow> (case dma_map buf (page_align32 (sz * count)) of None \<Rightarrow> 0 | Some addr \<Rightarrow> addr))"

definition set_base :: "u32 \<Rightarrow> u32 \<Rightarrow> u64 \<Rightarrow> unit dev" where
  "set_base lsb msb addr = do {xrnic_iow lsb (ucast addr); xrnic_iow msb (ucast (drop_bit 32 addr))}"

text \<open>\<open>alloc\<close> is \<open>xrnic_buf_alloc\<close> on the allocators.\<close>

definition xrnic_set_bufs :: "(u32 \<Rightarrow> u32 \<Rightarrow> u64) \<Rightarrow> unit dev" where
  "xrnic_set_bufs alloc =
     (let err = alloc 256 64; incg = alloc 4096 4; rsp = alloc 64 256
      in if err = 0 then State_Monad.return ()
         else do {
           set_base XRNIC_ERR_BUF_BASE_LSB XRNIC_ERR_BUF_BASE_MSB err;
           xrnic_iow XRNIC_ERR_BUF_SZ (64 OR push_bit 16 256);
           (if incg = 0 then State_Monad.return ()
            else do {
              set_base XRNIC_INCG_PKT_ERRQ_BASE_LSB XRNIC_INCG_PKT_ERRQ_BASE_MSB incg;
              xrnic_iow XRNIC_INCG_PKT_ERRQ_SZ 64;
              set_base XRNIC_RSP_ERR_BUF_BA_LSB XRNIC_RSP_ERR_BUF_BA_MSB rsp;
              xrnic_iow XRNIC_RSP_ERR_BUF_DEPTH (push_bit 16 256 OR 64)})})"

record xrnic_local =
  xl_irq :: int
  qp1_sq_db_p :: u64
  qp1_sq_db :: "u32 list"
  qp1_rq_db_p :: u64
  qp1_rq_db :: "u32 list"
  qps_enabled :: u32
  udp_sport :: u16
  db_pa :: u64
  db_size :: u32
  in_pkt_err :: "u32 list"
  in_pkt_err_db_local :: u32
  num_intr_banks :: u32
  cq_rq_db_size :: u32

definition xrnic_start :: "xrnic_local \<Rightarrow> int dev" where
  "xrnic_start xl = do {
     xrnic_iow XRNIC_CONF (1 OR push_bit 5 1 OR push_bit 8 (ucast (udp_sport xl) AND 0xFFFF));
     xrnic_iow XRNIC_CONF_QP_EN (qps_enabled xl AND 0xFFF);
     State_Monad.return 0}"

text \<open>The doorbell word of a queue pair is reset and its bus address returned; \<open>None\<close> is a write outside
  the doorbell area.\<close>

definition xrnic_get_sq_db_addr :: "xrnic_local \<Rightarrow> nat \<Rightarrow> (u64 \<times> xrnic_local) option" where
  "xrnic_get_sq_db_addr xl q =
     (if q < length (qp1_sq_db xl)
      then Some (qp1_sq_db_p xl + of_nat (q * 4), xl\<lparr>qp1_sq_db := (qp1_sq_db xl)[q := 0]\<rparr>) else None)"

definition xrnic_get_rq_db_addr :: "xrnic_local \<Rightarrow> nat \<Rightarrow> (u64 \<times> xrnic_local) option" where
  "xrnic_get_rq_db_addr xl q =
     (if q < length (qp1_rq_db xl)
      then Some (qp1_rq_db_p xl + of_nat (q * 4), xl\<lparr>qp1_rq_db := (qp1_rq_db xl)[q := 0]\<rparr>) else None)"

definition db_area_size :: "u32 \<Rightarrow> u32" where
  "db_area_size max_qp = ((max_qp * 4 + (4096 - 1)) div 4096) * 4096"

text \<open>What the platform and the kernel answer during set-up.\<close>

record platform =
  pf_resource :: "(u64 \<times> u64) option"
  pf_ioremap_ok :: bool
  pf_irq :: int
  pf_buf_alloc :: "u32 \<Rightarrow> u32 \<Rightarrow> u64"
  pf_dma :: dma_alloc

datatype init_result = InitOk xrnic_local | InitFail | InitNullXib

text \<open>The doorbell area of the receive queues comes from \<open>xib_alloc_coherent("pl", xl->xib, ..)\<close>, when
  \<open>xl->xib\<close> is still \<open>NULL\<close>: without a PL allocator the call dereferences it.\<close>

definition xrnic_hw_init :: "platform \<Rightarrow> mem_state \<Rightarrow> bool \<Rightarrow> u32 \<Rightarrow> init_result dev" where
  "xrnic_hw_init pf mem kzalloc_ok max_qp =
     (if \<not> kzalloc_ok then State_Monad.return InitFail
      else case pf_resource pf of
        None \<Rightarrow> State_Monad.return InitFail
      | Some (start, fin) \<Rightarrow>
          if \<not> pf_ioremap_ok pf \<or> pf_irq pf \<le> 0 then State_Monad.return InitFail
          else do {
            xrnic_set_bufs (pf_buf_alloc pf);
            xrnic_iow XRNIC_INT_EN 0xFF;
            let sz = db_area_size max_qp;
            State_Monad.return
              (if \<not> xib_pl_present mem then InitNullXib
               else case xib_alloc_coherent (pf_dma pf) True mem ''pl'' (ucast sz) of
                 None \<Rightarrow> InitFail
               | Some ((rva, None), mem') \<Rightarrow> InitFail
               | Some ((rva, Some rpa), mem') \<Rightarrow>
                   if rva = 0 then InitFail else
                   (case pf_dma pf DevPs (ucast sz) of
                      None \<Rightarrow> InitFail
                    | Some (sva, spa) \<Rightarrow>
                        InitOk \<lparr>xl_irq = pf_irq pf,
                          qp1_sq_db_p = spa, qp1_sq_db = replicate (unat sz div 4) 0,
                          qp1_rq_db_p = rpa, qp1_rq_db = replicate (unat sz div 4) 0,
                          qps_enabled = 0, udp_sport = 0,
                          db_pa = start + 0x180000, db_size = ucast (fin - (start + 0x180000) + 1),
                          in_pkt_err = [], in_pkt_err_db_local = 0, num_intr_banks = 0,
                          cq_rq_db_size = sz\<rparr>))})"

definition xrnic_hw_deinit :: "bool \<Rightarrow> bool \<times> bool \<Rightarrow> mem_state \<Rightarrow> xrnic_local \<Rightarrow> mem_state" where
  "xrnic_hw_deinit kzalloc_ok virt_valid mem xl =
     (let mem1 = snd (xib_free_coherent kzalloc_ok (fst virt_valid) mem 4096 (qp1_sq_db_p xl))
      in snd (xib_free_coherent kzalloc_ok (snd virt_valid) mem1 4096 (qp1_rq_db_p xl)))"

subsection \<open>Byte order and round trips\<close>

lemma u32_ff: "(0xFF :: u32) = mask 8" "(0xFF00 :: u32) = push_bit 8 (mask 8)"
  by (simp_all add: mask_eq_exp_minus_1 push_bit_eq_mult)

lemma bit_bswap32:
  assumes "n < 32"
  shows "bit (bswap32 x) n \<longleftrightarrow> bit x (24 - 8 * (n div 8) + n mod 8)"
proof -
  consider "n < 8" | "8 \<le> n" "n < 16" | "16 \<le> n" "n < 24" | "24 \<le> n" "n < 32" using assms by linarith
  then show ?thesis
  proof cases
    case 1
    then show ?thesis unfolding bswap32_def u32_ff by (simp add: bit_simps)
  next
    case 2
    then have "n div 8 = 1" "n mod 8 = n - 8" by (simp_all add: div_nat_eqI mod_nat_eqI)
    then show ?thesis using 2 unfolding bswap32_def u32_ff by (auto simp: bit_simps add.commute not_bit_beyond_32)
  next
    case 3
    then have "n div 8 = 2" "n mod 8 = n - 16" by (simp_all add: div_nat_eqI mod_nat_eqI)
    then show ?thesis using 3 unfolding bswap32_def u32_ff by (auto simp: bit_simps not_bit_beyond_32)
  next
    case 4
    then have "n div 8 = 3" "n mod 8 = n - 24" by (simp_all add: div_nat_eqI mod_nat_eqI)
    then show ?thesis using 4 unfolding bswap32_def u32_ff by (auto simp: bit_simps not_bit_beyond_32)
  qed
qed

lemma bswap32_idem [simp]: "bswap32 (bswap32 x) = x"
proof (rule bit_word_eqI)
  fix n assume n: "n < LENGTH(32)"
  define q r where "q = n div 8" and "r = n mod 8"
  have qr: "n = 8 * q + r" "r < 8" "q < 4" using n by (auto simp: q_def r_def)
  let ?m = "24 - 8 * q + r"
  have m: "?m < 32" "?m div 8 = 3 - q" "?m mod 8 = r"
  proof -
    have "?m = r + 8 * (3 - q)" using qr by simp
    then show "?m < 32" "?m div 8 = 3 - q" "?m mod 8 = r" using qr by simp_all
  qed
  have "bit (bswap32 (bswap32 x)) n \<longleftrightarrow> bit (bswap32 x) ?m"
    using bit_bswap32 [of n "bswap32 x"] n by (simp add: q_def r_def)
  also have "\<dots> \<longleftrightarrow> bit x n" 
  proof -
    have "24 - 8 * (3 - q) + r = n" using qr by linarith
    then show ?thesis using bit_bswap32 [OF m(1), of x] unfolding m(2,3) by simp
  qed
  finally show "bit (bswap32 (bswap32 x)) n = bit x n" .
qed
lemma config_words_four:
  "config_words base [a, b, c, d] 0 = do {
     xrnic_iow (base + 12) (bswap32 a); xrnic_iow (base + 8) (bswap32 b);
     xrnic_iow (base + 4) (bswap32 c); xrnic_iow base (bswap32 d)}"
  by (simp add: numeral_3_eq_3)

lemma get_words_four:
  "get_words hw base [0, 1, 2, 3] = do {
     w \<leftarrow> xrnic_ior hw (base + 12); x \<leftarrow> xrnic_ior hw (base + 8);
     y \<leftarrow> xrnic_ior hw (base + 4); z \<leftarrow> xrnic_ior hw base;
     State_Monad.return [bswap32 w, bswap32 x, bswap32 y, bswap32 z]}"
  by (simp add: numeral_3_eq_3)

text \<open>an address written to a group of address registers by \<open>config_raw_ip\<close> is read back unchanged by
  \<open>get_raw_ip\<close>, IPv4 and IPv6, when the registers keep what was written.\<close>

theorem config_get_raw_ip:
  assumes hw: "readback hw {base, base + 4, base + 8, base + 12}"
    and len: "length ip = (if ipv6 then 4 else 1)"
  shows "fst (run_state (do {config_raw_ip base ip ipv6; get_raw_ip hw base ipv6}) log) = ip"
proof (cases ipv6)
  case True
  obtain a b c d where ip: "ip = [a, b, c, d]"
    using len True by (auto simp: length_Suc_conv numeral_eq_Suc)
  show ?thesis using hw True unfolding ip readback_def
    by (simp add: config_raw_ip_def get_raw_ip_def config_words_four get_words_four)
next
  case False
  then obtain a where ip: "ip = [a]" using len by (auto simp: length_Suc_conv)
  show ?thesis using hw False unfolding ip readback_def by (simp add: config_raw_ip_def get_raw_ip_def)
qed

subsection \<open>Queue pairs do not disturb one another\<close>

lemma touches_set_base [touches_intros]: "lsb \<in> R \<Longrightarrow> msb \<in> R \<Longrightarrow> touches (set_base lsb msb a) R"
  unfolding set_base_def by (intro touches_intros)

lemma touches_do_when [touches_intros]: "touches m R \<Longrightarrow> touches (do_when b m) R"
  unfolding do_when_def by (intro touches_intros)

text \<open>The registers of one queue pair.\<close>

definition qp_window :: "u32 \<Rightarrow> u32 set" where
  "qp_window q = (\<lambda>ofs. qreg ofs q) ` {ofs. unat ofs < 0x100}"

lemma qp_windowI [intro]: "unat ofs < 0x100 \<Longrightarrow> qreg ofs q \<in> qp_window q"
  by (simp add: qp_window_def)

lemma qp_window_other:
  assumes "unat q < 2 ^ 12" "unat q' < 2 ^ 12" "q \<noteq> q'"
  shows "qp_window q \<inter> qp_window q' = {}"
  using qreg_eq_iff [OF assms(1,2)] assms(3) by (auto simp: qp_window_def)

lemma touches_config_words:
  "i + length ws \<le> 4 \<Longrightarrow> touches (config_words (XRNIC_IP_DEST_ADDR_1 q) ws i) (qp_window q)"
proof (induction ws arbitrary: i)
  case Nil
  then show ?case by (simp add: touches_return)
next
  case (Cons w ws)
  have "XRNIC_IP_DEST_ADDR_1 q + of_nat (3 - i) * 4 = qreg (0x60 + of_nat (3 - i) * 4) q"
    by (simp add: XRNIC_IP_DEST_ADDR_1_def qreg_def)
  moreover have "unat (0x60 + of_nat (3 - i) * 4 :: u32) < 0x100"
  proof -
    have "i \<in> {0, 1, 2, 3}" using Cons.prems by auto
    then show ?thesis by auto
  qed
  ultimately show ?case using Cons by (auto intro!: touches_intros)
qed

lemma touches_ipv6_destination [touches_intros]: "touches (qp_set_ipv6_destination q ip) (qp_window q)"
  unfolding qp_set_ipv6_destination_def config_raw_ip_def
  by (simp add: touches_config_words)

lemma qregs_in_window [touches_intros]:
  "XRNIC_QP_CONF q \<in> qp_window q" "XRNIC_QP_ADV_CONF q \<in> qp_window q" "XRNIC_SNDQ_PSN q \<in> qp_window q"
  "XRNIC_LAST_RQ_PSN q \<in> qp_window q" "XRNIC_DEST_QP_CONF q \<in> qp_window q" "XRNIC_TIMEOUT_CONF q \<in> qp_window q"
  "XRNIC_MAC_DEST_ADDR_LO q \<in> qp_window q" "XRNIC_MAC_DEST_ADDR_HI q \<in> qp_window q"
  "XRNIC_IP_DEST_ADDR_1 q \<in> qp_window q" "XRNIC_SQ_PROD_IDX q \<in> qp_window q"
  by (auto simp: qreg_defs)

lemma touches_qp_modify: "touches (xrnic_qp_modify hw mtu rt qp p) (qp_window (hw_qpn qp))"
  unfolding xrnic_qp_modify_def modify_dest_mac_def modify_av_def Let_def
  by (intro touches_intros)

lemma reg_window_kept:
  assumes "touches m (qp_window q)" "unat q < 2 ^ 12" "unat q' < 2 ^ 12" "q \<noteq> q'" "unat ofs < 0x100"
  shows "reg_value init (snd (run_state m log)) (qreg ofs q') = reg_value init log (qreg ofs q')"
  using touches_keeps [OF assms(1)] qp_window_other [OF assms(2-4)] qp_windowI [OF assms(5), of q'] by auto


subsection \<open>Memory regions\<close>

lemma split_64: "ucast (ucast (x::u64) :: u32) OR push_bit 32 (ucast (ucast (drop_bit 32 x) :: u32)) = x"
  by (rule bit_word_eqI) (auto simp: bit_simps not_less)

text \<open>A 64-bit value spread over two registers.\<close>

definition u64_of :: "(u32 \<Rightarrow> u32) \<Rightarrow> u32 \<Rightarrow> u32 \<Rightarrow> u64" where
  "u64_of regs lo hi = ucast (regs lo) OR push_bit 32 (ucast (regs hi))"

lemma acc_desc_len:
  assumes "unat (len::u64) < 2 ^ 48"
  shows "ucast (ucast len :: u32) OR push_bit 32 (ucast (drop_bit 16 (2 OR ucast (push_bit 16 (drop_bit 32 len)) :: u32))) = len"
proof (rule bit_word_eqI)
  fix n assume n: "n < LENGTH(64)"
  have "len = take_bit 48 len"
    using assms by (simp add: word_unat_eq_iff unsigned_take_bit_eq take_bit_nat_eq_self)
  then have hi: "\<not> bit len k" if "48 \<le> k" for k
    using that by (metis bit_take_bit_iff not_less)
  show "bit (ucast (ucast len :: u32) OR push_bit 32 (ucast (drop_bit 16 (2 OR ucast (push_bit 16 (drop_bit 32 len)) :: u32))) :: u64) n = bit len n"
  proof (cases "n < 32")
    case True
    then show ?thesis by (simp add: bit_simps)
  next
    case False
    then have "\<not> bit (2::u32) (n - 16)"
      by (auto simp: bit_2_iff)
    then show ?thesis using False n hi [of n] by (cases "n < 48") (auto simp: bit_simps)
  qed
qed


lemma acc_desc_rights: "(2 OR ucast (push_bit 16 (drop_bit 32 (len::u64))) :: u32) AND 0xFFFF = 2"
proof -
  have "ucast (push_bit 16 (drop_bit 32 len)) AND (0xFFFF :: u32) = 0"
  proof (rule bit_word_eqI)
    fix n
    have "(0xFFFF :: u32) = mask 16" by (simp add: mask_eq_exp_minus_1)
    then show "bit (ucast (push_bit 16 (drop_bit 32 len)) AND (0xFFFF :: u32)) n = bit (0 :: u32) n"
      by (simp only: bit_simps) auto
  qed
  then show ?thesis by (simp add: bit.conj_disj_distrib2)
qed

lemma ucast_u8_and_ff: "ucast (k::u8) AND (0xFF :: u32) = ucast k"
  unfolding u32_ff by (rule bit_word_eqI) (auto simp: bit_simps dest: bit_imp_le_length)

text \<open>after \<open>xrnic_reg_mr\<close> the region's registers hold the virtual address, the physical base, the
  protection domain, the key, read and write access, and the length, for lengths below \<open>2 ^ 48\<close>.\<close>

theorem xrnic_reg_mr_roundtrip:
  assumes "unat len < 2 ^ 48"
  shows "let regs = reg_value init (snd (run_state (xrnic_reg_mr va len pbl pdn m key) log)) in
    u64_of regs (XRNIC_MR_VA_LO m) (XRNIC_MR_VA_HI m) = va \<and>
    u64_of regs (XRNIC_MR_BUF_BASE_LO m) (XRNIC_MR_BUF_BASE_HI m) = pbl ! 0 \<and>
    regs (XRNIC_MR_PDNUM m) = pdn \<and> regs (XRNIC_MR_BUF_RKEY m) = ucast key \<and>
    ucast (regs (XRNIC_MR_WRRD_BUF_LEN m)) OR push_bit 32 (ucast (drop_bit 16 (regs (XRNIC_MR_ACC_DESC m)))) = len \<and>
    regs (XRNIC_MR_ACC_DESC m) AND 0xFFFF = 2"
  using acc_desc_len [OF assms]
  by (simp add: xrnic_reg_mr_def u64_of_def mreg_defs Let_def split_64 acc_desc_rights ucast_u8_and_ff)

theorem xrnic_reg_mr_roundtrip_witness:
  "let regs = reg_value (\<lambda>_. 0) (snd (run_state (xrnic_reg_mr 0x12345678000 0x300000000 [0x800000000] 7 5 0x21) [])) in
    u64_of regs (XRNIC_MR_VA_LO 5) (XRNIC_MR_VA_HI 5) = 0x12345678000"
  using xrnic_reg_mr_roundtrip [of "0x300000000" "\<lambda>_. 0" "0x12345678000" "[0x800000000]" 7 5 "0x21" "[]"]
  by (simp add: Let_def)

lemma region_of_rkey:
  assumes "unat (m::u32) < 2 ^ 24"
  shows "drop_bit 8 (push_bit 8 m OR ucast (k::u8)) = m"
proof (rule bit_word_eqI)
  fix n assume n: "n < LENGTH(32)"
  have "m = take_bit 24 m" using assms by (simp add: word_unat_eq_iff unsigned_take_bit_eq take_bit_nat_eq_self)
  then have "n < 24" if "bit m n" using that by (metis bit_take_bit_iff)
  then show "bit (drop_bit 8 (push_bit 8 m OR ucast k)) n = bit m n"
    using n by (auto simp: bit_simps not_less dest: bit_imp_le_length)
qed

text \<open>\<open>xrnic_unreg_mr\<close>, given the \<open>rkey\<close> of a region, clears the key and the access rights of exactly that
  region and gives its number back.\<close>

theorem xrnic_unreg_mr_revokes:
  assumes "bmap_ok mr_map" "m < max_count mr_map" "unat m < 2 ^ 24"
  shows "\<exists>map' log'. run_state (xrnic_unreg_mr mr_map (push_bit 8 m OR ucast (key::u8))) log = (Some map', log') \<and>
    reg_value init log' (XRNIC_MR_BUF_RKEY m) = 0 \<and> reg_value init log' (XRNIC_MR_ACC_DESC m) = 0xF \<and>
    bmap_free map' = insert (unat m) (bmap_free mr_map)"
proof -
  have "unat m < length (bitmap mr_map)" using assms(1,2) by (simp add: bmap_ok_def word_less_nat_alt)
  moreover have "bmap_free (mr_map\<lparr>bitmap := (bitmap mr_map)[unat m := False]\<rparr>) = insert (unat m) (bmap_free mr_map)"
    using calculation assms(2) by (auto simp: bmap_free_def nth_list_update word_less_nat_alt split: if_splits)
  ultimately show ?thesis using region_of_rkey [OF assms(3), of key]
    by (simp add: xrnic_unreg_mr_def xib_bmap_release_id_def Let_def mreg_defs)
qed

theorem xrnic_unreg_mr_revokes_witness:
  "\<exists>map' log'. run_state (xrnic_unreg_mr \<lparr>bitmap = replicate 64 True, max_count = 40\<rparr>
       (push_bit 8 3 OR ucast (0x5A::u8))) [] = (Some map', log') \<and>
     reg_value (\<lambda>_. 9) log' (XRNIC_MR_BUF_RKEY 3) = 0"
  using xrnic_unreg_mr_revokes [of "\<lparr>bitmap = replicate 64 True, max_count = 40\<rparr>" 3 "0x5A" "[]" "\<lambda>_. 9"]
  by (auto simp: bmap_ok_def)

definition demo_rq :: xib_rq where
  "demo_rq = \<lparr>rq_ba_v = 0x40000000, rq_ba_p = 0x40000000, rq_wrptr_db_local = 0, rq_ci_db_local = 0, prod = 0,
     cons = 0, gsi_cons = 0, rq_max_wr = 4, rqe_list = []\<rparr>"

definition demo_sq :: xib_sq where
  "demo_sq = \<lparr>sq_cmpl_db_local = 0, send_cq_db_local = 0, wr_id_array = [], sqd_wr_list = [], sqd_length = 0,
     pl_buf_list = [], sq_max_wr = 4\<rparr>"

definition demo_qp :: xib_qp where
  "demo_qp = \<lparr>sq_ba_p = 0, sq_wqes = [], send_sgl_busy = False, is_ipv6 = False, send_sgl_p = 0, send_sgl = [],
     qp_state = XIB_QP_STATE_RESET, rq = demo_rq, rq_mem = [], sq = demo_sq, hw_qpn = 3,
     qp_type = XIB_QP_TYPE_KERNEL, send_psn = 0, io_qp = False, sq_drained = False, sq_polled_count = 0,
     post_send_count = 0, rq_buf_size = 4096, imm_inv_data = []\<rparr>"

definition demo_params :: xib_qp_modify_params where
  "demo_params = \<lparr>flags = 0xFF, new_state = XIB_QP_STATE_INIT, dest_qp = 7, traffic_class = 0, hop_limit = 64,
     dmac = [0, 0x0A, 0x35, 1, 2, 3], retry_cnt = 7, rnr_retry_cnt = 7, rq_psn = 100, sq_psn = 200,
     ip_version = 4, ip4_daddr = 0x0100000A, ipv6_addr = []\<rparr>"


theorem config_get_raw_ip_witness:
  "fst (run_state (do {config_raw_ip 0x180060 [0x20010DB8, 0, 0, 1] True;
      get_raw_ip (reg_value (\<lambda>_. 0)) 0x180060 True}) []) = [0x20010DB8, 0, 0, 1]"
  by (rule config_get_raw_ip) (simp_all add: readback_mem)

subsection \<open>The recovery of a queue pair ends\<close>

definition reads_only :: "io list \<Rightarrow> bool" where
  "reads_only new \<longleftrightarrow> (\<forall>off v. IoW off v \<notin> set new)"

lemma reads_only_simps [simp]:
  "reads_only []" "reads_only (IoR off # new) \<longleftrightarrow> reads_only new"
  "reads_only (new @ new') \<longleftrightarrow> reads_only new \<and> reads_only new'"
  by (auto simp: reads_only_def)

lemma reads_only_keeps: "reads_only new \<Longrightarrow> fold io_effect new r = r"
proof (induction new)
  case (Cons x new)
  then show ?case by (cases x) (auto simp: reads_only_def)
qed simp

lemma wait_sq_empty_returns:
  assumes "drop_bit 9 (hw (log @ replicate n (IoR (XRNIC_STAT_QP q))) (XRNIC_STAT_QP q)) AND 3 \<noteq> 0"
  shows "\<exists>new. wait_sq_empty hw q log = Some (log @ new) \<and> reads_only new"
  using assms
proof (induction n arbitrary: log)
  case 0
  then show ?case by (subst wait_sq_empty.simps) (simp add: Let_def)
next
  case (Suc n)
  let ?r = "IoR (XRNIC_STAT_QP q)"
  obtain new where "wait_sq_empty hw q (log @ [?r]) = Some ((log @ [?r]) @ new)" "reads_only new"
    using Suc.IH [of "log @ [?r]"] Suc.prems by auto
  then show ?case by (subst wait_sq_empty.simps) (auto simp: Let_def)
qed

text \<open>One round of the second loop.\<close>

definition drain_poll :: "u32 \<Rightarrow> io list" where
  "drain_poll q = [IoR (XRNIC_SQ_PROD_IDX q), IoR (XRNIC_CQ_HEAD_PTR q)]"

lemma wait_sq_drained_returns:
  assumes "t + hz < jiffies (log @ concat (replicate (Suc n) (drain_poll q)))"
  shows "\<exists>new. wait_sq_drained hw jiffies hz t q log = Some (log @ new) \<and> reads_only new"
  using assms
proof (induction n arbitrary: log)
  case 0
  then show ?case by (subst wait_sq_drained.simps) (simp add: Let_def drain_poll_def)
next
  case (Suc n)
  obtain new where "wait_sq_drained hw jiffies hz t q (log @ drain_poll q) = Some ((log @ drain_poll q) @ new)"
      "reads_only new"
    using Suc.IH [of "log @ drain_poll q"] Suc.prems by auto
  then show ?case by (subst wait_sq_drained.simps) (auto simp: Let_def drain_poll_def)
qed

lemma run_under_recovery:
  "snd (run_state (xrnic_qp_under_recovery hw q) log) =
     log @ [IoR (XRNIC_QP_CONF q), IoW (XRNIC_QP_CONF q) (hw log (XRNIC_QP_CONF q) AND NOT QP_ENABLE),
       IoW (XRNIC_QP_CONF q) (hw log (XRNIC_QP_CONF q) AND NOT QP_ENABLE),
       IoW (XRNIC_QP_CONF q) (hw log (XRNIC_QP_CONF q) AND NOT QP_ENABLE OR QP_UNDER_RECOVERY)]"
  by (simp add: xrnic_qp_under_recovery_def Let_def)

text \<open>C23: when the hardware eventually reports the queues empty and the clock runs, the fatal-error handler
  returns, and leaves the queue pair disabled and under recovery with its other settings unchanged.\<close>

theorem xib_fatal_handler_recovers:
  assumes hw: "readback hw {XRNIC_QP_CONF (hw_qpn qp)}"
    and drains: "\<And>log. \<exists>n. drop_bit 9 (hw (log @ replicate n (IoR (XRNIC_STAT_QP (hw_qpn qp)))) (XRNIC_STAT_QP (hw_qpn qp))) AND 3 \<noteq> 0"
    and clock: "\<And>log t. \<exists>n. t < jiffies (log @ concat (replicate (Suc n) (drain_poll (hw_qpn qp))))"
  shows "\<exists>log'. xib_fatal_handler hw jiffies hz qp log = Some log' \<and>
    hw log' (XRNIC_QP_CONF (hw_qpn qp)) = (hw log (XRNIC_QP_CONF (hw_qpn qp)) AND NOT QP_ENABLE) OR QP_UNDER_RECOVERY"
proof -
  let ?q = "hw_qpn qp" let ?conf = "XRNIC_QP_CONF (hw_qpn qp)"
  let ?log0 = "log @ [IoR (XRNIC_STAT_QP ?q)]"
  obtain new1 where n1: "wait_sq_empty hw ?q ?log0 = Some (?log0 @ new1)" "reads_only new1"
    using drains [of ?log0] wait_sq_empty_returns by blast
  let ?log1 = "?log0 @ new1"
  obtain new2 where n2: "wait_sq_drained hw jiffies hz (jiffies ?log1) ?q ?log1 = Some (?log1 @ new2)" "reads_only new2"
    using clock [of "jiffies ?log1 + hz" ?log1] wait_sq_drained_returns by blast
  have rd: "hw l ?conf = reg_value (hw []) l ?conf" for l using hw by (simp add: readback_def)
  have "hw (?log1 @ new2) ?conf = hw log ?conf"
    unfolding rd [of "?log1 @ new2"] rd [of log] using n1(2) n2(2) by (simp add: reads_only_keeps)
  then show ?thesis using n1(1) n2(1)
    by (simp add: xib_fatal_handler_def run_under_recovery rd [of "_ @ _ # _"])
qed

lemma rq_psn_fields:
  "rq_psn_conf psn AND 0xFFFFFF = (psn - 1) AND 0xFFFFFF" "drop_bit 24 (rq_psn_conf psn) = 2"
proof -
  have m: "(0xFFFFFF :: u32) = mask 24" by (simp add: mask_eq_exp_minus_1)
  show "rq_psn_conf psn AND 0xFFFFFF = (psn - 1) AND 0xFFFFFF"
    unfolding rq_psn_conf_def m by (simp flip: take_bit_eq_mask)
  have "drop_bit 24 ((psn - 1) AND mask 24) = 0" by (rule bit_word_eqI) (auto simp: bit_simps)
  then show "drop_bit 24 (rq_psn_conf psn) = 2"
    unfolding rq_psn_conf_def m drop_bit_or by simp
qed

text \<open>A device whose queues are always empty.\<close>

definition ready_hw :: "u32 \<Rightarrow> hardware" where
  "ready_hw q log off = (if off = XRNIC_STAT_QP q then 0x200 else reg_value (\<lambda>_. 0x31) log off)"

theorem xib_fatal_handler_recovers_witness:
  "\<exists>log'. xib_fatal_handler (ready_hw 3) length 100 demo_qp [] = Some log' \<and>
     ready_hw 3 log' (XRNIC_QP_CONF 3) = 0x70"
proof -
  have q: "hw_qpn demo_qp = 3" by (simp add: demo_qp_def)
  have "\<exists>log'. xib_fatal_handler (ready_hw 3) length 100 demo_qp [] = Some log' \<and>
    ready_hw 3 log' (XRNIC_QP_CONF (hw_qpn demo_qp)) =
      (ready_hw 3 [] (XRNIC_QP_CONF (hw_qpn demo_qp)) AND NOT QP_ENABLE) OR QP_UNDER_RECOVERY"
  proof (rule xib_fatal_handler_recovers)
    show "readback (ready_hw 3) {XRNIC_QP_CONF (hw_qpn demo_qp)}"
      using reg_value_cong [of "\<lambda>_. 0x31" _ "ready_hw 3 []"]
      by (simp add: q readback_def ready_hw_def qreg_defs)
    show "\<exists>n. drop_bit 9 (ready_hw 3 (log @ replicate n (IoR (XRNIC_STAT_QP (hw_qpn demo_qp))))
        (XRNIC_STAT_QP (hw_qpn demo_qp))) AND 3 \<noteq> 0" for log
      by (simp add: q ready_hw_def)
    show "\<exists>n. t < length (log @ concat (replicate (Suc n) (drain_poll (hw_qpn demo_qp))))" for log t
      by (rule exI [of _ t]) (simp add: length_concat sum_list_replicate drain_poll_def)
  qed
  then show ?thesis by (simp add: q ready_hw_def qreg_defs qp_conf_bits)
qed

text \<open>ringing the send doorbell announces the next position, between 1 and the depth, and advances the
  driver's counter by one around the ring.\<close>

theorem xrnic_send_wr_doorbell:
  assumes "sq_cmpl_db_local (sq qp) < sq_max_wr (sq qp)"
  shows "\<exists>qp'. run_state (xrnic_send_wr qp) log =
      (qp', log @ [IoW (XRNIC_SQ_PROD_IDX (hw_qpn qp)) (sq_cmpl_db_local (sq qp) + 1)]) \<and>
    sq_cmpl_db_local (sq qp') < sq_max_wr (sq qp) \<and>
    unat (sq_cmpl_db_local (sq qp')) = Suc (unat (sq_cmpl_db_local (sq qp))) mod unat (sq_max_wr (sq qp)) \<and>
    sq_cmpl_db_local (sq qp) + 1 \<le> sq_max_wr (sq qp)"
proof -
  let ?c = "sq_cmpl_db_local (sq qp)" and ?m = "sq_max_wr (sq qp)"
  have u: "unat (?c + 1) = Suc (unat ?c)" using unat_inc_less [OF assms] .
  have le: "Suc (unat ?c) \<le> unat ?m" using assms by (simp add: word_less_nat_alt)
  show ?thesis
  proof (cases "?c + 1 = ?m")
    case True
    then show ?thesis using u assms by (simp add: xrnic_send_wr_def Let_def word_less_nat_alt)
  next
    case False
    then have "Suc (unat ?c) < unat ?m" using u le by (metis le_neq_implies_less word_unat_eq_iff)
    then show ?thesis using u False
      by (simp add: xrnic_send_wr_def Let_def word_less_nat_alt word_le_nat_alt)
  qed
qed

theorem xrnic_send_wr_doorbell_witness:
  "\<exists>qp'. run_state (xrnic_send_wr demo_qp) [] = (qp', [IoW (XRNIC_SQ_PROD_IDX 3) 1]) \<and>
     unat (sq_cmpl_db_local (sq qp')) = 1"
  using xrnic_send_wr_doorbell [of demo_qp "[]"] by (auto simp: demo_qp_def demo_sq_def)

end
