(* ===== verification/Xib_Irq.thy ===== *)
theory Xib_Irq
  imports Xib_Rnic
begin

text \<open>
  Interrupts and the packets they announce: the second half of
  \<open>recipes-modules/xib-module/files/rnic.c\<close>.  A scheduled tasklet is a value of \<open>task\<close>; a null pointer
  or an index outside an array ends the handler with a \<open>fault\<close>.  The header library of the kernel's
  InfiniBand core (\<open>ib_ud_header_init\<close>, \<open>ib_ud_ip4_csum\<close>, \<open>ib_ud_header_pack\<close>) is an argument.
\<close>

unbundle bit_operations_syntax

subsection \<open>Interrupts\<close>

datatype task = CompTask nat | CnpTask nat | FatalTask nat | GsiTask

datatype fault = Null_qp nat | Bad_index u32

type_synonym irq_result = "task list \<times> fault option"

record xib_dev =
  qp_list :: "xib_qp option list"
  gsi_qp :: "xib_qp option"
  max_qp :: u32
  xl :: xrnic_local

definition XRNIC_INT_INC_MAD_PKT :: u32 where "XRNIC_INT_INC_MAD_PKT = 2"
definition XRNIC_INT_WQE_COMP :: u32 where "XRNIC_INT_WQE_COMP = 16"
definition XRNIC_INT_RQ_PKT_RCVD :: u32 where "XRNIC_INT_RQ_PKT_RCVD = 64"
definition XRNIC_INT_FATAL_ERR_RCVD :: u32 where "XRNIC_INT_FATAL_ERR_RCVD = 128"
definition XRNIC_INT_CNP :: u32 where "XRNIC_INT_CNP = 256"

lemmas int_bits = XRNIC_INT_INC_MAD_PKT_def XRNIC_INT_WQE_COMP_def XRNIC_INT_RQ_PKT_RCVD_def
  XRNIC_INT_FATAL_ERR_RCVD_def XRNIC_INT_CNP_def

text \<open>\<open>ffs\<close>: one more than the number of the lowest set bit, 0 if there is none.\<close>

definition ffs :: "u32 \<Rightarrow> nat" where
  "ffs w = (case List.find (bit w) [0..<32] of Some i \<Rightarrow> Suc i | None \<Rightarrow> 0)"

definition clear_bit :: "nat \<Rightarrow> u32 \<Rightarrow> u32" where
  "clear_bit i w = w AND NOT (push_bit i 1)"

lemma ffs_0 [simp]: "ffs 0 = 0"
  by (simp add: ffs_def find_None_iff [THEN iffD2])

lemma ffs_SucD: "ffs w = Suc i \<Longrightarrow> bit w i \<and> i < 32 \<and> (\<forall>j < i. \<not> bit w j)"
  by (auto simp: ffs_def find_Some_iff split: option.splits)

lemma bit_clear_bit: "bit (clear_bit i w) n \<longleftrightarrow> bit w n \<and> n \<noteq> i"
  by (auto simp: clear_bit_def bit_simps dest: bit_imp_le_length)

lemma clear_bit_less: "bit w i \<Longrightarrow> unat (clear_bit i w) < unat w"
proof -
  assume b: "bit w i"
  let ?m = "push_bit i 1 :: u32"
  have m: "w AND ?m = ?m" using b by (intro bit_word_eqI) (auto simp: bit_simps)
  have "w = clear_bit i w + ?m" using and_not_plus_and [of w ?m] unfolding clear_bit_def m .
  then have "unat w = (unat (clear_bit i w) + unat ?m) mod 2 ^ LENGTH(32)" by (metis unat_word_ariths(1))
  moreover have "clear_bit i w AND ?m = 0" by (rule bit_word_eqI) (auto simp: clear_bit_def bit_simps)
  then have "clear_bit i w \<le> w" unfolding clear_bit_def by (simp add: word_and_le2)
  moreover have "clear_bit i w \<noteq> w" using b bit_clear_bit [of i w i] by metis
  ultimately show ?thesis by (simp add: word_le_nat_alt word_unat_eq_iff)
qed

text \<open>The loop over the bits of one status word.  Bit \<open>b\<close> of bank \<open>i\<close> is taken for entry
  \<open>32 * i + b - 1\<close> of \<open>qp_list\<close>, computed in 32 bits.\<close>

definition irq_idx :: "u32 \<Rightarrow> nat \<Rightarrow> u32" where
  "irq_idx i b = push_bit 5 i + of_nat (Suc b) - 2"

function irq_bits :: "xib_qp option list \<Rightarrow> bool \<Rightarrow> u32 \<Rightarrow> u32 \<Rightarrow> irq_result" where
  "irq_bits qps cnp i ints =
     (case ffs ints of
        0 \<Rightarrow> ([], None)
      | Suc b \<Rightarrow>
          (let idx = irq_idx i b
           in if length qps \<le> unat idx then ([], Some (Bad_index idx))
              else case qps ! unat idx of
                None \<Rightarrow> ([], Some (Null_qp (unat idx)))
              | Some qp \<Rightarrow>
                  (let (ts, f) = irq_bits qps cnp i (clear_bit b ints)
                   in ((if cnp then [CnpTask (unat idx)]
                        else if qp_type qp \<noteq> XIB_QP_TYPE_USER then [CompTask (unat idx)] else []) @ ts, f))))"
  by pat_completeness auto
termination
  by (relation "measure (\<lambda>(qps, cnp, i, ints). unat ints)") (auto dest!: ffs_SucD simp: clear_bit_less)

declare irq_bits.simps [simp del]

fun irq_banks :: "hardware \<Rightarrow> xib_qp option list \<Rightarrow> bool \<Rightarrow> u32 \<Rightarrow> nat list \<Rightarrow> irq_result dev" where
  "irq_banks hw qps cnp base [] = State_Monad.return ([], None)"
| "irq_banks hw qps cnp base (i # is) = do {
     ints \<leftarrow> xrnic_ior hw (base + push_bit 2 (of_nat i));
     xrnic_iow (base + push_bit 2 (of_nat i)) ints;
     (case irq_bits qps cnp (of_nat i) ints of
        (ts, Some f) \<Rightarrow> State_Monad.return (ts, Some f)
      | (ts, None) \<Rightarrow> do {
          (ts', f) \<leftarrow> irq_banks hw qps cnp base is;
          State_Monad.return (ts @ ts', f)})}"

definition xib_irq_event :: "hardware \<Rightarrow> xib_dev \<Rightarrow> u32 \<Rightarrow> irq_result dev" where
  "xib_irq_event hw d status =
     (let banks = [0..<unat (num_intr_banks (xl d))]; cnp = (status AND XRNIC_INT_CNP \<noteq> 0)
      in if status AND XRNIC_INT_WQE_COMP \<noteq> 0 then irq_banks hw (qp_list d) cnp XRNIC_COMPQ_INT_STAT_0_31 banks
         else if status AND XRNIC_INT_RQ_PKT_RCVD \<noteq> 0 then irq_banks hw (qp_list d) cnp XRNIC_RCVQ_INT_STAT_0_31 banks
         else if cnp then irq_banks hw (qp_list d) cnp XRNIC_CNP_INT_STAT_0_31 banks
         else State_Monad.return ([], None))"

subsection \<open>Fatal errors\<close>

text \<open>How many entries of the error queue are new, as the C \<open>int\<close>.\<close>

definition err_received :: "u32 \<Rightarrow> u32 \<Rightarrow> u32 \<Rightarrow> int" where
  "err_received mx local db =
     (if local > db then sint ((db + mx) - local) else sint (db - local))"

definition recovery_conf :: "u32 \<Rightarrow> u32" where
  "recovery_conf val = (val AND NOT QP_ENABLE) OR QP_UNDER_RECOVERY"

definition err_qp_num :: "u32 \<Rightarrow> u32" where
  "err_qp_num val = drop_bit 16 (val AND 0xFFFF0000)"

fun fatal_entries :: "hardware \<Rightarrow> nat \<Rightarrow> xib_dev \<Rightarrow> (task list \<times> fault option \<times> xib_dev) dev" where
  "fatal_entries hw 0 d = State_Monad.return ([], None, d)"
| "fatal_entries hw (Suc n) d =
     (let entry = (if in_pkt_err_db_local (xl d) = max_qp d then 0 else in_pkt_err_db_local (xl d))
      in if length (in_pkt_err (xl d)) \<le> unat entry then State_Monad.return ([], Some (Bad_index entry), d)
         else do {
           let qp_num = err_qp_num (in_pkt_err (xl d) ! unat entry);
           val \<leftarrow> xrnic_ior hw (XRNIC_QP_CONF (qp_num - 1));
           xrnic_iow (XRNIC_QP_CONF (qp_num - 1)) (recovery_conf val);
           let i = unat (qp_num - 1);
           (if length (qp_list d) \<le> i then State_Monad.return ([], Some (Bad_index (qp_num - 1)), d)
            else do {
              (ts, f, d') \<leftarrow> fatal_entries hw n (d\<lparr>xl := (xl d)\<lparr>in_pkt_err_db_local := entry + 1\<rparr>\<rparr>);
              State_Monad.return ((if qp_list d ! i \<noteq> None then [FatalTask i] else []) @ ts, f, d')})})"

definition xib_fatal_event :: "hardware \<Rightarrow> xib_dev \<Rightarrow> (task list \<times> fault option \<times> xib_dev) dev" where
  "xib_fatal_event hw d = do {
     db \<leftarrow> xrnic_ior hw XRNIC_INCG_PKT_ERRQ_WPTR;
     (if db = in_pkt_err_db_local (xl d) then State_Monad.return ([], None, d)
      else do {
        (ts, f, d') \<leftarrow> fatal_entries hw (nat (err_received (max_qp d) (in_pkt_err_db_local (xl d)) db)) d;
        (case f of
           Some x \<Rightarrow> State_Monad.return (ts, f, d')
         | None \<Rightarrow> do {
             val \<leftarrow> xrnic_ior hw XRNIC_INT_STAT;
             xrnic_iow XRNIC_INT_STAT (val OR XRNIC_INT_FATAL_ERR_RCVD);
             State_Monad.return (ts, f, d')})})}"

subsection \<open>The interrupt handler\<close>

text \<open>One part of the handler after another, unless one of them faulted.\<close>

type_synonym irq_step = "(task list \<times> fault option \<times> xib_dev) dev"

definition irq_part :: "bool \<Rightarrow> (xib_dev \<Rightarrow> irq_step) \<Rightarrow> task list \<times> fault option \<times> xib_dev \<Rightarrow> irq_step" where
  "irq_part b part r =
     (case r of (ts, f, d) \<Rightarrow>
        if f \<noteq> None \<or> \<not> b then State_Monad.return r
        else do {
          (ts', f', d') \<leftarrow> part d;
          State_Monad.return (ts @ ts', f', d')})"

definition event_part :: "hardware \<Rightarrow> u32 \<Rightarrow> xib_dev \<Rightarrow> irq_step" where
  "event_part hw status d = do {(ts, f) \<leftarrow> xib_irq_event hw d status; State_Monad.return (ts, f, d)}"

definition mad_part :: "xib_dev \<Rightarrow> irq_step" where
  "mad_part d = State_Monad.return
     (case gsi_qp d of Some q \<Rightarrow> ([GsiTask], None, d) | None \<Rightarrow> ([], Some (Null_qp 0), d))"

definition xib_irq :: "hardware \<Rightarrow> xib_dev \<Rightarrow> irq_step" where
  "xib_irq hw d = do {
     status \<leftarrow> xrnic_ior hw XRNIC_INT_STAT;
     xrnic_iow XRNIC_INT_STAT status;
     r1 \<leftarrow> irq_part (status AND XRNIC_INT_WQE_COMP \<noteq> 0) (event_part hw XRNIC_INT_WQE_COMP) ([], None, d);
     r2 \<leftarrow> irq_part (status AND XRNIC_INT_RQ_PKT_RCVD \<noteq> 0) (event_part hw XRNIC_INT_RQ_PKT_RCVD) r1;
     r3 \<leftarrow> irq_part (status AND XRNIC_INT_CNP \<noteq> 0) (event_part hw XRNIC_INT_CNP) r2;
     r4 \<leftarrow> irq_part (status AND XRNIC_INT_INC_MAD_PKT \<noteq> 0) mad_part r3;
     irq_part (status AND XRNIC_INT_FATAL_ERR_RCVD \<noteq> 0) (xib_fatal_event hw) r4}"

subsection \<open>Congestion notification packets\<close>

text \<open>The fields of \<open>struct ib_ud_header\<close> the driver sets; addresses and numbers in network order are the
  words the structure holds.\<close>

record ud_header =
  eth_dmac :: "u8 list"
  eth_smac :: "u8 list"
  eth_type :: u16
  ip4_tos :: u8
  ip4_id :: u16
  ip4_frag_off :: u16
  ip4_ttl :: u8
  ip4_saddr :: u32
  hdr_ip4_daddr :: u32
  ip4_check :: u16
  grh_hop_limit :: u8
  grh_traffic_class :: u8
  grh_flow_label :: u32
  grh_dgid :: "u32 list"
  grh_sgid :: "u32 list"
  udp_dport :: u16
  hdr_udp_sport :: u16
  udp_csum :: u16
  bth_opcode :: u8
  bth_pad_count :: u8
  bth_pkey :: u16
  bth_destination_qpn :: u32
  bth_psn :: u32
  bth_solicited_event :: bool
  bth_ack_req :: bool
  bth_mig_req :: bool
  deth_source_qpn :: u32
  deth_qkey :: u32
  immediate_present :: bool

text \<open>The kernel's header library: initialisation for a UDP packet over Ethernet (payload size, presence of a
  GRH, IP version), the IPv4 checksum, packing, and the numbers of \<open>IB_OPCODE_CNP\<close> and of the datagram
  opcodes.\<close>

record ud_lib =
  ud_header_init :: "int \<Rightarrow> bool \<Rightarrow> u8 \<Rightarrow> ud_header"
  ud_ip4_csum :: "ud_header \<Rightarrow> u16"
  ud_header_pack :: "ud_header \<Rightarrow> u8 list"
  opcode_cnp :: u8
  opcode_ud_send_only :: u8
  opcode_ud_send_only_imm :: u8

definition bswap16 :: "u16 \<Rightarrow> u16" where
  "bswap16 x = push_bit 8 x OR drop_bit 8 x"

definition le16 :: "u32 \<Rightarrow> u8 list" where
  "le16 w = [ucast w, ucast (drop_bit 8 w)]"

definition le32 :: "u32 \<Rightarrow> u8 list" where
  "le32 w = [ucast w, ucast (drop_bit 8 w), ucast (drop_bit 16 w), ucast (drop_bit 24 w)]"

text \<open>The destination MAC as read back from the two registers.\<close>

definition cnp_dmac :: "u32 \<Rightarrow> u32 \<Rightarrow> u8 list" where
  "cnp_dmac hi lo =
     le16 (push_bit 8 (hi AND 0xFF) OR (drop_bit 8 hi AND 0xFF)) @ le32 (bswap32 lo)"

definition overlay :: "u8 list \<Rightarrow> nat \<Rightarrow> u8 list \<Rightarrow> u8 list" where
  "overlay buf ofs bs = take ofs buf @ bs @ drop (ofs + length bs) buf"

text \<open>The IPv4 part: the header of queue pair 1, and the destination register of the queue pair.\<close>

definition cnp_ip4 :: "hardware \<Rightarrow> ud_lib \<Rightarrow> xib_qp \<Rightarrow> ud_header \<Rightarrow> ud_header \<Rightarrow> ud_header dev" where
  "cnp_ip4 hw lib qp h h1 = do {
     saddr \<leftarrow> xrnic_ior hw XRNIC_IPV4_ADDR;
     daddr \<leftarrow> xrnic_ior hw (XRNIC_IP_DEST_ADDR_1 (hw_qpn qp));
     config_raw_ip (XRNIC_IP_DEST_ADDR_1 (hw_qpn qp)) [daddr] False;
     State_Monad.return (h1\<lparr>ip4_tos := 0, ip4_id := 0, ip4_frag_off := bswap16 0x4000, ip4_ttl := 64,
       ip4_saddr := bswap32 saddr, hdr_ip4_daddr := bswap32 daddr, ip4_check := ud_ip4_csum lib h\<rparr>)}"

text \<open>The IPv6 part sets the header of the queue pair, and its destination registers.\<close>

definition cnp_ip6 :: "hardware \<Rightarrow> xib_qp \<Rightarrow> ud_header \<Rightarrow> ud_header dev" where
  "cnp_ip6 hw qp h = do {
     dgid \<leftarrow> get_raw_ip hw (XRNIC_IP_DEST_ADDR_1 (hw_qpn qp)) (is_ipv6 qp);
     sgid \<leftarrow> get_raw_ip hw XRNIC_IPV6_ADD_1 (is_ipv6 qp);
     config_raw_ip (XRNIC_IP_DEST_ADDR_1 (hw_qpn qp)) sgid True;
     State_Monad.return (h\<lparr>grh_hop_limit := 64, grh_traffic_class := 0, grh_flow_label := 0,
       grh_dgid := dgid, grh_sgid := sgid\<rparr>)}"

definition cnp_buffer :: "u8 list \<Rightarrow> u8 list \<Rightarrow> u8 list" where
  "cnp_buffer sgl packed =
     overlay ((overlay sgl 0 packed)[0x2E := 0x40]) (length packed) (replicate 16 0)"

text \<open>The result: the headers of the queue pair and of queue pair 1, and queue pair 1.  The sizes are those
  of the source: 16 reserved bytes, of which the library accounts for the 8 of the DETH.\<close>

definition send_out_cnp ::
  "hardware \<Rightarrow> ud_lib \<Rightarrow> u8 list \<Rightarrow> xib_qp \<Rightarrow> ud_header \<Rightarrow> xib_qp \<Rightarrow> (ud_header \<times> ud_header \<times> xib_qp) dev" where
  "send_out_cnp hw lib smac qp h qp1 = do {
     hi \<leftarrow> xrnic_ior hw (XRNIC_MAC_DEST_ADDR_HI (hw_qpn qp));
     lo \<leftarrow> xrnic_ior hw (XRNIC_MAC_DEST_ADDR_LO (hw_qpn qp));
     let h1 = (ud_header_init lib (16 - 8) False 4)\<lparr>eth_dmac := cnp_dmac hi lo, eth_smac := smac, eth_type := bswap16 0x0800\<rparr>;
     (h', h1') \<leftarrow> (if \<not> is_ipv6 qp then do {x \<leftarrow> cnp_ip4 hw lib qp h h1; State_Monad.return (h, x)}
                   else do {x \<leftarrow> cnp_ip6 hw qp h; State_Monad.return (x, h1)});
     dqpn \<leftarrow> xrnic_ior hw (XRNIC_DEST_QP_CONF (hw_qpn qp));
     let h2 = h1'\<lparr>udp_dport := bswap16 4791, hdr_udp_sport := bswap16 0x8CD1, udp_csum := 0,
       bth_opcode := opcode_cnp lib, bth_pad_count := 0, bth_pkey := 0xFFFF,
       bth_destination_qpn := bswap32 dqpn, bth_psn := 0, bth_solicited_event := False, bth_ack_req := False,
       bth_mig_req := False\<rparr>;
     let packed = ud_header_pack lib h2;
     let slot = unat (sq_cmpl_db_local (sq qp1));
     let wqe = (sq_wqes qp1 ! slot)\<lparr>wrid := 0, l_addr := send_sgl_p qp1, r_offset := 0, r_tag := 0,
       wr_length := of_nat (length packed + (16 - 8)), wr_opcode := 2\<rparr>;
     qp1' \<leftarrow> xrnic_send_wr (qp1\<lparr>send_sgl := cnp_buffer (send_sgl qp1) packed,
       sq_wqes := (sq_wqes qp1)[slot := wqe]\<rparr>);
     State_Monad.return (h'\<lparr>deth_source_qpn := 0, deth_qkey := 0\<rparr>, h2, qp1')}"

subsection \<open>Completions\<close>

text \<open>Calls of the completion handlers of the receive and the send queue, if they are set.\<close>

datatype callback = RqComp | SqComp

definition xib_comp_handler :: "xib_qp option \<Rightarrow> bool \<Rightarrow> bool \<Rightarrow> callback list" where
  "xib_comp_handler qp rq_set sq_set =
     (case qp of None \<Rightarrow> [] | Some q \<Rightarrow> (if rq_set then [RqComp] else []) @ (if sq_set then [SqComp] else []))"

text \<open>Whether one of the first \<open>(IB_GRH_BYTES - IB_IP4_BYTES) / 4\<close> bytes is set (then the packet is taken for
  IPv6).\<close>

definition is_ipv4_addr :: "u8 list \<Rightarrow> u32" where
  "is_ipv4_addr buf = fold (\<lambda>i v. v OR ucast (buf ! i)) [0..<(40 - 20) div 4] 0"

definition be16_at :: "u8 list \<Rightarrow> nat \<Rightarrow> int" where
  "be16_at buf i = 256 * uint (buf ! i) + uint (buf ! Suc i)"

text \<open>The length of the datagram and the version: the payload length of an IPv6 header at the start, or the
  total length of an IPv4 header at byte 20.\<close>

definition mad_info :: "u8 list \<Rightarrow> int \<times> u32" where
  "mad_info hdr = (if is_ipv4_addr hdr \<noteq> 0 then (40 + be16_at hdr 4, 6) else (be16_at hdr 22, 4))"

text \<open>One received datagram: \<open>None\<close> is an access outside the receive memory or the list of requests.\<close>

definition gsi_packet :: "xib_qp \<Rightarrow> memory \<Rightarrow> (xib_qp \<times> memory) option dev" where
  "gsi_packet qp mem =
     (let r = rq qp;
          num = (if rq_max_wr r \<le> rq_wrptr_db_local r then rq_wrptr_db_local r - rq_max_wr r else rq_wrptr_db_local r);
          base = unat num * unat (rq_buf_size qp)
      in if length (rqe_list r) \<le> unat (gsi_cons r) \<or> rqe_sg_list (rqe_list r ! unat (gsi_cons r)) = []
         then State_Monad.return None
         else case read_bytes (rq_mem qp) base 40 of
           None \<Rightarrow> State_Monad.return None
         | Some hdr \<Rightarrow>
             (let (mad_len, ver) = mad_info hdr;
                  rqe = rqe_list r ! unat (gsi_cons r); sge = hd (rqe_sg_list rqe);
                  temp = 8 + 12 + 8 + (if ver = 4 then 20 else 40)
              in if mad_len < temp then State_Monad.return None
                 else case read_bytes (rq_mem qp) (base + 40 + 8 + 12 + 8) (nat (mad_len - temp)) of
                   None \<Rightarrow> State_Monad.return None
                 | Some payload \<Rightarrow> do {
                     let mem' = write_bytes (write_bytes mem (sge_addr sge) hdr) (sge_addr sge + 40) payload;
                     let rqe' = rqe\<lparr>rqe_ip_version := ver,
                       rqe_sg_list := sge\<lparr>sge_length := of_int (mad_len - 8)\<rparr> # tl (rqe_sg_list rqe)\<rparr>;
                     let db = rq_wrptr_db_local r + 1;
                     let r' = xib_inc_sw_gsi_cons (r\<lparr>rqe_list := (rqe_list r)[unat (gsi_cons r) := rqe']\<rparr>);
                     xrnic_iow (XRNIC_RQ_CONS_IDX (hw_qpn qp)) db;
                     State_Monad.return
                       (Some (qp\<lparr>rq := r'\<lparr>rq_wrptr_db_local := (if db = rq_max_wr r then 0 else db)\<rparr>\<rparr>, mem'))}))"

fun gsi_packets :: "bool \<Rightarrow> nat \<Rightarrow> xib_qp \<Rightarrow> memory \<Rightarrow> (xib_qp \<times> memory \<times> callback list) option dev" where
  "gsi_packets rq_set 0 qp mem = State_Monad.return (Some (qp, mem, []))"
| "gsi_packets rq_set (Suc n) qp mem = do {
     p \<leftarrow> gsi_packet qp mem;
     (case p of
        None \<Rightarrow> State_Monad.return None
      | Some (qp', mem') \<Rightarrow> do {
          rest \<leftarrow> gsi_packets rq_set n qp' mem';
          State_Monad.return
            (map_option (\<lambda>(q, m, cs). (q, m, (if rq_set then [RqComp] else []) @ cs)) rest)})}"

text \<open>\<open>db\<close> is the word the hardware writes at \<open>qp1_rq_db_v\<close>.\<close>

definition xib_gsi_comp_handler ::
  "bool \<Rightarrow> bool \<Rightarrow> u32 \<Rightarrow> xib_qp \<Rightarrow> memory \<Rightarrow> (xib_qp \<times> memory \<times> callback list) option dev" where
  "xib_gsi_comp_handler rq_set sq_set db qp mem = do {
     r \<leftarrow> gsi_packets rq_set (nat (xib_get_rq_recd (rq qp) db)) qp mem;
     State_Monad.return (map_option (\<lambda>(q, m, cs). (q, m, cs @ (if sq_set then [SqComp] else []))) r)}"

subsection \<open>Which queue pairs an interrupt serves\<close>

definition set_bits :: "u32 \<Rightarrow> nat list" where
  "set_bits w = filter (bit w) [0..<32]"

lemma set_bits_ffs: "ffs w = 0 \<Longrightarrow> set_bits w = []"
  by (auto simp: ffs_def set_bits_def find_None_iff filter_empty_conv split: option.splits)

lemma set_bits_step:
  assumes "ffs w = Suc b"
  shows "set_bits w = b # set_bits (clear_bit b w)"
proof -
  have b: "bit w b" "b < 32" "\<forall>j < b. \<not> bit w j" using ffs_SucD [OF assms] by auto
  have up: "[0..<32] = [0..<b] @ b # [Suc b..<32]"
    using b(2) upt_add_eq_append [of 0 b "32 - b"] upt_conv_Cons [of b 32] by simp
  have low: "filter (bit w) [0..<b] = []" using b(3) by (simp add: filter_empty_conv)
  have low': "filter (bit (clear_bit b w)) [0..<b] = []" using b(3) by (simp add: filter_empty_conv bit_clear_bit)
  have "filter (bit (clear_bit b w)) [Suc b..<32] = filter (bit w) [Suc b..<32]"
    by (rule filter_cong) (auto simp: bit_clear_bit)
  then show ?thesis using b(1) low low' unfolding set_bits_def up by (simp add: bit_clear_bit)
qed

text \<open>The entry of \<open>qp_list\<close> for bit \<open>b\<close> of bank \<open>i\<close>, and what is scheduled for it.\<close>

definition irq_entry :: "nat \<Rightarrow> nat \<Rightarrow> nat" where
  "irq_entry i b = 32 * i + b - 1"

definition irq_tasks :: "xib_qp option list \<Rightarrow> bool \<Rightarrow> nat \<Rightarrow> task list" where
  "irq_tasks qps cnp j =
     (if cnp then [CnpTask j]
      else case qps ! j of Some qp \<Rightarrow> (if qp_type qp \<noteq> XIB_QP_TYPE_USER then [CompTask j] else []) | None \<Rightarrow> [])"

lemma irq_index:
  assumes "i < 2 ^ 20" "b < 32" "0 < 32 * i + b"
  shows "unat (irq_idx (of_nat i) b) = irq_entry i b"
proof -
  have "push_bit 5 (of_nat i) + of_nat (Suc b) - 2 = (of_nat (32 * i + Suc b) - 2 :: u32)"
    by (simp add: push_bit_eq_mult mult.commute)
  also have "\<dots> = of_nat (32 * i + Suc b - 2)"
    using assms(3) by (subst of_nat_diff) auto
  finally have eq: "push_bit 5 (of_nat i) + of_nat (Suc b) - 2 = (of_nat (irq_entry i b) :: u32)"
    by (simp add: irq_entry_def)
  have "irq_entry i b < 2 ^ 32" using assms by (simp add: irq_entry_def)
  then show ?thesis unfolding irq_idx_def eq by (simp add: unsigned_of_nat take_bit_nat_eq_self_iff)
qed

text \<open>when every set bit of a status word belongs to a queue pair of the list, the loop schedules the
  completion tasklet (the congestion tasklet for congestion interrupts) of exactly those queue pairs,
  in ascending order and skipping completion of user queue pairs, and does not fault.\<close>

theorem irq_bits_exact:
  assumes "i < 2 ^ 20"
    and "\<And>b. bit ints b \<Longrightarrow> 0 < 32 * i + b \<and> irq_entry i b < length qps \<and> qps ! irq_entry i b \<noteq> None"
  shows "irq_bits qps cnp (of_nat i) ints =
    (concat (map (\<lambda>b. irq_tasks qps cnp (irq_entry i b)) (set_bits ints)), None)"
  using assms(2)
proof (induction "unat ints" arbitrary: ints rule: less_induct)
  case less
  show ?case
  proof (cases "ffs ints")
    case 0
    then show ?thesis by (simp add: set_bits_ffs irq_bits.simps)
  next
    case (Suc b)
    have b: "bit ints b" "b < 32" using ffs_SucD [OF Suc] by auto
    have e: "0 < 32 * i + b" "irq_entry i b < length qps" "qps ! irq_entry i b \<noteq> None"
      using less.prems [OF b(1)] by auto
    have ih: "irq_bits qps cnp (of_nat i) (clear_bit b ints) =
        (concat (map (\<lambda>b. irq_tasks qps cnp (irq_entry i b)) (set_bits (clear_bit b ints))), None)"
      using less.hyps [OF clear_bit_less [OF b(1)]] less.prems by (simp add: bit_clear_bit)
    obtain qp where qp: "qps ! irq_entry i b = Some qp" using e(3) by blast
    show ?thesis unfolding irq_bits.simps [of qps cnp "of_nat i" ints] Suc set_bits_step [OF Suc]
      using e(2) qp ih by (simp add: irq_index [OF assms(1) b(2) e(1)] irq_tasks_def Let_def)
  qed
qed

lemma irq_bits_entries:
  assumes "i < 2 ^ 20" "length qps < 2 ^ 32"
  shows "t \<in> set (fst (irq_bits qps cnp (of_nat i) ints)) \<Longrightarrow>
    \<exists>b < 32. (t = CompTask (irq_entry i b) \<or> t = CnpTask (irq_entry i b)) \<and> 0 < 32 * i + b"
proof (induction "unat ints" arbitrary: ints rule: less_induct)
  case less
  show ?case
  proof (cases "ffs ints")
    case 0
    then show ?thesis using less.prems by (simp add: irq_bits.simps)
  next
    case (Suc b)
    have b: "bit ints b" "b < 32" using ffs_SucD [OF Suc] by auto
    let ?idx = "irq_idx (of_nat i) b"
    have small: "unat ?idx < length qps"
      using less.prems unfolding irq_bits.simps [of qps cnp "of_nat i" ints] Suc
      by (auto simp: Let_def split: if_splits)
    have pos: "0 < 32 * i + b"
    proof (rule ccontr)
      assume "\<not> ?thesis"
      then have "?idx = - 1" by (simp add: irq_idx_def)
      then have "unat ?idx = 2 ^ 32 - 1" by (simp add: unsigned_minus_1_eq_mask mask_eq_exp_minus_1)
      then show False using small assms(2) by simp
    qed
    obtain qp where qp: "qps ! unat ?idx = Some qp"
      using less.prems small unfolding irq_bits.simps [of qps cnp "of_nat i" ints] Suc
      by (auto simp: Let_def split: option.splits)
    from less.prems have "t \<in> set (fst (irq_bits qps cnp (of_nat i) (clear_bit b ints))) \<or>
        t = CompTask (irq_entry i b) \<or> t = CnpTask (irq_entry i b)"
      using small qp unfolding irq_bits.simps [of qps cnp "of_nat i" ints] Suc
      by (auto simp: Let_def irq_index [OF assms(1) b(2) pos] split: prod.splits if_splits)
    then show ?thesis using less.hyps [OF clear_bit_less [OF b(1)]] b(2) pos by blast
  qed
qed

lemma irq_banks_entries:
  assumes "length qps < 2 ^ 32" "set is \<subseteq> {..<n}" "n \<le> 2 ^ 20"
    "t \<in> set (fst (fst (run_state (irq_banks hw qps cnp base is) log)))"
  shows "\<exists>j. (t = CompTask j \<or> t = CnpTask j) \<and> Suc j < 32 * n"
  using assms(2,4)
proof (induction "is" arbitrary: log)
  case (Cons i "is")
  let ?log = "log @ [IoR (base + push_bit 2 (of_nat i)), IoW (base + push_bit 2 (of_nat i)) (hw log (base + push_bit 2 (of_nat i)))]"
  have i: "i < 2 ^ 20" "i < n" using Cons.prems(1) assms(3) by auto
  obtain ts f where r: "irq_bits qps cnp (of_nat i) (hw log (base + push_bit 2 (of_nat i))) = (ts, f)" by force
  have "t \<in> set ts \<or> t \<in> set (fst (fst (run_state (irq_banks hw qps cnp base is) ?log)))"
    using Cons.prems(2) r by (auto split: option.splits prod.splits)
  then show ?case
  proof
    assume "t \<in> set ts"
    then obtain b where "b < 32" "t = CompTask (irq_entry i b) \<or> t = CnpTask (irq_entry i b)" "0 < 32 * i + b"
      using irq_bits_entries [OF i(1) assms(1)] r by (metis fst_conv)
    then show ?thesis using i(2) by (intro exI [of _ "irq_entry i b"]) (auto simp: irq_entry_def)
  next
    assume "t \<in> set (fst (fst (run_state (irq_banks hw qps cnp base is) ?log)))"
    then show ?thesis using Cons.IH Cons.prems(1) by simp
  qed
qed simp

text \<open>with the number of banks that the driver computes, a completion or congestion interrupt is never
  served for the last queue pair: no event schedules a tasklet of entry \<open>max_qp - 1\<close>.\<close>

theorem xib_irq_event_misses_last:
  assumes "length (qp_list d) = unat (max_qp d)" "num_intr_banks (xl d) = max_qp d div 32" "unat (max_qp d) \<le> 2 ^ 20"
    and "32 \<le> max_qp d"
  shows "CompTask (unat (max_qp d) - 1) \<notin> set (fst (fst (run_state (xib_irq_event hw d status) log))) \<and>
    CnpTask (unat (max_qp d) - 1) \<notin> set (fst (fst (run_state (xib_irq_event hw d status) log)))"
proof -
  let ?m = "unat (max_qp d)"
  have b: "unat (num_intr_banks (xl d)) = ?m div 32" using assms(2) by (simp add: unat_div)
  have m: "32 \<le> ?m" using assms(4) by (simp add: word_le_nat_alt)
  have no: "t \<noteq> CompTask (?m - 1) \<and> t \<noteq> CnpTask (?m - 1)"
    if mem: "t \<in> set (fst (fst (run_state (irq_banks hw (qp_list d) cnp base [0..<?m div 32]) log)))" for t cnp base
  proof -
    have "length (qp_list d) < 2 ^ 32" "?m div 32 \<le> 2 ^ 20" using assms(1,3) by auto
    then obtain j where "t = CompTask j \<or> t = CnpTask j" "Suc j < 32 * (?m div 32)"
      using irq_banks_entries [OF _ _ _ mem, of "?m div 32"] by (auto simp: lessThan_atLeast0)
    moreover have "32 * (?m div 32) \<le> ?m" by simp
    ultimately show ?thesis using m by auto
  qed
  show ?thesis using no unfolding xib_irq_event_def b Let_def by auto
qed

subsection \<open>What a congestion notification does\<close>

lemma bswap32_be_bytes: "bswap32 (be_bytes a b c d) = be_bytes d c b a"
proof (rule bit_word_eqI)
  fix n assume "n < LENGTH(32)"
  then have n: "n < 32" by simp
  define q r where "q = n div 8" and "r = n mod 8"
  have qr: "n = 8 * q + r" "r < 8" "q < 4" using n by (auto simp: q_def r_def)
  have "bit (bswap32 (be_bytes a b c d)) n \<longleftrightarrow> bit (be_bytes a b c d) (24 - 8 * q + r)"
    using bit_bswap32 [OF n] by (simp add: q_def r_def)
  also have "\<dots> \<longleftrightarrow> bit (be_bytes d c b a) n"
  proof -
    have beyond: "\<not> bit (x :: u8) k" if "8 \<le> k" for x k using that bit_imp_le_length [of x k] by auto
    consider "q = 0" | "q = 1" | "q = 2" | "q = 3" using qr(3) by linarith
    then show ?thesis using qr(2) unfolding qr(1) be_bytes_def
      by cases (auto simp: bit_simps beyond)
  qed
  finally show "bit (bswap32 (be_bytes a b c d)) n = bit (be_bytes d c b a) n" .
qed

lemma cnp_dmac_of_mac: "cnp_dmac (be_bytes2 a b) (be_bytes c d e f) = [a, b, c, d, e, f]"
proof -
  have beyond: "\<not> bit (x :: u8) k" if "8 \<le> k" for x k using that bit_imp_le_length [of x k] by auto
  have hi: "le16 (push_bit 8 (be_bytes2 a b AND 0xFF) OR (drop_bit 8 (be_bytes2 a b) AND 0xFF)) = [a, b]"
    unfolding le16_def be_bytes2_def u32_ff by (auto intro!: bit_word_eqI simp: bit_simps beyond)
  have "le32 (be_bytes f e d c) = [c, d, e, f]"
    unfolding le32_def be_bytes_def by (auto intro!: bit_word_eqI simp: bit_simps beyond)
  then show ?thesis using hi by (simp add: cnp_dmac_def bswap32_be_bytes)
qed

lemma touches_config_raw_ip [touches_intros]:
  assumes "base \<in> R" "base + 4 \<in> R" "base + 8 \<in> R" "base + 12 \<in> R"
  shows "touches (config_raw_ip base ip v6) R"
proof (cases v6)
  case True
  have "touches (config_words base ws i) R" if "i + length ws \<le> 4" for ws i
    using that
  proof (induction ws arbitrary: i)
    case (Cons w ws)
    then have "i \<in> {0, 1, 2, 3}" by auto
    then have "base + of_nat (3 - i) * 4 \<in> R" using assms by auto
    then show ?case using Cons by (auto intro!: touches_intros)
  qed (simp add: touches_return)
  then show ?thesis using True by (simp add: config_raw_ip_def)
next
  case False
  then show ?thesis using assms(1) by (simp add: config_raw_ip_def touches_iow)
qed

lemma modify_keeps_mac:
  assumes "flags p AND XIB_MODIFY_QP_DEST_MAC \<noteq> 0"
  shows "reg_value init (snd (run_state (xrnic_qp_modify hw mtu rt qp p) log)) (XRNIC_MAC_DEST_ADDR_LO (hw_qpn qp)) =
      be_bytes (dmac p ! 2) (dmac p ! 3) (dmac p ! 4) (dmac p ! 5)"
    "reg_value init (snd (run_state (xrnic_qp_modify hw mtu rt qp p) log)) (XRNIC_MAC_DEST_ADDR_HI (hw_qpn qp)) =
      be_bytes2 (dmac p ! 0) (dmac p ! 1)"
proof -
  let ?q = "hw_qpn qp"
  let ?R = "- {XRNIC_MAC_DEST_ADDR_LO ?q, XRNIC_MAC_DEST_ADDR_HI ?q}"
  define rest where "rest = do {
     do_when (flags p AND XIB_MODIFY_QP_AV \<noteq> 0) (modify_av hw ?q p);
     do_when (flags p AND XIB_MODIFY_QP_TIMEOUT \<noteq> 0)
       (xrnic_iow (XRNIC_TIMEOUT_CONF ?q) (timeout_conf rt (retry_cnt p) (rnr_retry_cnt p)));
     do_when (flags p AND XIB_MODIFY_QP_SQ_PSN \<noteq> 0) (xrnic_iow (XRNIC_SNDQ_PSN ?q) (sq_psn p AND 0xFFFFFF));
     do_when (flags p AND XIB_MODIFY_QP_RQ_PSN \<noteq> 0) (xrnic_iow (XRNIC_LAST_RQ_PSN ?q) (rq_psn_conf (rq_psn p)));
     do_when (flags p AND XIB_MODIFY_QP_STATE \<noteq> 0 \<and> new_state p = XIB_QP_STATE_INIT)
       (xrnic_iow (XRNIC_QP_CONF ?q) (init_conf qp mtu));
     State_Monad.return
       (qp\<lparr>is_ipv6 := (if flags p AND XIB_MODIFY_QP_AV \<noteq> 0 then ip_version p = 6 else is_ipv6 qp),
           qp_state := (if flags p AND XIB_MODIFY_QP_STATE \<noteq> 0 then new_state p else qp_state qp)\<rparr>)}"
  have t: "touches rest ?R"
    unfolding rest_def modify_av_def qp_set_ipv6_destination_def
    by (intro touches_intros) (simp_all add: qreg_defs qreg_def)
  have eq: "xrnic_qp_modify hw mtu rt qp p = do {
      do_when (flags p AND XIB_MODIFY_QP_DEST_QP \<noteq> 0) (xrnic_iow (XRNIC_DEST_QP_CONF ?q) (dest_qp p));
      modify_dest_mac ?q (dmac p); rest}"
    using assms by (simp add: xrnic_qp_modify_def rest_def do_when_def Let_def)
  define log1 where "log1 = snd (run_state (do {
      do_when (flags p AND XIB_MODIFY_QP_DEST_QP \<noteq> 0) (xrnic_iow (XRNIC_DEST_QP_CONF ?q) (dest_qp p));
      modify_dest_mac ?q (dmac p)}) log)"
  have run: "snd (run_state (xrnic_qp_modify hw mtu rt qp p) log) = snd (run_state rest log1)"
    unfolding eq log1_def by (simp add: case_prod_beta)
  have "reg_value init log1 (XRNIC_MAC_DEST_ADDR_LO ?q) = be_bytes (dmac p ! 2) (dmac p ! 3) (dmac p ! 4) (dmac p ! 5)"
    "reg_value init log1 (XRNIC_MAC_DEST_ADDR_HI ?q) = be_bytes2 (dmac p ! 0) (dmac p ! 1)"
    unfolding log1_def modify_dest_mac_def do_when_def by (simp_all add: qreg_defs)
  then show "reg_value init (snd (run_state (xrnic_qp_modify hw mtu rt qp p) log)) (XRNIC_MAC_DEST_ADDR_LO ?q) =
      be_bytes (dmac p ! 2) (dmac p ! 3) (dmac p ! 4) (dmac p ! 5)"
    "reg_value init (snd (run_state (xrnic_qp_modify hw mtu rt qp p) log)) (XRNIC_MAC_DEST_ADDR_HI ?q) =
      be_bytes2 (dmac p ! 0) (dmac p ! 1)"
    unfolding run using touches_keeps [OF t] by simp_all
qed

lemma cnp_header_mac:
  "eth_dmac (fst (snd (fst (run_state (send_out_cnp hw lib smac qp h qp1) log)))) =
     cnp_dmac (hw log (XRNIC_MAC_DEST_ADDR_HI (hw_qpn qp)))
       (hw (log @ [IoR (XRNIC_MAC_DEST_ADDR_HI (hw_qpn qp))]) (XRNIC_MAC_DEST_ADDR_LO (hw_qpn qp)))"
  by (simp add: send_out_cnp_def cnp_ip4_def cnp_ip6_def Let_def case_prod_beta)

text \<open>a congestion notification goes to the destination MAC address the queue pair was last given.\<close>

theorem cnp_uses_modified_mac:
  assumes "readback hw {XRNIC_MAC_DEST_ADDR_LO (hw_qpn qp), XRNIC_MAC_DEST_ADDR_HI (hw_qpn qp)}"
    and "flags p AND XIB_MODIFY_QP_DEST_MAC \<noteq> 0" "length (dmac p) = 6"
  shows "eth_dmac (fst (snd (fst (run_state (do {
      qp' \<leftarrow> xrnic_qp_modify hw mtu rt qp p; send_out_cnp hw lib smac qp' h qp1}) log)))) = dmac p"
proof -
  obtain a b c d e f where mac: "dmac p = [a, b, c, d, e, f]"
    using assms(3) by (auto simp: length_Suc_conv numeral_eq_Suc)
  have q: "hw_qpn (fst (run_state (xrnic_qp_modify hw mtu rt qp p) log)) = hw_qpn qp"
    by (simp add: xrnic_qp_modify_def Let_def case_prod_beta)
  show ?thesis
    using assms(1) modify_keeps_mac [OF assms(2), of "hw []" hw mtu rt qp log]
    by (simp add: case_prod_beta cnp_header_mac q readback_def mac cnp_dmac_of_mac)
qed

lemma dest_not_global:
  assumes "unat q < 2 ^ 12" "unat ofs < 0x100"
  shows "qreg ofs q \<noteq> 0x100020" "qreg ofs q \<noteq> 0x100024" "qreg ofs q \<noteq> 0x100028" "qreg ofs q \<noteq> 0x10002c"
proof -
  have "unat (qreg ofs q) \<ge> 0x180000" using unat_qreg [OF assms] by simp
  then show "qreg ofs q \<noteq> 0x100020" "qreg ofs q \<noteq> 0x100024" "qreg ofs q \<noteq> 0x100028" "qreg ofs q \<noteq> 0x10002c"
    by auto
qed

text \<open>sending a congestion notification for a queue pair over IPv4 leaves the bytes of its destination
  address register reversed; over IPv6 it leaves the device's own address in its destination registers.\<close>

theorem send_out_cnp_corrupts_destination:
  assumes "readback hw UNIV" "unat (hw_qpn qp) < 2 ^ 12" "hw_qpn qp1 \<noteq> hw_qpn qp" "unat (hw_qpn qp1) < 2 ^ 12"
  shows "let log' = snd (run_state (send_out_cnp hw lib smac qp h qp1) log) in
    if is_ipv6 qp then
      (\<forall>k \<in> {0, 4, 8, 12}. hw log' (qreg (0x60 + k) (hw_qpn qp)) = hw log (greg (0x20 + k)))
    else hw log' (qreg 0x60 (hw_qpn qp)) = bswap32 (hw log (qreg 0x60 (hw_qpn qp)))"
proof -
  let ?q = "hw_qpn qp" and ?q1 = "hw_qpn qp1"
  have rd: "hw l off = reg_value (hw []) l off" for l off using assms(1) by (simp add: readback_def)
  have other: "qreg ofs ?q \<noteq> qreg ofs' ?q1" if "unat ofs < 0x100" "unat ofs' < 0x100" for ofs ofs'
    using qreg_eq_iff [OF assms(2,4) that] assms(3) by simp
  have ofs: "qreg 0x60 ?q + 4 = qreg 0x64 ?q" "qreg 0x60 ?q + 8 = qreg 0x68 ?q" "qreg 0x60 ?q + 12 = qreg 0x6C ?q"
    by (simp_all add: qreg_def)
  note simps = send_out_cnp_def cnp_ip4_def cnp_ip6_def Let_def xrnic_send_wr_def config_raw_ip_def
    get_raw_ip_def config_words_four get_words_four qreg_defs greg_defs ofs
  show ?thesis
  proof (cases "is_ipv6 qp")
    case True
    then show ?thesis using other [of _ "0x38"] dest_not_global [OF assms(2)] unfolding rd [of "snd _"] Let_def
      by (simp add: simps) (simp add: rd [of "_ @ _"] rd [of log])
  next
    case False
    then show ?thesis using other [of "0x60" "0x38"] unfolding rd [of "snd _"] Let_def
      by (simp add: simps) (simp add: rd [of "_ @ _"] rd [of log])
  qed
qed

subsection \<open>Datagrams reach the posted buffers\<close>

lemma be16_bounds: "0 \<le> be16_at b i" "be16_at b i \<le> 65535"
proof -
  have "uint (x :: u8) \<le> 255" for x using uint_lt2p [of x] by simp
  then have "256 * uint (b ! i) \<le> 256 * 255" "uint (b ! Suc i) \<le> 255" by simp_all
  then show "be16_at b i \<le> 65535" unfolding be16_at_def by linarith
qed (simp add: be16_at_def)

lemma mad_info_bounds: "mad_info hdr = (n, v) \<Longrightarrow> n \<le> 65575"
  using be16_bounds [of hdr 4] be16_bounds [of hdr 22] by (auto simp: mad_info_def split: if_splits)

lemma write_two:
  assumes "length bs = n" "n + length cs \<le> 2 ^ 64"
  shows "k < n \<Longrightarrow> write_bytes (write_bytes m a bs) (a + of_nat n) cs (a + of_nat k) = bs ! k"
    "k < length cs \<Longrightarrow> write_bytes (write_bytes m a bs) (a + of_nat n) cs (a + of_nat n + of_nat k) = cs ! k"
proof -
  assume k: "k < n"
  have "a + of_nat k \<noteq> a + of_nat n + of_nat j" if "j < length cs" for j
  proof
    assume "a + of_nat k = a + of_nat n + of_nat j"
    then have "(of_nat k :: u64) = of_nat (n + j)" by (simp add: algebra_simps)
    moreover have "k < 2 ^ 64" "n + j < 2 ^ 64" using k that assms(2) by simp_all
    ultimately have "k = n + j" unfolding word_of_nat_eq_iff by (simp add: take_bit_nat_eq_self)
    then show False using k by simp
  qed
  then show "write_bytes (write_bytes m a bs) (a + of_nat n) cs (a + of_nat k) = bs ! k"
    using write_bytes_outside [of cs "a + of_nat k" "a + of_nat n"] write_bytes_inside [of bs k m a] assms k by simp
next
  assume "k < length cs"
  then show "write_bytes (write_bytes m a bs) (a + of_nat n) cs (a + of_nat n + of_nat k) = cs ! k"
    using write_bytes_inside [of cs k] assms(2) by simp
qed

text \<open>when a datagram is delivered, the posted buffer receives its 40 header bytes and, behind them,
  exactly its payload; the request records the length and the version, and both ring positions advance
  by one.\<close>

theorem gsi_packet_delivers:
  assumes run: "run_state (gsi_packet qp mem) log = (Some (qp', mem'), log')"
    and local: "rq_wrptr_db_local (rq qp) < rq_max_wr (rq qp)"
  shows "\<exists>mad_len ver sge rest.
    let base = unat (rq_wrptr_db_local (rq qp)) * unat (rq_buf_size qp);
        i = unat (gsi_cons (rq qp));
        n = nat (mad_len - (if ver = 4 then 48 else 68)) in
    mad_info (take 40 (drop base (rq_mem qp))) = (mad_len, ver) \<and>
    rqe_sg_list (rqe_list (rq qp) ! i) = sge # rest \<and>
    (\<forall>k < 40. mem' (sge_addr sge + of_nat k) = rq_mem qp ! (base + k)) \<and>
    (\<forall>k < n. mem' (sge_addr sge + 40 + of_nat k) = rq_mem qp ! (base + 68 + k)) \<and>
    rqe_sg_list (rqe_list (rq qp') ! i) = sge\<lparr>sge_length := of_int (mad_len - 8)\<rparr> # rest \<and>
    rqe_ip_version (rqe_list (rq qp') ! i) = ver \<and>
    gsi_cons (rq qp') = (gsi_cons (rq qp) + 1) mod rq_max_wr (rq qp) \<and>
    log' = log @ [IoW (XRNIC_RQ_CONS_IDX (hw_qpn qp)) (rq_wrptr_db_local (rq qp) + 1)]"
proof -
  let ?r = "rq qp" let ?base = "unat (rq_wrptr_db_local ?r) * unat (rq_buf_size qp)" let ?i = "unat (gsi_cons ?r)"
  let ?rqe = "rqe_list ?r ! ?i" let ?hdr = "take 40 (drop ?base (rq_mem qp))"
  obtain mad_len ver where info: "mad_info ?hdr = (mad_len, ver)" by force
  let ?n = "nat (mad_len - (if ver = 4 then 48 else 68))"
  let ?pay = "take ?n (drop (68 + ?base) (rq_mem qp))"
  have nl: "\<not> rq_max_wr ?r \<le> rq_wrptr_db_local ?r" using local by simp
  have i: "?i < length (rqe_list ?r)" and ne: "rqe_sg_list ?rqe \<noteq> []" and hb: "?base + 40 \<le> length (rq_mem qp)"
    and pb: "?base + 68 + ?n \<le> length (rq_mem qp)"
    using run nl info unfolding gsi_packet_def read_bytes_def Let_def by (auto split: if_splits)
  obtain sge rest where sg: "rqe_sg_list ?rqe = sge # rest" using ne by (cases "rqe_sg_list ?rqe") auto
  have mem': "mem' = write_bytes (write_bytes mem (sge_addr sge) ?hdr) (sge_addr sge + of_nat 40) ?pay"
    and rq': "rqe_list (rq qp') ! ?i = ?rqe\<lparr>rqe_ip_version := ver,
        rqe_sg_list := sge\<lparr>sge_length := of_int (mad_len - 8)\<rparr> # rest\<rparr>"
    and cons': "gsi_cons (rq qp') = (gsi_cons ?r + 1) mod rq_max_wr ?r"
    and l': "log' = log @ [IoW (XRNIC_RQ_CONS_IDX (hw_qpn qp)) (rq_wrptr_db_local ?r + 1)]"
    using run nl info i hb pb sg unfolding gsi_packet_def read_bytes_def Let_def xib_inc_sw_gsi_cons_def
    by (auto split: if_splits)
  have len: "length ?hdr = 40" "length ?pay = ?n" using hb pb by simp_all
  have "?n \<le> 65575" using mad_info_bounds [OF info] by auto
  then have fit: "40 + length ?pay \<le> 2 ^ 64" using len by simp
  show ?thesis
    unfolding Let_def
    using info sg rq' cons' l' write_two [OF len(1) fit, of _ mem "sge_addr sge"] len hb pb
    by (intro exI [of _ mad_len] exI [of _ ver] exI [of _ sge] exI [of _ rest]) (simp add: mem' add.commute add.left_commute)
qed

subsection \<open>The error queue is drained\<close>

definition err_queue_ok :: "xib_dev \<Rightarrow> bool" where
  "err_queue_ok d \<longleftrightarrow> unat (max_qp d) < 2 ^ 30 \<and> length (in_pkt_err (xl d)) = unat (max_qp d) \<and>
     length (qp_list d) = unat (max_qp d) \<and>
     list_all (\<lambda>e. 1 \<le> unat (err_qp_num e) \<and> unat (err_qp_num e) \<le> unat (max_qp d)) (in_pkt_err (xl d)) \<and>
     in_pkt_err_db_local (xl d) \<le> max_qp d"

definition ring_steps :: "nat \<Rightarrow> nat \<Rightarrow> nat \<Rightarrow> nat" where
  "ring_steps mx l n = (if l + n \<le> mx then l + n else l + n - mx)"

lemma fatal_entries_run:
  assumes "err_queue_ok d" "n \<le> unat (max_qp d)"
  shows "\<exists>ts log'. run_state (fatal_entries hw n d) log =
    ((ts, None, d\<lparr>xl := (xl d)\<lparr>in_pkt_err_db_local :=
       of_nat (ring_steps (unat (max_qp d)) (unat (in_pkt_err_db_local (xl d))) n)\<rparr>\<rparr>), log')"
  using assms
proof (induction n arbitrary: d log)
  case 0
  then show ?case by (simp add: err_queue_ok_def ring_steps_def word_le_nat_alt)
next
  case (Suc n)
  let ?mx = "unat (max_qp d)" and ?l = "in_pkt_err_db_local (xl d)"
  define entry where "entry = (if ?l = max_qp d then 0 else ?l)"
  let ?d1 = "d\<lparr>xl := (xl d)\<lparr>in_pkt_err_db_local := entry + 1\<rparr>\<rparr>"
  have ok: "?mx < 2 ^ 30" "length (in_pkt_err (xl d)) = ?mx" "length (qp_list d) = ?mx" "unat ?l \<le> ?mx" "0 < ?mx"
    using Suc.prems by (auto simp: err_queue_ok_def word_le_nat_alt)
  have el: "entry < max_qp d" "unat entry < ?mx"
    using ok by (auto simp: entry_def word_less_nat_alt word_unat_eq_iff)
  have u1: "unat (entry + 1) = Suc (unat entry)" using unat_inc_less [OF el(1)] .
  define qn where "qn = err_qp_num (in_pkt_err (xl d) ! unat entry)"
  have "1 \<le> unat qn \<and> unat qn \<le> ?mx"
    using Suc.prems(1) el(2) ok(2) by (auto simp: err_queue_ok_def list_all_length qn_def)
  then have qn: "unat (qn - 1) < ?mx" by (subst unat_sub_le) auto
  have ok1: "err_queue_ok ?d1" using Suc.prems(1) u1 el(2) by (simp add: err_queue_ok_def word_le_nat_alt)
  have n: "n \<le> unat (max_qp ?d1)" using Suc.prems(2) by simp
  obtain ts log' where ih: "run_state (fatal_entries hw n ?d1)
      (log @ [IoR (XRNIC_QP_CONF (qn - 1)), IoW (XRNIC_QP_CONF (qn - 1)) (recovery_conf (hw log (XRNIC_QP_CONF (qn - 1))))]) =
      ((ts, None, ?d1\<lparr>xl := (xl ?d1)\<lparr>in_pkt_err_db_local :=
         of_nat (ring_steps (unat (max_qp ?d1)) (unat (in_pkt_err_db_local (xl ?d1))) n)\<rparr>\<rparr>), log')"
    using Suc.IH [OF ok1 n] by blast
  have st: "ring_steps ?mx (Suc (unat entry)) n = ring_steps ?mx (unat ?l) (Suc n)"
    using ok Suc.prems(2) by (auto simp: ring_steps_def entry_def word_unat_eq_iff)
  show ?case using ih el(2) ok(2,3) qn
    by (simp add: Let_def entry_def [symmetric] qn_def [symmetric] not_le u1 st case_prod_beta)
qed


lemma err_received_count:
  assumes "unat mx < 2 ^ 30" "l \<le> mx" "db \<le> mx"
  shows "err_received mx l db = (if l \<le> db then int (unat db - unat l) else int (unat db + unat mx - unat l))"
proof (cases "l \<le> db")
  case True
  then have "unat (db - l) = unat db - unat l" by (simp add: unat_sub_le word_le_nat_alt)
  moreover have "unat db - unat l < 2 ^ 31" using assms by (simp add: word_le_nat_alt)
  moreover have "\<not> db < l" using True by simp
  ultimately show ?thesis using True by (simp only: err_received_def sint_small if_True if_False)
next
  case False
  have a: "unat (db + mx) = unat db + unat mx"
    using assms by (intro unat_add_no_wrap) (simp add: word_le_nat_alt)
  have "unat (db + mx - l) = unat db + unat mx - unat l"
    using assms a by (subst unat_sub_le) (simp_all add: word_le_nat_alt)
  moreover have "unat db + unat mx - unat l < 2 ^ 31" using assms by (simp add: word_le_nat_alt)
  moreover have "db < l" using False by simp
  ultimately show ?thesis using False by (simp only: err_received_def sint_small if_True if_False)
qed

text \<open>on a fatal-error interrupt the driver works off exactly the new entries of the error queue, without
  a fault, and its position then is the one the hardware reported.\<close>

theorem xib_fatal_event_drains:
  assumes ok: "err_queue_ok d" and db: "0 < hw log XRNIC_INCG_PKT_ERRQ_WPTR" "hw log XRNIC_INCG_PKT_ERRQ_WPTR \<le> max_qp d"
  shows "\<exists>ts log'. run_state (xib_fatal_event hw d) log =
    ((ts, None, d\<lparr>xl := (xl d)\<lparr>in_pkt_err_db_local := hw log XRNIC_INCG_PKT_ERRQ_WPTR\<rparr>\<rparr>), log')"
proof -
  let ?db = "hw log XRNIC_INCG_PKT_ERRQ_WPTR" and ?l = "in_pkt_err_db_local (xl d)" and ?mx = "max_qp d"
  let ?n = "nat (err_received ?mx ?l ?db)"
  have m: "unat ?mx < 2 ^ 30" "?l \<le> ?mx" using ok by (auto simp: err_queue_ok_def)
  have n: "?n = (if unat ?l \<le> unat ?db then unat ?db - unat ?l else unat ?db + unat ?mx - unat ?l)"
    unfolding err_received_count [OF m db(2)] word_le_nat_alt by (simp only: nat_int if_distrib [of nat])
  have le: "unat ?l \<le> unat ?mx" "unat ?db \<le> unat ?mx" "0 < unat ?db"
    using m(2) db by (simp_all add: word_le_nat_alt word_less_nat_alt)
  have nm: "?n \<le> unat ?mx" unfolding n using le by auto
  have st: "ring_steps (unat ?mx) (unat ?l) ?n = unat ?db" unfolding ring_steps_def n using le by auto
  obtain ts log' where r: "run_state (fatal_entries hw ?n d) (log @ [IoR XRNIC_INCG_PKT_ERRQ_WPTR]) =
      ((ts, None, d\<lparr>xl := (xl d)\<lparr>in_pkt_err_db_local := ?db\<rparr>\<rparr>), log')"
    using fatal_entries_run [OF ok nm, of hw "log @ [IoR XRNIC_INCG_PKT_ERRQ_WPTR]"] st by auto
  show ?thesis
  proof (cases "?db = ?l")
    case True
    then show ?thesis by (simp add: xib_fatal_event_def)
  next
    case False
    then show ?thesis using r by (simp add: xib_fatal_event_def)
  qed
qed

subsection \<open>A device in use\<close>

definition demo_xl :: xrnic_local where
  "demo_xl = \<lparr>xl_irq = 1, qp1_sq_db_p = 0, qp1_sq_db = [], qp1_rq_db_p = 0, qp1_rq_db = [], qps_enabled = 32,
     udp_sport = 0, db_pa = 0, db_size = 0, in_pkt_err = replicate 32 0x00020001, in_pkt_err_db_local = 31,
     num_intr_banks = 1, cq_rq_db_size = 4096\<rparr>"

definition demo_dev :: xib_dev where
  "demo_dev = \<lparr>qp_list = replicate 32 (Some demo_qp), gsi_qp = Some demo_qp, max_qp = 32, xl = demo_xl\<rparr>"

theorem irq_bits_exact_witness:
  "irq_bits (replicate 32 (Some demo_qp)) False 0 0x14 = ([CompTask 1, CompTask 3], None)"
proof -
  have b: "bit (0x14 :: u32) b \<longleftrightarrow> b = 2 \<or> b = 4" for b
  proof -
    have "(0x14 :: u32) = push_bit 2 1 OR push_bit 4 1" by simp
    then show ?thesis by (simp only: bit_simps) auto
  qed
  have "set_bits 0x14 = [2, 4]" by (simp add: set_bits_def b upt_rec)
  moreover have "irq_bits (replicate 32 (Some demo_qp)) False (of_nat 0) 0x14 =
      (concat (map (\<lambda>b. irq_tasks (replicate 32 (Some demo_qp)) False (irq_entry 0 b)) (set_bits 0x14)), None)"
    by (rule irq_bits_exact) (simp, drule b [THEN iffD1], auto simp: irq_entry_def)
  ultimately show ?thesis by (simp add: irq_tasks_def irq_entry_def demo_qp_def)
qed

theorem xib_irq_event_misses_last_witness:
  "CompTask 31 \<notin> set (fst (fst (run_state (xib_irq_event (\<lambda>_ _. 0xFFFFFFFE) demo_dev XRNIC_INT_WQE_COMP) [])))"
  using xib_irq_event_misses_last [of demo_dev "\<lambda>_ _. 0xFFFFFFFE" XRNIC_INT_WQE_COMP "[]"]
  by (simp add: demo_dev_def demo_xl_def)

theorem xib_fatal_event_drains_witness:
  "\<exists>ts d' log'. run_state (xib_fatal_event (\<lambda>_ _. 3) demo_dev) [] = ((ts, None, d'), log') \<and>
     in_pkt_err_db_local (xl d') = 3"
  using xib_fatal_event_drains [of demo_dev "\<lambda>_ _. 3" "[]"]
  by (auto simp: err_queue_ok_def demo_dev_def demo_xl_def list_all_iff err_qp_num_def)

definition demo_header :: ud_header where
  "demo_header = \<lparr>eth_dmac = [], eth_smac = [], eth_type = 0, ip4_tos = 0, ip4_id = 0, ip4_frag_off = 0, ip4_ttl = 0,
     ip4_saddr = 0, hdr_ip4_daddr = 0, ip4_check = 0, grh_hop_limit = 0, grh_traffic_class = 0, grh_flow_label = 0,
     grh_dgid = [], grh_sgid = [], udp_dport = 0, hdr_udp_sport = 0, udp_csum = 0, bth_opcode = 0, bth_pad_count = 0,
     bth_pkey = 0, bth_destination_qpn = 0, bth_psn = 0, bth_solicited_event = False, bth_ack_req = False,
     bth_mig_req = False, deth_source_qpn = 0, deth_qkey = 0, immediate_present = False\<rparr>"

definition demo_lib :: ud_lib where
  "demo_lib = \<lparr>ud_header_init = (\<lambda>n g v. demo_header), ud_ip4_csum = (\<lambda>h. 0), ud_header_pack = (\<lambda>h. replicate 62 0),
     opcode_cnp = 0x81, opcode_ud_send_only = 0x64, opcode_ud_send_only_imm = 0x65\<rparr>"

theorem cnp_uses_modified_mac_witness:
  "eth_dmac (fst (snd (fst (run_state (do {
     qp' \<leftarrow> xrnic_qp_modify (reg_value (\<lambda>_. 0)) 4 0x11 demo_qp demo_params;
     send_out_cnp (reg_value (\<lambda>_. 0)) demo_lib [2, 0, 0, 0, 0, 1] qp' demo_header (demo_qp\<lparr>hw_qpn := 0\<rparr>)}) [])))) =
   [0, 0x0A, 0x35, 1, 2, 3]"
  using cnp_uses_modified_mac [of "reg_value (\<lambda>_. 0)" demo_qp demo_params 4 "0x11" demo_lib "[2, 0, 0, 0, 0, 1]"
      demo_header "demo_qp\<lparr>hw_qpn := 0\<rparr>" "[]"]
  by (simp add: readback_mem demo_params_def XIB_MODIFY_QP_DEST_MAC_def)

theorem send_out_cnp_corrupts_destination_witness:
  "reg_value (\<lambda>_. 0x0A000001)
     (snd (run_state (send_out_cnp (reg_value (\<lambda>_. 0x0A000001)) demo_lib [] demo_qp demo_header (demo_qp\<lparr>hw_qpn := 0\<rparr>)) []))
     (qreg 0x60 3) = 0x0100000A"
  using send_out_cnp_corrupts_destination [of "reg_value (\<lambda>_. 0x0A000001)" demo_qp "demo_qp\<lparr>hw_qpn := 0\<rparr>"
      demo_lib "[]" demo_header "[]"]
  by (simp add: readback_mem demo_qp_def Let_def bswap32_def)

definition demo_gsi :: xib_qp where
  "demo_gsi = demo_qp\<lparr>rq_buf_size := 256,
     rq_mem := replicate 22 0 @ [0, 52] @ replicate 44 7 @ [1, 2, 3, 4] @ replicate 200 0,
     rq := demo_rq\<lparr>rqe_list := [\<lparr>rqe_wr_id = 9, rqe_num_sge = 1, rqe_ip_version = 0,
       rqe_sg_list = [\<lparr>sge_addr = 0x1000, sge_length = 256, sge_lkey = 0\<rparr>]\<rparr>]\<rparr>\<rparr>"

theorem gsi_packet_delivers_witness:
  "\<exists>qp' mem' log'. run_state (gsi_packet demo_gsi (\<lambda>_. 0)) [] = (Some (qp', mem'), log') \<and>
     mem' 0x1029 = 2 \<and> gsi_cons (rq qp') = 1"
proof -
  have ip: "is_ipv4_addr (take 40 (rq_mem demo_gsi)) = 0"
    by (simp add: is_ipv4_addr_def demo_gsi_def upt_rec nth_append)
  then have info: "mad_info (take 40 (rq_mem demo_gsi)) = (52, 4)"
    by (simp add: mad_info_def be16_at_def demo_gsi_def nth_append)
  obtain qp' mem' log' where run: "run_state (gsi_packet demo_gsi (\<lambda>_. 0)) [] = (Some (qp', mem'), log')"
    using info by (simp add: gsi_packet_def read_bytes_def Let_def demo_gsi_def demo_rq_def demo_qp_def)
  have "\<forall>k < 4. mem' (0x1000 + 40 + of_nat k) = rq_mem demo_gsi ! (68 + k)" "gsi_cons (rq qp') = 1"
    using gsi_packet_delivers [OF run] info by (auto simp: demo_gsi_def demo_rq_def Let_def)
  from this(1) [rule_format, of 1] this(2) show ?thesis using run
    by (auto simp: demo_gsi_def nth_append)
qed
end
