(* ===== verification/Fifo.thy ===== *)
theory Fifo
  imports Xib_Prelude
begin

text \<open>
  The contract of a bounded first-in first-out queue, as a locale, and what follows for every
  interleaving of puts and gets: nothing is lost, duplicated or reordered.  The receive ring of the
  driver interprets it.
\<close>

datatype 'a fifo_op = Put 'a | Get

text \<open>A run: a put on a full queue is refused, a get on an empty one returns nothing.  The result is the state,
  the accepted elements and the delivered ones.\<close>

fun run_fifo ::
  "('s \<Rightarrow> 'a list) \<Rightarrow> ('s \<Rightarrow> nat) \<Rightarrow> ('a \<Rightarrow> 's \<Rightarrow> 's) \<Rightarrow> ('s \<Rightarrow> 's) \<Rightarrow> 'a fifo_op list \<Rightarrow> 's \<Rightarrow> 's \<times> 'a list \<times> 'a list" where
  "run_fifo contents capacity put get [] s = (s, [], [])"
| "run_fifo contents capacity put get (Put x # ops) s =
     (if length (contents s) < capacity s
      then let (s', acc, dlv) = run_fifo contents capacity put get ops (put x s) in (s', x # acc, dlv)
      else run_fifo contents capacity put get ops s)"
| "run_fifo contents capacity put get (Get # ops) s =
     (case contents s of
        [] \<Rightarrow> run_fifo contents capacity put get ops s
      | x # xs \<Rightarrow> let (s', acc, dlv) = run_fifo contents capacity put get ops (get s) in (s', acc, x # dlv))"

locale bounded_fifo =
  fixes inv :: "'s \<Rightarrow> bool"
    and contents :: "'s \<Rightarrow> 'a list"
    and capacity :: "'s \<Rightarrow> nat"
    and put :: "'a \<Rightarrow> 's \<Rightarrow> 's"
    and get :: "'s \<Rightarrow> 's"
  assumes put_inv: "inv s \<Longrightarrow> length (contents s) < capacity s \<Longrightarrow> inv (put x s)"
    and put_contents: "inv s \<Longrightarrow> length (contents s) < capacity s \<Longrightarrow> contents (put x s) = contents s @ [x]"
    and put_capacity: "capacity (put x s) = capacity s"
    and get_inv: "inv s \<Longrightarrow> contents s \<noteq> [] \<Longrightarrow> inv (get s)"
    and get_contents: "inv s \<Longrightarrow> contents s \<noteq> [] \<Longrightarrow> contents (get s) = tl (contents s)"
    and get_capacity: "capacity (get s) = capacity s"
begin

lemma put_all:
  "inv s \<Longrightarrow> length (contents s) + length xs \<le> capacity s \<Longrightarrow>
     inv (fold put xs s) \<and> contents (fold put xs s) = contents s @ xs"
  by (induction xs arbitrary: s) (auto simp: put_inv put_contents put_capacity)

lemma run_fifo_order:
  "inv s \<Longrightarrow> run_fifo contents capacity put get ops s = (s', acc, dlv) \<Longrightarrow>
     inv s' \<and> dlv @ contents s' = contents s @ acc"
proof (induction ops arbitrary: s acc dlv)
  case (Cons op ops)
  show ?case
  proof (cases op)
    case (Put x)
    show ?thesis
    proof (cases "length (contents s) < capacity s")
      case True
      obtain acc' where "run_fifo contents capacity put get ops (put x s) = (s', acc', dlv)" "acc = x # acc'"
        using Cons.prems(2) Put True by (auto split: prod.splits)
      then show ?thesis using Cons.IH [of "put x s"] Cons.prems(1) True by (simp add: put_inv put_contents)
    next
      case False
      then show ?thesis using Cons Put by simp
    qed
  next
    case Get
    show ?thesis
    proof (cases "contents s")
      case Nil
      then show ?thesis using Cons Get by simp
    next
      case (Cons x xs)
      obtain dlv' where "run_fifo contents capacity put get ops (get s) = (s', acc, dlv')" "dlv = x # dlv'"
        using Cons.prems(2) Get Cons by (auto split: prod.splits)
      then show ?thesis using Cons.IH [of "get s"] Cons.prems(1) Cons by (simp add: get_inv get_contents)
    qed
  qed
qed simp

end

end
