(* ===== verification/Xib_Poll.thy ===== *)
theory Xib_Poll
  imports Xib_Irq Fifo "HOL-Library.While_Combinator"
begin

text \<open>
  Posting receive requests and polling for completions,
  \<open>recipes-modules/xib-module/files/verbs.c\<close>.  The array of completions the caller passes is a list;
  memory given back while polling, and copies back to the caller's buffers, are the list of
  \<open>poll_effect\<close>s.  The loop over the completion queue runs until the position of the hardware is
  reached, and is modelled with \<open>while_option\<close>: \<open>None\<close> is a poll that does not return.
\<close>

unbundle bit_operations_syntax

subsection \<open>Posting receive requests\<close>

record recv_wr =
  rw_wr_id :: u64
  rw_sg_list :: "ib_sge list"

text \<open>The sum is computed in 32 bits.\<close>

definition xib_get_payload_size :: "ib_sge list \<Rightarrow> u32" where
  "xib_get_payload_size sgl = sum_list (map sge_length sgl)"

definition zero_rqe :: xib_rqe where
  "zero_rqe = \<lparr>rqe_wr_id = 0, rqe_num_sge = 0, rqe_ip_version = 0, rqe_sg_list = []\<rparr>"

text \<open>The return value, the requests that are left (\<open>*bad_wr\<close> is the first) and the queue pair.\<close>

fun xib_kernel_qp_post_recv :: "xib_qp \<Rightarrow> recv_wr list \<Rightarrow> int \<times> recv_wr list \<times> xib_qp" where
  "xib_kernel_qp_post_recv qp [] = (0, [], qp)"
| "xib_kernel_qp_post_recv qp (wr # wrs) =
     (let p = unat (prod (rq qp));
          qp0 = qp\<lparr>rq := (rq qp)\<lparr>rqe_list := (rqe_list (rq qp))[p := zero_rqe]\<rparr>\<rparr>
      in if rq_buf_size qp < xib_get_payload_size (rw_sg_list wr) \<or> 8 < length (rw_sg_list wr)
         then (- ENOMEM, wr # wrs, qp0)
         else xib_kernel_qp_post_recv
           (qp\<lparr>rq := xib_rq_prod_inc ((rq qp)\<lparr>rqe_list := (rqe_list (rq qp))
              [p := \<lparr>rqe_wr_id = rw_wr_id wr, rqe_num_sge = of_nat (length (rw_sg_list wr)), rqe_ip_version = 0,
                 rqe_sg_list = rw_sg_list wr\<rparr>]\<rparr>)\<rparr>) wrs)"

subsection \<open>Taking packets from the receive queue\<close>

text \<open>The packet is spread over the buffers of the request, each up to its length.  \<open>None\<close> is a read behind
  the receive memory.\<close>

fun scatter :: "u8 list \<Rightarrow> nat \<Rightarrow> ib_sge list \<Rightarrow> memory \<Rightarrow> memory option" where
  "scatter buf ofs [] mem = Some mem"
| "scatter buf ofs (s # ss) mem =
     (case read_bytes buf ofs (unat (sge_length s)) of
        None \<Rightarrow> None
      | Some bs \<Rightarrow> scatter buf (ofs + unat (sge_length s)) ss (write_bytes mem (sge_addr s) bs))"

definition pop_one :: "xib_qp \<Rightarrow> memory \<Rightarrow> (xib_qp \<times> memory) option dev" where
  "pop_one qp mem =
     (let r = rq qp;
          l = (if rq_wrptr_db_local r = rq_max_wr r then 0 else rq_wrptr_db_local r);
          num = (if rq_max_wr r \<le> l then l - rq_max_wr r else l)
      in if length (rqe_list r) \<le> unat (gsi_cons r) then State_Monad.return None
         else case scatter (rq_mem qp) (unat num * unat (rq_buf_size qp))
                (rqe_sg_list (rqe_list r ! unat (gsi_cons r))) mem of
           None \<Rightarrow> State_Monad.return None
         | Some mem' \<Rightarrow> do {
             xrnic_iow (XRNIC_RQ_CONS_IDX (hw_qpn qp)) (l + 1);
             State_Monad.return
               (Some (qp\<lparr>rq := (xib_inc_sw_gsi_cons r)\<lparr>rq_wrptr_db_local := l + 1\<rparr>\<rparr>, mem'))})"

fun pop_loop :: "nat \<Rightarrow> xib_qp \<Rightarrow> memory \<Rightarrow> (xib_qp \<times> memory) option dev" where
  "pop_loop 0 qp mem = State_Monad.return (Some (qp, mem))"
| "pop_loop (Suc n) qp mem = do {
     p \<leftarrow> pop_one qp mem;
     (case p of None \<Rightarrow> State_Monad.return None | Some (qp', mem') \<Rightarrow> pop_loop n qp' mem')}"

definition xib_pop_rq :: "u32 \<Rightarrow> xib_qp \<Rightarrow> memory \<Rightarrow> (int \<times> xib_qp \<times> memory) option dev" where
  "xib_pop_rq db qp mem = do {
     let received = xib_get_rq_recd (rq qp) db;
     r \<leftarrow> pop_loop (nat received) qp mem;
     State_Monad.return (map_option (\<lambda>(q, m). (received, q, m)) r)}"

subsection \<open>Completions\<close>

datatype wc_opcode = IB_WC_SEND | IB_WC_RDMA_WRITE | IB_WC_RDMA_READ | IB_WC_RECV

datatype wc_status = IB_WC_SUCCESS | IB_WC_WR_FLUSH_ERR | IB_WC_FATAL_ERR

datatype net_hdr = RDMA_NETWORK_IB | RDMA_NETWORK_IPV4 | RDMA_NETWORK_IPV6

text \<open>\<open>wc_flags\<close> are the bits of \<open>enum ib_wc_flags\<close> of the kernel: GRH 1, immediate 2, invalidate 4, network
  header type 64.  \<open>wc_opcode\<close> is \<open>None\<close> for an uninitialised variable.\<close>

record ib_wc =
  wc_wr_id :: u64
  wc_opcode :: "wc_opcode option"
  wc_byte_len :: u32
  wc_status :: wc_status
  wc_flags :: u32
  wc_ex :: u32
  wc_hdr :: net_hdr

definition zero_wc :: ib_wc where
  "zero_wc = \<lparr>wc_wr_id = 0, wc_opcode = Some IB_WC_SEND, wc_byte_len = 0, wc_status = IB_WC_SUCCESS, wc_flags = 0,
     wc_ex = 0, wc_hdr = RDMA_NETWORK_IB\<rparr>"

definition sge0_length :: "xib_rqe \<Rightarrow> u32" where
  "sge0_length rqe = (case rqe_sg_list rqe of [] \<Rightarrow> 0 | s # ss \<Rightarrow> sge_length s)"

text \<open>The flag and the value of a received immediate or invalidation; the two pollers use different flags.\<close>

definition imm_flags :: "u32 \<Rightarrow> u32 \<Rightarrow> xib_imm_inv \<Rightarrow> u32" where
  "imm_flags invf immf e =
     (if \<not> isvalid e then 0 else if inv_type e = 1 then invf else if inv_type e = 2 then immf else 0)"

definition imm_ex :: "xib_imm_inv \<Rightarrow> u32" where
  "imm_ex e = (if isvalid e \<and> (inv_type e = 1 \<or> inv_type e = 2) then inv_data e else 0)"

definition recv_wc :: "xib_qp \<Rightarrow> ib_wc" where
  "recv_wc qp =
     (let c = unat (cons (rq qp)); rqe = rqe_list (rq qp) ! c; e = imm_inv_data qp ! c
      in zero_wc\<lparr>wc_wr_id := rqe_wr_id rqe, wc_opcode := Some IB_WC_RECV, wc_byte_len := sge0_length rqe,
           wc_flags := imm_flags 4 2 e, wc_ex := imm_ex e\<rparr>)"

definition recv_done :: "xib_qp \<Rightarrow> xib_qp" where
  "recv_done qp =
     (let c = unat (cons (rq qp))
      in qp\<lparr>imm_inv_data := (imm_inv_data qp)[c := (imm_inv_data qp ! c)\<lparr>isvalid := False\<rparr>],
            rq := xib_rq_cons_inc (rq qp)\<rparr>)"

text \<open>The first loop: at most \<open>n\<close> receive completions.\<close>

fun poll_recv :: "(xib_qp \<Rightarrow> ib_wc) \<Rightarrow> nat \<Rightarrow> xib_qp \<Rightarrow> ib_wc list \<times> xib_qp" where
  "poll_recv mk 0 qp = ([], qp)"
| "poll_recv mk (Suc n) qp =
     (if cons (rq qp) = gsi_cons (rq qp) then ([], qp)
      else let (ws, qp') = poll_recv mk n (recv_done qp) in (mk qp # ws, qp'))"

subsection \<open>The send queue\<close>

datatype poll_effect = FreeBuf xib_pl_buf | CopyBack xib_pl_buf

definition cqe_opcode :: "u32 \<Rightarrow> u32" where
  "cqe_opcode entry = drop_bit 16 (entry AND 0xFF0000)"

definition cqe_err :: "u32 \<Rightarrow> u32" where
  "cqe_err entry = drop_bit 24 (entry AND 0xFF000000)"

text \<open>What the switch over the opcode does: the buffers it handles, the flags it adds and the completion
  opcode, kept from before for an unknown opcode.  \<open>ps\<close> says that \<open>sq_mem\<close> is \<open>"ps"\<close>.\<close>

definition cqe_switch ::
  "bool \<Rightarrow> u32 \<Rightarrow> xib_pl_buf \<Rightarrow> wc_opcode option \<Rightarrow> poll_effect list \<times> u32 \<times> wc_opcode option" where
  "cqe_switch ps opcode plb opc =
     (if opcode = 2 \<or> opcode = 3 \<or> opcode = 0xC
      then ([FreeBuf plb], if opcode = 3 then 2 else if opcode = 0xC then 4 else 0, Some IB_WC_SEND)
      else if opcode = 4
      then (if ps then [] else [CopyBack plb, FreeBuf plb], 0, Some IB_WC_RDMA_READ)
      else if opcode = 0 \<or> opcode = 1
      then (if ps then [] else [FreeBuf plb], if opcode = 1 then 2 else 0, Some IB_WC_RDMA_WRITE)
      else ([], 0, opc))"

record poll_state =
  ps_done :: nat
  ps_wc :: "ib_wc list"
  ps_sq :: xib_sq
  ps_opc :: "wc_opcode option"
  ps_polled :: u32
  ps_drained :: bool
  ps_effects :: "poll_effect list"

definition poll_slot :: "xib_sq \<Rightarrow> u32" where
  "poll_slot s = (if send_cq_db_local s = sq_max_wr s then 0 else send_cq_db_local s)"

text \<open>One round of the loop of \<open>xib_poll_kernel_cq\<close>.  The entry of the caller's array is not cleared
  first.  \<open>cqes\<close> is the completion queue.\<close>

definition poll_step :: "bool \<Rightarrow> xib_qp \<Rightarrow> u32 list \<Rightarrow> poll_state \<Rightarrow> poll_state" where
  "poll_step ps qp cqes st =
     (let s = ps_sq st; slot = poll_slot s; k = unat slot; i = ps_done st;
          (effs, fl, opc) = cqe_switch ps (cqe_opcode (cqes ! k)) (pl_buf_list s ! k) (ps_opc st);
          w0 = (ps_wc st ! i)\<lparr>wc_flags := wc_flags (ps_wc st ! i) OR fl\<rparr>;
          st1 = st\<lparr>ps_wc := (ps_wc st)[i := w0], ps_sq := s\<lparr>send_cq_db_local := slot + 1\<rparr>, ps_opc := opc,
                   ps_effects := ps_effects st @ effs\<rparr>
      in if \<not> snd (wr_id_array s ! k) then st1
         else st1\<lparr>ps_wc := (ps_wc st)[i := w0\<lparr>wc_opcode := opc, wc_wr_id := fst (wr_id_array s ! k),
                     wc_status := (if cqe_err (cqes ! k) = 0 then IB_WC_SUCCESS else IB_WC_FATAL_ERR)\<rparr>],
                  ps_done := i + 1, ps_polled := ps_polled st + 1,
                  ps_drained := ps_drained st \<or>
                    (qp_state qp \<in> {XIB_QP_STATE_SQD, XIB_QP_STATE_ERR, XIB_QP_STATE_SQE} \<and>
                     post_send_count qp = ps_polled st + 1)\<rparr>)"

definition poll_more :: "nat \<Rightarrow> u32 \<Rightarrow> poll_state \<Rightarrow> bool" where
  "poll_more num head st \<longleftrightarrow> ps_done st < num \<and> send_cq_db_local (ps_sq st) \<noteq> head"

definition poll_send :: "bool \<Rightarrow> xib_qp \<Rightarrow> u32 list \<Rightarrow> nat \<Rightarrow> u32 \<Rightarrow> poll_state \<Rightarrow> poll_state option" where
  "poll_send ps qp cqes num head = while_option (poll_more num head) (poll_step ps qp cqes)"

text \<open>The last loop flushes requests that were posted while the queue was drained.\<close>

fun poll_flush :: "nat \<Rightarrow> nat \<Rightarrow> xib_sq \<Rightarrow> ib_wc list \<Rightarrow> nat \<times> xib_sq \<times> ib_wc list" where
  "poll_flush 0 i s wc = (i, s, wc)"
| "poll_flush (Suc n) i s wc =
     (case sqd_wr_list s of
        [] \<Rightarrow> (i, s, wc)
      | x # xs \<Rightarrow> poll_flush n (i + 1) (s\<lparr>sqd_wr_list := xs, sqd_length := sqd_length s - 1\<rparr>)
          (wc[i := (wc ! i)\<lparr>wc_wr_id := x, wc_status := IB_WC_WR_FLUSH_ERR\<rparr>]))"

record poll_result =
  pr_count :: nat
  pr_wc :: "ib_wc list"
  pr_qp :: xib_qp
  pr_mem :: memory
  pr_effects :: "poll_effect list"

text \<open>The whole poll; \<open>db\<close> is the receive doorbell word of the queue pair.  \<open>Inl\<close> is a fault while packets are
  taken from the receive queue, \<open>None\<close> a poll that does not return.\<close>

definition xib_poll_kernel_cq ::
  "hardware \<Rightarrow> bool \<Rightarrow> u32 list \<Rightarrow> u32 \<Rightarrow> nat \<Rightarrow> ib_wc list \<Rightarrow> xib_qp \<Rightarrow> memory \<Rightarrow> (unit + poll_result) option dev" where
  "xib_poll_kernel_cq hw ps cqes db num wc qp0 mem0 = do {
     popped \<leftarrow> xib_pop_rq db qp0 mem0;
     (case popped of
        None \<Rightarrow> State_Monad.return (Some (Inl ()))
      | Some (received, qp1, mem) \<Rightarrow> do {
          let (ws, qp) = poll_recv recv_wc num qp1;
          h \<leftarrow> xrnic_ior hw (XRNIC_CQ_HEAD_PTR (hw_qpn qp));
          let st0 = \<lparr>ps_done = length ws, ps_wc = ws @ drop (length ws) wc, ps_sq = sq qp, ps_opc = None,
            ps_polled = sq_polled_count qp, ps_drained = sq_drained qp, ps_effects = []\<rparr>;
          State_Monad.return
            (case poll_send ps qp cqes num (h AND 0xFFFF) st0 of
               None \<Rightarrow> None
             | Some st \<Rightarrow>
                 (let (i, s, wc') = poll_flush (num - ps_done st) (ps_done st) (ps_sq st) (ps_wc st)
                  in Some (Inr \<lparr>pr_count = i, pr_wc = wc',
                       pr_qp = qp\<lparr>sq := s, sq_polled_count := ps_polled st, sq_drained := ps_drained st\<rparr>,
                       pr_mem = mem, pr_effects = ps_effects st\<rparr>)))})}"

text \<open>The poller of queue pair 1 uses opcodes of work requests as completion flags
  (\<open>IB_WR_SEND_WITH_INV\<close> is 9, \<open>IB_WR_SEND_WITH_IMM\<close> 3).\<close>

definition gsi_recv_wc :: "xib_qp \<Rightarrow> ib_wc" where
  "gsi_recv_wc qp =
     (let c = unat (cons (rq qp)); rqe = rqe_list (rq qp) ! c; e = imm_inv_data qp ! c
      in zero_wc\<lparr>wc_wr_id := rqe_wr_id rqe, wc_opcode := Some IB_WC_RECV, wc_byte_len := sge0_length rqe,
           wc_flags := (1 OR 64) OR imm_flags 9 3 e, wc_ex := imm_ex e,
           wc_hdr := (if rqe_ip_version rqe = 4 then RDMA_NETWORK_IPV4 else RDMA_NETWORK_IPV6)\<rparr>)"

text \<open>One round of the send loop of \<open>xib_gsi_poll_cq\<close>; the first component says that \<open>BUG_ON\<close> was hit.\<close>

definition gsi_poll_step :: "u32 list \<Rightarrow> bool \<times> poll_state \<Rightarrow> bool \<times> poll_state" where
  "gsi_poll_step cqes bst =
     (let st = snd bst; s = ps_sq st; slot = poll_slot s; k = unat slot; i = ps_done st;
          st1 = st\<lparr>ps_sq := s\<lparr>send_cq_db_local := slot + 1\<rparr>\<rparr>;
          w = (ps_wc st ! i)\<lparr>wc_wr_id := fst (wr_id_array s ! k), wc_opcode := Some IB_WC_SEND\<rparr>
      in if \<not> snd (wr_id_array s ! k) then (False, st1)
         else if cqe_opcode (cqes ! k) \<noteq> 2 then (True, st)
         else if cqe_err (cqes ! k) = 0
         then (False, st1\<lparr>ps_wc := (ps_wc st)[i := w\<lparr>wc_status := IB_WC_SUCCESS\<rparr>], ps_done := i + 1\<rparr>)
         else (False, st1\<lparr>ps_wc := (ps_wc st)[i := w\<lparr>wc_status := IB_WC_FATAL_ERR\<rparr>]\<rparr>))"

definition gsi_poll_send :: "u32 list \<Rightarrow> nat \<Rightarrow> u32 \<Rightarrow> bool \<times> poll_state \<Rightarrow> (bool \<times> poll_state) option" where
  "gsi_poll_send cqes num head =
     while_option (\<lambda>bst. \<not> fst bst \<and> poll_more num head (snd bst)) (gsi_poll_step cqes)"

definition xib_gsi_poll_cq ::
  "hardware \<Rightarrow> u32 list \<Rightarrow> nat \<Rightarrow> ib_wc list \<Rightarrow> xib_qp \<Rightarrow> (unit + nat \<times> ib_wc list \<times> xib_qp) option dev" where
  "xib_gsi_poll_cq hw cqes num wc qp0 = do {
     let (ws, qp) = poll_recv gsi_recv_wc num qp0;
     h \<leftarrow> xrnic_ior hw (XRNIC_CQ_HEAD_PTR (hw_qpn qp));
     let st0 = \<lparr>ps_done = length ws, ps_wc = ws @ drop (length ws) wc, ps_sq = sq qp, ps_opc = None,
       ps_polled = sq_polled_count qp, ps_drained = sq_drained qp, ps_effects = []\<rparr>;
     State_Monad.return
       (case gsi_poll_send cqes num (h AND 0xFFFF) (False, st0) of
          None \<Rightarrow> None
        | Some (True, st) \<Rightarrow> Some (Inl ())
        | Some (False, st) \<Rightarrow>
            (let (i, s, wc') = poll_flush (num - ps_done st) (ps_done st) (ps_sq st) (ps_wc st)
             in Some (Inr (i, wc', qp\<lparr>sq := s\<rparr>))))}"

subsection \<open>Resetting the queues\<close>

definition QP_PMTU_4096 :: u32 where "QP_PMTU_4096 = 4"

definition rst_conf :: "u32 \<Rightarrow> u32 \<Rightarrow> u32" where
  "rst_conf fl buf_size = fl OR push_bit 8 QP_PMTU_4096 OR push_bit 16 (drop_bit 8 buf_size)"

definition xib_rst_rq :: "hardware \<Rightarrow> xib_qp \<Rightarrow> int dev" where
  "xib_rst_rq hw qp = do {
     let q = hw_qpn qp;
     xrnic_iow XRNIC_ADV_CONF 1;
     xrnic_iow (XRNIC_RQ_CONS_IDX q) 0;
     xrnic_iow (XRNIC_STAT_RQ_PROD_IDX q) 0;
     xrnic_iow (XRNIC_RCVQ_BUF_BASE_LSB q) (ucast (rq_ba_p (rq qp)));
     xrnic_iow (XRNIC_RCVQ_BUF_BASE_MSB q) (ucast (drop_bit 32 (rq_ba_p (rq qp))));
     xrnic_iow (XRNIC_QP_CONF q)
       (rst_conf (QP_ENABLE OR QP_HW_HSK_DIS OR QP_CQE_EN OR QP_RQ_IRQ_EN OR QP_CQ_IRQ_EN) (rq_buf_size qp));
     xrnic_iow XRNIC_ADV_CONF 0;
     xrnic_ior hw (XRNIC_RQ_CONS_IDX q);
     xrnic_ior hw (XRNIC_STAT_RQ_PROD_IDX q);
     xrnic_ior hw (XRNIC_RCVQ_BUF_BASE_LSB q);
     xrnic_ior hw (XRNIC_RCVQ_BUF_BASE_MSB q);
     State_Monad.return 0}"

definition xib_rst_cq_sq :: "hardware \<Rightarrow> xib_qp \<Rightarrow> int \<Rightarrow> int dev" where
  "xib_rst_cq_sq hw qp nvmf_rhost = do {
     let q = hw_qpn qp;
     let rdb = (0x8E004000 + of_int (nvmf_rhost * 4) :: u64);
     let cdb = (0x8E004400 + of_int (nvmf_rhost * 4) :: u64);
     xrnic_iow XRNIC_ADV_CONF 1;
     xrnic_iow (XRNIC_CQ_HEAD_PTR q) 0;
     xrnic_iow (XRNIC_SQ_PROD_IDX q) 0;
     xrnic_iow (XRNIC_STAT_CUR_SQ_PTR q) 0;
     xrnic_iow (XRNIC_RCVQ_WP_DB_ADDR_LSB q) (ucast rdb);
     xrnic_iow (XRNIC_RCVQ_WP_DB_ADDR_MSB q) (ucast (drop_bit 32 rdb));
     xrnic_iow (XRNIC_CQ_DB_ADDR_LSB q) (ucast cdb);
     xrnic_iow (XRNIC_CQ_DB_ADDR_MSB q) (ucast (drop_bit 32 cdb));
     pidx \<leftarrow> xrnic_ior hw (XRNIC_STAT_RQ_PROD_IDX q);
     xrnic_iow XRNIC_CNCT_IO_CONF (ucast (rdb AND 0xFFFF) OR push_bit 16 (pidx AND 0xFFFF));
     xrnic_iow (XRNIC_QP_CONF q) (rst_conf QP_ENABLE (rq_buf_size qp));
     xrnic_iow XRNIC_ADV_CONF 0;
     State_Monad.return 0}"

text \<open>Draining waits, at most a second, until the receive queue is consumed; \<open>modify\<close> is the result of
  \<open>ib_modify_qp\<close>.\<close>

partial_function (option) wait_rq_drained ::
  "hardware \<Rightarrow> (io list \<Rightarrow> nat) \<Rightarrow> nat \<Rightarrow> nat \<Rightarrow> u32 \<Rightarrow> io list \<Rightarrow> io list option" where
  "wait_rq_drained hw jiffies hz timeout q log =
     (let val = hw log (XRNIC_RQ_CONS_IDX q); log1 = log @ [IoR (XRNIC_RQ_CONS_IDX q)];
          ret = hw log1 (XRNIC_STAT_RQ_PROD_IDX q); log2 = log1 @ [IoR (XRNIC_STAT_RQ_PROD_IDX q)]
      in if timeout + hz < jiffies log2 then Some log2
         else if val = ret then Some log2
         else wait_rq_drained hw jiffies hz timeout q log2)"

definition xib_drain_rq :: "hardware \<Rightarrow> (io list \<Rightarrow> nat) \<Rightarrow> nat \<Rightarrow> int \<Rightarrow> xib_qp \<Rightarrow> io list \<Rightarrow> io list option" where
  "xib_drain_rq hw jiffies hz modify qp log =
     (if modify \<noteq> 0 then Some log else wait_rq_drained hw jiffies hz (jiffies log) (hw_qpn qp) log)"

subsection \<open>Polling the send queue ends, with the right completions\<close>

definition sq_ok :: "xib_sq \<Rightarrow> bool" where
  "sq_ok s \<longleftrightarrow> 0 < sq_max_wr s \<and> unat (sq_max_wr s) < 2 ^ 16 \<and> send_cq_db_local s \<le> sq_max_wr s \<and>
     length (wr_id_array s) = unat (sq_max_wr s)"

text \<open>The number of entries from the driver's position to the hardware's, and their slots.\<close>

definition ring_dist :: "nat \<Rightarrow> nat \<Rightarrow> nat \<Rightarrow> nat" where
  "ring_dist mx db head = (if db \<le> head then head - db else head + mx - db)"

definition slots :: "nat \<Rightarrow> nat \<Rightarrow> nat \<Rightarrow> nat list" where
  "slots mx db n = map (\<lambda>k. (db + k) mod mx) [0..<n]"

definition signaled_ids :: "xib_sq \<Rightarrow> nat list \<Rightarrow> u64 list" where
  "signaled_ids s ks = map fst (filter snd (map (\<lambda>k. wr_id_array s ! k) ks))"

lemma slots_Suc: "slots mx db (Suc n) = (db mod mx) # slots mx (Suc db) n"
  by (simp add: slots_def map_upt_Suc del: upt_Suc)

lemma slots_mod: "slots mx (db mod mx) n = slots mx db n"
  by (simp add: slots_def mod_add_left_eq)

lemma poll_slot_nat:
  assumes "sq_ok s"
  shows "unat (poll_slot s) = unat (send_cq_db_local s) mod unat (sq_max_wr s)" "poll_slot s < sq_max_wr s"
proof -
  let ?mx = "unat (sq_max_wr s)" and ?db = "unat (send_cq_db_local s)"
  have "?db \<le> ?mx" "0 < ?mx" using assms by (auto simp: sq_ok_def word_le_nat_alt word_less_nat_alt)
  then show "unat (poll_slot s) = ?db mod ?mx" "poll_slot s < sq_max_wr s"
    by (auto simp: poll_slot_def word_less_nat_alt word_unat_eq_iff)
qed

text \<open>What a round keeps and changes.\<close>

lemma poll_step_simps:
  "wr_id_array (ps_sq (poll_step ps qp cqes st)) = wr_id_array (ps_sq st)"
  "sq_max_wr (ps_sq (poll_step ps qp cqes st)) = sq_max_wr (ps_sq st)"
  "send_cq_db_local (ps_sq (poll_step ps qp cqes st)) = poll_slot (ps_sq st) + 1"
  "length (ps_wc (poll_step ps qp cqes st)) = length (ps_wc st)"
  "ps_done (poll_step ps qp cqes st) =
     ps_done st + (if snd (wr_id_array (ps_sq st) ! unat (poll_slot (ps_sq st))) then 1 else 0)"
  by (simp_all add: poll_step_def Let_def case_prod_beta)

lemma poll_step_ids:
  assumes "ps_done st < length (ps_wc st)"
  shows "map wc_wr_id (take (ps_done (poll_step ps qp cqes st)) (ps_wc (poll_step ps qp cqes st))) =
    map wc_wr_id (take (ps_done st) (ps_wc st)) @ signaled_ids (ps_sq st) [unat (poll_slot (ps_sq st))]"
  using assms by (auto simp: poll_step_def Let_def case_prod_beta signaled_ids_def take_Suc_conv_app_nth)

lemma poll_step_ok:
  assumes "sq_ok (ps_sq st)"
  shows "sq_ok (ps_sq (poll_step ps qp cqes st))"
    "unat (send_cq_db_local (ps_sq (poll_step ps qp cqes st))) = Suc (unat (poll_slot (ps_sq st)))"
proof -
  have u: "unat (poll_slot (ps_sq st) + 1) = Suc (unat (poll_slot (ps_sq st)))"
    using unat_inc_less [OF poll_slot_nat(2) [OF assms]] .
  then show "unat (send_cq_db_local (ps_sq (poll_step ps qp cqes st))) = Suc (unat (poll_slot (ps_sq st)))"
    by (simp add: poll_step_simps)
  have "Suc (unat (poll_slot (ps_sq st))) \<le> unat (sq_max_wr (ps_sq st))"
    using poll_slot_nat(2) [OF assms] by (simp add: word_less_nat_alt)
  then show "sq_ok (ps_sq (poll_step ps qp cqes st))"
    using assms u by (simp add: sq_ok_def poll_step_simps word_le_nat_alt)
qed

lemma ring_dist_step:
  assumes "0 < head" "head \<le> mx" "db \<le> mx" "db \<noteq> head"
  shows "ring_dist mx db head = Suc (ring_dist mx (Suc (db mod mx)) head)"
proof (cases "db = mx")
  case True
  then show ?thesis using assms by (auto simp: ring_dist_def)
next
  case False
  then show ?thesis using assms by (auto simp: ring_dist_def)
qed

lemma poll_send_run:
  assumes "sq_ok (ps_sq st)" "0 < head" "head \<le> sq_max_wr (ps_sq st)" "num \<le> length (ps_wc st)"
    and "n = ring_dist (unat (sq_max_wr (ps_sq st))) (unat (send_cq_db_local (ps_sq st))) (unat head)"
    and "ps_done st + length (signaled_ids (ps_sq st) (slots (unat (sq_max_wr (ps_sq st))) (unat (send_cq_db_local (ps_sq st))) n)) < num"
  shows "\<exists>st'. poll_send ps qp cqes num head st = Some st' \<and> send_cq_db_local (ps_sq st') = head \<and>
    map wc_wr_id (take (ps_done st') (ps_wc st')) = map wc_wr_id (take (ps_done st) (ps_wc st)) @
      signaled_ids (ps_sq st) (slots (unat (sq_max_wr (ps_sq st))) (unat (send_cq_db_local (ps_sq st))) n)"
  using assms
proof (induction n arbitrary: st)
  case 0
  let ?mx = "unat (sq_max_wr (ps_sq st))" and ?db = "unat (send_cq_db_local (ps_sq st))"
  have "?db \<le> ?mx" "0 < unat head"
    using 0 by (auto simp: sq_ok_def word_le_nat_alt word_less_nat_alt)
  then have "?db = unat head" using 0(5) by (auto simp: ring_dist_def split: if_splits)
  then have eq: "send_cq_db_local (ps_sq st) = head" by (simp add: word_unat_eq_iff)
  then have "poll_send ps qp cqes num head st = Some st"
    unfolding poll_send_def by (subst while_option_unfold) (simp add: poll_more_def)
  then show ?case using eq by (simp add: slots_def signaled_ids_def)
next
  case (Suc n)
  let ?s = "ps_sq st" let ?mx = "unat (sq_max_wr ?s)" and ?db = "unat (send_cq_db_local ?s)"
  let ?st = "poll_step ps qp cqes st"
  have b: "?db \<le> ?mx" "0 < unat head" "unat head \<le> ?mx"
    using Suc.prems by (auto simp: sq_ok_def word_le_nat_alt word_less_nat_alt)
  have ne: "?db \<noteq> unat head" using Suc.prems(5) by (auto simp: ring_dist_def)
  have more: "poll_more num head st" using ne Suc.prems(6) by (auto simp: poll_more_def)
  have slot: "unat (poll_slot ?s) = ?db mod ?mx" by (rule poll_slot_nat [OF Suc.prems(1)])
  have db': "unat (send_cq_db_local (ps_sq ?st)) = Suc (?db mod ?mx)"
    using poll_step_ok(2) [OF Suc.prems(1)] slot by simp
  have n: "n = ring_dist (unat (sq_max_wr (ps_sq ?st))) (unat (send_cq_db_local (ps_sq ?st))) (unat head)"
    using ring_dist_step [OF b(2,3,1) ne] Suc.prems(5) unfolding poll_step_simps(2) db' by simp
  have sl: "slots ?mx (Suc (?db mod ?mx)) n = slots ?mx (Suc ?db) n"
    using slots_mod [of ?mx "Suc ?db" n] slots_mod [of ?mx "Suc (?db mod ?mx)" n] by (simp add: mod_Suc_eq)
  have ids: "signaled_ids ?s (slots ?mx ?db (Suc n)) =
      signaled_ids ?s [?db mod ?mx] @ signaled_ids (ps_sq ?st) (slots (unat (sq_max_wr (ps_sq ?st))) (unat (send_cq_db_local (ps_sq ?st))) n)"
    unfolding db' poll_step_simps(2) by (simp add: slots_Suc signaled_ids_def poll_step_simps(1) sl)
  have len1: "ps_done ?st = ps_done st + length (signaled_ids ?s [?db mod ?mx])"
    by (simp add: poll_step_simps signaled_ids_def slot)
  have fits: "ps_done ?st + length (signaled_ids (ps_sq ?st)
      (slots (unat (sq_max_wr (ps_sq ?st))) (unat (send_cq_db_local (ps_sq ?st))) n)) < num"
    using Suc.prems(6) ids len1 by simp
  obtain st' where st': "poll_send ps qp cqes num head ?st = Some st'" "send_cq_db_local (ps_sq st') = head"
    "map wc_wr_id (take (ps_done st') (ps_wc st')) = map wc_wr_id (take (ps_done ?st) (ps_wc ?st)) @
      signaled_ids (ps_sq ?st) (slots (unat (sq_max_wr (ps_sq ?st))) (unat (send_cq_db_local (ps_sq ?st))) n)"
    using Suc.IH [OF poll_step_ok(1) [OF Suc.prems(1)] Suc.prems(2) _ _ n fits] Suc.prems(3,4)
    by (auto simp: poll_step_simps)
  have "poll_send ps qp cqes num head st = Some st'"
    using st'(1) more unfolding poll_send_def by (subst while_option_unfold) simp
  moreover have "ps_done st < length (ps_wc st)" using Suc.prems(4,6) by simp
  ultimately show ?case
    using st'(2,3) ids poll_step_ids [of st ps qp cqes] slot by auto
qed


definition demo_poll :: poll_state where
  "demo_poll = \<lparr>ps_done = 0, ps_wc = replicate 4 zero_wc,
     ps_sq = demo_sq\<lparr>send_cq_db_local := 3, sq_max_wr := 4,
       wr_id_array := [(10, True), (11, False), (12, True), (13, True)]\<rparr>,
     ps_opc = None, ps_polled = 0, ps_drained = False, ps_effects = []\<rparr>"


lemma poll_send_returns:
  assumes "sq_ok (ps_sq st)" "0 < head" "head \<le> sq_max_wr (ps_sq st)"
    and "n = ring_dist (unat (sq_max_wr (ps_sq st))) (unat (send_cq_db_local (ps_sq st))) (unat head)"
  shows "\<exists>st'. poll_send ps qp cqes num head st = Some st'"
  using assms
proof (induction n arbitrary: st)
  case 0
  let ?mx = "unat (sq_max_wr (ps_sq st))" and ?db = "unat (send_cq_db_local (ps_sq st))"
  have "?db \<le> ?mx" "0 < unat head"
    using 0 by (auto simp: sq_ok_def word_le_nat_alt word_less_nat_alt)
  then have "?db = unat head" using 0(4) by (auto simp: ring_dist_def split: if_splits)
  then have "\<not> poll_more num head st" by (simp add: poll_more_def word_unat_eq_iff)
  then show ?case unfolding poll_send_def by (subst while_option_unfold) simp
next
  case (Suc n)
  let ?s = "ps_sq st" let ?mx = "unat (sq_max_wr ?s)" and ?db = "unat (send_cq_db_local ?s)"
  let ?st = "poll_step ps qp cqes st"
  have b: "?db \<le> ?mx" "0 < unat head" "unat head \<le> ?mx"
    using Suc.prems by (auto simp: sq_ok_def word_le_nat_alt word_less_nat_alt)
  have ne: "?db \<noteq> unat head" using Suc.prems(4) by (auto simp: ring_dist_def)
  have "unat (send_cq_db_local (ps_sq ?st)) = Suc (?db mod ?mx)"
    using poll_step_ok(2) [OF Suc.prems(1)] poll_slot_nat(1) [OF Suc.prems(1)] by simp
  then have n: "n = ring_dist (unat (sq_max_wr (ps_sq ?st))) (unat (send_cq_db_local (ps_sq ?st))) (unat head)"
    using ring_dist_step [OF b(2,3,1) ne] Suc.prems(4) unfolding poll_step_simps(2) by simp
  have "\<exists>st'. poll_send ps qp cqes num head ?st = Some st'"
    using Suc.IH [OF poll_step_ok(1) [OF Suc.prems(1)] Suc.prems(2) _ n] Suc.prems(3) by (simp add: poll_step_simps)
  then show ?case unfolding poll_send_def by (subst while_option_unfold) simp
qed

text \<open>when the hardware reports position 0 while the driver's position is not 0 and no request in the
  queue was signalled, the poll never returns.\<close>

theorem poll_send_diverges:
  assumes "sq_ok (ps_sq st)" "send_cq_db_local (ps_sq st) \<noteq> 0" "ps_done st < num"
    and "list_all (\<lambda>e. \<not> snd e) (wr_id_array (ps_sq st))"
  shows "poll_send ps qp cqes num 0 st = None"
proof -
  define P where "P = (\<lambda>t :: poll_state. sq_ok (ps_sq t) \<and> send_cq_db_local (ps_sq t) \<noteq> 0 \<and> ps_done t < num \<and>
    list_all (\<lambda>e. \<not> snd e) (wr_id_array (ps_sq t)))"
  have step: "P (poll_step ps qp cqes t)" if "P t" for t
  proof -
    have ok: "sq_ok (ps_sq t)" using that by (simp add: P_def)
    have "unat (poll_slot (ps_sq t)) < length (wr_id_array (ps_sq t))"
      using poll_slot_nat(2) [OF ok] ok by (simp add: sq_ok_def word_less_nat_alt)
    then have "\<not> snd (wr_id_array (ps_sq t) ! unat (poll_slot (ps_sq t)))"
      using that by (simp add: P_def list_all_length)
    moreover have "poll_slot (ps_sq t) + 1 \<noteq> 0"
      using poll_step_ok(2) [OF ok, of ps qp cqes] by (auto simp: poll_step_simps)
    ultimately show ?thesis using that poll_step_ok(1) [OF ok, of ps qp cqes]
      by (simp add: P_def poll_step_simps)
  qed
  have more: "poll_more num 0 t" if "P t" for t using that by (simp add: P_def poll_more_def)
  show ?thesis
  proof (cases "poll_send ps qp cqes num 0 st")
    case (Some t)
    have "P t" using while_option_rule [of P, OF step Some [unfolded poll_send_def]] assms by (simp add: P_def)
    then show ?thesis using more while_option_stop [OF Some [unfolded poll_send_def]] by blast
  qed simp
qed

theorem poll_send_diverges_witness:
  "poll_send True demo_qp [] 4 0 (demo_poll\<lparr>ps_sq := demo_sq\<lparr>send_cq_db_local := 1, wr_id_array := replicate 4 (7, False)\<rparr>\<rparr>) = None"
  by (rule poll_send_diverges) (simp_all add: sq_ok_def demo_poll_def demo_sq_def list_all_iff)

lemma poll_recv_keeps: "sq (snd (poll_recv mk n qp)) = sq qp \<and> hw_qpn (snd (poll_recv mk n qp)) = hw_qpn qp"
  by (induction mk n qp rule: poll_recv.induct) (auto simp: recv_done_def Let_def case_prod_beta)

lemma pop_loop_keeps:
  "fst (run_state (pop_loop n qp mem) log) = Some (qp', mem') \<Longrightarrow> sq qp' = sq qp \<and> hw_qpn qp' = hw_qpn qp"
proof (induction n arbitrary: qp mem log)
  case (Suc n)
  obtain r log1 where one: "run_state (pop_one qp mem) log = (r, log1)" by force
  then obtain q1 m1 where r: "r = Some (q1, m1)" using Suc.prems by (cases r) auto
  then have "sq q1 = sq qp \<and> hw_qpn q1 = hw_qpn qp"
    using one by (auto simp: pop_one_def Let_def split: if_splits option.splits)
  then show ?case using Suc.IH Suc.prems one r by auto
qed simp



subsection \<open>Receive requests complete in the order they were posted\<close>

definition rq_ok :: "xib_rq \<Rightarrow> bool" where
  "rq_ok r \<longleftrightarrow> prod r < rq_max_wr r \<and> cons r < rq_max_wr r \<and> length (rqe_list r) = unat (rq_max_wr r)"

definition ring_count :: "nat \<Rightarrow> nat \<Rightarrow> nat \<Rightarrow> nat" where
  "ring_count mx from to = (to + mx - from) mod mx"

definition rq_contents :: "xib_rq \<Rightarrow> xib_rqe list" where
  "rq_contents r = map (\<lambda>k. rqe_list r ! k)
     (slots (unat (rq_max_wr r)) (unat (cons r)) (ring_count (unat (rq_max_wr r)) (unat (cons r)) (unat (prod r))))"

definition rq_capacity :: "xib_rq \<Rightarrow> nat" where
  "rq_capacity r = unat (rq_max_wr r) - 1"

text \<open>What the loop of \<open>xib_kernel_qp_post_recv\<close> does for one request.\<close>

definition rq_put :: "xib_rqe \<Rightarrow> xib_rq \<Rightarrow> xib_rq" where
  "rq_put e r = xib_rq_prod_inc (r\<lparr>rqe_list := (rqe_list r)[unat (prod r) := e]\<rparr>)"

lemma ring_count_less: "0 < mx \<Longrightarrow> ring_count mx f t < mx"
  by (simp add: ring_count_def)

lemma ring_count_put:
  assumes "f < mx" "t < mx" "Suc (ring_count mx f t) < mx"
  shows "ring_count mx f (Suc t mod mx) = Suc (ring_count mx f t)" "(f + ring_count mx f t) mod mx = t"
proof -
  have c: "ring_count mx f t = (if f \<le> t then t - f else t + mx - f)"
    using assms(1,2) by (auto simp: ring_count_def mod_if)
  show "(f + ring_count mx f t) mod mx = t" unfolding c using assms by (auto simp: mod_if)
  show "ring_count mx f (Suc t mod mx) = Suc (ring_count mx f t)"
    using assms unfolding c by (auto simp: ring_count_def mod_if split: if_splits)
qed

lemma ring_count_get:
  assumes "f < mx" "t < mx" "f \<noteq> t"
  shows "ring_count mx f t = Suc (ring_count mx (Suc f mod mx) t)"
  using assms by (auto simp: ring_count_def mod_if split: if_splits)

lemma ring_count_zero: "f < mx \<Longrightarrow> t < mx \<Longrightarrow> ring_count mx f t = 0 \<longleftrightarrow> f = t"
  by (auto simp: ring_count_def mod_if split: if_splits)

lemma slots_snoc: "slots mx f (Suc n) = slots mx f n @ [(f + n) mod mx]"
  by (simp add: slots_def)

lemma slots_avoid:
  assumes "f < mx" "n < mx"
  shows "(f + n) mod mx \<notin> set (slots mx f n)"
proof
  assume "(f + n) mod mx \<in> set (slots mx f n)"
  then obtain k where "k < n" "(f + n) mod mx = (f + k) mod mx" by (auto simp: slots_def)
  then show False using assms by (auto simp: mod_if split: if_splits)
qed

interpretation ring: bounded_fifo rq_ok rq_contents rq_capacity rq_put xib_rq_cons_inc
proof
  fix r x
  assume ok: "rq_ok r" and room: "length (rq_contents r) < rq_capacity r"
  let ?mx = "unat (rq_max_wr r)" and ?f = "unat (cons r)" and ?t = "unat (prod r)"
  let ?n = "ring_count ?mx ?f ?t"
  have b: "?f < ?mx" "?t < ?mx" "length (rqe_list r) = ?mx"
    using ok by (auto simp: rq_ok_def word_less_nat_alt)
  have n: "Suc ?n < ?mx" using room by (simp add: rq_contents_def rq_capacity_def slots_def)
  have inc: "unat ((prod r + 1) mod rq_max_wr r) = Suc ?t mod ?mx" "(prod r + 1) mod rq_max_wr r < rq_max_wr r"
    using ring_inc [of "prod r" "rq_max_wr r"] ok by (auto simp: rq_ok_def)
  show "rq_ok (rq_put x r)" using ok inc(2) by (simp add: rq_ok_def rq_put_def xib_rq_prod_inc_def)
  have pos: "(?f + ?n) mod ?mx = ?t" by (rule ring_count_put(2) [OF b(1,2) n])
  have "map (\<lambda>k. (rqe_list r)[?t := x] ! k) (slots ?mx ?f ?n) = map (\<lambda>k. rqe_list r ! k) (slots ?mx ?f ?n)"
  proof (intro map_cong refl)
    fix k assume "k \<in> set (slots ?mx ?f ?n)"
    then have "?t \<noteq> k" using slots_avoid [of ?f ?mx ?n] b(1) n pos by auto
    then show "(rqe_list r)[?t := x] ! k = rqe_list r ! k" by simp
  qed
  then show "rq_contents (rq_put x r) = rq_contents r @ [x]"
    using ring_count_put(1) [OF b(1,2) n] pos b
    by (simp add: rq_contents_def rq_put_def xib_rq_prod_inc_def inc(1) slots_snoc)
next
  fix r
  assume ok: "rq_ok r" and ne: "rq_contents r \<noteq> []"
  let ?mx = "unat (rq_max_wr r)" and ?f = "unat (cons r)" and ?t = "unat (prod r)"
  have b: "?f < ?mx" "?t < ?mx" using ok by (auto simp: rq_ok_def word_less_nat_alt)
  have inc: "unat ((cons r + 1) mod rq_max_wr r) = Suc ?f mod ?mx" "(cons r + 1) mod rq_max_wr r < rq_max_wr r"
    using ring_inc [of "cons r" "rq_max_wr r"] ok by (auto simp: rq_ok_def)
  show "rq_ok (xib_rq_cons_inc r)" using ok inc(2) by (simp add: rq_ok_def xib_rq_cons_inc_def)
  have "?f \<noteq> ?t" using ne ring_count_zero [OF b] by (auto simp: rq_contents_def slots_def)
  from ring_count_get [OF b this] show "rq_contents (xib_rq_cons_inc r) = tl (rq_contents r)"
    by (simp add: rq_contents_def xib_rq_cons_inc_def inc(1) slots_Suc slots_mod)
qed (simp_all add: rq_capacity_def rq_put_def xib_rq_prod_inc_def xib_rq_cons_inc_def)

definition rqe_of :: "recv_wr \<Rightarrow> xib_rqe" where
  "rqe_of wr = \<lparr>rqe_wr_id = rw_wr_id wr, rqe_num_sge = of_nat (length (rw_sg_list wr)), rqe_ip_version = 0,
     rqe_sg_list = rw_sg_list wr\<rparr>"

definition wr_fits :: "xib_qp \<Rightarrow> recv_wr \<Rightarrow> bool" where
  "wr_fits qp wr \<longleftrightarrow> xib_get_payload_size (rw_sg_list wr) \<le> rq_buf_size qp \<and> length (rw_sg_list wr) \<le> 8"

lemma post_recv_puts:
  "list_all (wr_fits qp) wrs \<Longrightarrow>
     xib_kernel_qp_post_recv qp wrs = (0, [], qp\<lparr>rq := fold rq_put (map rqe_of wrs) (rq qp)\<rparr>)"
proof (induction wrs arbitrary: qp)
  case (Cons wr wrs)
  let ?qp = "qp\<lparr>rq := rq_put (rqe_of wr) (rq qp)\<rparr>"
  have f: "\<not> (rq_buf_size qp < xib_get_payload_size (rw_sg_list wr) \<or> 8 < length (rw_sg_list wr))"
    using Cons.prems by (auto simp: wr_fits_def)
  have "list_all (wr_fits ?qp) wrs" using Cons.prems by (simp add: list_all_iff wr_fits_def)
  from Cons.IH [OF this] show ?case using f
    by (simp add: rqe_of_def rq_put_def Let_def)
qed simp

text \<open>posting receive requests that fit, while the ring has room, appends them to the ring in order.\<close>

theorem post_recv_appends:
  assumes "rq_ok (rq qp)" "list_all (wr_fits qp) wrs"
    "length (rq_contents (rq qp)) + length wrs \<le> rq_capacity (rq qp)"
  shows "\<exists>qp'. xib_kernel_qp_post_recv qp wrs = (0, [], qp') \<and> rq_ok (rq qp') \<and>
    rq_contents (rq qp') = rq_contents (rq qp) @ map rqe_of wrs"
  using post_recv_puts [OF assms(2)] ring.put_all [OF assms(1), of "map rqe_of wrs"] assms(3) by simp

definition demo_ring :: xib_qp where
  "demo_ring = demo_qp\<lparr>rq := demo_rq\<lparr>prod := 3, cons := 3, gsi_cons := 1, rqe_list := replicate 4 zero_rqe\<rparr>,
     imm_inv_data := replicate 4 \<lparr>inv_data = 0, inv_type = 0, isvalid = False\<rparr>\<rparr>"

definition demo_wr :: "u64 \<Rightarrow> recv_wr" where
  "demo_wr i = \<lparr>rw_wr_id = i, rw_sg_list = [\<lparr>sge_addr = 0x1000, sge_length = 64, sge_lkey = 0\<rparr>]\<rparr>"

lemma demo_ring_facts:
  "rq_ok (rq demo_ring)" "rq_contents (rq demo_ring) = []" "rq_capacity (rq demo_ring) = 3"
  "list_all (wr_fits demo_ring) [demo_wr 1, demo_wr 2, demo_wr 3]"
  by (simp_all add: rq_ok_def rq_contents_def rq_capacity_def wr_fits_def demo_ring_def demo_qp_def demo_rq_def
      ring_count_def slots_def demo_wr_def xib_get_payload_size_def)

theorem post_recv_appends_witness:
  "\<exists>qp'. xib_kernel_qp_post_recv demo_ring [demo_wr 1, demo_wr 2, demo_wr 3] = (0, [], qp') \<and>
     map rqe_wr_id (rq_contents (rq qp')) = [1, 2, 3]"
  using post_recv_appends [of demo_ring "[demo_wr 1, demo_wr 2, demo_wr 3]"] demo_ring_facts
  by (auto simp: rqe_of_def demo_wr_def)

lemma recv_wc_id: "wc_wr_id (recv_wc qp) = rqe_wr_id (rqe_list (rq qp) ! unat (cons (rq qp)))"
  by (simp add: recv_wc_def Let_def)

lemma poll_recv_ids:
  assumes "cons (rq qp) < rq_max_wr (rq qp)" "gsi_cons (rq qp) < rq_max_wr (rq qp)"
  shows "map wc_wr_id (fst (poll_recv recv_wc n qp)) = map (\<lambda>k. rqe_wr_id (rqe_list (rq qp) ! k))
    (slots (unat (rq_max_wr (rq qp))) (unat (cons (rq qp)))
      (min n (ring_count (unat (rq_max_wr (rq qp))) (unat (cons (rq qp))) (unat (gsi_cons (rq qp))))))"
  using assms
proof (induction n arbitrary: qp)
  case 0
  then show ?case by (simp add: slots_def)
next
  case (Suc n)
  let ?r = "rq qp" let ?mx = "unat (rq_max_wr ?r)" and ?f = "unat (cons ?r)" and ?g = "unat (gsi_cons ?r)"
  have b: "?f < ?mx" "?g < ?mx" using Suc.prems by (auto simp: word_less_nat_alt)
  show ?case
  proof (cases "cons ?r = gsi_cons ?r")
    case True
    then have "ring_count ?mx ?f ?g = 0" using ring_count_zero [OF b] by simp
    then show ?thesis using True by (simp add: slots_def)
  next
    case False
    then have ne: "?f \<noteq> ?g" by (simp add: word_unat_eq_iff)
    have inc: "unat ((cons ?r + 1) mod rq_max_wr ?r) = Suc ?f mod ?mx" "(cons ?r + 1) mod rq_max_wr ?r < rq_max_wr ?r"
      using ring_inc [OF Suc.prems(1)] by auto
    have "map wc_wr_id (fst (poll_recv recv_wc n (recv_done qp))) = map (\<lambda>k. rqe_wr_id (rqe_list ?r ! k))
        (slots ?mx (Suc ?f mod ?mx) (min n (ring_count ?mx (Suc ?f mod ?mx) ?g)))"
      using Suc.IH [of "recv_done qp"] inc Suc.prems(2) by (simp add: recv_done_def Let_def xib_rq_cons_inc_def)
    moreover have "min (Suc n) (ring_count ?mx ?f ?g) = Suc (min n (ring_count ?mx (Suc ?f mod ?mx) ?g))"
      using ring_count_get [OF b ne] by simp
    ultimately show ?thesis using False b(1)
      by (simp add: case_prod_beta slots_Suc slots_mod recv_wc_id)
  qed
qed

text \<open>receive completions come in the order of the posted requests: a poll reports the oldest requests of
  the ring, as many as packets were taken from the hardware, up to the size of the caller's array.\<close>

theorem poll_recv_fifo:
  assumes "rq_ok (rq qp)" "gsi_cons (rq qp) < rq_max_wr (rq qp)"
    "ring_count (unat (rq_max_wr (rq qp))) (unat (cons (rq qp))) (unat (gsi_cons (rq qp))) \<le> length (rq_contents (rq qp))"
  shows "map wc_wr_id (fst (poll_recv recv_wc n qp)) = map rqe_wr_id (take (min n
    (ring_count (unat (rq_max_wr (rq qp))) (unat (cons (rq qp))) (unat (gsi_cons (rq qp))))) (rq_contents (rq qp)))"
proof -
  have "take m (slots mx f k) = slots mx f m" if "m \<le> k" for m mx f k
    using that by (simp add: slots_def take_map)
  then show ?thesis using poll_recv_ids [of qp n] assms
    by (simp add: rq_ok_def rq_contents_def take_map slots_def)
qed

theorem poll_recv_fifo_witness:
  "map wc_wr_id (fst (poll_recv recv_wc 8
     (demo_ring\<lparr>rq := (rq demo_ring)\<lparr>prod := 2, rqe_list := map rqe_of [demo_wr 2, demo_wr 3, demo_wr 4, demo_wr 1]\<rparr>\<rparr>))) = [1, 2]"
  by (subst poll_recv_fifo)
    (simp_all add: rq_ok_def rq_contents_def demo_ring_def demo_rq_def ring_count_def slots_def upt_rec rqe_of_def demo_wr_def)

text \<open>posting does not look at the consumer: one request more than the ring holds is accepted, and makes
  the ring look empty.\<close>

theorem post_recv_overflow_loses_all:
  assumes "rq_ok (rq qp)" "length (rq_contents (rq qp)) = rq_capacity (rq qp)" "wr_fits qp wr"
  shows "\<exists>qp'. xib_kernel_qp_post_recv qp [wr] = (0, [], qp') \<and> rq_contents (rq qp') = []"
proof -
  let ?r = "rq qp" let ?mx = "unat (rq_max_wr ?r)" and ?f = "unat (cons ?r)" and ?t = "unat (prod ?r)"
  have b: "?f < ?mx" "?t < ?mx" "prod ?r < rq_max_wr ?r" using assms(1) by (auto simp: rq_ok_def word_less_nat_alt)
  have "Suc (ring_count ?mx ?f ?t) = ?mx"
    using assms(2) b by (simp add: rq_contents_def rq_capacity_def slots_def)
  then have "Suc ?t mod ?mx = ?f" using b by (auto simp: ring_count_def mod_if split: if_splits)
  then have "ring_count ?mx ?f (unat ((prod ?r + 1) mod rq_max_wr ?r)) = 0"
    using ring_inc(1) [OF b(3)] ring_count_zero [OF b(1)] b(1) by simp
  then show ?thesis using post_recv_puts [of qp "[wr]"] assms(3)
    by (simp add: rq_contents_def rq_put_def xib_rq_prod_inc_def slots_def)
qed

theorem post_recv_overflow_loses_all_witness:
  "\<exists>qp'. xib_kernel_qp_post_recv (demo_ring\<lparr>rq := (rq demo_ring)\<lparr>prod := 2\<rparr>\<rparr>) [demo_wr 4] = (0, [], qp') \<and>
     rq_contents (rq qp') = []"
  by (rule post_recv_overflow_loses_all)
    (simp_all add: rq_ok_def rq_contents_def rq_capacity_def wr_fits_def demo_ring_def demo_qp_def demo_rq_def
      ring_count_def slots_def demo_wr_def xib_get_payload_size_def)

subsection \<open>Taking packets from the hardware\<close>

lemma pop_one_ring:
  assumes "run_state (pop_one qp mem) log = (Some (qp', mem'), log')"
    "rq_wrptr_db_local (rq qp) \<le> rq_max_wr (rq qp)" "gsi_cons (rq qp) < rq_max_wr (rq qp)"
  shows "rq_max_wr (rq qp') = rq_max_wr (rq qp)" "gsi_cons (rq qp') < rq_max_wr (rq qp)"
    "unat (gsi_cons (rq qp')) = Suc (unat (gsi_cons (rq qp))) mod unat (rq_max_wr (rq qp))"
    "unat (rq_wrptr_db_local (rq qp')) = Suc (unat (rq_wrptr_db_local (rq qp)) mod unat (rq_max_wr (rq qp)))"
proof -
  let ?r = "rq qp"
  define l where "l = (if rq_wrptr_db_local ?r = rq_max_wr ?r then 0 else rq_wrptr_db_local ?r)"
  have q: "rq qp' = (xib_inc_sw_gsi_cons ?r)\<lparr>rq_wrptr_db_local := l + 1\<rparr>"
    using assms(1) unfolding pop_one_def Let_def l_def by (auto split: if_splits option.splits)
  have ll: "l < rq_max_wr ?r" "unat l = unat (rq_wrptr_db_local ?r) mod unat (rq_max_wr ?r)"
    using assms(2,3) by (auto simp: l_def word_less_nat_alt word_le_nat_alt word_unat_eq_iff)
  show "rq_max_wr (rq qp') = rq_max_wr ?r" by (simp add: q xib_inc_sw_gsi_cons_def)
  show "gsi_cons (rq qp') < rq_max_wr ?r"
    "unat (gsi_cons (rq qp')) = Suc (unat (gsi_cons ?r)) mod unat (rq_max_wr ?r)"
    using ring_inc [OF assms(3)] by (simp_all add: q xib_inc_sw_gsi_cons_def)
  show "unat (rq_wrptr_db_local (rq qp')) = Suc (unat (rq_wrptr_db_local ?r) mod unat (rq_max_wr ?r))"
    using unat_inc_less [OF ll(1)] ll(2) by (simp add: q)
qed

lemma pop_loop_ring:
  assumes "run_state (pop_loop n qp mem) log = (Some (qp', mem'), log')"
    "rq_wrptr_db_local (rq qp) \<le> rq_max_wr (rq qp)" "gsi_cons (rq qp) < rq_max_wr (rq qp)" "n \<le> unat (rq_max_wr (rq qp))"
  shows "unat (gsi_cons (rq qp')) = (unat (gsi_cons (rq qp)) + n) mod unat (rq_max_wr (rq qp)) \<and>
    unat (rq_wrptr_db_local (rq qp')) = ring_steps (unat (rq_max_wr (rq qp))) (unat (rq_wrptr_db_local (rq qp))) n"
  using assms
proof (induction n arbitrary: qp mem log)
  case 0
  then show ?case by (auto simp: ring_steps_def word_less_nat_alt word_le_nat_alt)
next
  case (Suc n)
  let ?mx = "unat (rq_max_wr (rq qp))" and ?l = "unat (rq_wrptr_db_local (rq qp))"
  obtain q1 m1 log1 where one: "run_state (pop_one qp mem) log = (Some (q1, m1), log1)"
    and rest: "run_state (pop_loop n q1 m1) log1 = (Some (qp', mem'), log')"
    using Suc.prems(1) by (auto split: prod.splits option.splits)
  note r1 = pop_one_ring [OF one Suc.prems(2,3)]
  have le: "?l \<le> ?mx" "0 < ?mx" using Suc.prems(2,3) by (auto simp: word_le_nat_alt word_less_nat_alt)
  have "?l mod ?mx < ?mx" using le by simp
  then have "unat (rq_wrptr_db_local (rq q1)) \<le> ?mx" unfolding r1(4) by simp
  then have ih: "unat (gsi_cons (rq qp')) = (unat (gsi_cons (rq q1)) + n) mod ?mx \<and>
      unat (rq_wrptr_db_local (rq qp')) = ring_steps ?mx (unat (rq_wrptr_db_local (rq q1))) n"
    using Suc.IH [OF rest] r1(1,2) Suc.prems(4) by (simp add: word_le_nat_alt)
  moreover have "ring_steps ?mx (Suc (?l mod ?mx)) n = ring_steps ?mx ?l (Suc n)"
    using le Suc.prems(4) by (cases "?l = ?mx") (auto simp: ring_steps_def)
  ultimately show ?case unfolding r1(3,4) by (simp add: mod_simps)
qed

lemma get_rq_recd_dist:
  assumes "rq_wrptr_db_local r \<le> rq_max_wr r" "db \<le> rq_max_wr r" "unat (rq_max_wr r) < 2 ^ 30"
  shows "xib_get_rq_recd r db = int (ring_dist (unat (rq_max_wr r)) (unat (rq_wrptr_db_local r)) (unat db))"
proof -
  have "xib_get_rq_recd r db = err_received (rq_max_wr r) (rq_wrptr_db_local r) db"
    by (auto simp: xib_get_rq_recd_def err_received_def)
  then show ?thesis using err_received_count [OF assms(3,1,2)]
    by (simp only: ring_dist_def word_le_nat_alt if_distrib [of int])
qed

text \<open>taking packets from the hardware brings the driver's write pointer to the hardware's, counts every
  packet between them once, and advances the ring by as many requests.\<close>

theorem xib_pop_rq_catches_up:
  assumes run: "run_state (xib_pop_rq db qp mem) log = (Some (received, qp', mem'), log')"
    and "rq_wrptr_db_local (rq qp) \<le> rq_max_wr (rq qp)" "gsi_cons (rq qp) < rq_max_wr (rq qp)"
    "0 < db" "db \<le> rq_max_wr (rq qp)" "unat (rq_max_wr (rq qp)) < 2 ^ 30"
  shows "rq_wrptr_db_local (rq qp') = db \<and>
    received = int (ring_dist (unat (rq_max_wr (rq qp))) (unat (rq_wrptr_db_local (rq qp))) (unat db)) \<and>
    unat (gsi_cons (rq qp')) = (unat (gsi_cons (rq qp)) + nat received) mod unat (rq_max_wr (rq qp))"
proof -
  let ?mx = "unat (rq_max_wr (rq qp))" and ?l = "unat (rq_wrptr_db_local (rq qp))"
  let ?n = "ring_dist ?mx ?l (unat db)"
  have rc: "xib_get_rq_recd (rq qp) db = int ?n" by (rule get_rq_recd_dist [OF assms(2,5,6)])
  have r: "received = int ?n" and lp: "run_state (pop_loop ?n qp mem) log = (Some (qp', mem'), log')"
    using run unfolding xib_pop_rq_def rc by (auto simp: Let_def split: prod.splits)
  have b: "?l \<le> ?mx" "0 < unat db" "unat db \<le> ?mx"
    using assms(2,4,5) by (simp_all add: word_le_nat_alt word_less_nat_alt)
  then have "?n \<le> ?mx" "ring_steps ?mx ?l ?n = unat db" by (auto simp: ring_dist_def ring_steps_def)
  then show ?thesis using pop_loop_ring [OF lp assms(2,3)] r by (simp add: word_unat_eq_iff)
qed

definition demo_pop :: xib_qp where
  "demo_pop = demo_ring\<lparr>rq_buf_size := 64, rq_mem := replicate 256 1, rq := (rq demo_ring)\<lparr>rq_wrptr_db_local := 3,
     rqe_list := map rqe_of [demo_wr 2, demo_wr 3, demo_wr 4, demo_wr 1]\<rparr>\<rparr>"

theorem xib_pop_rq_catches_up_witness:
  "\<exists>qp' mem' log'. run_state (xib_pop_rq 1 demo_pop (\<lambda>_. 0)) [] = (Some (2, qp', mem'), log') \<and>
     rq_wrptr_db_local (rq qp') = 1 \<and> unat (gsi_cons (rq qp')) = 3"
proof -
  have c: "xib_get_rq_recd (rq demo_pop) 1 = 2"
    by (subst get_rq_recd_dist) (simp_all add: demo_pop_def demo_ring_def demo_rq_def ring_dist_def)
  have "\<exists>qp' mem' log'. run_state (pop_loop 2 demo_pop (\<lambda>_. 0)) [] = (Some (qp', mem'), log')"
    unfolding numeral_2_eq_2
    by (simp add: pop_one_def Let_def demo_pop_def demo_ring_def demo_rq_def rqe_of_def demo_wr_def
        read_bytes_def xib_inc_sw_gsi_cons_def)
  then obtain qp' mem' log' where "run_state (xib_pop_rq 1 demo_pop (\<lambda>_. 0)) [] = (Some (2, qp', mem'), log')"
    by (auto simp: xib_pop_rq_def c Let_def)
  from xib_pop_rq_catches_up [OF this] this show ?thesis
    by (auto simp: demo_pop_def demo_ring_def demo_rq_def)
qed
end
