(* ===== verification/Xib_Send.thy ===== *)
theory Xib_Send
  imports Xib_Poll
begin

text \<open>
  Posting send requests: \<open>__xib_post_send\<close> and \<open>xib_gsi_post_send\<close> of
  \<open>recipes-modules/xib-module/files/main.c\<close>, with \<open>xib_build_qp1_send_v2\<close> of \<open>verbs.c\<close>.  The work request
  that is copied to the send queue is the local variable of the C function: it is not initialised, so
  the model starts from an arbitrary one, and keeps its fields from one request to the next.  The
  lines guarded by \<open>#ifdef ARCH_HAS_ PS\<close> (with white space in the name) are not compiled.
\<close>

unbundle bit_operations_syntax

subsection \<open>Requests\<close>

datatype wr_op = IB_WR_RDMA_WRITE | IB_WR_RDMA_WRITE_WITH_IMM | IB_WR_SEND | IB_WR_SEND_WITH_IMM
  | IB_WR_RDMA_READ | IB_WR_SEND_WITH_INV | IB_WR_OTHER

record send_wr =
  sw_wr_id :: u64
  sw_op :: wr_op
  sw_signaled :: bool
  sw_solicited :: bool
  sw_sg_list :: "ib_sge list"
  sw_remote_addr :: u64
  sw_rkey :: u32
  sw_imm_data :: u32
  sw_invalidate_rkey :: u32

fun xib_wr_code :: "wr_op \<Rightarrow> int" where
  "xib_wr_code IB_WR_SEND = 2"
| "xib_wr_code IB_WR_SEND_WITH_INV = 0xC"
| "xib_wr_code IB_WR_RDMA_READ = 4"
| "xib_wr_code IB_WR_RDMA_WRITE = 0"
| "xib_wr_code IB_WR_RDMA_WRITE_WITH_IMM = 1"
| "xib_wr_code IB_WR_SEND_WITH_IMM = 3"
| "xib_wr_code IB_WR_OTHER = - 1"

definition read_mem :: "memory \<Rightarrow> u64 \<Rightarrow> nat \<Rightarrow> u8 list" where
  "read_mem m a n = map (\<lambda>k. m (a + of_nat k)) [0..<n]"

text \<open>The buffers of a request one behind the other: the size as the C \<open>int\<close>, or \<open>-1\<close>, and the bytes
  written.  The limit is checked before a buffer is copied.\<close>

fun prepare_from :: "memory \<Rightarrow> ib_sge list \<Rightarrow> u32 \<Rightarrow> u8 list \<Rightarrow> int \<times> u8 list" where
  "prepare_from m [] sz bs = (sint sz, bs)"
| "prepare_from m (s # ss) sz bs =
     (if 4096 < sint sz then (- 1, bs)
      else prepare_from m ss (sz + sge_length s) (bs @ read_mem m (sge_addr s) (unat (sge_length s))))"

definition xib_prepare_sgl :: "memory \<Rightarrow> ib_sge list \<Rightarrow> int \<times> u8 list" where
  "xib_prepare_sgl m sgl = prepare_from m sgl 0 []"

subsection \<open>One request of a kernel queue pair\<close>

record send_env =
  se_dma :: dma_alloc
  se_kz :: bool
  se_memory :: memory

record send_state =
  ss_qp :: xib_qp
  ss_xwqe :: xrnic_wr
  ss_mem :: mem_state
  ss_writes :: "(u64 \<times> u8 list) list"

datatype post_result = Posted send_state | Refused int send_state | Post_fault

definition is_send :: "wr_op \<Rightarrow> bool" where
  "is_send op \<longleftrightarrow> op = IB_WR_SEND \<or> op = IB_WR_SEND_WITH_INV \<or> op = IB_WR_SEND_WITH_IMM"

definition sq_slot :: "xib_qp \<Rightarrow> nat" where
  "sq_slot qp = unat (sq_cmpl_db_local (sq qp))"

definition mark_wr :: "send_wr \<Rightarrow> xib_qp \<Rightarrow> xib_qp" where
  "mark_wr wr qp = qp\<lparr>sq := (sq qp)\<lparr>wr_id_array := (wr_id_array (sq qp))[sq_slot qp := (sw_wr_id wr, sw_signaled wr)]\<rparr>\<rparr>"

definition set_plb :: "xib_pl_buf \<Rightarrow> xib_qp \<Rightarrow> xib_qp" where
  "set_plb plb qp = qp\<lparr>sq := (sq qp)\<lparr>pl_buf_list := (pl_buf_list (sq qp))[sq_slot qp := plb]\<rparr>\<rparr>"

text \<open>A send copies its data to a fresh buffer; up to 16 bytes also go into the request itself.\<close>

definition send_data :: "send_env \<Rightarrow> send_wr \<Rightarrow> send_state \<Rightarrow> post_result" where
  "send_data env wr st =
     (let qp = ss_qp st; plb = pl_buf_list (sq qp) ! sq_slot qp; len = scast (xib_get_payload_size (sw_sg_list wr)) :: u64;
          from = (if xib_pl_present (ss_mem st) then ''pl'' else ''ps'')
      in case xib_alloc_coherent (se_dma env) (se_kz env) (ss_mem st) from len of
        None \<Rightarrow> Post_fault
      | Some ((va, pa), mem') \<Rightarrow>
          (let plb' = plb\<lparr>plb_len := len, plb_va := va, plb_pa := (case pa of Some a \<Rightarrow> a | None \<Rightarrow> plb_pa plb)\<rparr>;
               st1 = st\<lparr>ss_qp := set_plb plb' qp, ss_mem := mem'\<rparr>
           in if va = 0 then Refused (- ENOMEM) st1
              else let (sz, bs) = xib_prepare_sgl (se_memory env) (sw_sg_list wr);
                       st2 = st1\<lparr>ss_writes := ss_writes st @ [(va, bs)]\<rparr>
                   in if sz < 0 then Refused (- EINVAL) st2
                      else let xw = (if sz \<le> 16 then (ss_xwqe st)\<lparr>sdata := overlay (sdata (ss_xwqe st)) 0 bs\<rparr> else ss_xwqe st);
                               n = (if sz \<le> 16 then 16 else sz)
                           in Posted (st2\<lparr>ss_xwqe := xw\<lparr>l_addr := plb_pa plb', r_offset := 0, r_tag := 0,
                                wr_length := of_int n\<rparr>\<rparr>)))"

text \<open>Any other request names its (first) buffer; only the low 32 bits of the address are used.\<close>

definition rdma_data :: "send_wr \<Rightarrow> send_state \<Rightarrow> post_result" where
  "rdma_data wr st =
     (case sw_sg_list wr of
        [] \<Rightarrow> Post_fault
      | s # ss \<Rightarrow> Posted (st\<lparr>ss_xwqe := (ss_xwqe st)\<lparr>l_addr := ucast (ucast (sge_addr s) :: u32),
                    wr_length := sge_length s\<rparr>\<rparr>))"

text \<open>The rest: remote address for plain reads and writes, the opcode in 8 bits, the copy into the queue, and
  only then the immediate data and the key to invalidate.\<close>

definition finish_wqe :: "send_wr \<Rightarrow> xrnic_wr \<Rightarrow> xrnic_wr" where
  "finish_wqe wr xw =
     (let xw1 = (if sw_op wr = IB_WR_RDMA_WRITE \<or> sw_op wr = IB_WR_RDMA_READ
                 then xw\<lparr>r_offset := sw_remote_addr wr, r_tag := sw_rkey wr\<rparr> else xw)
      in xw1\<lparr>wr_opcode := of_int (xib_wr_code (sw_op wr))\<rparr>)"

definition late_fields :: "send_wr \<Rightarrow> xrnic_wr \<Rightarrow> xrnic_wr" where
  "late_fields wr xw =
     (let xw1 = (if sw_op wr = IB_WR_SEND_WITH_IMM \<or> sw_op wr = IB_WR_RDMA_WRITE_WITH_IMM
                 then xw\<lparr>imm_data := bswap32 (sw_imm_data wr)\<rparr> else xw)
      in if sw_op wr = IB_WR_SEND_WITH_INV then xw1\<lparr>r_tag := sw_invalidate_rkey wr\<rparr> else xw1)"

definition post_one :: "send_env \<Rightarrow> send_wr \<Rightarrow> send_state \<Rightarrow> post_result dev" where
  "post_one env wr st0 =
     (let st = st0\<lparr>ss_qp := mark_wr wr (ss_qp st0),
            ss_xwqe := (ss_xwqe st0)\<lparr>wrid := ucast (sw_wr_id wr) AND 0xFFFF\<rparr>\<rparr>
      in case (if is_send (sw_op wr) then send_data env wr st else rdma_data wr st) of
        Posted st1 \<Rightarrow> do {
          let xw = finish_wqe wr (ss_xwqe st1);
          let qp = ss_qp st1;
          qp' \<leftarrow> xrnic_send_wr (qp\<lparr>sq_wqes := (sq_wqes qp)[sq_slot qp := xw]\<rparr>);
          State_Monad.return (Posted (st1\<lparr>ss_qp := qp', ss_xwqe := late_fields wr xw\<rparr>))}
      | r \<Rightarrow> State_Monad.return r)"

subsection \<open>The whole call\<close>

text \<open>The return value, what \<open>*bad_wr\<close> points at if it is set, and whether \<open>sq_lock\<close> is still held.\<close>

record post_out =
  po_ret :: int
  po_bad :: "send_wr list option"
  po_locked :: bool

definition po_ok :: post_out where
  "po_ok = \<lparr>po_ret = 0, po_bad = None, po_locked = False\<rparr>"

fun post_loop :: "send_env \<Rightarrow> send_wr list \<Rightarrow> send_state \<Rightarrow> (post_out \<times> send_state) option dev" where
  "post_loop env [] st = State_Monad.return (Some (po_ok, st))"
| "post_loop env (wr # wrs) st = do {
     r \<leftarrow> post_one env wr st;
     (case r of
        Posted st' \<Rightarrow> post_loop env wrs st'
      | Refused e st' \<Rightarrow>
          State_Monad.return (Some (\<lparr>po_ret = e, po_bad = Some (wr # wrs), po_locked = False\<rparr>, st'))
      | Post_fault \<Rightarrow> State_Monad.return None)}"

text \<open>While the queue is being drained, requests are kept in a list of at most \<open>max_wr\<close> entries; \<open>kz\<close> says which
  allocations succeed.\<close>

fun sqd_post :: "(nat \<Rightarrow> bool) \<Rightarrow> send_wr list \<Rightarrow> xib_sq \<Rightarrow> bool \<times> xib_sq" where
  "sqd_post kz [] s = (True, s)"
| "sqd_post kz (wr # wrs) s =
     (if sqd_length s < ucast (sq_max_wr s)
      then if kz (length (sqd_wr_list s))
           then sqd_post kz wrs (s\<lparr>sqd_wr_list := sqd_wr_list s @ [sw_wr_id wr], sqd_length := sqd_length s + 1\<rparr>)
           else (False, s)
      else (True, s))"

definition sqd_branch :: "(nat \<Rightarrow> bool) \<Rightarrow> send_wr list \<Rightarrow> xib_qp \<Rightarrow> post_out \<times> xib_qp" where
  "sqd_branch kz wrs qp =
     (case sqd_post kz wrs (sq qp) of (ok, s) \<Rightarrow>
        if \<not> ok then (\<lparr>po_ret = - ENOMEM, po_bad = None, po_locked = True\<rparr>, qp\<lparr>sq := s\<rparr>)
        else if sqd_length s > ucast (sq_max_wr s)
        then (\<lparr>po_ret = - ENOMEM, po_bad = None, po_locked = True\<rparr>, qp\<lparr>sq := s\<rparr>)
        else (po_ok, qp\<lparr>sq := s\<rparr>))"

definition xib_post_send ::
  "send_env \<Rightarrow> (nat \<Rightarrow> bool) \<Rightarrow> send_wr list \<Rightarrow> send_state \<Rightarrow> (post_out \<times> send_state) option dev" where
  "xib_post_send env kz wrs st0 =
     (let qp = (ss_qp st0)\<lparr>post_send_count := post_send_count (ss_qp st0) + 1\<rparr>; st = st0\<lparr>ss_qp := qp\<rparr>
      in if qp_state qp = XIB_QP_STATE_SQD
         then State_Monad.return (Some (case sqd_branch kz wrs qp of (out, qp') \<Rightarrow> (out, st\<lparr>ss_qp := qp'\<rparr>)))
         else post_loop env wrs st)"

subsection \<open>Queue pair 1\<close>

text \<open>What the driver reads of the address handle: validity of the pointers, the flags, the MAC, the GIDs and
  the type of the source GID.\<close>

record ah_info =
  ah_ptr_ok :: bool
  ah_has_grh :: bool
  grh_ptr_ok :: bool
  sgid_null :: bool
  sgid_ptr_ok :: bool
  sgid_udp :: bool
  sgid_raw :: "u8 list"
  dgid_raw :: "u8 list"
  ah_dmac :: "u8 list"

definition word_at :: "u8 list \<Rightarrow> nat \<Rightarrow> u32" where
  "word_at bs i = be_bytes (bs ! (i + 3)) (bs ! (i + 2)) (bs ! (i + 1)) (bs ! i)"

definition gid_words :: "u8 list \<Rightarrow> u32 list" where
  "gid_words raw = [word_at raw 0, word_at raw 4, word_at raw 8, word_at raw 12]"

definition ipv6_addr_v4mapped :: "u8 list \<Rightarrow> bool" where
  "ipv6_addr_v4mapped raw \<longleftrightarrow> take 12 raw = replicate 10 0 @ [0xFF, 0xFF]"

definition ah_usable :: "ah_info \<Rightarrow> bool" where
  "ah_usable ah \<longleftrightarrow> ah_ptr_ok ah \<and> ah_has_grh ah \<and> grh_ptr_ok ah \<and> \<not> sgid_null ah \<and> sgid_ptr_ok ah \<and> sgid_udp ah"

definition qp1_ip4 :: "ud_lib \<Rightarrow> ah_info \<Rightarrow> ud_header \<Rightarrow> ud_header" where
  "qp1_ip4 lib ah h =
     (let h1 = h\<lparr>ip4_tos := 0, ip4_id := 0, ip4_frag_off := bswap16 0x4000, ip4_ttl := 64,
            ip4_saddr := word_at (sgid_raw ah) 12, hdr_ip4_daddr := word_at (dgid_raw ah) 12\<rparr>
      in h1\<lparr>ip4_check := ud_ip4_csum lib h1\<rparr>)"

definition qp1_ip6 :: "ah_info \<Rightarrow> ud_header \<Rightarrow> ud_header" where
  "qp1_ip6 ah h = h\<lparr>grh_hop_limit := 64, grh_traffic_class := 0, grh_flow_label := 0,
     grh_sgid := gid_words (sgid_raw ah), grh_dgid := gid_words (dgid_raw ah)\<rparr>"

text \<open>The header of a datagram, the IP version and the next packet sequence number.\<close>

definition xib_build_qp1_send_v2 ::
  "ud_lib \<Rightarrow> u8 list \<Rightarrow> ah_info \<Rightarrow> send_wr \<Rightarrow> int \<Rightarrow> u32 \<Rightarrow> (ud_header \<times> u8 \<times> u32) option" where
  "xib_build_qp1_send_v2 lib smac ah wr payload_sz psn =
     (if \<not> ah_usable ah then None
      else let v4 = ipv6_addr_v4mapped (sgid_raw ah);
               ver = (if v4 then 4 else 6);
               h0 = (ud_header_init lib payload_sz (\<not> v4) ver)\<lparr>eth_dmac := ah_dmac ah, eth_smac := smac,
                 eth_type := bswap16 (if v4 then 0x0800 else 0x86DD)\<rparr>;
               h1 = (if v4 then qp1_ip4 lib ah h0 else qp1_ip6 ah h0);
               h2 = h1\<lparr>udp_dport := bswap16 4791, hdr_udp_sport := bswap16 0x8CD1, udp_csum := 0\<rparr>;
               h3 = (if sw_op wr = IB_WR_SEND_WITH_IMM
                     then h2\<lparr>bth_opcode := opcode_ud_send_only_imm lib, immediate_present := True\<rparr>
                     else h2\<lparr>bth_opcode := opcode_ud_send_only lib\<rparr>);
               h4 = (if sw_solicited wr then h3\<lparr>bth_solicited_event := True\<rparr> else h3)
           in Some (h4\<lparr>bth_pad_count := of_int (4 - payload_sz) AND 3, bth_pkey := 0xFFFF,
                bth_destination_qpn := bswap32 1, bth_ack_req := False, bth_psn := bswap32 (psn + 1),
                deth_qkey := bswap32 0x80010000, deth_source_qpn := bswap32 1\<rparr>, ver, psn + 1))"

record gsi_env =
  ge_lib :: ud_lib
  ge_smac :: "u8 list"
  ge_memory :: memory

text \<open>One datagram.  A fault is a copy past the end of the 4096-byte send buffer.\<close>

datatype gsi_result = GPosted xib_qp | GRefused int xib_qp | G_overflow

definition gsi_post_one :: "gsi_env \<Rightarrow> send_wr \<times> ah_info \<Rightarrow> xib_qp \<Rightarrow> gsi_result dev" where
  "gsi_post_one env wra qp0 =
     (let wr = fst wra; qp = mark_wr wr qp0; slot = sq_slot qp;
          w0 = (sq_wqes qp ! slot)\<lparr>wrid := ucast (sw_wr_id wr) AND 0xFFFF\<rparr>;
          qp1 = qp\<lparr>sq_wqes := (sq_wqes qp)[slot := w0]\<rparr>
      in case xib_build_qp1_send_v2 (ge_lib env) (ge_smac env) (snd wra) wr
                (sint (xib_get_payload_size (sw_sg_list wr))) (send_psn qp) of
        None \<Rightarrow> State_Monad.return (GRefused (- 1) qp1)
      | Some (h, ver, psn) \<Rightarrow> do {
          (if ver = 6 then config_raw_ip XRNIC_IPV6_ADD_1 (grh_sgid h) True
           else config_raw_ip XRNIC_IPV4_ADDR [ip4_saddr h] False);
          let hdr = ud_header_pack (ge_lib env) h;
          let (sz, bs) = xib_prepare_sgl (ge_memory env) (sw_sg_list wr);
          let total = int (length hdr) + sz;
          let qp2 = qp1\<lparr>send_psn := psn, send_sgl := overlay (send_sgl qp1) 0 (hdr @ bs)\<rparr>;
          (if 4096 < length hdr + length bs then State_Monad.return G_overflow
           else if total < 0 then State_Monad.return (GRefused (- ENOMEM) qp2)
           else do {
             let w = w0\<lparr>l_addr := send_sgl_p qp2, r_offset := 0, r_tag := 0, wr_length := of_int total, wr_opcode := 2\<rparr>;
             qp3 \<leftarrow> xrnic_send_wr (qp2\<lparr>sq_wqes := (sq_wqes qp2)[slot := w]\<rparr>);
             State_Monad.return (GPosted qp3)})})"

fun gsi_post_loop :: "gsi_env \<Rightarrow> (send_wr \<times> ah_info) list \<Rightarrow> xib_qp \<Rightarrow> (int \<times> (send_wr \<times> ah_info) list \<times> xib_qp) option dev" where
  "gsi_post_loop env [] qp = State_Monad.return (Some (0, [], qp))"
| "gsi_post_loop env (wr # wrs) qp = do {
     r \<leftarrow> gsi_post_one env wr qp;
     (case r of
        GPosted qp' \<Rightarrow> gsi_post_loop env wrs qp'
      | GRefused e qp' \<Rightarrow> State_Monad.return (Some (e, wr # wrs, qp'))
      | G_overflow \<Rightarrow> State_Monad.return None)}"

text \<open>Only the opcode of the first request is checked.\<close>

definition xib_gsi_post_send ::
  "gsi_env \<Rightarrow> (nat \<Rightarrow> bool) \<Rightarrow> (send_wr \<times> ah_info) list \<Rightarrow> xib_qp \<Rightarrow> (int \<times> (send_wr \<times> ah_info) list \<times> xib_qp) option dev" where
  "xib_gsi_post_send env kz wrs qp =
     (case wrs of
        [] \<Rightarrow> State_Monad.return None
      | wr # rest \<Rightarrow>
          if sw_op (fst wr) \<noteq> IB_WR_SEND then State_Monad.return (Some (- EINVAL, wrs, qp))
          else if send_sgl_busy qp then State_Monad.return (Some (- ENOMEM, wrs, qp))
          else if qp_state qp = XIB_QP_STATE_SQD
          then State_Monad.return (Some (case sqd_branch kz (map fst wrs) qp of (out, qp') \<Rightarrow> (po_ret out, [], qp')))
          else gsi_post_loop env wrs qp)"

subsection \<open>What posting a request does\<close>

text \<open>The part of a queue pair that \<open>send_data\<close> and \<open>rdma_data\<close> leave alone.\<close>

lemma set_plb_simps [simp]:
  "wr_id_array (sq (set_plb b qp)) = wr_id_array (sq qp)" "sq_max_wr (sq (set_plb b qp)) = sq_max_wr (sq qp)"
  "sq_cmpl_db_local (sq (set_plb b qp)) = sq_cmpl_db_local (sq qp)"
  "send_cq_db_local (sq (set_plb b qp)) = send_cq_db_local (sq qp)"
  "sq_wqes (set_plb b qp) = sq_wqes qp" "hw_qpn (set_plb b qp) = hw_qpn qp" "sq_slot (set_plb b qp) = sq_slot qp"
  by (simp_all add: set_plb_def sq_slot_def)

lemma mark_wr_simps [simp]:
  "wr_id_array (sq (mark_wr wr qp)) = (wr_id_array (sq qp))[sq_slot qp := (sw_wr_id wr, sw_signaled wr)]"
  "sq_max_wr (sq (mark_wr wr qp)) = sq_max_wr (sq qp)"
  "sq_cmpl_db_local (sq (mark_wr wr qp)) = sq_cmpl_db_local (sq qp)"
  "send_cq_db_local (sq (mark_wr wr qp)) = send_cq_db_local (sq qp)"
  "pl_buf_list (sq (mark_wr wr qp)) = pl_buf_list (sq qp)"
  "sq_wqes (mark_wr wr qp) = sq_wqes qp" "hw_qpn (mark_wr wr qp) = hw_qpn qp" "sq_slot (mark_wr wr qp) = sq_slot qp"
  by (simp_all add: mark_wr_def sq_slot_def)

definition same_queue :: "xib_qp \<Rightarrow> xib_qp \<Rightarrow> bool" where
  "same_queue a b \<longleftrightarrow> wr_id_array (sq a) = wr_id_array (sq b) \<and> sq_max_wr (sq a) = sq_max_wr (sq b) \<and>
     sq_cmpl_db_local (sq a) = sq_cmpl_db_local (sq b) \<and> send_cq_db_local (sq a) = send_cq_db_local (sq b) \<and>
     sq_wqes a = sq_wqes b \<and> hw_qpn a = hw_qpn b"

lemma send_data_same:
  "send_data env wr st = Posted st' \<Longrightarrow> same_queue (ss_qp st') (ss_qp st) \<and> imm_data (ss_xwqe st') = imm_data (ss_xwqe st)"
  by (auto simp: send_data_def same_queue_def Let_def split: option.splits prod.splits if_splits)

lemma rdma_data_same:
  "rdma_data wr st = Posted st' \<Longrightarrow>
     ss_qp st' = ss_qp st \<and> imm_data (ss_xwqe st') = imm_data (ss_xwqe st) \<and>
     r_offset (ss_xwqe st') = r_offset (ss_xwqe st) \<and> r_tag (ss_xwqe st') = r_tag (ss_xwqe st)"
  by (auto simp: rdma_data_def split: list.splits)

lemma post_one_Posted:
  assumes run: "run_state (post_one env wr st) log = (Posted st', log')"
    and c: "sq_cmpl_db_local (sq (ss_qp st)) < sq_max_wr (sq (ss_qp st))"
  shows "wr_id_array (sq (ss_qp st')) = (wr_id_array (sq (ss_qp st)))[sq_slot (ss_qp st) := (sw_wr_id wr, sw_signaled wr)]"
    "sq_max_wr (sq (ss_qp st')) = sq_max_wr (sq (ss_qp st))"
    "send_cq_db_local (sq (ss_qp st')) = send_cq_db_local (sq (ss_qp st))"
    "sq_cmpl_db_local (sq (ss_qp st')) < sq_max_wr (sq (ss_qp st))"
    "sq_slot (ss_qp st') = Suc (sq_slot (ss_qp st)) mod unat (sq_max_wr (sq (ss_qp st)))"
    "log' = log @ [IoW (XRNIC_SQ_PROD_IDX (hw_qpn (ss_qp st))) (sq_cmpl_db_local (sq (ss_qp st)) + 1)]"
    "hw_qpn (ss_qp st') = hw_qpn (ss_qp st)"
    "\<exists>xw. sq_wqes (ss_qp st') = (sq_wqes (ss_qp st))[sq_slot (ss_qp st) := finish_wqe wr xw] \<and>
       imm_data xw = imm_data (ss_xwqe st)"
proof -
  define st0 where "st0 = st\<lparr>ss_qp := mark_wr wr (ss_qp st), ss_xwqe := (ss_xwqe st)\<lparr>wrid := ucast (sw_wr_id wr) AND 0xFFFF\<rparr>\<rparr>"
  obtain st1 where d: "(if is_send (sw_op wr) then send_data env wr st0 else rdma_data wr st0) = Posted st1"
    using run unfolding post_one_def Let_def st0_def [symmetric] by (auto split: post_result.splits if_splits)
  have same: "same_queue (ss_qp st1) (ss_qp st0)" "imm_data (ss_xwqe st1) = imm_data (ss_xwqe st0)"
    using d send_data_same [of env wr st0 st1] rdma_data_same [of wr st0 st1]
    by (auto simp: same_queue_def split: if_splits)
  define qp1 where "qp1 = (ss_qp st1)\<lparr>sq_wqes := (sq_wqes (ss_qp st1))[sq_slot (ss_qp st1) := finish_wqe wr (ss_xwqe st1)]\<rparr>"
  have st': "ss_qp st' = fst (run_state (xrnic_send_wr qp1) log)" "log' = snd (run_state (xrnic_send_wr qp1) log)"
    using run d unfolding post_one_def Let_def st0_def [symmetric] qp1_def
    by (auto simp: case_prod_beta)
  let ?c = "sq_cmpl_db_local (sq (ss_qp st))" and ?m = "sq_max_wr (sq (ss_qp st))"
  have q: "wr_id_array (sq qp1) = (wr_id_array (sq (ss_qp st)))[sq_slot (ss_qp st) := (sw_wr_id wr, sw_signaled wr)]"
    "sq_max_wr (sq qp1) = ?m" "sq_cmpl_db_local (sq qp1) = ?c" "hw_qpn qp1 = hw_qpn (ss_qp st)"
    "send_cq_db_local (sq qp1) = send_cq_db_local (sq (ss_qp st))"
    "sq_wqes qp1 = (sq_wqes (ss_qp st))[sq_slot (ss_qp st) := finish_wqe wr (ss_xwqe st1)]"
    using same(1) by (simp_all add: qp1_def same_queue_def st0_def sq_slot_def)
  have u: "unat (?c + 1) = Suc (unat ?c)" using unat_inc_less [OF c] .
  have le: "Suc (unat ?c) \<le> unat ?m" using c by (simp add: word_less_nat_alt)
  have w: "?c + 1 = ?m \<longleftrightarrow> Suc (unat ?c) = unat ?m" using u by (simp add: word_unat_eq_iff)
  show "wr_id_array (sq (ss_qp st')) = (wr_id_array (sq (ss_qp st)))[sq_slot (ss_qp st) := (sw_wr_id wr, sw_signaled wr)]"
    "sq_max_wr (sq (ss_qp st')) = ?m" "send_cq_db_local (sq (ss_qp st')) = send_cq_db_local (sq (ss_qp st))"
    "log' = log @ [IoW (XRNIC_SQ_PROD_IDX (hw_qpn (ss_qp st))) (?c + 1)]" "hw_qpn (ss_qp st') = hw_qpn (ss_qp st)"
    by (simp_all add: st' xrnic_send_wr_def Let_def q)
  show "sq_cmpl_db_local (sq (ss_qp st')) < ?m"
    using c u le w by (auto simp: st' xrnic_send_wr_def Let_def q word_less_nat_alt)
  show "sq_slot (ss_qp st') = Suc (sq_slot (ss_qp st)) mod unat ?m"
    using c u le w by (auto simp: st' xrnic_send_wr_def Let_def q sq_slot_def word_less_nat_alt)
  show "\<exists>xw. sq_wqes (ss_qp st') = (sq_wqes (ss_qp st))[sq_slot (ss_qp st) := finish_wqe wr xw] \<and> imm_data xw = imm_data (ss_xwqe st)"
    using same(2) by (intro exI [of _ "ss_xwqe st1"]) (simp add: st' xrnic_send_wr_def Let_def q st0_def)
qed

text \<open>the request that the hardware reads never carries the immediate data of its own work request: it is
  what the local variable held before, because the immediate is stored only after the copy.\<close>

theorem post_one_imm_stale:
  assumes "run_state (post_one env wr st) log = (Posted st', log')"
    "sq_cmpl_db_local (sq (ss_qp st)) < sq_max_wr (sq (ss_qp st))" "sq_slot (ss_qp st) < length (sq_wqes (ss_qp st))"
  shows "imm_data (sq_wqes (ss_qp st') ! sq_slot (ss_qp st)) = imm_data (ss_xwqe st)"
  using post_one_Posted(8) [OF assms(1,2)] assms(3) by (auto simp: finish_wqe_def Let_def)

text \<open>a request whose opcode the driver does not know is accepted and put on the queue with opcode 0xFF:
  the test for a negative code is made on an unsigned byte.\<close>

theorem post_one_accepts_unknown:
  assumes "sw_op wr = IB_WR_OTHER" "sw_sg_list wr = sge # rest"
    "sq_slot (ss_qp st) < length (sq_wqes (ss_qp st))"
  shows "\<exists>st' log'. run_state (post_one env wr st) log = (Posted st', log') \<and>
    wr_opcode (sq_wqes (ss_qp st') ! sq_slot (ss_qp st)) = 0xFF"
  using assms by (simp add: post_one_def Let_def is_send_def rdma_data_def xrnic_send_wr_def finish_wqe_def)

text \<open>with send buffers outside the processor's memory, the completion of an RDMA write gives back the
  buffer that an earlier request left in the slot: posting the write does not touch it.\<close>

theorem rdma_completion_frees_old_buffer:
  assumes "run_state (post_one env wr st) log = (Posted st', log')" "sw_op wr = IB_WR_RDMA_WRITE"
    and poll: "send_cq_db_local (ps_sq pst) = sq_cmpl_db_local (sq (ss_qp st))"
      "sq_cmpl_db_local (sq (ss_qp st)) < sq_max_wr (sq (ss_qp st))" "ps_sq pst = sq (ss_qp st')"
      "cqe_opcode (cqes ! sq_slot (ss_qp st)) = of_int (xib_wr_code (sw_op wr))"
  shows "ps_effects (poll_step False qp cqes pst) =
    ps_effects pst @ [FreeBuf (pl_buf_list (sq (ss_qp st)) ! sq_slot (ss_qp st))]"
proof -
  have keep: "pl_buf_list (sq (ss_qp st')) = pl_buf_list (sq (ss_qp st))"
    using assms(1,2) unfolding post_one_def Let_def
    by (auto simp: is_send_def rdma_data_def xrnic_send_wr_def Let_def split: post_result.splits list.splits)
  have m: "sq_max_wr (sq (ss_qp st')) = sq_max_wr (sq (ss_qp st))" by (rule post_one_Posted(2) [OF assms(1) poll(2)])
  have "poll_slot (ps_sq pst) = sq_cmpl_db_local (sq (ss_qp st))"
    using poll(1,2) m unfolding poll(3) poll_slot_def by auto
  then have "unat (poll_slot (ps_sq pst)) = sq_slot (ss_qp st)" by (simp add: sq_slot_def)
  moreover have "pl_buf_list (ps_sq pst) = pl_buf_list (sq (ss_qp st))" using keep poll(3) by simp
  ultimately show ?thesis using poll(4) assms(2) by (simp add: poll_step_def Let_def cqe_switch_def)
qed

subsection \<open>From posting to completion\<close>

lemma signaled_ids_update:
  "i \<notin> set ks \<Longrightarrow> signaled_ids (s\<lparr>wr_id_array := (wr_id_array s)[i := x]\<rparr>) ks = signaled_ids s ks"
  unfolding signaled_ids_def by (rule arg_cong [of _ _ "\<lambda>l. map fst (filter snd l)"]) (induction ks, auto)

lemma signaled_ids_cong: "wr_id_array s = wr_id_array t \<Longrightarrow> signaled_ids s ks = signaled_ids t ks"
  by (simp add: signaled_ids_def)

lemma slots_distinct: "n \<le> mx \<Longrightarrow> distinct (slots mx c n)"
proof (induction n)
  case (Suc n)
  have "(c + n) mod mx \<notin> set (slots mx c n)"
    using slots_avoid [of "c mod mx" mx n] Suc.prems by (simp add: slots_mod mod_add_left_eq)
  then show ?case using Suc by (simp add: slots_snoc)
qed (simp add: slots_def)

lemma post_one_Refused: "run_state (post_one env wr st) log = (Refused e st', log') \<Longrightarrow> e < 0"
  by (auto simp: post_one_def Let_def send_data_def rdma_data_def case_prod_beta
      split: post_result.splits if_splits option.splits list.splits prod.splits)

lemma post_loop_keeps:
  assumes "run_state (post_loop env wrs st) log = (Some (out, st'), log')" "po_ret out = 0"
    "sq_cmpl_db_local (sq (ss_qp st)) < sq_max_wr (sq (ss_qp st))"
    "length wrs + length pre \<le> unat (sq_max_wr (sq (ss_qp st)))"
    "length (wr_id_array (sq (ss_qp st))) = unat (sq_max_wr (sq (ss_qp st)))"
    "set pre \<inter> set (slots (unat (sq_max_wr (sq (ss_qp st)))) (sq_slot (ss_qp st)) (length wrs)) = {}"
  shows "sq_max_wr (sq (ss_qp st')) = sq_max_wr (sq (ss_qp st)) \<and>
    length (wr_id_array (sq (ss_qp st'))) = unat (sq_max_wr (sq (ss_qp st))) \<and>
    send_cq_db_local (sq (ss_qp st')) = send_cq_db_local (sq (ss_qp st)) \<and>
    signaled_ids (sq (ss_qp st')) (pre @ slots (unat (sq_max_wr (sq (ss_qp st)))) (sq_slot (ss_qp st)) (length wrs)) =
      signaled_ids (sq (ss_qp st)) pre @ map sw_wr_id (filter sw_signaled wrs)"
  using assms
proof (induction wrs arbitrary: st log pre)
  case Nil
  then show ?case by (simp add: slots_def)
next
  case (Cons wr wrs)
  let ?qp = "ss_qp st" let ?mx = "unat (sq_max_wr (sq ?qp))" and ?c = "sq_slot ?qp"
  obtain st1 log1 where one: "run_state (post_one env wr st) log = (Posted st1, log1)"
    and rest: "run_state (post_loop env wrs st1) log1 = (Some (out, st'), log')"
    using Cons.prems(1,2) post_one_Refused [of env wr st log] by (auto split: prod.splits post_result.splits)
  note p = post_one_Posted [OF one Cons.prems(3)]
  have c: "?c < ?mx" using Cons.prems(3) by (simp add: sq_slot_def word_less_nat_alt)
  have sl: "slots ?mx ?c (Suc (length wrs)) = ?c # slots ?mx (Suc ?c) (length wrs)" using c by (simp add: slots_Suc)
  have sl1: "slots ?mx (sq_slot (ss_qp st1)) (length wrs) = slots ?mx (Suc ?c) (length wrs)"
    unfolding p(5) by (rule slots_mod)
  have d: "?c \<notin> set (slots ?mx (Suc ?c) (length wrs))" "?c \<notin> set pre"
    using slots_distinct [of "Suc (length wrs)" ?mx ?c] Cons.prems(4,6) sl by auto
  have upd: "signaled_ids (sq (ss_qp st1)) pre = signaled_ids (sq ?qp) pre"
    using signaled_ids_update [OF d(2), of "sq ?qp"] p(1)
    by (simp add: signaled_ids_cong [of "sq (ss_qp st1)" "(sq ?qp)\<lparr>wr_id_array := wr_id_array (sq (ss_qp st1))\<rparr>"])
  have here: "signaled_ids (sq (ss_qp st1)) [?c] = (if sw_signaled wr then [sw_wr_id wr] else [])"
    using c Cons.prems(5) by (simp add: signaled_ids_def p(1))
  have ih: "sq_max_wr (sq (ss_qp st')) = sq_max_wr (sq (ss_qp st1)) \<and>
      length (wr_id_array (sq (ss_qp st'))) = unat (sq_max_wr (sq (ss_qp st1))) \<and>
      send_cq_db_local (sq (ss_qp st')) = send_cq_db_local (sq (ss_qp st1)) \<and>
      signaled_ids (sq (ss_qp st')) ((pre @ [?c]) @ slots ?mx (Suc ?c) (length wrs)) =
        signaled_ids (sq (ss_qp st1)) (pre @ [?c]) @ map sw_wr_id (filter sw_signaled wrs)"
    using Cons.IH [OF rest Cons.prems(2), of "pre @ [?c]"] Cons.prems(4-6) d sl p(1,2,4) sl1 by auto
  have "signaled_ids (sq (ss_qp st1)) (pre @ [?c]) = signaled_ids (sq ?qp) pre @ (if sw_signaled wr then [sw_wr_id wr] else [])"
    using upd here by (simp add: signaled_ids_def)
  then show ?case using ih sl p(2,3) by simp
qed

lemma post_loop_pos:
  assumes "run_state (post_loop env wrs st) log = (Some (out, st'), log')" "po_ret out = 0"
    "sq_cmpl_db_local (sq (ss_qp st)) < sq_max_wr (sq (ss_qp st))" "wrs \<noteq> []"
  shows "log' \<noteq> [] \<and> last log' = IoW (XRNIC_SQ_PROD_IDX (hw_qpn (ss_qp st)))
      (of_nat (Suc ((sq_slot (ss_qp st) + length wrs - 1) mod unat (sq_max_wr (sq (ss_qp st))))))"
  using assms
proof (induction wrs arbitrary: st log)
  case (Cons wr wrs)
  let ?qp = "ss_qp st" let ?mx = "unat (sq_max_wr (sq ?qp))" and ?c = "sq_slot ?qp"
  obtain st1 log1 where one: "run_state (post_one env wr st) log = (Posted st1, log1)"
    and rest: "run_state (post_loop env wrs st1) log1 = (Some (out, st'), log')"
    using Cons.prems(1,2) post_one_Refused [of env wr st log] by (auto split: prod.splits post_result.splits)
  note p = post_one_Posted [OF one Cons.prems(3)]
  have c: "?c < ?mx" using Cons.prems(3) by (simp add: sq_slot_def word_less_nat_alt)
  show ?case
  proof (cases "wrs = []")
    case True
    have "log' = log @ [IoW (XRNIC_SQ_PROD_IDX (hw_qpn ?qp)) (sq_cmpl_db_local (sq ?qp) + 1)]"
      using rest True p(6) by simp
    then show ?thesis using True c by (simp add: sq_slot_def add.commute)
  next
    case False
    have "sq_cmpl_db_local (sq (ss_qp st1)) < sq_max_wr (sq (ss_qp st1))" using p(2,4) by simp
    from Cons.IH [OF rest Cons.prems(2) this False] have "log' \<noteq> []" and l: "last log' =
        IoW (XRNIC_SQ_PROD_IDX (hw_qpn ?qp)) (of_nat (Suc ((Suc ?c mod ?mx + length wrs - 1) mod ?mx)))"
      using p(2,5,7) by auto
    obtain k where k: "length wrs = Suc k" using False by (cases wrs) auto
    have "(Suc ?c mod ?mx + length wrs - 1) mod ?mx = (?c + length (wr # wrs) - 1) mod ?mx"
      using k by (simp add: mod_add_left_eq)
    then show ?thesis using l \<open>log' \<noteq> []\<close> by simp
  qed
qed simp


text \<open>while the send queue is drained, requests beyond its depth are dropped, and the call still reports
  success without naming a request that failed.\<close>

theorem sqd_branch_drops_silently:
  assumes "sqd_length (sq qp) = ucast (sq_max_wr (sq qp))"
  shows "sqd_branch kz wrs qp = (po_ok, qp)"
proof -
  have "sqd_post kz wrs (sq qp) = (True, sq qp)" using assms by (cases wrs) simp_all
  then show ?thesis using assms by (simp add: sqd_branch_def)
qed

text \<open>when an allocation fails while the queue is drained, the call returns with the queue's lock held.\<close>

theorem sqd_branch_leaves_locked:
  assumes "sqd_length (sq qp) < ucast (sq_max_wr (sq qp))" "\<not> kz (length (sqd_wr_list (sq qp)))" "wrs \<noteq> []"
  shows "fst (sqd_branch kz wrs qp) = \<lparr>po_ret = - ENOMEM, po_bad = None, po_locked = True\<rparr>"
  using assms by (cases wrs) (simp_all add: sqd_branch_def)

subsection \<open>Examples\<close>

definition demo_wqe :: xrnic_wr where
  "demo_wqe = \<lparr>wrid = 0, l_addr = 0, wr_length = 0, wr_opcode = 0, r_offset = 0, r_tag = 0, sdata = replicate 16 0, imm_data = 0x55\<rparr>"

definition demo_send_qp :: xib_qp where
  "demo_send_qp = demo_qp\<lparr>sq_wqes := replicate 4 demo_wqe, sq := demo_sq\<lparr>wr_id_array := replicate 4 (0, False),
     pl_buf_list := replicate 4 \<lparr>plb_va = 0x9000, plb_pa = 0x9000, plb_sgl_addr = 0, plb_len = 32\<rparr>\<rparr>\<rparr>"

definition demo_mem_state :: mem_state where
  "demo_mem_state = \<lparr>bram_mem_mgr = [], bram_ctrl_cnt = 0, eddr_mem_mgr = None, pl_alloc_dev = True\<rparr>"

definition demo_send_state :: send_state where
  "demo_send_state = \<lparr>ss_qp = demo_send_qp, ss_xwqe = demo_wqe, ss_mem = demo_mem_state, ss_writes = []\<rparr>"

definition demo_env :: send_env where
  "demo_env = \<lparr>se_dma = (\<lambda>_ _. Some (0x8000, 0x8000)), se_kz = True, se_memory = (\<lambda>_. 7)\<rparr>"

definition demo_send_wr :: "wr_op \<Rightarrow> u64 \<Rightarrow> bool \<Rightarrow> send_wr" where
  "demo_send_wr opc i sig = \<lparr>sw_wr_id = i, sw_op = opc, sw_signaled = sig, sw_solicited = False,
     sw_sg_list = [\<lparr>sge_addr = 0x2000, sge_length = 64, sge_lkey = 0\<rparr>], sw_remote_addr = 0x5000, sw_rkey = 3,
     sw_imm_data = 0xABCD, sw_invalidate_rkey = 0\<rparr>"

lemmas demo_send_defs = demo_send_state_def demo_send_qp_def demo_qp_def demo_sq_def demo_send_wr_def demo_wqe_def

lemma demo_write:
  "\<exists>st' log'. run_state (post_one demo_env (demo_send_wr op i sig) demo_send_state) [] = (Posted st', log')"
  if "\<not> is_send op"
  using that by (simp add: post_one_def Let_def rdma_data_def xrnic_send_wr_def demo_send_wr_def)

theorem post_one_imm_stale_witness:
  "\<exists>st' log'. run_state (post_one demo_env (demo_send_wr IB_WR_RDMA_WRITE_WITH_IMM 1 True) demo_send_state) [] = (Posted st', log') \<and>
     imm_data (sq_wqes (ss_qp st') ! 0) = 0x55"
proof -
  obtain st' log' where run:
    "run_state (post_one demo_env (demo_send_wr IB_WR_RDMA_WRITE_WITH_IMM 1 True) demo_send_state) [] = (Posted st', log')"
    using demo_write [of IB_WR_RDMA_WRITE_WITH_IMM 1 True] by (auto simp: is_send_def)
  from post_one_imm_stale [OF run] run show ?thesis by (auto simp: demo_send_defs sq_slot_def)
qed

theorem post_one_accepts_unknown_witness:
  "\<exists>st' log'. run_state (post_one demo_env (demo_send_wr IB_WR_OTHER 1 True) demo_send_state) [] = (Posted st', log') \<and>
     wr_opcode (sq_wqes (ss_qp st') ! 0) = 0xFF"
  using post_one_accepts_unknown [of "demo_send_wr IB_WR_OTHER 1 True" _ "[]" demo_send_state demo_env "[]"]
  by (auto simp: demo_send_defs sq_slot_def)

theorem rdma_completion_frees_old_buffer_witness:
  "\<exists>st' log' pst. run_state (post_one demo_env (demo_send_wr IB_WR_RDMA_WRITE 1 True) demo_send_state) [] = (Posted st', log') \<and>
     ps_sq pst = sq (ss_qp st') \<and>
     ps_effects (poll_step False demo_qp [0] pst) =
       [FreeBuf \<lparr>plb_va = 0x9000, plb_pa = 0x9000, plb_sgl_addr = 0, plb_len = 32\<rparr>]"
proof -
  obtain st' log' where run:
    "run_state (post_one demo_env (demo_send_wr IB_WR_RDMA_WRITE 1 True) demo_send_state) [] = (Posted st', log')"
    using demo_write [of IB_WR_RDMA_WRITE 1 True] by (auto simp: is_send_def)
  let ?pst = "demo_poll\<lparr>ps_sq := sq (ss_qp st')\<rparr>"
  have c: "sq_cmpl_db_local (sq (ss_qp demo_send_state)) < sq_max_wr (sq (ss_qp demo_send_state))"
    by (simp add: demo_send_defs)
  have "send_cq_db_local (ps_sq ?pst) = sq_cmpl_db_local (sq (ss_qp demo_send_state))"
    using post_one_Posted(3) [OF run c] by (simp add: demo_send_defs)
  from rdma_completion_frees_old_buffer [OF run _ this c, of "[0]" demo_qp] run show ?thesis
    by (intro exI [of _ st'] exI [of _ log'] exI [of _ ?pst])
      (simp add: demo_send_defs sq_slot_def cqe_opcode_def demo_poll_def)
qed


theorem sqd_branch_drops_silently_witness:
  "sqd_branch (\<lambda>_. True) [demo_send_wr IB_WR_SEND 1 True] (demo_send_qp\<lparr>sq := demo_sq\<lparr>sqd_length := 4\<rparr>\<rparr>) =
     (po_ok, demo_send_qp\<lparr>sq := demo_sq\<lparr>sqd_length := 4\<rparr>\<rparr>)"
  by (rule sqd_branch_drops_silently) (simp add: demo_sq_def)

theorem sqd_branch_leaves_locked_witness:
  "po_locked (fst (sqd_branch (\<lambda>_. False) [demo_send_wr IB_WR_SEND 1 True] demo_send_qp))"
  using sqd_branch_leaves_locked [of demo_send_qp "\<lambda>_. False" "[demo_send_wr IB_WR_SEND 1 True]"]
  by (simp add: demo_send_defs)
end
