(* ===== verification/Xib_Qp.thy ===== *)
theory Xib_Qp
  imports Xib_Send
begin

text \<open>
  The life of a queue pair, \<open>main.c\<close> and \<open>verbs.c\<close> of \<open>recipes-modules/xib-module/files\<close>: creation with its
  buffers and arrays, modification, query, reset and destruction.  Waiting loops are those of \<open>Xib_Rnic\<close>
  and \<open>Xib_Poll\<close>.  The RDMA core's \<open>ib_modify_qp_is_ok\<close> and the kernel's allocators are parameters.
\<close>

unbundle bit_operations_syntax

subsection \<open>States\<close>

datatype ib_qp_state = IB_QPS_RESET | IB_QPS_INIT | IB_QPS_RTR | IB_QPS_RTS | IB_QPS_SQD | IB_QPS_SQE | IB_QPS_ERR

fun xib_get_ibqp_state :: "xib_qp_state \<Rightarrow> ib_qp_state" where
  "xib_get_ibqp_state XIB_QP_STATE_RESET = IB_QPS_RESET"
| "xib_get_ibqp_state XIB_QP_STATE_INIT = IB_QPS_INIT"
| "xib_get_ibqp_state XIB_QP_STATE_RTR = IB_QPS_RTR"
| "xib_get_ibqp_state XIB_QP_STATE_RTS = IB_QPS_RTS"
| "xib_get_ibqp_state XIB_QP_STATE_SQD = IB_QPS_SQD"
| "xib_get_ibqp_state XIB_QP_STATE_ERR = IB_QPS_ERR"
| "xib_get_ibqp_state XIB_QP_STATE_SQE = IB_QPS_SQE"

fun xib_get_state_from_ibqp :: "ib_qp_state \<Rightarrow> xib_qp_state" where
  "xib_get_state_from_ibqp IB_QPS_RESET = XIB_QP_STATE_RESET"
| "xib_get_state_from_ibqp IB_QPS_INIT = XIB_QP_STATE_INIT"
| "xib_get_state_from_ibqp IB_QPS_RTR = XIB_QP_STATE_RTR"
| "xib_get_state_from_ibqp IB_QPS_RTS = XIB_QP_STATE_RTS"
| "xib_get_state_from_ibqp IB_QPS_SQD = XIB_QP_STATE_SQD"
| "xib_get_state_from_ibqp IB_QPS_ERR = XIB_QP_STATE_ERR"
| "xib_get_state_from_ibqp IB_QPS_SQE = XIB_QP_STATE_ERR"

subsection \<open>Doorbells and hardware acceleration\<close>

definition XRNIC_STAT_MSG_SQN :: "u32 \<Rightarrow> u32" where "XRNIC_STAT_MSG_SQN = qreg 0x84"

text \<open>The doorbell addresses of both queues; \<open>None\<close> is a write outside the doorbell area.\<close>

definition program_rq_db :: "u32 \<Rightarrow> xrnic_local \<Rightarrow> xrnic_local option dev" where
  "program_rq_db q x =
     (case xrnic_get_rq_db_addr x (unat q) of
        None \<Rightarrow> State_Monad.return None
      | Some (a, x') \<Rightarrow> do {
          set_base (XRNIC_RCVQ_WP_DB_ADDR_LSB q) (XRNIC_RCVQ_WP_DB_ADDR_MSB q) a;
          State_Monad.return (Some x')})"

definition program_sq_db :: "u32 \<Rightarrow> xrnic_local \<Rightarrow> xrnic_local option dev" where
  "program_sq_db q x =
     (case xrnic_get_sq_db_addr x (unat q) of
        None \<Rightarrow> State_Monad.return None
      | Some (a, x') \<Rightarrow> do {
          set_base (XRNIC_CQ_DB_ADDR_LSB q) (XRNIC_CQ_DB_ADDR_MSB q) a;
          State_Monad.return (Some x')})"

definition and_then :: "'a option dev \<Rightarrow> ('a \<Rightarrow> 'b option dev) \<Rightarrow> 'b option dev" where
  "and_then m f = do {r \<leftarrow> m; (case r of None \<Rightarrow> State_Monad.return None | Some x \<Rightarrow> f x)}"

text \<open>Received but not yet processed packets; the doorbell word is read from the memory behind \<open>qp1_rq_db_v\<close>.\<close>

definition get_rq_pending_cnt :: "hardware \<Rightarrow> xib_qp \<Rightarrow> xrnic_local \<Rightarrow> u32 option dev" where
  "get_rq_pending_cnt hw qp x =
     (if unat (hw_qpn qp) < length (qp1_rq_db x) then do {
        let rq_pi = qp1_rq_db x ! unat (hw_qpn qp);
        rq_ci \<leftarrow> xrnic_ior hw (XRNIC_RQ_CONS_IDX (hw_qpn qp));
        State_Monad.return (Some (if rq_pi = rq_ci then 0 else if rq_pi > rq_ci then rq_pi - rq_ci
          else rq_max_wr (rq qp) - rq_ci + rq_pi))}
      else State_Monad.return None)"

definition xib_enable_hw_accl :: "hardware \<Rightarrow> xib_qp \<Rightarrow> xrnic_local \<Rightarrow> (int \<times> xrnic_local) option dev" where
  "xib_enable_hw_accl hw qp x0 = do {
     let q = hw_qpn qp;
     val \<leftarrow> xrnic_ior hw XRNIC_ADV_CONF;
     xrnic_iow XRNIC_ADV_CONF (val OR 1);
     xrnic_iow (XRNIC_CQ_HEAD_PTR q) 0;
     xrnic_iow (XRNIC_SQ_PROD_IDX q) 0;
     xrnic_iow (XRNIC_STAT_CUR_SQ_PTR q) 0;
     and_then (program_rq_db q x0) (\<lambda>x1. and_then (program_sq_db q x1) (\<lambda>x2. do {
       val \<leftarrow> xrnic_ior hw (XRNIC_STAT_RQ_PROD_IDX q);
       and_then (get_rq_pending_cnt hw qp x2) (\<lambda>cnt. do {
         xrnic_iow (XRNIC_STAT_RQ_PROD_IDX q) (push_bit 16 (val AND 0xFFFF) OR cnt);
         val \<leftarrow> xrnic_ior hw (XRNIC_QP_CONF q);
         xrnic_iow (XRNIC_QP_CONF q) (val AND NOT QP_HW_HSK_DIS);
         val \<leftarrow> xrnic_ior hw XRNIC_ADV_CONF;
         xrnic_iow XRNIC_ADV_CONF (val AND NOT 1);
         State_Monad.return (Some (0, x2))})}))}"

subsection \<open>Modification and query\<close>

definition IB_QP_STATE :: u32 where "IB_QP_STATE = push_bit 0 1"
definition IB_QP_AV :: u32 where "IB_QP_AV = push_bit 7 1"
definition IB_QP_PATH_MTU :: u32 where "IB_QP_PATH_MTU = push_bit 8 1"
definition IB_QP_RETRY_CNT :: u32 where "IB_QP_RETRY_CNT = push_bit 10 1"
definition IB_QP_RNR_RETRY :: u32 where "IB_QP_RNR_RETRY = push_bit 11 1"
definition IB_QP_RQ_PSN :: u32 where "IB_QP_RQ_PSN = push_bit 12 1"
definition IB_QP_SQ_PSN :: u32 where "IB_QP_SQ_PSN = push_bit 16 1"
definition IB_QP_DEST_QPN :: u32 where "IB_QP_DEST_QPN = push_bit 20 1"
definition IB_QP_RST_RQ :: u32 where "IB_QP_RST_RQ = push_bit 26 1"
definition IB_QP_RST_SQ_CQ :: u32 where "IB_QP_RST_SQ_CQ = push_bit 27 1"
definition IB_ENABLE_QP_HW_ACCL :: u32 where "IB_ENABLE_QP_HW_ACCL = push_bit 28 1"

record qp_attr =
  at_state :: ib_qp_state
  at_traffic_class :: u8
  at_hop_limit :: u8
  at_sgid :: "u8 list"
  at_dgid :: "u8 list"
  at_dmac :: "u8 list"
  at_retry_cnt :: u8
  at_rnr_retry :: u8
  at_sq_psn :: u32
  at_rq_psn :: u32
  at_dest_qp_num :: u32
  at_nvmf_rhost :: int

definition zero_params :: xib_qp_modify_params where
  "zero_params = \<lparr>flags = 0, new_state = XIB_QP_STATE_RESET, dest_qp = 0, traffic_class = 0, hop_limit = 0,
     dmac = replicate 6 0, retry_cnt = 0, rnr_retry_cnt = 0, rq_psn = 0, sq_psn = 0, ip_version = 0, ip4_daddr = 0,
     ipv6_addr = replicate 4 0\<rparr>"

definition set_flags :: "u32 \<Rightarrow> xib_qp_modify_params \<Rightarrow> xib_qp_modify_params" where
  "set_flags f p = p\<lparr>flags := flags p OR f\<rparr>"

definition params_av :: "qp_attr \<Rightarrow> xib_qp_modify_params \<Rightarrow> xib_qp_modify_params" where
  "params_av a p =
     (let p1 = p\<lparr>traffic_class := at_traffic_class a, hop_limit := at_hop_limit a\<rparr>;
          p2 = (if ipv6_addr_v4mapped (at_sgid a) then p1\<lparr>ip4_daddr := word_at (at_dgid a) 12, ip_version := 4\<rparr>
                else p1\<lparr>ipv6_addr := gid_words (at_dgid a), ip_version := 6\<rparr>)
      in set_flags (XIB_MODIFY_QP_DEST_MAC OR XIB_MODIFY_QP_AV) (p2\<lparr>dmac := at_dmac a\<rparr>))"

definition params_timeout :: "qp_attr \<Rightarrow> xib_qp_modify_params \<Rightarrow> xib_qp_modify_params" where
  "params_timeout a p = set_flags XIB_MODIFY_QP_TIMEOUT
     (p\<lparr>retry_cnt := at_retry_cnt a, rnr_retry_cnt := (if at_rnr_retry a = 0 then 5 else at_rnr_retry a)\<rparr>)"

definition when_mask :: "u32 \<Rightarrow> u32 \<Rightarrow> (xib_qp_modify_params \<Rightarrow> xib_qp_modify_params) \<Rightarrow> xib_qp_modify_params \<Rightarrow> xib_qp_modify_params" where
  "when_mask mask_val m f p = (if mask_val AND m \<noteq> 0 then f p else p)"

definition modify_params :: "qp_attr \<Rightarrow> u32 \<Rightarrow> xib_qp_modify_params" where
  "modify_params a m =
     when_mask m IB_QP_DEST_QPN (\<lambda>p. set_flags XIB_MODIFY_QP_DEST_QP (p\<lparr>dest_qp := at_dest_qp_num a\<rparr>))
     (when_mask m IB_QP_RQ_PSN (\<lambda>p. set_flags XIB_MODIFY_QP_RQ_PSN (p\<lparr>rq_psn := at_rq_psn a\<rparr>))
     (when_mask m IB_QP_SQ_PSN (\<lambda>p. set_flags XIB_MODIFY_QP_SQ_PSN (p\<lparr>sq_psn := at_sq_psn a\<rparr>))
     (when_mask m (IB_QP_RETRY_CNT OR IB_QP_RNR_RETRY) (params_timeout a)
     (when_mask m IB_QP_STATE (\<lambda>p. set_flags XIB_MODIFY_QP_STATE (p\<lparr>new_state := xib_get_state_from_ibqp (at_state a)\<rparr>))
     (when_mask m (IB_QP_AV OR IB_QP_PATH_MTU) (params_av a) zero_params)))))"

text \<open>\<open>is_ok\<close> is \<open>ib_modify_qp_is_ok\<close> for the type of this queue pair; \<open>mtu\<close> and \<open>rt\<close> are those of
  \<open>xrnic_qp_modify\<close>.\<close>

definition xib_modify_qp ::
  "hardware \<Rightarrow> (ib_qp_state \<Rightarrow> ib_qp_state \<Rightarrow> u32 \<Rightarrow> bool) \<Rightarrow> u16 \<Rightarrow> u32 \<Rightarrow> qp_attr \<Rightarrow> u32 \<Rightarrow> xib_qp \<Rightarrow> xrnic_local \<Rightarrow>
     (int \<times> xib_qp \<times> xrnic_local) option dev" where
  "xib_modify_qp hw is_ok mtu rt a m qp x =
     (if m AND IB_ENABLE_QP_HW_ACCL \<noteq> 0
      then and_then (xib_enable_hw_accl hw qp x) (\<lambda>(r, x'). State_Monad.return (Some (r, qp, x')))
      else if m AND IB_QP_RST_RQ \<noteq> 0 then do {r \<leftarrow> xib_rst_rq hw qp; State_Monad.return (Some (r, qp, x))}
      else if m AND IB_QP_RST_SQ_CQ \<noteq> 0
      then do {r \<leftarrow> xib_rst_cq_sq hw qp (at_nvmf_rhost a); State_Monad.return (Some (r, qp, x))}
      else let cur = xib_get_ibqp_state (qp_state qp); new = (if m AND IB_QP_STATE \<noteq> 0 then at_state a else cur)
           in if \<not> is_ok cur new m then State_Monad.return (Some (- EINVAL, qp, x))
              else do {
                qp' \<leftarrow> xrnic_qp_modify hw mtu rt qp (modify_params a m);
                State_Monad.return (Some (0, qp', x))})"

record qp_query =
  qq_state :: ib_qp_state
  qq_max_send_wr :: u32
  qq_max_recv_wr :: u32
  qq_max_inline :: u32
  qq_max_send_sge :: u32
  qq_max_recv_sge :: u32
  qq_port_num :: u32
  qq_sq_ba_p :: u64
  qq_rq_ba_p :: u64

definition xib_query_qp :: "xib_qp \<Rightarrow> qp_query" where
  "xib_query_qp qp = \<lparr>qq_state = xib_get_ibqp_state (qp_state qp), qq_max_send_wr = sq_max_wr (sq qp),
     qq_max_recv_wr = rq_max_wr (rq qp), qq_max_inline = 256, qq_max_send_sge = 8, qq_max_recv_sge = 8, qq_port_num = 1,
     qq_sq_ba_p = sq_ba_p qp, qq_rq_ba_p = rq_ba_p (rq qp)\<rparr>"

subsection \<open>Reset\<close>

text \<open>Steps 4 to 10 of \<open>xrnic_reset_user_qp\<close>, behind the waiting loops.\<close>

definition reset_pointers :: "u32 \<Rightarrow> unit dev" where
  "reset_pointers q = do {
     xrnic_iow (XRNIC_STAT_RQ_PROD_IDX q) 0;
     xrnic_iow (XRNIC_RQ_CONS_IDX q) 0;
     xrnic_iow (XRNIC_STAT_CUR_SQ_PTR q) 0;
     xrnic_iow (XRNIC_SQ_PROD_IDX q) 0;
     xrnic_iow (XRNIC_CQ_HEAD_PTR q) 0;
     xrnic_iow (XRNIC_SNDQ_PSN q) 0;
     xrnic_iow (XRNIC_LAST_RQ_PSN q) 0;
     xrnic_iow (XRNIC_STAT_MSG_SQN q) 0}"

definition reset_registers :: "hardware \<Rightarrow> u32 \<Rightarrow> xrnic_local \<Rightarrow> xrnic_local option dev" where
  "reset_registers hw q x0 = do {
     val \<leftarrow> xrnic_ior hw (XRNIC_QP_CONF q);
     xrnic_iow (XRNIC_QP_CONF q) (val OR QP_HW_HSK_DIS);
     and_then (program_rq_db q x0) (\<lambda>x1. and_then (program_sq_db q x1) (\<lambda>x2. do {
       val \<leftarrow> xrnic_ior hw (XRNIC_QP_CONF q);
       xrnic_iow (XRNIC_QP_CONF q) (val AND NOT QP_ENABLE);
       val \<leftarrow> xrnic_ior hw XRNIC_ADV_CONF;
       xrnic_iow XRNIC_ADV_CONF (val OR 1);
       reset_pointers q;
       v \<leftarrow> xrnic_ior hw (XRNIC_QP_CONF q);
       let val = v OR QP_ENABLE;
       xrnic_iow (XRNIC_QP_CONF q) val;
       xrnic_iow (XRNIC_QP_CONF q) (val AND NOT QP_UNDER_RECOVERY);
       val \<leftarrow> xrnic_ior hw XRNIC_ADV_CONF;
       xrnic_iow XRNIC_ADV_CONF (val AND NOT 1);
       State_Monad.return (Some x2)}))}"

text \<open>The inner \<open>None\<close> is a fault, the outer one a wait that does not end.\<close>

definition xrnic_reset_user_qp ::
  "hardware \<Rightarrow> (io list \<Rightarrow> nat) \<Rightarrow> nat \<Rightarrow> u32 \<Rightarrow> xrnic_local \<Rightarrow> io list \<Rightarrow> (xrnic_local option \<times> io list) option" where
  "xrnic_reset_user_qp hw jiffies hz q x log = do {
     log1 \<leftarrow> wait_sq_empty hw q log;
     log2 \<leftarrow> wait_sq_drained hw jiffies hz (jiffies log1) q log1;
     log3 \<leftarrow> wait_rq_drained hw jiffies hz (jiffies log2) q log2;
     Some (run_state (reset_registers hw q x) log3)}"

subsection \<open>Buffers\<close>

text \<open>The device with its identifiers and memory managers, and what the surroundings answer: the DMA allocator,
  \<open>kzalloc\<close> in the managers, \<open>virt_addr_valid\<close> of the buffer at a bus address, the module parameters
  \<open>sq_mem\<close> and \<open>rq_mem\<close>, and which \<open>kcalloc\<close> calls of a creation succeed.\<close>

record life_dev = xib_dev +
  qp_map :: xib_bmap
  dev_mem :: mem_state

record life_env =
  le_hw :: hardware
  le_dma :: dma_alloc
  le_kz :: bool
  le_virt :: "u64 \<Rightarrow> bool"
  le_sq_mem :: string
  le_rq_mem :: string
  le_kcalloc :: "nat \<Rightarrow> bool"

definition buf_alloc :: "life_env \<Rightarrow> mem_state \<Rightarrow> string \<Rightarrow> u64 \<Rightarrow> u64 \<Rightarrow> (u64 \<times> u64 \<times> mem_state) option" where
  "buf_alloc env ms from len old_pa =
     map_option (\<lambda>((va, pa), ms'). (va, case pa of None \<Rightarrow> old_pa | Some a \<Rightarrow> a, ms'))
       (xib_alloc_coherent (le_dma env) (le_kz env) ms from len)"

definition buf_free :: "life_env \<Rightarrow> mem_state \<Rightarrow> u64 \<Rightarrow> u64 \<Rightarrow> mem_state" where
  "buf_free env ms len pa = snd (xib_free_coherent (le_kz env) (le_virt env pa) ms len pa)"

definition rq_bytes :: "xib_qp \<Rightarrow> u64" where
  "rq_bytes qp = ucast (rq_max_wr (rq qp) * rq_buf_size qp)"

definition sq_bytes :: "xib_qp \<Rightarrow> u64" where
  "sq_bytes qp = ucast (sq_max_wr (sq qp) * 64)"

definition set_rq_buf :: "u64 \<Rightarrow> u64 \<Rightarrow> xib_qp \<Rightarrow> xib_qp" where
  "set_rq_buf va pa qp = qp\<lparr>rq := (rq qp)\<lparr>rq_ba_v := va, rq_ba_p := pa\<rparr>, rq_mem := replicate (unat (rq_bytes qp)) 0\<rparr>"

definition zero_wqe :: xrnic_wr where
  "zero_wqe = \<lparr>wrid = 0, l_addr = 0, wr_length = 0, wr_opcode = 0, r_offset = 0, r_tag = 0, sdata = replicate 16 0, imm_data = 0\<rparr>"

definition set_sq_buf :: "u64 \<Rightarrow> xib_qp \<Rightarrow> xib_qp" where
  "set_sq_buf pa qp = qp\<lparr>sq_ba_p := pa, sq_wqes := replicate (unat (sq_max_wr (sq qp))) zero_wqe\<rparr>"

definition program_queue_depth :: "xib_qp \<Rightarrow> unit dev" where
  "program_queue_depth qp = xrnic_iow (XRNIC_QUEUE_DEPTH (hw_qpn qp)) (sq_max_wr (sq qp) OR push_bit 16 (rq_max_wr (rq qp)))"

definition program_dbs :: "u32 \<Rightarrow> xrnic_local \<Rightarrow> xrnic_local option dev" where
  "program_dbs q x = and_then (program_sq_db q x) (program_rq_db q)"

definition sq_from :: "life_env \<Rightarrow> xib_qp \<Rightarrow> string" where
  "sq_from env qp = (if strcaseeq (le_sq_mem env) ''bram'' then if io_qp qp then ''bram'' else ''pl'' else le_sq_mem env)"

type_synonym 'd buf_result = "(int \<times> xib_qp \<times> 'd) option"

definition xib_alloc_qp_buffers :: "life_env \<Rightarrow> xib_qp \<Rightarrow> life_dev \<Rightarrow> life_dev buf_result dev" where
  "xib_alloc_qp_buffers env qp d =
     (case buf_alloc env (dev_mem d) (le_rq_mem env) (rq_bytes qp) (rq_ba_p (rq qp)) of
        None \<Rightarrow> State_Monad.return None
      | Some (va, pa, ms1) \<Rightarrow>
          if va = 0 then State_Monad.return (Some (- ENOMEM, qp\<lparr>rq := (rq qp)\<lparr>rq_ba_v := 0, rq_ba_p := pa\<rparr>\<rparr>, d\<lparr>dev_mem := ms1\<rparr>))
          else do {
            let qp1 = set_rq_buf va pa qp;
            set_base (XRNIC_RCVQ_BUF_BASE_LSB (hw_qpn qp)) (XRNIC_RCVQ_BUF_BASE_MSB (hw_qpn qp)) pa;
            (case buf_alloc env ms1 (sq_from env qp) (sq_bytes qp) (sq_ba_p qp) of
               None \<Rightarrow> State_Monad.return None
             | Some (sva, spa, ms2) \<Rightarrow>
                 if sva = 0
                 then State_Monad.return (Some (- ENOMEM, qp1\<lparr>sq_ba_p := spa\<rparr>, d\<lparr>dev_mem := buf_free env ms2 (rq_bytes qp) pa\<rparr>))
                 else do {
                   let qp2 = set_sq_buf spa qp1;
                   set_base (XRNIC_SNDQ_BUF_BASE_LSB (hw_qpn qp)) (XRNIC_SNDQ_BUF_BASE_MSB (hw_qpn qp)) spa;
                   program_queue_depth qp;
                   and_then (program_dbs (hw_qpn qp) (xl d)) (\<lambda>x.
                     State_Monad.return (Some (0, qp2, d\<lparr>dev_mem := ms2, xl := x\<rparr>)))})})"

text \<open>For queue pair 1 there is also the send buffer.  When it cannot be allocated, the null pointer is freed in its
  place and the send queue stays allocated; the receive buffer goes to \<open>dma_free_coherent\<close>, which the
  managers do not see.\<close>

definition xib_alloc_gsi_qp_buffers :: "life_env \<Rightarrow> xib_qp \<Rightarrow> life_dev \<Rightarrow> life_dev buf_result dev" where
  "xib_alloc_gsi_qp_buffers env qp d =
     (case buf_alloc env (dev_mem d) (le_rq_mem env) (rq_bytes qp) (rq_ba_p (rq qp)) of
        None \<Rightarrow> State_Monad.return None
      | Some (va, pa, ms1) \<Rightarrow>
          if va = 0 then State_Monad.return (Some (- ENOMEM, qp\<lparr>rq := (rq qp)\<lparr>rq_ba_v := 0, rq_ba_p := pa\<rparr>\<rparr>, d\<lparr>dev_mem := ms1\<rparr>))
          else do {
            let qp1 = set_rq_buf va pa qp;
            set_base (XRNIC_RCVQ_BUF_BASE_LSB (hw_qpn qp)) (XRNIC_RCVQ_BUF_BASE_MSB (hw_qpn qp)) pa;
            (case buf_alloc env ms1 (le_sq_mem env) (sq_bytes qp) (sq_ba_p qp) of
               None \<Rightarrow> State_Monad.return None
             | Some (sva, spa, ms2) \<Rightarrow>
                 if sva = 0 then State_Monad.return (Some (- ENOMEM, qp1\<lparr>sq_ba_p := spa\<rparr>, d\<lparr>dev_mem := ms2\<rparr>))
                 else case buf_alloc env ms2 (le_sq_mem env) 4096 (send_sgl_p qp) of
                   None \<Rightarrow> State_Monad.return None
                 | Some (gva, gpa, ms3) \<Rightarrow>
                     if gva = 0
                     then State_Monad.return (Some (- ENOMEM, (set_sq_buf spa qp1)\<lparr>send_sgl_p := gpa\<rparr>, d\<lparr>dev_mem := buf_free env ms3 4096 gpa\<rparr>))
                     else do {
                       let qp2 = (set_sq_buf spa qp1)\<lparr>send_sgl_p := gpa, send_sgl := replicate 4096 0, send_sgl_busy := False\<rparr>;
                       set_base (XRNIC_SNDQ_BUF_BASE_LSB (hw_qpn qp)) (XRNIC_SNDQ_BUF_BASE_MSB (hw_qpn qp)) spa;
                       program_queue_depth qp;
                       and_then (program_dbs (hw_qpn qp) (xl d)) (\<lambda>x.
                         State_Monad.return (Some (0, qp2, d\<lparr>dev_mem := ms3, xl := x\<rparr>)))})})"

definition xib_dealloc_qp_buffers :: "life_env \<Rightarrow> xib_qp \<Rightarrow> mem_state \<Rightarrow> mem_state" where
  "xib_dealloc_qp_buffers env qp ms =
     buf_free env (buf_free env ms (sq_bytes qp) (sq_ba_p qp)) (rq_bytes qp) (rq_ba_p (rq qp))"

definition xib_dealloc_gsi_qp_buffers :: "life_env \<Rightarrow> xib_qp \<Rightarrow> mem_state \<Rightarrow> mem_state" where
  "xib_dealloc_gsi_qp_buffers env qp ms = xib_dealloc_qp_buffers env qp (buf_free env ms 4096 (send_sgl_p qp))"

text \<open>The size of the area that \<open>xib_dealloc_user_qp_buffers\<close> passes to \<open>dma_free_coherent\<close>; \<open>None\<close> is the error for
  a queue pair without completion queue.  \<open>sizeof(struct xib_imm_inv)\<close> is 8.\<close>

definition xib_get_user_qp_area_sz :: "bool \<Rightarrow> xib_qp \<Rightarrow> u32 option" where
  "xib_get_user_qp_area_sz has_cq qp =
     (if \<not> has_cq then None
      else let t = sq_max_wr (sq qp) * 64 + rq_max_wr (rq qp) * rq_buf_size qp + sq_max_wr (sq qp) * 4 + rq_max_wr (rq qp) * 8
           in Some (t + (0x1000 - (t AND 0xFFF)) + rq_buf_size qp))"

subsection \<open>Creation\<close>

definition check_qp_depths :: "u32 \<Rightarrow> bool" where
  "check_qp_depths n \<longleftrightarrow> (n \<noteq> 0 \<and> n AND (n - 1) = 0) \<and> n \<ge> 2"

definition xib_qp_add :: "xib_qp \<Rightarrow> life_dev \<Rightarrow> life_dev" where
  "xib_qp_add qp d = d\<lparr>qp_list := (qp_list d)[unat (hw_qpn qp) := Some qp]\<rparr>"

record init_attr =
  ia_max_send_wr :: u32
  ia_max_recv_wr :: u32
  ia_max_recv_sge :: u32
  ia_hw_ofld :: bool
  ia_srq :: bool
  ia_pdn :: u32
  ia_cq_buf_p :: u64
  ia_cq_cqe :: u32

text \<open>The send completion queue's part: the core's \<open>cqe\<close> and the buffer.  A null array is the empty list.\<close>

definition set_depths :: "init_attr \<Rightarrow> u32 \<Rightarrow> xib_qp \<Rightarrow> xib_qp" where
  "set_depths a sge qp = qp\<lparr>sq := (sq qp)\<lparr>sq_max_wr := ia_max_send_wr a\<rparr>, rq := (rq qp)\<lparr>rq_max_wr := ia_max_recv_wr a\<rparr>,
     rq_buf_size := sge * 256\<rparr>"

definition zero_counters :: "xib_qp \<Rightarrow> xib_qp" where
  "zero_counters qp = qp\<lparr>rq := (rq qp)\<lparr>rq_wrptr_db_local := 0, rq_ci_db_local := 0\<rparr>,
     sq := (sq qp)\<lparr>sq_cmpl_db_local := 0, send_cq_db_local := 0\<rparr>\<rparr>"

definition array_of :: "bool \<Rightarrow> u32 \<Rightarrow> 'a \<Rightarrow> 'a list" where
  "array_of ok n x = (if ok then replicate (unat n) x else [])"

definition zero_plb :: xib_pl_buf where
  "zero_plb = \<lparr>plb_va = 0, plb_pa = 0, plb_sgl_addr = 0, plb_len = 0\<rparr>"

text \<open>The array of identifiers is allocated with 8 bytes per entry; an entry has 16, so there is memory for half of
  them.\<close>

definition set_arrays :: "life_env \<Rightarrow> xib_qp \<Rightarrow> xib_qp" where
  "set_arrays env qp = qp\<lparr>rq := (rq qp)\<lparr>rqe_list := array_of (le_kcalloc env 0) (rq_max_wr (rq qp)) zero_rqe\<rparr>,
     sq := (sq qp)\<lparr>wr_id_array := array_of (le_kcalloc env 1) (sq_max_wr (sq qp) div 2) (0, False),
       pl_buf_list := array_of (le_kcalloc env 2) (sq_max_wr (sq qp)) zero_plb\<rparr>\<rparr>"

text \<open>The return value, the queue pair as the caller's object is left, and the device.  The links between a completion
  queue and its queue pair are not part of the state; after a failure the arrays that were freed are still in the
  result.\<close>

definition xib_create_kernel_qp :: "life_env \<Rightarrow> init_attr \<Rightarrow> xib_qp \<Rightarrow> life_dev \<Rightarrow> life_dev buf_result dev" where
  "xib_create_kernel_qp env a qp0 d =
     (if ia_max_send_wr a = 0 \<or> ia_max_recv_wr a = 0 then State_Monad.return (Some (- EINVAL, qp0, d))
      else case xib_bmap_alloc_id (qp_map d) of (ret, num, bm) \<Rightarrow>
        if ret < 0 then State_Monad.return (Some (- EFAULT, qp0\<lparr>hw_qpn := num\<rparr>, d))
        else do {
          let sge = (if ia_max_recv_sge a < 2 then 2 else ia_max_recv_sge a);
          let qp1 = set_depths a sge (qp0\<lparr>hw_qpn := num, io_qp := io_qp qp0 \<or> ia_hw_ofld a\<rparr>);
          and_then (xib_alloc_qp_buffers env qp1 (d\<lparr>qp_map := bm\<rparr>)) (\<lambda>(r, qp2, d2).
            if r < 0
            then State_Monad.return (map_option (\<lambda>bm'. (- ENOMEM, qp2, d2\<lparr>qp_map := bm'\<rparr>)) (xib_bmap_release_id (qp_map d2) num))
            else do {
              xrnic_qp_set_pd num (ia_pdn a);
              let qp3 = zero_counters (qp2\<lparr>qp_type := XIB_QP_TYPE_KERNEL, is_ipv6 := False\<rparr>);
              (if \<not> le_kcalloc env 0 then State_Monad.return (Some (- ENOMEM, qp3, d2))
               else let qp4 = set_arrays env qp3 in
                 if ia_cq_cqe a < ia_max_send_wr a then State_Monad.return (Some (- ENOMEM, qp4, d2))
                 else do {
                   set_base (XRNIC_CQ_BUF_BASE_LSB num) (XRNIC_CQ_BUF_BASE_MSB num) (ia_cq_buf_p a);
                   State_Monad.return (Some
                     (if \<not> le_kcalloc env 3 then (- ENOMEM, qp4, d2)
                      else let qp5 = qp4\<lparr>imm_inv_data := replicate (unat (ia_max_recv_wr a)) \<lparr>inv_data = 0, inv_type = 0, isvalid = False\<rparr>,
                                 qp_state := XIB_QP_STATE_RESET, sq_drained := False\<rparr>
                           in (0, qp5, xib_qp_add qp5 d2)))})})})"

text \<open>For a user queue pair the caller's request holds the addresses of the queues.  A failed copy of the request is
  noticed only in the return value; the model takes what was copied.\<close>

definition get_phys_addr :: "u64 \<Rightarrow> u64" where
  "get_phys_addr va = va"

record user_req =
  ur_copy_ret :: int
  ur_rq_ba :: u64
  ur_sq_ba :: u64
  ur_cq_ba :: u64
  ur_imm_inv :: "xib_imm_inv list"

definition xib_create_user_qp :: "init_attr \<Rightarrow> user_req \<Rightarrow> xib_qp \<Rightarrow> life_dev \<Rightarrow> life_dev buf_result dev" where
  "xib_create_user_qp a u qp0 d =
     (case xib_bmap_alloc_id (qp_map d) of (ret, num, bm) \<Rightarrow>
        if ret < 0 then State_Monad.return (Some (- EFAULT, qp0\<lparr>hw_qpn := num\<rparr>, d))
        else do {
          let qp1 = set_depths a (ia_max_recv_sge a) (qp0\<lparr>hw_qpn := num, is_ipv6 := False\<rparr>);
          let qp2 = qp1\<lparr>rq := (rq qp1)\<lparr>rq_ba_p := get_phys_addr (ur_rq_ba u)\<rparr>, sq_ba_p := get_phys_addr (ur_sq_ba u)\<rparr>;
          set_base (XRNIC_RCVQ_BUF_BASE_LSB num) (XRNIC_RCVQ_BUF_BASE_MSB num) (get_phys_addr (ur_rq_ba u));
          set_base (XRNIC_SNDQ_BUF_BASE_LSB num) (XRNIC_SNDQ_BUF_BASE_MSB num) (get_phys_addr (ur_sq_ba u));
          program_queue_depth qp2;
          and_then (program_dbs num (xl d)) (\<lambda>x. do {
            xrnic_qp_set_pd num (ia_pdn a);
            set_base (XRNIC_CQ_BUF_BASE_LSB num) (XRNIC_CQ_BUF_BASE_MSB num) (get_phys_addr (ur_cq_ba u));
            let qp3 = (zero_counters qp2)\<lparr>qp_type := XIB_QP_TYPE_USER, imm_inv_data := ur_imm_inv u, qp_state := XIB_QP_STATE_RESET\<rparr>;
            State_Monad.return (Some (ur_copy_ret u, qp3, xib_qp_add qp3 (d\<lparr>qp_map := bm, xl := x\<rparr>)))})})"

definition xib_gsi_create_qp :: "life_env \<Rightarrow> init_attr \<Rightarrow> xib_qp \<Rightarrow> life_dev \<Rightarrow> life_dev buf_result dev" where
  "xib_gsi_create_qp env a qp0 d =
     (let qp1 = (zero_counters (set_depths a 2 (qp0\<lparr>hw_qpn := 0, qp_type := XIB_QP_TYPE_GSI, is_ipv6 := False\<rparr>)))\<lparr>rq_buf_size := 512\<rparr>
      in if \<not> le_kcalloc env 0 then State_Monad.return (Some (- ENOMEM, qp1, d))
         else do {
           let qp2 = qp1\<lparr>rq := (rq qp1)\<lparr>rqe_list := array_of True (rq_max_wr (rq qp1)) zero_rqe\<rparr>,
                 sq := (sq qp1)\<lparr>wr_id_array := array_of (le_kcalloc env 1) (sq_max_wr (sq qp1)) (0, False)\<rparr>\<rparr>;
           and_then (xib_alloc_gsi_qp_buffers env qp2 d) (\<lambda>(r, qp3, d3).
             if r < 0 then State_Monad.return (Some (- ENOMEM, qp3, d3))
             else do {
               set_base (XRNIC_CQ_BUF_BASE_LSB 0) (XRNIC_CQ_BUF_BASE_MSB 0) (ia_cq_buf_p a);
               let qp4 = qp3\<lparr>qp_state := XIB_QP_STATE_RESET\<rparr>;
               State_Monad.return (Some
                 (if \<not> le_kcalloc env 3 then (- ENOMEM, qp4, d3\<lparr>gsi_qp := Some qp4\<rparr>)
                  else let qp5 = qp4\<lparr>imm_inv_data := replicate (unat (ia_max_recv_wr a)) \<lparr>inv_data = 0, inv_type = 0, isvalid = False\<rparr>\<rparr>
                       in (0, qp5, xib_qp_add qp5 (d3\<lparr>gsi_qp := Some qp5\<rparr>))))})})"

datatype ib_qp_type = IB_QPT_GSI | IB_QPT_RC | IB_QPT_OTHER

text \<open>For a reliable connection the retry counters of the register of \<open>hw_qpn\<close> are set in the end, whatever the
  creation returned.\<close>

definition init_retry_cnt :: "hardware \<Rightarrow> u32 \<Rightarrow> unit dev" where
  "init_retry_cnt hw q = do {
     val \<leftarrow> xrnic_ior hw (XRNIC_STAT_QP q);
     do_when (drop_bit 24 val \<noteq> 0x77) (xrnic_iow (XRNIC_STAT_QP q) (val OR push_bit 24 0x77))}"

definition xib_create_qp ::
  "life_env \<Rightarrow> init_attr \<Rightarrow> ib_qp_type \<Rightarrow> user_req option \<Rightarrow> xib_qp \<Rightarrow> life_dev \<Rightarrow> life_dev buf_result dev" where
  "xib_create_qp env a ty udata qp0 d =
     (if ia_srq a then State_Monad.return (Some (- EINVAL, qp0, d))
      else case ty of
        IB_QPT_GSI \<Rightarrow> xib_gsi_create_qp env a qp0 d
      | IB_QPT_RC \<Rightarrow>
          if \<not> check_qp_depths (ia_max_send_wr a) \<or> \<not> check_qp_depths (ia_max_recv_wr a)
          then State_Monad.return (Some (- EINVAL, qp0, d))
          else and_then (case udata of Some u \<Rightarrow> xib_create_user_qp a u qp0 d | None \<Rightarrow> xib_create_kernel_qp env a qp0 d)
            (\<lambda>(r, qp, d'). do {init_retry_cnt (le_hw env) (hw_qpn qp); State_Monad.return (Some (r, qp, d'))})
      | IB_QPT_OTHER \<Rightarrow> State_Monad.return (Some (- EINVAL, qp0, d)))"

subsection \<open>Destruction\<close>

text \<open>Reset and disable, then give back what the type of queue pair owns.  The entry of \<open>qp_list\<close> is cleared only for
  kernel queue pairs.\<close>

definition destroy_tail :: "life_env \<Rightarrow> xib_qp \<Rightarrow> life_dev \<Rightarrow> life_dev option" where
  "destroy_tail env qp d =
     (case qp_type qp of
        XIB_QP_TYPE_KERNEL \<Rightarrow>
          map_option (\<lambda>bm. d\<lparr>dev_mem := xib_dealloc_qp_buffers env qp (dev_mem d),
              qp_list := (qp_list d)[unat (hw_qpn qp) := None], qp_map := bm\<rparr>) (xib_bmap_release_id (qp_map d) (hw_qpn qp))
      | XIB_QP_TYPE_USER \<Rightarrow> map_option (\<lambda>bm. d\<lparr>qp_map := bm\<rparr>) (xib_bmap_release_id (qp_map d) (hw_qpn qp))
      | XIB_QP_TYPE_GSI \<Rightarrow> Some (d\<lparr>dev_mem := xib_dealloc_gsi_qp_buffers env qp (dev_mem d), gsi_qp := None\<rparr>))"

definition xib_destroy_qp ::
  "life_env \<Rightarrow> (io list \<Rightarrow> nat) \<Rightarrow> nat \<Rightarrow> xib_qp \<Rightarrow> life_dev \<Rightarrow> io list \<Rightarrow> (life_dev \<times> io list) option" where
  "xib_destroy_qp env jiffies hz qp d log = do {
     (xr, log1) \<leftarrow> xrnic_reset_user_qp (le_hw env) jiffies hz (hw_qpn qp) (xl d) log;
     x \<leftarrow> xr;
     d' \<leftarrow> destroy_tail env qp (d\<lparr>xl := x\<rparr>);
     Some (d', snd (run_state (xrnic_qp_disable qp) log1))}"
end
