(* ===== verification/Xib_Qp_Life.thy ===== *)
theory Xib_Qp_Life
  imports Xib_Qp
begin

text \<open>
  What holds over the life of a queue pair: its rings are well formed and its number is its own after creation,
  a refused modification has no effect, a query reports what was set, reset and destruction return; and
  where the code falls short of that: numbers lost on failed creations, stale table entries, an array of
  half the size, and pending packets forgotten.
\<close>

unbundle bit_operations_syntax

lemma run_and_then [simp]:
  "run_state (and_then m f) log = (case run_state m log of (None, l) \<Rightarrow> (None, l) | (Some x, l) \<Rightarrow> run_state (f x) l)"
  by (auto simp: and_then_def split: prod.splits option.splits)

subsection \<open>Depths\<close>

lemma check_qp_depths_iff: "check_qp_depths n \<longleftrightarrow> (\<exists>k. 0 < k \<and> k < 32 \<and> unat n = 2 ^ k)"
proof (cases "n = 0")
  case True
  then show ?thesis by (simp add: check_qp_depths_def)
next
  case False
  then have u: "unat (n - 1) = unat n - 1" and pos: "0 < unat n"
    using unat_sub_le [of 1 n] by (auto simp: word_unat_eq_iff Suc_le_eq)
  have "n AND (n - 1) = 0 \<longleftrightarrow> (\<exists>k\<le>32. unat n - 1 = 2 ^ k - 1)"
    using mask_test [of "n - 1"] u by (simp add: and.commute)
  also have "\<dots> \<longleftrightarrow> (\<exists>k\<le>32. unat n = 2 ^ k)"
    using pos by (metis Suc_diff_1 zero_less_numeral zero_less_power)
  finally have t: "n AND (n - 1) = 0 \<longleftrightarrow> (\<exists>k\<le>32. unat n = 2 ^ k)" .
  have lt: "unat n < 2 ^ 32" using unsigned_less [of n] by simp
  show ?thesis
  proof
    assume "check_qp_depths n"
    then obtain k where k: "k \<le> 32" "unat n = 2 ^ k" and two: "2 \<le> unat n"
      using t by (auto simp: check_qp_depths_def word_le_nat_alt)
    have "k \<noteq> 32" using k lt by auto
    moreover have "k \<noteq> 0" using k two by (auto intro: ccontr)
    ultimately show "\<exists>k. 0 < k \<and> k < 32 \<and> unat n = 2 ^ k" using k by (intro exI [of _ k]) auto
  next
    assume "\<exists>k. 0 < k \<and> k < 32 \<and> unat n = 2 ^ k"
    then obtain k where k: "0 < k" "k < 32" "unat n = 2 ^ k" by blast
    have "(2::nat) ^ 1 \<le> 2 ^ k" using k(1) by (intro power_increasing) auto
    then show "check_qp_depths n" using k t False by (auto simp: check_qp_depths_def word_le_nat_alt intro: exI [of _ k])
  qed
qed

subsection \<open>Modification and query\<close>

text \<open>a modification that the RDMA core's table of transitions refuses is answered with \<open>EINVAL\<close> and changes neither a
  register nor the queue pair; one that is accepted writes registers of this queue pair only.\<close>

lemma modify_normal:
  assumes "m AND (IB_ENABLE_QP_HW_ACCL OR IB_QP_RST_RQ OR IB_QP_RST_SQ_CQ) = 0"
  shows "m AND IB_ENABLE_QP_HW_ACCL = 0" "m AND IB_QP_RST_RQ = 0" "m AND IB_QP_RST_SQ_CQ = 0"
  using assms by (auto simp: bit.conj_disj_distrib or_eq_0_iff)

theorem modify_qp_refused:
  assumes "m AND (IB_ENABLE_QP_HW_ACCL OR IB_QP_RST_RQ OR IB_QP_RST_SQ_CQ) = 0"
    and "\<not> is_ok (xib_get_ibqp_state (qp_state qp)) (if m AND IB_QP_STATE \<noteq> 0 then at_state a else xib_get_ibqp_state (qp_state qp)) m"
  shows "run_state (xib_modify_qp hw is_ok mtu rt a m qp x) log = (Some (- EINVAL, qp, x), log)"
  using modify_normal [OF assms(1)] assms(2) by (simp add: xib_modify_qp_def Let_def)

lemma modify_params_state:
  "flags (modify_params a m) AND XIB_MODIFY_QP_STATE \<noteq> 0 \<longleftrightarrow> m AND IB_QP_STATE \<noteq> 0"
  "m AND IB_QP_STATE \<noteq> 0 \<Longrightarrow> new_state (modify_params a m) = xib_get_state_from_ibqp (at_state a)"
  by (auto simp: modify_params_def when_mask_def set_flags_def params_timeout_def params_av_def Let_def zero_params_def
      XIB_MODIFY_QP_STATE_def XIB_MODIFY_QP_DEST_QP_def XIB_MODIFY_QP_RQ_PSN_def XIB_MODIFY_QP_SQ_PSN_def
      XIB_MODIFY_QP_TIMEOUT_def XIB_MODIFY_QP_DEST_MAC_def XIB_MODIFY_QP_AV_def)

lemma state_roundtrip:
  "xib_get_ibqp_state (xib_get_state_from_ibqp s) = (if s = IB_QPS_SQE then IB_QPS_ERR else s)"
  "xib_get_state_from_ibqp (xib_get_ibqp_state t) = (if t = XIB_QP_STATE_SQE then XIB_QP_STATE_ERR else t)"
  by (cases s; simp) (cases t; simp)

lemma fst_qp_modify_state:
  "qp_state (fst (run_state (xrnic_qp_modify hw mtu rt qp p) log)) =
     (if flags p AND XIB_MODIFY_QP_STATE \<noteq> 0 then new_state p else qp_state qp)"
  by (simp add: xrnic_qp_modify_def case_prod_beta Let_def)

text \<open>C32: after an accepted change of state a query reports the state that was asked for, except that the send-queue
  error state is reported as the error state; without a change of state it reports the state before.\<close>

theorem modify_then_query:
  assumes "m AND (IB_ENABLE_QP_HW_ACCL OR IB_QP_RST_RQ OR IB_QP_RST_SQ_CQ) = 0"
    and "run_state (xib_modify_qp hw is_ok mtu rt a m qp x) log = (Some (0, qp', x'), log')"
  shows "qq_state (xib_query_qp qp') =
    (if m AND IB_QP_STATE = 0 then xib_get_ibqp_state (qp_state qp)
     else if at_state a = IB_QPS_SQE then IB_QPS_ERR else at_state a)"
proof -
  have "qp' = fst (run_state (xrnic_qp_modify hw mtu rt qp (modify_params a m)) log)"
    using assms(2) modify_normal [OF assms(1)]
    by (auto simp: xib_modify_qp_def Let_def split: if_splits prod.splits)
  then show ?thesis
    using fst_qp_modify_state [of hw mtu rt qp "modify_params a m" log] modify_params_state(1) [of a m] modify_params_state(2) [of m a] state_roundtrip(1)
    by (simp add: xib_query_qp_def)
qed

subsection \<open>Hardware acceleration\<close>

text \<open>enabling hardware acceleration does not see the packets that arrived before: the doorbell word is cleared when its
  address is programmed, before the pending packets are counted, so everything the call writes is the
  same whatever the doorbell said.\<close>

theorem enable_hw_accl_forgets_pending:
  assumes "length (qp1_rq_db x) = length (qp1_rq_db y)" "x = y\<lparr>qp1_rq_db := qp1_rq_db x\<rparr>"
    and "\<And>i. i \<noteq> unat (hw_qpn qp) \<Longrightarrow> qp1_rq_db x ! i = qp1_rq_db y ! i"
  shows "run_state (xib_enable_hw_accl hw qp x) log = run_state (xib_enable_hw_accl hw qp y) log"
proof (cases "unat (hw_qpn qp) < length (qp1_rq_db y)")
  case True
  have "(qp1_rq_db x)[unat (hw_qpn qp) := 0] = (qp1_rq_db y)[unat (hw_qpn qp) := 0]"
  proof (intro nth_equalityI)
    fix i assume "i < length ((qp1_rq_db x)[unat (hw_qpn qp) := 0])"
    then show "(qp1_rq_db x)[unat (hw_qpn qp) := 0] ! i = (qp1_rq_db y)[unat (hw_qpn qp) := 0] ! i"
      using assms(1,3) by (cases "i = unat (hw_qpn qp)") auto
  qed (use assms(1) in simp)
  moreover have "x\<lparr>qp1_rq_db := l\<rparr> = y\<lparr>qp1_rq_db := l\<rparr>" "qp1_rq_db_p x = qp1_rq_db_p y" for l
    using assms(2) by (metis xrnic_local.update_convs(5) xrnic_local.surjective, metis xrnic_local.select_convs(4) xrnic_local.surjective xrnic_local.update_convs(5))
  ultimately have "xrnic_get_rq_db_addr x (unat (hw_qpn qp)) = xrnic_get_rq_db_addr y (unat (hw_qpn qp))"
    using True assms(1) by (simp add: xrnic_get_rq_db_addr_def)
  then show ?thesis by (simp add: xib_enable_hw_accl_def program_rq_db_def)
next
  case False
  then show ?thesis using assms(1) by (simp add: xib_enable_hw_accl_def program_rq_db_def xrnic_get_rq_db_addr_def)
qed

subsection \<open>Buffers\<close>

text \<open>What the allocation of the buffers leaves alone, and what it sets when it succeeds.\<close>

lemma run_set_base: "run_state (set_base lsb msb a) log = ((), log @ [IoW lsb (ucast a), IoW msb (ucast (drop_bit 32 a))])"
  by (simp add: set_base_def)

lemma alloc_qp_buffers_effect:
  assumes "run_state (xib_alloc_qp_buffers env qp d) log = (Some (r, qp', d'), log')"
  shows "r = 0 \<or> r = - ENOMEM" "qp_map d' = qp_map d" "qp_list d' = qp_list d" "gsi_qp d' = gsi_qp d" "hw_qpn qp' = hw_qpn qp"
    "sq qp' = sq qp" "prod (rq qp') = prod (rq qp)" "cons (rq qp') = cons (rq qp)" "rq_max_wr (rq qp') = rq_max_wr (rq qp)"
    "r = 0 \<Longrightarrow> length (sq_wqes qp') = unat (sq_max_wr (sq qp)) \<and> length (rq_mem qp') = unat (rq_bytes qp)"
    "length (qp1_sq_db (xl d')) = length (qp1_sq_db (xl d))" "length (qp1_rq_db (xl d')) = length (qp1_rq_db (xl d))"
  using assms
  by (auto simp: xib_alloc_qp_buffers_def Let_def program_dbs_def program_sq_db_def program_rq_db_def
      xrnic_get_sq_db_addr_def xrnic_get_rq_db_addr_def set_rq_buf_def set_sq_buf_def split: option.splits if_splits prod.splits)

subsection \<open>Creation\<close>

text \<open>The number comes first: it was free, and the bitmap with it taken is what the rest of a creation sees.\<close>

lemma alloc_id_takes:
  assumes "bmap_ok b" "xib_bmap_alloc_id b = (ret, num, b')" "\<not> ret < 0"
  shows "unat num \<in> bmap_free b" "bmap_free b' = bmap_free b - {unat num}" "bmap_ok b'" "max_count b' = max_count b"
    "b' = b\<lparr>bitmap := (bitmap b)[unat num := True]\<rparr>"
proof -
  have f: "unat num \<in> bmap_free b" "b' = b\<lparr>bitmap := (bitmap b)[unat num := True]\<rparr>"
    using alloc_id_cases [OF assms(1,2)] assms(3) by auto
  then show "unat num \<in> bmap_free b" "b' = b\<lparr>bitmap := (bitmap b)[unat num := True]\<rparr>" "max_count b' = max_count b" "bmap_ok b'"
    using assms(1) by (simp_all add: bmap_ok_def)
  show "bmap_free b' = bmap_free b - {unat num}"
    using f assms(1) by (auto simp: bmap_free_def bmap_ok_def nth_list_update split: if_splits)
qed

lemma release_id_free:
  assumes "bmap_ok b" "unat num < unat (max_count b)"
  shows "\<exists>b'. xib_bmap_release_id b num = Some b' \<and> bmap_free b' = insert (unat num) (bmap_free b) \<and> bmap_ok b' \<and> max_count b' = max_count b"
  using assms by (auto simp: xib_bmap_release_id_def bmap_free_def bmap_ok_def nth_list_update)

text \<open>The outcomes of a creation for the kernel: refused before anything is taken; no buffers, with the number given
  back; the later failures, with the number kept; success.\<close>

lemma create_kernel_qp_cases:
  assumes ok: "bmap_ok (qp_map d)" and run: "run_state (xib_create_kernel_qp env a qp0 d) log = (Some (r, qp, d'), log')"
  obtains (refused) "r < 0" "d' = d"
  | (no_buffers) "r = - ENOMEM" "bmap_free (qp_map d') = bmap_free (qp_map d)" "qp_list d' = qp_list d" "gsi_qp d' = gsi_qp d"
  | (later) "r = - ENOMEM" "unat (hw_qpn qp) \<in> bmap_free (qp_map d)" "bmap_free (qp_map d') = bmap_free (qp_map d) - {unat (hw_qpn qp)}"
      "qp_list d' = qp_list d" "gsi_qp d' = gsi_qp d"
      "\<not> le_kcalloc env 0 \<or> ia_cq_cqe a < ia_max_send_wr a \<or> \<not> le_kcalloc env 3"
  | (created) qp1 where "r = 0" "unat (hw_qpn qp) \<in> bmap_free (qp_map d)"
      "bmap_free (qp_map d') = bmap_free (qp_map d) - {unat (hw_qpn qp)}" "bmap_ok (qp_map d')" "max_count (qp_map d') = max_count (qp_map d)"
      "qp_list d' = (qp_list d)[unat (hw_qpn qp) := Some qp]" "le_kcalloc env 0"
      "qp = (set_arrays env (zero_counters (qp1\<lparr>qp_type := XIB_QP_TYPE_KERNEL, is_ipv6 := False\<rparr>)))
         \<lparr>imm_inv_data := replicate (unat (ia_max_recv_wr a)) \<lparr>inv_data = 0, inv_type = 0, isvalid = False\<rparr>,
          qp_state := XIB_QP_STATE_RESET, sq_drained := False\<rparr>"
      "sq_max_wr (sq qp1) = ia_max_send_wr a" "rq_max_wr (rq qp1) = ia_max_recv_wr a"
      "prod (rq qp1) = prod (rq qp0)" "cons (rq qp1) = cons (rq qp0)"
      "length (sq_wqes qp1) = unat (ia_max_send_wr a)"
      "length (qp1_sq_db (xl d')) = length (qp1_sq_db (xl d))" "length (qp1_rq_db (xl d')) = length (qp1_rq_db (xl d))"
proof -
  obtain ret num bm where id: "xib_bmap_alloc_id (qp_map d) = (ret, num, bm)" by (metis prod_cases3)
  consider "ia_max_send_wr a = 0 \<or> ia_max_recv_wr a = 0 \<or> ret < 0"
    | "ia_max_send_wr a \<noteq> 0" "ia_max_recv_wr a \<noteq> 0" "\<not> ret < 0" by blast
  then show thesis
  proof cases
    case 1
    then show ?thesis using run refused id by (auto simp: xib_create_kernel_qp_def split: if_splits)
  next
    case 2
    note t = alloc_id_takes [OF ok id 2(3)]
    define sge where "sge = (if ia_max_recv_sge a < 2 then 2 else ia_max_recv_sge a)"
    define q1 where "q1 = set_depths a sge (qp0\<lparr>hw_qpn := num, io_qp := io_qp qp0 \<or> ia_hw_ofld a\<rparr>)"
    obtain res log1 where b: "run_state (xib_alloc_qp_buffers env q1 (d\<lparr>qp_map := bm\<rparr>)) log = (res, log1)" by fastforce
    then obtain rb qb db where res: "res = Some (rb, qb, db)"
      using run 2 id by (auto simp: xib_create_kernel_qp_def Let_def q1_def sge_def split: option.splits)
    note e = alloc_qp_buffers_effect [OF b [unfolded res]]
    have q1: "hw_qpn q1 = num" "sq_max_wr (sq q1) = ia_max_send_wr a" "rq_max_wr (rq q1) = ia_max_recv_wr a"
      "prod (rq q1) = prod (rq qp0)" "cons (rq q1) = cons (rq qp0)"
      by (simp_all add: q1_def set_depths_def)
    show ?thesis
    proof (cases "rb < 0")
      case True
      have whole: "insert (unat num) (bmap_free bm) = bmap_free (qp_map d)" using t(1,2) by auto
      have bound: "unat num < unat (max_count (qp_map d))" using t(1) by (simp add: bmap_free_def)
      obtain bm' where "xib_bmap_release_id (qp_map db) num = Some bm'" "bmap_free bm' = bmap_free (qp_map d)"
        using release_id_free [OF t(3), of num] whole bound t(4) e(2) by auto
      then have "r = - ENOMEM" "d' = db\<lparr>qp_map := bm'\<rparr>" "bmap_free bm' = bmap_free (qp_map d)"
        using run 2 True unfolding xib_create_kernel_qp_def id
        by (simp_all add: Let_def q1_def [symmetric] sge_def [symmetric] b res)
      then show ?thesis using no_buffers e(3,4) by simp
    next
      case False
      then have z: "rb = 0" using e(1) by auto
      let ?q3 = "zero_counters (qb\<lparr>qp_type := XIB_QP_TYPE_KERNEL, is_ipv6 := False\<rparr>)"
      let ?q5 = "(set_arrays env ?q3)\<lparr>imm_inv_data := replicate (unat (ia_max_recv_wr a)) \<lparr>inv_data = 0, inv_type = 0, isvalid = False\<rparr>,
          qp_state := XIB_QP_STATE_RESET, sq_drained := False\<rparr>"
      have num: "hw_qpn ?q3 = num" "hw_qpn (set_arrays env ?q3) = num" "hw_qpn ?q5 = num"
        using e(5) q1(1) by (simp_all add: set_arrays_def zero_counters_def)
      have R: "(r, qp, d') = (if \<not> le_kcalloc env 0 then (- ENOMEM, ?q3, db)
          else if ia_cq_cqe a < ia_max_send_wr a \<or> \<not> le_kcalloc env 3 then (- ENOMEM, set_arrays env ?q3, db)
          else (0, ?q5, xib_qp_add ?q5 db))"
        using run 2 False unfolding xib_create_kernel_qp_def id
        by (auto simp: Let_def q1_def [symmetric] sge_def [symmetric] b res run_set_base xrnic_qp_set_pd_def split: if_splits)
      show ?thesis
      proof (cases "le_kcalloc env 0 \<and> \<not> ia_cq_cqe a < ia_max_send_wr a \<and> le_kcalloc env 3")
        case True
        then have "r = 0" "qp = ?q5" "d' = xib_qp_add ?q5 db" using R by simp_all
        then show ?thesis using created [of qb] True t(1-4) e(2,3,6-9,11,12) e(10) [OF z] q1 num(3) by (simp add: xib_qp_add_def)
      next
        case False
        then have "r = - ENOMEM" "hw_qpn qp = num" "d' = db" using R num by (auto split: if_splits)
        then show ?thesis using later False t(1,2) e(2-4) by auto
      qed
    qed
  qed
qed

lemma create_qp_kernel:
  assumes "run_state (xib_create_qp env a IB_QPT_RC None qp0 d) log = (Some (r, qp, d'), log')" "r = 0 \<or> d' \<noteq> d"
  shows "\<exists>l. run_state (xib_create_kernel_qp env a qp0 d) log = (Some (r, qp, d'), l)" "check_qp_depths (ia_max_send_wr a)"
    "check_qp_depths (ia_max_recv_wr a)"
  using assms by (auto simp: xib_create_qp_def split: if_splits option.splits prod.splits)

text \<open>C14: a queue pair created for the kernel is well formed: its receive ring is empty and a ring of the asked depth, there
  is a work request and an immediate-data record per entry, the depths are powers of two, it is in
  the reset state, its number was free and is taken by it alone, and the table of queue pairs knows it.\<close>

theorem create_qp_wellformed:
  assumes ok: "bmap_ok (qp_map d)" and tab: "unat (max_count (qp_map d)) \<le> length (qp_list d)"
    and zero: "prod (rq qp0) = 0" "cons (rq qp0) = 0"
    and run: "run_state (xib_create_qp env a IB_QPT_RC None qp0 d) log = (Some (0, qp, d'), log')"
  shows "rq_ok (rq qp) \<and> rq_contents (rq qp) = [] \<and> rq_max_wr (rq qp) = ia_max_recv_wr a \<and>
    length (imm_inv_data qp) = unat (ia_max_recv_wr a) \<and>
    sq_max_wr (sq qp) = ia_max_send_wr a \<and> length (sq_wqes qp) = unat (ia_max_send_wr a) \<and>
    (\<exists>k. unat (ia_max_send_wr a) = 2 ^ k) \<and> (\<exists>k. unat (ia_max_recv_wr a) = 2 ^ k) \<and>
    qp_state qp = XIB_QP_STATE_RESET \<and> qp_type qp = XIB_QP_TYPE_KERNEL \<and>
    unat (hw_qpn qp) \<in> bmap_free (qp_map d) \<and> bmap_free (qp_map d') = bmap_free (qp_map d) - {unat (hw_qpn qp)} \<and>
    qp_list d' ! unat (hw_qpn qp) = Some qp"
proof -
  note k = create_qp_kernel [OF run, simplified]
  have dep: "\<exists>k. unat (ia_max_send_wr a) = 2 ^ k" "\<exists>k. unat (ia_max_recv_wr a) = 2 ^ k"
    using k(2,3) by (auto simp: check_qp_depths_iff)
  have pos: "0 < ia_max_recv_wr a" using k(3) by (simp add: check_qp_depths_def word_neq_0_conv)
  obtain l where kr: "run_state (xib_create_kernel_qp env a qp0 d) log = (Some (0, qp, d'), l)" using k(1) by blast
  show ?thesis using ok kr
  proof (cases rule: create_kernel_qp_cases)
    case (created qp1)
    have "unat (hw_qpn qp) < length (qp_list d)" using created(2) tab by (simp add: bmap_free_def)
    then show ?thesis using created dep pos zero
      by (simp add: rq_ok_def rq_contents_def ring_count_def slots_def set_arrays_def zero_counters_def array_of_def)
  qed simp_all
qed

text \<open>a creation that fails leaves the table of queue pairs alone, and gives the number back unless the failure is
  one of the three that come after the buffers: no memory for the receive records, a completion queue
  smaller than the send queue, no memory for the immediate data.\<close>

theorem create_qp_failure:
  assumes ok: "bmap_ok (qp_map d)" and run: "run_state (xib_create_qp env a IB_QPT_RC None qp0 d) log = (Some (r, qp, d'), log')"
    and fails: "r \<noteq> 0"
  shows "r < 0 \<and> qp_list d' = qp_list d \<and> gsi_qp d' = gsi_qp d \<and>
    (bmap_free (qp_map d') = bmap_free (qp_map d) \<or>
     bmap_free (qp_map d') = bmap_free (qp_map d) - {unat (hw_qpn qp)} \<and>
       (\<not> le_kcalloc env 0 \<or> ia_cq_cqe a < ia_max_send_wr a \<or> \<not> le_kcalloc env 3))"
proof (cases "check_qp_depths (ia_max_send_wr a) \<and> check_qp_depths (ia_max_recv_wr a) \<and> \<not> ia_srq a")
  case True
  then have "\<exists>l. run_state (xib_create_kernel_qp env a qp0 d) log = (Some (r, qp, d'), l)"
    using run by (auto simp: xib_create_qp_def split: option.splits prod.splits)
  then obtain l where "run_state (xib_create_kernel_qp env a qp0 d) log = (Some (r, qp, d'), l)" by blast
  with ok show ?thesis by (cases rule: create_kernel_qp_cases) (use fails in auto)
next
  case False
  then show ?thesis using run by (auto simp: xib_create_qp_def split: if_splits)
qed

text \<open>a queue pair created for the kernel has memory for half of the identifiers its send queue can hold: the array is
  allocated with the size of the identifier, not of the array's element, so from the middle of the
  ring on identifiers are stored outside it.\<close>

theorem create_qp_wr_ids_half:
  assumes ok: "bmap_ok (qp_map d)"
    and run: "run_state (xib_create_qp env a IB_QPT_RC None qp0 d) log = (Some (0, qp, d'), log')"
  shows "2 * length (wr_id_array (sq qp)) \<le> unat (sq_max_wr (sq qp)) \<and> 0 < sq_max_wr (sq qp)"
proof -
  note k = create_qp_kernel [OF run, simplified]
  obtain l where kr: "run_state (xib_create_kernel_qp env a qp0 d) log = (Some (0, qp, d'), l)" using k(1) by blast
  have pos: "0 < ia_max_send_wr a" using k(2) by (simp add: check_qp_depths_def word_neq_0_conv)
  show ?thesis using ok kr
  proof (cases rule: create_kernel_qp_cases)
    case (created qp1)
    then show ?thesis using pos by (simp add: set_arrays_def zero_counters_def array_of_def unat_div)
  qed simp_all
qed

text \<open>With memory at hand and a free number only the three later failures are left.\<close>

lemma create_qp_with_memory:
  assumes ok: "bmap_ok (qp_map d)" "bmap_free (qp_map d) \<noteq> {}"
    and dbs: "unat (max_count (qp_map d)) \<le> length (qp1_sq_db (xl d))" "unat (max_count (qp_map d)) \<le> length (qp1_rq_db (xl d))"
    and mem: "\<And>ms len old. \<exists>va pa ms'. buf_alloc env ms (le_rq_mem env) len old = Some (va, pa, ms') \<and> va \<noteq> 0"
      "\<And>ms q len old. \<exists>va pa ms'. buf_alloc env ms (sq_from env q) len old = Some (va, pa, ms') \<and> va \<noteq> 0"
    and attr: "\<not> ia_srq a" "check_qp_depths (ia_max_send_wr a)" "check_qp_depths (ia_max_recv_wr a)"
  shows "\<exists>qp d' log'. run_state (xib_create_qp env a IB_QPT_RC None qp0 d) log =
      (Some (if le_kcalloc env 0 \<and> \<not> ia_cq_cqe a < ia_max_send_wr a \<and> le_kcalloc env 3 then 0 else - ENOMEM, qp, d'), log') \<and>
    unat (hw_qpn qp) \<in> bmap_free (qp_map d) \<and> bmap_free (qp_map d') = bmap_free (qp_map d) - {unat (hw_qpn qp)}"
proof -
  obtain ret num bm where id: "xib_bmap_alloc_id (qp_map d) = (ret, num, bm)" by (metis prod_cases3)
  have ret: "\<not> ret < 0" using alloc_id_cases [OF ok(1) id] ok(2) by auto
  note t = alloc_id_takes [OF ok(1) id ret]
  have num: "unat num < unat (max_count (qp_map d))" using t(1) by (simp add: bmap_free_def)
  have buf: "\<exists>qp' d' log'. run_state (xib_alloc_qp_buffers env q (d\<lparr>qp_map := bm\<rparr>)) log = (Some (0, qp', d'), log')"
    if q: "hw_qpn q = num" for q
  proof -
    obtain va pa ms where 1: "buf_alloc env (dev_mem d) (le_rq_mem env) (rq_bytes q) (rq_ba_p (rq q)) = Some (va, pa, ms)" "va \<noteq> 0"
      using mem(1) by blast
    obtain va' pa' ms' where 2: "buf_alloc env ms (sq_from env q) (sq_bytes q) (sq_ba_p q) = Some (va', pa', ms')" "va' \<noteq> 0"
      using mem(2) by blast
    show ?thesis using 1 2 q num dbs
      by (simp add: xib_alloc_qp_buffers_def Let_def run_set_base program_queue_depth_def program_dbs_def program_sq_db_def
          program_rq_db_def xrnic_get_sq_db_addr_def xrnic_get_rq_db_addr_def)
  qed
  have nz: "ia_max_send_wr a \<noteq> 0" "ia_max_recv_wr a \<noteq> 0" using attr by (auto simp: check_qp_depths_def)
  define q1 where "q1 = set_depths a (if ia_max_recv_sge a < 2 then 2 else ia_max_recv_sge a)
    (qp0\<lparr>hw_qpn := num, io_qp := io_qp qp0 \<or> ia_hw_ofld a\<rparr>)"
  have q1: "hw_qpn q1 = num" by (simp add: q1_def set_depths_def)
  obtain qb db lb where b: "run_state (xib_alloc_qp_buffers env q1 (d\<lparr>qp_map := bm\<rparr>)) log = (Some (0, qb, db), lb)"
    using buf [OF q1] by blast
  note e = alloc_qp_buffers_effect [OF b]
  let ?r = "if le_kcalloc env 0 \<and> \<not> ia_cq_cqe a < ia_max_send_wr a \<and> le_kcalloc env 3 then 0 else - ENOMEM :: int"
  have "\<exists>qp d' l. run_state (xib_create_kernel_qp env a qp0 d) log = (Some (?r, qp, d'), l) \<and> hw_qpn qp = num \<and> qp_map d' = bm"
    using nz ret e(2,5) q1 unfolding xib_create_kernel_qp_def id
    by (simp add: Let_def q1_def [symmetric] b run_set_base xrnic_qp_set_pd_def set_arrays_def zero_counters_def xib_qp_add_def)
  then obtain qp d' l where "run_state (xib_create_kernel_qp env a qp0 d) log = (Some (?r, qp, d'), l)" "hw_qpn qp = num" "qp_map d' = bm"
    by blast
  then show ?thesis using attr t(1,2) by (cases "run_state (init_retry_cnt (le_hw env) num) l") (simp add: xib_create_qp_def)
qed

text \<open>with memory at hand, a completion queue smaller than the send queue makes the creation fail after the number was
  taken, and it is not given back: every attempt takes a number out of the bitmap for good.\<close>

theorem create_qp_small_cq_leaks:
  assumes "bmap_ok (qp_map d)" "bmap_free (qp_map d) \<noteq> {}"
    and "unat (max_count (qp_map d)) \<le> length (qp1_sq_db (xl d))" "unat (max_count (qp_map d)) \<le> length (qp1_rq_db (xl d))"
    and "\<And>ms len old. \<exists>va pa ms'. buf_alloc env ms (le_rq_mem env) len old = Some (va, pa, ms') \<and> va \<noteq> 0"
      "\<And>ms q len old. \<exists>va pa ms'. buf_alloc env ms (sq_from env q) len old = Some (va, pa, ms') \<and> va \<noteq> 0"
    and "\<not> ia_srq a" "check_qp_depths (ia_max_send_wr a)" "check_qp_depths (ia_max_recv_wr a)" "ia_cq_cqe a < ia_max_send_wr a"
  shows "\<exists>qp d' log'. run_state (xib_create_qp env a IB_QPT_RC None qp0 d) log = (Some (- ENOMEM, qp, d'), log') \<and>
    unat (hw_qpn qp) \<in> bmap_free (qp_map d) \<and> bmap_free (qp_map d') = bmap_free (qp_map d) - {unat (hw_qpn qp)}"
  using create_qp_with_memory [of d env a qp0 log] assms by simp

subsection \<open>Reset and destruction\<close>

definition rq_drain_poll :: "u32 \<Rightarrow> io list" where
  "rq_drain_poll q = [IoR (XRNIC_RQ_CONS_IDX q), IoR (XRNIC_STAT_RQ_PROD_IDX q)]"

lemma wait_rq_drained_returns:
  assumes "t + hz < jiffies (log @ concat (replicate (Suc n) (rq_drain_poll q)))"
  shows "\<exists>new. wait_rq_drained hw jiffies hz t q log = Some (log @ new) \<and> reads_only new"
  using assms
proof (induction n arbitrary: log)
  case 0
  then show ?case by (subst wait_rq_drained.simps) (simp add: Let_def rq_drain_poll_def)
next
  case (Suc n)
  obtain new where "wait_rq_drained hw jiffies hz t q (log @ rq_drain_poll q) = Some ((log @ rq_drain_poll q) @ new)"
      "reads_only new"
    using Suc.IH [of "log @ rq_drain_poll q"] Suc.prems by auto
  then show ?case by (subst wait_rq_drained.simps) (auto simp: Let_def rq_drain_poll_def)
qed

lemma reset_waits_return:
  assumes drains: "\<And>log. \<exists>n. drop_bit 9 (hw (log @ replicate n (IoR (XRNIC_STAT_QP q))) (XRNIC_STAT_QP q)) AND 3 \<noteq> 0"
    and clock: "\<And>log t. \<exists>n. t < jiffies (log @ concat (replicate (Suc n) (drain_poll q)))"
      "\<And>log t. \<exists>n. t < jiffies (log @ concat (replicate (Suc n) (rq_drain_poll q)))"
  shows "\<exists>new. reads_only new \<and> xrnic_reset_user_qp hw jiffies hz q x log = Some (run_state (reset_registers hw q x) (log @ new))"
proof -
  obtain n1 where n1: "wait_sq_empty hw q log = Some (log @ n1)" "reads_only n1"
    using drains [of log] wait_sq_empty_returns by blast
  let ?l1 = "log @ n1"
  obtain n2 where n2: "wait_sq_drained hw jiffies hz (jiffies ?l1) q ?l1 = Some (?l1 @ n2)" "reads_only n2"
    using clock(1) [of "jiffies ?l1 + hz" ?l1] wait_sq_drained_returns by blast
  let ?l2 = "?l1 @ n2"
  obtain n3 where n3: "wait_rq_drained hw jiffies hz (jiffies ?l2) q ?l2 = Some (?l2 @ n3)" "reads_only n3"
    using clock(2) [of "jiffies ?l2 + hz" ?l2] wait_rq_drained_returns by blast
  show ?thesis using n1 n2 n3 by (intro exI [of _ "n1 @ n2 @ n3"]) (simp add: xrnic_reset_user_qp_def)
qed

lemma reset_registers_returns:
  assumes "unat q < length (qp1_sq_db x)" "unat q < length (qp1_rq_db x)"
  shows "fst (run_state (reset_registers hw q x) log) =
    Some (x\<lparr>qp1_rq_db := (qp1_rq_db x)[unat q := 0], qp1_sq_db := (qp1_sq_db x)[unat q := 0]\<rparr>)"
  using assms
  by (simp add: reset_registers_def program_rq_db_def program_sq_db_def xrnic_get_sq_db_addr_def xrnic_get_rq_db_addr_def
      run_set_base Let_def case_prod_beta)

text \<open>Destruction returns: the number is free again, the entry in the table is gone, the doorbell words are zero and so
  is the configuration register.\<close>

lemma destroy_kernel_qp:
  assumes ok: "bmap_ok (qp_map d)" "unat (hw_qpn qp) < unat (max_count (qp_map d))" "unat (hw_qpn qp) < length (qp_list d)"
    and dbs: "unat (hw_qpn qp) < length (qp1_sq_db (xl d))" "unat (hw_qpn qp) < length (qp1_rq_db (xl d))"
    and ty: "qp_type qp = XIB_QP_TYPE_KERNEL" and hw: "readback (le_hw env) {XRNIC_QP_CONF (hw_qpn qp)}"
    and drains: "\<And>log. \<exists>n. drop_bit 9 (le_hw env (log @ replicate n (IoR (XRNIC_STAT_QP (hw_qpn qp)))) (XRNIC_STAT_QP (hw_qpn qp))) AND 3 \<noteq> 0"
    and clock: "\<And>log t. \<exists>n. t < jiffies (log @ concat (replicate (Suc n) (drain_poll (hw_qpn qp))))"
      "\<And>log t. \<exists>n. t < jiffies (log @ concat (replicate (Suc n) (rq_drain_poll (hw_qpn qp))))"
  shows "\<exists>d' log'. xib_destroy_qp env jiffies hz qp d log = Some (d', log') \<and>
    bmap_free (qp_map d') = insert (unat (hw_qpn qp)) (bmap_free (qp_map d)) \<and> qp_list d' ! unat (hw_qpn qp) = None \<and>
    qp1_rq_db (xl d') ! unat (hw_qpn qp) = 0 \<and> qp1_sq_db (xl d') ! unat (hw_qpn qp) = 0 \<and>
    le_hw env log' (XRNIC_QP_CONF (hw_qpn qp)) = 0"
proof -
  obtain new where r: "xrnic_reset_user_qp (le_hw env) jiffies hz (hw_qpn qp) (xl d) log =
      Some (run_state (reset_registers (le_hw env) (hw_qpn qp) (xl d)) (log @ new))"
    using reset_waits_return [of "le_hw env" "hw_qpn qp" jiffies, OF drains clock] by blast
  obtain bm where bm: "xib_bmap_release_id (qp_map d) (hw_qpn qp) = Some bm" "bmap_free bm = insert (unat (hw_qpn qp)) (bmap_free (qp_map d))"
    using release_id_free [OF ok(1,2)] by blast
  obtain l where l: "run_state (reset_registers (le_hw env) (hw_qpn qp) (xl d)) (log @ new) =
      (Some ((xl d)\<lparr>qp1_rq_db := (qp1_rq_db (xl d))[unat (hw_qpn qp) := 0], qp1_sq_db := (qp1_sq_db (xl d))[unat (hw_qpn qp) := 0]\<rparr>), l)"
    using reset_registers_returns [OF dbs] by (metis prod.collapse)
  have "le_hw env (l @ [IoW (XRNIC_QP_CONF (hw_qpn qp)) 0]) (XRNIC_QP_CONF (hw_qpn qp)) = 0"
    using hw by (simp add: readback_def)
  then show ?thesis using r l bm ty ok(3) dbs
    by (simp add: xib_destroy_qp_def destroy_tail_def xrnic_qp_disable_def)
qed

text \<open>C16: when the hardware eventually reports the queues empty and the clock runs, a queue pair that was created for the
  kernel can be destroyed: the call returns, the free numbers are those from before the creation, the table no
  longer knows the queue pair, and the device has it switched off.\<close>

theorem create_then_destroy:
  assumes ok: "bmap_ok (qp_map d)" "unat (max_count (qp_map d)) \<le> length (qp_list d)"
    and dbs: "unat (max_count (qp_map d)) \<le> length (qp1_sq_db (xl d))" "unat (max_count (qp_map d)) \<le> length (qp1_rq_db (xl d))"
    and run: "run_state (xib_create_qp env a IB_QPT_RC None qp0 d) log = (Some (0, qp, d1), log1)"
    and hw: "readback (le_hw env) {XRNIC_QP_CONF (hw_qpn qp)}"
    and drains: "\<And>log. \<exists>n. drop_bit 9 (le_hw env (log @ replicate n (IoR (XRNIC_STAT_QP (hw_qpn qp)))) (XRNIC_STAT_QP (hw_qpn qp))) AND 3 \<noteq> 0"
    and clock: "\<And>log t. \<exists>n. t < jiffies (log @ concat (replicate (Suc n) (drain_poll (hw_qpn qp))))"
      "\<And>log t. \<exists>n. t < jiffies (log @ concat (replicate (Suc n) (rq_drain_poll (hw_qpn qp))))"
  shows "\<exists>d' log'. xib_destroy_qp env jiffies hz qp d1 log1 = Some (d', log') \<and>
    bmap_free (qp_map d') = bmap_free (qp_map d) \<and> qp_list d' ! unat (hw_qpn qp) = None \<and>
    le_hw env log' (XRNIC_QP_CONF (hw_qpn qp)) = 0"
proof -
  obtain l where kr: "run_state (xib_create_kernel_qp env a qp0 d) log = (Some (0, qp, d1), l)"
    using create_qp_kernel(1) [OF run] by blast
  show ?thesis using ok(1) kr
  proof (cases rule: create_kernel_qp_cases)
    case (created qp1)
    have n: "unat (hw_qpn qp) < unat (max_count (qp_map d))" using created(2) by (simp add: bmap_free_def)
    have ty: "qp_type qp = XIB_QP_TYPE_KERNEL" using created(8) by (simp add: set_arrays_def zero_counters_def)
    have "insert (unat (hw_qpn qp)) (bmap_free (qp_map d1)) = bmap_free (qp_map d)" using created(2,3) by auto
    then show ?thesis
      using destroy_kernel_qp [of d1 qp env jiffies hz log1, OF created(4) _ _ _ _ ty hw drains clock] n ok(2) dbs
        created(5,6) created(14,15) by auto
  qed simp_all
qed

text \<open>destroying a queue pair of a user process gives its number back but leaves its entry in the table: until the
  number is used again the interrupt handlers find the object that the core has freed.\<close>

theorem destroy_user_qp_keeps_entry:
  assumes "qp_type qp = XIB_QP_TYPE_USER" "xib_destroy_qp env jiffies hz qp d log = Some (d', log')"
    and "bmap_ok (qp_map d)" "unat (hw_qpn qp) < unat (max_count (qp_map d))"
  shows "qp_list d' = qp_list d \<and> unat (hw_qpn qp) \<in> bmap_free (qp_map d')"
  using assms release_id_free [OF assms(3,4)]
  by (auto simp: xib_destroy_qp_def destroy_tail_def bind_eq_Some_conv)

subsection \<open>Examples\<close>

definition demo_life_env :: life_env where
  "demo_life_env = \<lparr>le_hw = ready_hw 0, le_dma = (\<lambda>dev len. Some (0x1000, 0x2000)), le_kz = True, le_virt = (\<lambda>a. True),
     le_sq_mem = ''ps'', le_rq_mem = ''ps'', le_kcalloc = (\<lambda>n. True)\<rparr>"

definition demo_life_dev :: life_dev where
  "demo_life_dev = \<lparr>qp_list = [None], gsi_qp = None, max_qp = 1, xl = demo_xl\<lparr>qp1_sq_db := [7], qp1_rq_db := [7]\<rparr>,
     qp_map = \<lparr>bitmap = replicate 64 False, max_count = 1\<rparr>,
     dev_mem = \<lparr>bram_mem_mgr = [], bram_ctrl_cnt = 0, eddr_mem_mgr = None, pl_alloc_dev = False\<rparr>\<rparr>"

definition demo_init :: init_attr where
  "demo_init = \<lparr>ia_max_send_wr = 4, ia_max_recv_wr = 8, ia_max_recv_sge = 2, ia_hw_ofld = False, ia_srq = False,
     ia_pdn = 1, ia_cq_buf_p = 0x9000, ia_cq_cqe = 4\<rparr>"

definition demo_new_qp :: xib_qp where
  "demo_new_qp = demo_qp\<lparr>rq := (rq demo_qp)\<lparr>prod := 0, cons := 0\<rparr>\<rparr>"

lemma demo_ids: "bmap_ok (qp_map demo_life_dev)" "bmap_free (qp_map demo_life_dev) = {0}"
  by (auto simp: demo_life_dev_def bmap_ok_def bmap_free_def)

lemma demo_sizes:
  "max_count (qp_map demo_life_dev) = 1" "length (qp_list demo_life_dev) = 1"
  "length (qp1_sq_db (xl demo_life_dev)) = 1" "length (qp1_rq_db (xl demo_life_dev)) = 1"
  by (simp_all add: demo_life_dev_def)

lemma demo_memory:
  "\<exists>va pa ms'. buf_alloc demo_life_env ms ''ps'' len old = Some (va, pa, ms') \<and> va \<noteq> 0"
  by (simp add: buf_alloc_def xib_alloc_coherent_def demo_life_env_def dma_fallback_def xib_get_alloc_dev_def strcaseeq_def)

lemma demo_from: "le_rq_mem demo_life_env = ''ps''" "sq_from demo_life_env q = ''ps''"
  by (simp_all add: demo_life_env_def sq_from_def strcaseeq_def)

lemma demo_attr:
  "\<not> ia_srq demo_init" "check_qp_depths (ia_max_send_wr demo_init)" "check_qp_depths (ia_max_recv_wr demo_init)"
  by (simp_all add: demo_init_def check_qp_depths_def)

lemma demo_created:
  obtains qp d' log' where
    "run_state (xib_create_qp demo_life_env demo_init IB_QPT_RC None demo_new_qp demo_life_dev) [] = (Some (0, qp, d'), log')"
    "hw_qpn qp = 0"
proof -
  obtain qp d' log' where r:
      "run_state (xib_create_qp demo_life_env demo_init IB_QPT_RC None demo_new_qp demo_life_dev) [] =
        (Some (if le_kcalloc demo_life_env 0 \<and> \<not> ia_cq_cqe demo_init < ia_max_send_wr demo_init \<and> le_kcalloc demo_life_env 3
           then 0 else - ENOMEM, qp, d'), log')" "unat (hw_qpn qp) \<in> {0}"
    using create_qp_with_memory [of demo_life_dev demo_life_env demo_init demo_new_qp "[]"] demo_ids demo_sizes demo_memory demo_from demo_attr
    by auto
  then show ?thesis using that by (simp add: demo_life_env_def demo_init_def unsigned_eq_0_iff)
qed

definition demo_attr_to :: "ib_qp_state \<Rightarrow> qp_attr" where
  "demo_attr_to s = \<lparr>at_state = s, at_traffic_class = 0, at_hop_limit = 64, at_sgid = replicate 16 0, at_dgid = replicate 16 0,
     at_dmac = replicate 6 0, at_retry_cnt = 7, at_rnr_retry = 7, at_sq_psn = 0, at_rq_psn = 0, at_dest_qp_num = 2, at_nvmf_rhost = 0\<rparr>"

theorem modify_qp_refused_witness:
  "run_state (xib_modify_qp (reg_value (\<lambda>_. 0)) (\<lambda>cur new m. cur = new) 4 0 (demo_attr_to IB_QPS_RTS) IB_QP_STATE demo_qp demo_xl) [] =
     (Some (- EINVAL, demo_qp, demo_xl), [])"
  by (rule modify_qp_refused) (simp_all add: IB_QP_STATE_def IB_ENABLE_QP_HW_ACCL_def IB_QP_RST_RQ_def IB_QP_RST_SQ_CQ_def
      demo_attr_to_def demo_qp_def)

theorem modify_then_query_witness:
  "\<exists>qp' x' log'. run_state (xib_modify_qp (reg_value (\<lambda>_. 0)) (\<lambda>cur new m. True) 4 0 (demo_attr_to IB_QPS_INIT) IB_QP_STATE demo_qp demo_xl) [] =
     (Some (0, qp', x'), log') \<and> qq_state (xib_query_qp qp') = IB_QPS_INIT"
proof -
  let ?run = "run_state (xib_modify_qp (reg_value (\<lambda>_. 0)) (\<lambda>cur new m. True) 4 0 (demo_attr_to IB_QPS_INIT) IB_QP_STATE demo_qp demo_xl) []"
  have normal: "IB_QP_STATE AND (IB_ENABLE_QP_HW_ACCL OR IB_QP_RST_RQ OR IB_QP_RST_SQ_CQ) = 0"
    by (simp add: IB_QP_STATE_def IB_ENABLE_QP_HW_ACCL_def IB_QP_RST_RQ_def IB_QP_RST_SQ_CQ_def)
  obtain qp' x' log' where r: "?run = (Some (0, qp', x'), log')"
    using modify_normal [OF normal] by (auto simp: xib_modify_qp_def Let_def case_prod_beta)
  have "IB_QP_STATE AND IB_QP_STATE \<noteq> 0" by (simp add: IB_QP_STATE_def)
  then show ?thesis using r modify_then_query [OF normal r] by (auto simp: demo_attr_to_def)
qed

theorem enable_hw_accl_forgets_pending_witness:
  "run_state (xib_enable_hw_accl (reg_value (\<lambda>_. 0)) (demo_qp\<lparr>hw_qpn := 0\<rparr>) (demo_xl\<lparr>qp1_sq_db := [7], qp1_rq_db := [7]\<rparr>)) [] =
   run_state (xib_enable_hw_accl (reg_value (\<lambda>_. 0)) (demo_qp\<lparr>hw_qpn := 0\<rparr>) (demo_xl\<lparr>qp1_sq_db := [7], qp1_rq_db := [0]\<rparr>)) []"
  by (rule enable_hw_accl_forgets_pending) (auto simp: nth_Cons split: nat.splits)

theorem create_qp_wellformed_witness:
  "\<exists>qp d' log'. run_state (xib_create_qp demo_life_env demo_init IB_QPT_RC None demo_new_qp demo_life_dev) [] = (Some (0, qp, d'), log') \<and>
     rq_ok (rq qp) \<and> rq_contents (rq qp) = [] \<and> qp_list d' ! unat (hw_qpn qp) = Some qp"
proof -
  obtain qp d' log' where r: "run_state (xib_create_qp demo_life_env demo_init IB_QPT_RC None demo_new_qp demo_life_dev) [] =
      (Some (0, qp, d'), log')" by (rule demo_created)
  then show ?thesis
    using create_qp_wellformed [OF demo_ids(1) _ _ _ r] by (auto simp: demo_sizes demo_new_qp_def)
qed

theorem create_qp_wr_ids_half_witness:
  "\<exists>qp d' log'. run_state (xib_create_qp demo_life_env demo_init IB_QPT_RC None demo_new_qp demo_life_dev) [] = (Some (0, qp, d'), log') \<and>
     length (wr_id_array (sq qp)) < unat (sq_max_wr (sq qp))"
proof -
  obtain qp d' log' where r: "run_state (xib_create_qp demo_life_env demo_init IB_QPT_RC None demo_new_qp demo_life_dev) [] =
      (Some (0, qp, d'), log')" by (rule demo_created)
  have "0 < sq_max_wr (sq qp) \<Longrightarrow> 0 < unat (sq_max_wr (sq qp))" by (simp add: unat_gt_0 word_neq_0_conv)
  then show ?thesis using r create_qp_wr_ids_half [OF demo_ids(1) r] by auto
qed

theorem create_qp_failure_witness:
  "\<exists>r qp d' log'. run_state (xib_create_qp demo_life_env (demo_init\<lparr>ia_max_send_wr := 6\<rparr>) IB_QPT_RC None demo_new_qp demo_life_dev) [] =
     (Some (r, qp, d'), log') \<and> r < 0 \<and> qp_list d' = qp_list demo_life_dev"
proof -
  have r: "run_state (xib_create_qp demo_life_env (demo_init\<lparr>ia_max_send_wr := 6\<rparr>) IB_QPT_RC None demo_new_qp demo_life_dev) [] =
      (Some (- EINVAL, demo_new_qp, demo_life_dev), [])"
    by (simp add: xib_create_qp_def check_qp_depths_def demo_init_def)
  show ?thesis using r create_qp_failure [OF demo_ids(1) r] by auto
qed

theorem create_qp_small_cq_leaks_witness:
  "\<exists>qp d' log'. run_state (xib_create_qp demo_life_env (demo_init\<lparr>ia_cq_cqe := 2\<rparr>) IB_QPT_RC None demo_new_qp demo_life_dev) [] =
     (Some (- ENOMEM, qp, d'), log') \<and> bmap_free (qp_map d') = {}"
  using create_qp_small_cq_leaks [of demo_life_dev demo_life_env "demo_init\<lparr>ia_cq_cqe := 2\<rparr>" demo_new_qp "[]"]
    demo_ids demo_sizes demo_memory demo_from demo_attr
  by (auto simp: demo_init_def)

theorem create_then_destroy_witness:
  "\<exists>qp d1 log1 d' log'. run_state (xib_create_qp demo_life_env demo_init IB_QPT_RC None demo_new_qp demo_life_dev) [] = (Some (0, qp, d1), log1) \<and>
     xib_destroy_qp demo_life_env length 100 qp d1 log1 = Some (d', log') \<and> bmap_free (qp_map d') = {0}"
proof -
  obtain qp d1 log1 where r: "run_state (xib_create_qp demo_life_env demo_init IB_QPT_RC None demo_new_qp demo_life_dev) [] =
      (Some (0, qp, d1), log1)" and q: "hw_qpn qp = 0" by (rule demo_created)
  have "\<exists>d' log'. xib_destroy_qp demo_life_env length 100 qp d1 log1 = Some (d', log') \<and>
    bmap_free (qp_map d') = bmap_free (qp_map demo_life_dev) \<and> qp_list d' ! unat (hw_qpn qp) = None \<and>
    le_hw demo_life_env log' (XRNIC_QP_CONF (hw_qpn qp)) = 0"
  proof (rule create_then_destroy [OF demo_ids(1) _ _ _ r])
    show "readback (le_hw demo_life_env) {XRNIC_QP_CONF (hw_qpn qp)}"
      using reg_value_cong [of "\<lambda>_. 0x31" _ "ready_hw 0 []"]
      by (simp add: q readback_def ready_hw_def qreg_defs demo_life_env_def)
    show "\<exists>n. drop_bit 9 (le_hw demo_life_env (log @ replicate n (IoR (XRNIC_STAT_QP (hw_qpn qp)))) (XRNIC_STAT_QP (hw_qpn qp))) AND 3 \<noteq> 0" for log
      by (simp add: q ready_hw_def demo_life_env_def)
    show "\<exists>n. t < length (log @ concat (replicate (Suc n) (drain_poll (hw_qpn qp))))" for log t
      by (rule exI [of _ t]) (simp add: length_concat sum_list_replicate drain_poll_def)
    show "\<exists>n. t < length (log @ concat (replicate (Suc n) (rq_drain_poll (hw_qpn qp))))" for log t
      by (rule exI [of _ t]) (simp add: length_concat sum_list_replicate rq_drain_poll_def)
  qed (simp_all add: demo_sizes)
  then show ?thesis using r demo_ids(2) by auto
qed

theorem destroy_user_qp_keeps_entry_witness:
  "\<exists>d' log'. xib_destroy_qp demo_life_env length 100 (demo_qp\<lparr>hw_qpn := 0, qp_type := XIB_QP_TYPE_USER\<rparr>)
      (demo_life_dev\<lparr>qp_list := [Some demo_qp]\<rparr>) [] = Some (d', log') \<and> qp_list d' = [Some demo_qp] \<and> 0 \<in> bmap_free (qp_map d')"
proof -
  let ?qp = "demo_qp\<lparr>hw_qpn := 0, qp_type := XIB_QP_TYPE_USER\<rparr>" let ?d = "demo_life_dev\<lparr>qp_list := [Some demo_qp]\<rparr>"
  have "\<exists>new. reads_only new \<and> xrnic_reset_user_qp (ready_hw 0) length 100 0 (xl ?d) [] =
      Some (run_state (reset_registers (ready_hw 0) 0 (xl ?d)) ([] @ new))"
  proof (rule reset_waits_return)
    show "\<exists>n. drop_bit 9 (ready_hw 0 (log @ replicate n (IoR (XRNIC_STAT_QP 0))) (XRNIC_STAT_QP 0)) AND 3 \<noteq> 0" for log
      by (simp add: ready_hw_def)
    show "\<exists>n. t < length (log @ concat (replicate (Suc n) (drain_poll 0)))" for log t
      by (rule exI [of _ t]) (simp add: length_concat sum_list_replicate drain_poll_def)
    show "\<exists>n. t < length (log @ concat (replicate (Suc n) (rq_drain_poll 0)))" for log t
      by (rule exI [of _ t]) (simp add: length_concat sum_list_replicate rq_drain_poll_def)
  qed
  then obtain new where new: "xrnic_reset_user_qp (ready_hw 0) length 100 0 (xl ?d) [] =
      Some (run_state (reset_registers (ready_hw 0) 0 (xl ?d)) new)" by auto
  have "\<exists>x. fst (run_state (reset_registers (ready_hw 0) 0 (xl ?d)) new) = Some x"
    using reset_registers_returns [of 0 "xl ?d" "ready_hw 0" new] demo_sizes by simp
  then obtain x l where "run_state (reset_registers (ready_hw 0) 0 (xl ?d)) new = (Some x, l)" by (metis prod.collapse)
  then have "xrnic_reset_user_qp (ready_hw 0) length 100 0 (xl ?d) [] = Some (Some x, l)" using new by simp
  then obtain d' log' where r: "xib_destroy_qp demo_life_env length 100 ?qp ?d [] = Some (d', log')"
    using release_id_free [OF demo_ids(1), of 0] demo_sizes
    by (auto simp: xib_destroy_qp_def destroy_tail_def demo_life_env_def)
  then show ?thesis
    using destroy_user_qp_keeps_entry [OF _ r] demo_ids demo_sizes by (auto simp: demo_life_dev_def)
qed

end
