(* ===== verification/Xib_Verbs.thy ===== *)
theory Xib_Verbs
  imports Xib_Qp_Life
begin

text \<open>
  The remaining entry points of the verbs provider, \<open>recipes-modules/xib-module/files/main.c\<close> and \<open>xib_reg_user_mr\<close> of
  \<open>verbs.c\<close>: protection domains, memory regions, completion queues, the user's mapping, queries and dispatch.
  The random byte of a key and the answers of the kernel's page and copy functions are arguments.
\<close>

unbundle bit_operations_syntax

subsection \<open>Protection domains\<close>

text \<open>\<open>user\<close> is what the copy to user space returns, when there is a user context.  The return value, the number and the
  bitmap; \<open>None\<close> is a bit outside the bitmap.\<close>

definition xib_alloc_pd :: "int option \<Rightarrow> xib_bmap \<Rightarrow> (int \<times> u32 \<times> xib_bmap) option" where
  "xib_alloc_pd user m =
     (case xib_bmap_alloc_id m of (ret, pdn, m') \<Rightarrow>
        if ret < 0 then Some (ret, pdn, m')
        else case user of
          None \<Rightarrow> Some (0, pdn, m')
        | Some copy \<Rightarrow> if copy \<noteq> 0 then map_option (\<lambda>m''. (copy, pdn, m'')) (xib_bmap_release_id m' pdn) else Some (0, pdn, m'))"

definition xib_dealloc_pd :: "u32 \<Rightarrow> xib_bmap \<Rightarrow> (int \<times> xib_bmap) option" where
  "xib_dealloc_pd pdn m = map_option (\<lambda>m'. (0, m')) (xib_bmap_release_id m pdn)"

subsection \<open>Memory regions\<close>

datatype xib_mr_type = XIB_MR_DMA | XIB_MR_USER

record xib_mr =
  ib_lkey :: u32
  ib_rkey :: u32
  mr_idx :: u32
  mr_pd :: u32
  mr_type :: xib_mr_type
  mr_key :: u8

definition new_mr :: "u32 \<Rightarrow> u8 \<Rightarrow> u32 \<Rightarrow> xib_mr" where
  "new_mr idx key pd = \<lparr>ib_lkey = push_bit 8 idx OR ucast key, ib_rkey = push_bit 8 idx OR ucast key, mr_idx = idx, mr_pd = pd,
     mr_type = XIB_MR_USER, mr_key = key\<rparr>"

definition xib_alloc_mr :: "bool \<Rightarrow> u8 \<Rightarrow> u32 \<Rightarrow> xib_bmap \<Rightarrow> xib_mr option \<times> xib_bmap" where
  "xib_alloc_mr kz key pdn m =
     (if \<not> kz then (None, m)
      else case xib_bmap_alloc_id m of (ret, idx, m') \<Rightarrow> if ret < 0 then (None, m') else (Some (new_mr idx key pdn), m'))"

text \<open>For kernel clients; the region's own \<open>pd\<close> stays zero.  The outer \<open>None\<close> is a fault.\<close>

definition xib_reg_mr ::
  "bool \<Rightarrow> u8 \<Rightarrow> u64 \<Rightarrow> u64 \<Rightarrow> u64 \<Rightarrow> u32 \<Rightarrow> xib_bmap \<Rightarrow> (xib_mr option \<times> xib_bmap) option dev" where
  "xib_reg_mr kz key va len pa pdn m =
     (if \<not> kz then State_Monad.return (Some (None, m))
      else case xib_bmap_alloc_id m of (ret, idx, m') \<Rightarrow>
        if ret < 0 then State_Monad.return (Some (None, m'))
        else do {
          r \<leftarrow> xrnic_reg_mr va len [pa] pdn idx key;
          State_Monad.return
            (if r \<noteq> 0 then map_option (Pair None) (xib_bmap_release_id m' idx) else Some (Some (new_mr idx key 0), m'))})"

record sg_entry =
  sg_dma_address :: u64
  sg_offset :: u32
  sg_length :: u32

text \<open>A null list is dereferenced before it is compared with \<open>NULL\<close>.  On failure the region is freed and its number
  released, although the caller keeps both.  The flag says whether the region was freed.\<close>

definition xib_map_mr_sge :: "xib_mr \<Rightarrow> sg_entry option \<Rightarrow> int \<Rightarrow> xib_bmap \<Rightarrow> (int \<times> bool \<times> xib_bmap) option dev" where
  "xib_map_mr_sge mr sg nents m =
     (case sg of
        None \<Rightarrow> State_Monad.return None
      | Some e \<Rightarrow>
          if nents > 1 then State_Monad.return (map_option (\<lambda>m'. (- 1, True, m')) (xib_bmap_release_id m (mr_idx mr)))
          else do {
            r \<leftarrow> xrnic_reg_mr (ucast (sg_offset e)) (ucast (sg_length e)) [sg_dma_address e] (mr_pd mr) (mr_idx mr) (mr_key mr);
            State_Monad.return
              (if r \<noteq> 0 then map_option (\<lambda>m'. (- 1, True, m')) (xib_bmap_release_id m (mr_idx mr)) else Some (r, False, m))})"

text \<open>What the kernel answers to \<open>xib_reg_user_mr\<close>: success of \<open>kzalloc\<close> and of \<open>__get_free_page\<close>, the value of
  \<open>get_user_pages\<close>, and the physical address of the page that holds a virtual address.\<close>

record user_pages =
  up_kzalloc :: bool
  up_free_page :: bool
  up_gup :: int
  up_page :: "u64 \<Rightarrow> u64"

text \<open>Only the first page of the range is looked up, whatever the length.\<close>

definition xib_reg_user_mr ::
  "user_pages \<Rightarrow> u8 \<Rightarrow> u64 \<Rightarrow> u64 \<Rightarrow> u64 \<Rightarrow> u32 \<Rightarrow> xib_bmap \<Rightarrow> ((int + xib_mr) \<times> xib_bmap) dev" where
  "xib_reg_user_mr up key start len virt_addr pdn m =
     (if \<not> up_kzalloc up then State_Monad.return (Inl (- ENOMEM), m)
      else if \<not> up_free_page up then State_Monad.return (Inl (- ENOMEM), m)
      else if up_gup up < 0 then State_Monad.return (Inl (up_gup up), m)
      else case xib_bmap_alloc_id m of (ret, idx, m') \<Rightarrow>
        if ret < 0 then State_Monad.return (Inl ret, m')
        else do {
          xrnic_reg_mr virt_addr len [up_page up start] pdn idx key;
          State_Monad.return (Inr (new_mr idx key 0), m')})"

definition xib_get_dma_mr :: "bool \<Rightarrow> int + xib_mr" where
  "xib_get_dma_mr kz =
     (if \<not> kz then Inl (- ENOMEM)
      else Inr \<lparr>ib_lkey = 0x101, ib_rkey = 0x101, mr_idx = 0, mr_pd = 0, mr_type = XIB_MR_DMA, mr_key = 0\<rparr>)"

definition xib_kdereg_mr :: "xib_mr \<Rightarrow> xib_bmap \<Rightarrow> (int \<times> xib_bmap) option dev" where
  "xib_kdereg_mr mr m = State_Monad.return (map_option (Pair 0) (xib_bmap_release_id m (mr_idx mr)))"

text \<open>Neither the registers nor the type of the region are looked at.\<close>

definition xib_dereg_mr :: "xib_mr \<Rightarrow> xib_bmap \<Rightarrow> (int \<times> xib_bmap) option dev" where
  "xib_dereg_mr mr m = State_Monad.return (map_option (Pair 0) (xib_bmap_release_id m (mr_idx mr)))"

subsection \<open>Completion queues\<close>

datatype xib_cq_type = XIB_CQ_TYPE_GSI | XIB_CQ_TYPE_KERNEL | XIB_CQ_TYPE_USER

record xib_cq =
  cq_cqe :: int
  cq_buf_v :: u64
  cq_buf_p :: u64
  cq_type :: xib_cq_type

definition cqe_bytes :: "int \<Rightarrow> u64" where
  "cqe_bytes cqe = of_int (cqe * 4)"

text \<open>\<open>max\<close> is \<open>max_cq_wqes\<close>, \<open>cq_mem\<close> the module parameter.  The number of entries rounded to a power of two is computed and not
  used.\<close>

definition xib_create_cq :: "life_env \<Rightarrow> string \<Rightarrow> u32 \<Rightarrow> int \<Rightarrow> bool \<Rightarrow> xib_cq \<Rightarrow> mem_state \<Rightarrow> (int \<times> xib_cq \<times> mem_state) option" where
  "xib_create_cq env cq_mem mx cqe user cq ms =
     (if cqe < 1 \<or> cqe > int (unat mx) then Some (- EINVAL, cq, ms)
      else if user then Some (0, cq\<lparr>cq_cqe := cqe, cq_type := XIB_CQ_TYPE_USER\<rparr>, ms)
      else map_option (\<lambda>(va, pa, ms').
          (if va = 0 then - EFAULT else 0, cq\<lparr>cq_cqe := cqe, cq_type := XIB_CQ_TYPE_KERNEL, cq_buf_v := va, cq_buf_p := pa\<rparr>, ms'))
        (buf_alloc env ms cq_mem (cqe_bytes cqe) (cq_buf_p cq)))"

definition xib_destroy_cq :: "life_env \<Rightarrow> xib_cq \<Rightarrow> mem_state \<Rightarrow> int \<times> mem_state" where
  "xib_destroy_cq env cq ms =
     (0, if cq_type cq = XIB_CQ_TYPE_KERNEL then buf_free env ms (cqe_bytes (cq_cqe cq)) (cq_buf_p cq) else ms)"

datatype cq_polled =
    GsiPolled "(unit + nat \<times> ib_wc list \<times> xib_qp) option" | KernelPolled "(unit + poll_result) option" | NotPolled

definition xib_poll_cq ::
  "xib_cq \<Rightarrow> hardware \<Rightarrow> bool \<Rightarrow> u32 list \<Rightarrow> u32 \<Rightarrow> nat \<Rightarrow> ib_wc list \<Rightarrow> xib_qp \<Rightarrow> memory \<Rightarrow> cq_polled dev" where
  "xib_poll_cq cq hw ps cqes db num wc qp mem =
     (case cq_type cq of
        XIB_CQ_TYPE_GSI \<Rightarrow> do {r \<leftarrow> xib_gsi_poll_cq hw cqes num wc qp; State_Monad.return (GsiPolled r)}
      | XIB_CQ_TYPE_KERNEL \<Rightarrow> do {r \<leftarrow> xib_poll_kernel_cq hw ps cqes db num wc qp mem; State_Monad.return (KernelPolled r)}
      | XIB_CQ_TYPE_USER \<Rightarrow> State_Monad.return NotPolled)"

subsection \<open>User contexts\<close>

record ucontext_resp =
  re_qp_tab_size :: u32
  re_db_pa :: u64
  re_db_size :: u32
  re_cq_ci_db_pa :: u64
  re_rq_pi_db_pa :: u64
  re_cq_ci_db_size :: u32
  re_rq_pi_db_size :: u32

definition xib_alloc_ucontext :: "int \<Rightarrow> xib_dev \<Rightarrow> int \<times> ucontext_resp" where
  "xib_alloc_ucontext copy d =
     (copy, \<lparr>re_qp_tab_size = max_qp d, re_db_pa = db_pa (xl d), re_db_size = db_size (xl d),
        re_cq_ci_db_pa = qp1_sq_db_p (xl d), re_rq_pi_db_pa = qp1_rq_db_p (xl d),
        re_cq_ci_db_size = cq_rq_db_size (xl d), re_rq_pi_db_size = cq_rq_db_size (xl d)\<rparr>)"

text \<open>The mapping that is made: virtual start, page frame and length.  \<open>remap\<close> is whether \<open>io_remap_pfn_range\<close> succeeds.\<close>

definition xib_uctx_mmap :: "bool \<Rightarrow> u64 \<Rightarrow> u64 \<Rightarrow> u64 \<Rightarrow> int \<times> (u64 \<times> u64 \<times> u64) option" where
  "xib_uctx_mmap remap vm_start vm_end vm_pgoff =
     (if (vm_end - vm_start) mod 4096 \<noteq> 0 then (- EINVAL, None)
      else if \<not> remap then (- EAGAIN, None) else (0, Some (vm_start, vm_pgoff, vm_end - vm_start)))"

subsection \<open>Queries\<close>

record dev_attrs =
  da_max_pd :: u32
  da_max_cq_wqes :: u32
  da_max_qp :: u32
  da_max_mr :: u32
  da_max_send_sge :: u32

record device_props =
  dp_max_qp :: u32
  dp_max_send_sge :: u32
  dp_max_sge_rd :: u32
  dp_max_qp_wr :: u32
  dp_max_recv_sge :: u32
  dp_max_pd :: u32
  dp_max_mr :: u32
  dp_max_cq :: u32
  dp_max_cqe :: u32
  dp_max_pkeys :: u32
  dp_max_qp_rd_atom :: u32
  dp_max_qp_init_rd_atom :: u32

text \<open>\<open>app_qp_cnt\<close>, \<open>app_qp_depth\<close> and \<open>max_rq_sge\<close> are module parameters.\<close>

definition xib_query_device :: "u32 \<Rightarrow> u32 \<Rightarrow> u32 \<Rightarrow> dev_attrs \<Rightarrow> device_props" where
  "xib_query_device app_qp_cnt app_qp_depth max_rq_sge a =
     \<lparr>dp_max_qp = app_qp_cnt, dp_max_send_sge = da_max_send_sge a, dp_max_sge_rd = da_max_send_sge a, dp_max_qp_wr = app_qp_depth,
      dp_max_recv_sge = max_rq_sge, dp_max_pd = da_max_pd a, dp_max_mr = da_max_mr a, dp_max_cq = da_max_qp a - 1,
      dp_max_cqe = da_max_cq_wqes a, dp_max_pkeys = 1, dp_max_qp_rd_atom = 0x10, dp_max_qp_init_rd_atom = 0x10\<rparr>"

datatype ib_port_state = IB_PORT_DOWN | IB_PORT_ACTIVE

record port_props =
  pp_state :: ib_port_state
  pp_phys_state :: u8
  pp_gid_tbl_len :: int
  pp_max_msg_sz :: u32
  pp_pkey_tbl_len :: u16
  pp_active_speed :: u8
  pp_active_width :: u8

definition xib_query_port :: "bool \<Rightarrow> bool \<Rightarrow> u8 \<Rightarrow> u8 \<Rightarrow> port_props" where
  "xib_query_port running carrier speed width =
     (let up = running \<and> carrier in
      \<lparr>pp_state = (if up then IB_PORT_ACTIVE else IB_PORT_DOWN), pp_phys_state = (if up then 5 else 3), pp_gid_tbl_len = 128,
       pp_max_msg_sz = 0x80000000, pp_pkey_tbl_len = 1, pp_active_speed = speed, pp_active_width = width\<rparr>)"

definition xib_query_pkey :: u16 where "xib_query_pkey = 0xffff"

definition xib_add_gid :: "bool \<Rightarrow> u32 \<Rightarrow> bool \<Rightarrow> int" where
  "xib_add_gid roce_gid_table port context = (if \<not> roce_gid_table \<or> port > 1 \<or> \<not> context then - EINVAL else 0)"

definition xib_del_gid :: "bool \<Rightarrow> u32 \<Rightarrow> bool \<Rightarrow> int" where
  "xib_del_gid roce_gid_table port context = (if \<not> roce_gid_table \<or> port > 1 \<or> \<not> context then - EINVAL else 0)"

text \<open>What other modules use.\<close>

definition get_qp_sq_ba :: "xib_dev \<Rightarrow> u32 \<Rightarrow> u64 option" where
  "get_qp_sq_ba d q = (if unat q < length (qp_list d) then map_option sq_ba_p (qp_list d ! unat q) else None)"

definition xib_alloc_mem :: "life_env \<Rightarrow> mem_state \<Rightarrow> string \<Rightarrow> u64 \<Rightarrow> ((u64 \<times> u64 option) \<times> mem_state) option" where
  "xib_alloc_mem env ms from len = xib_alloc_coherent (le_dma env) (le_kz env) ms from len"

definition xib_dealloc_mem :: "life_env \<Rightarrow> mem_state \<Rightarrow> u64 \<Rightarrow> u64 \<Rightarrow> int \<times> mem_state" where
  "xib_dealloc_mem env ms len pa = (0, buf_free env ms len pa)"

subsection \<open>Numbers of protection domains\<close>

text \<open>an allocation of a protection domain takes a free number or, when there is none or the number cannot be reported to
  the user, fails and leaves the free numbers as they were; releasing it gives exactly it back.\<close>

theorem xib_alloc_pd_exact:
  assumes "bmap_ok m"
  shows "\<exists>ret pdn m'. xib_alloc_pd user m = Some (ret, pdn, m') \<and> bmap_ok m' \<and>
    (if ret = 0 then unat pdn \<in> bmap_free m \<and> bmap_free m' = bmap_free m - {unat pdn} \<and>
       (\<exists>m''. xib_dealloc_pd pdn m' = Some (0, m'') \<and> bmap_free m'' = bmap_free m)
     else bmap_free m' = bmap_free m)"
proof -
  obtain ret pdn m' where id: "xib_bmap_alloc_id m = (ret, pdn, m')" by (metis prod_cases3)
  show ?thesis
  proof (cases "ret < 0")
    case True
    then have "m' = m" using alloc_id_cases [OF assms id] by auto
    then show ?thesis using True assms by (simp add: xib_alloc_pd_def id)
  next
    case False
    note t = alloc_id_takes [OF assms id False]
    have lt: "unat pdn < unat (max_count m')" using t(1,4) by (simp add: bmap_free_def)
    obtain m'' where r: "xib_bmap_release_id m' pdn = Some m''" "bmap_free m'' = insert (unat pdn) (bmap_free m')" "bmap_ok m''"
      using release_id_free [OF t(3) lt] by blast
    have "insert (unat pdn) (bmap_free m') = bmap_free m" using t(1,2) by auto
    then show ?thesis using False t r by (cases user) (auto simp: xib_alloc_pd_def id xib_dealloc_pd_def)
  qed
qed

theorem xib_alloc_pd_exact_witness:
  "\<exists>ret pdn m'. xib_alloc_pd (Some 0) \<lparr>bitmap = replicate 64 False, max_count = 4\<rparr> = Some (ret, pdn, m') \<and> bmap_ok m'"
  using xib_alloc_pd_exact [of "\<lparr>bitmap = replicate 64 False, max_count = 4\<rparr>" "Some 0"] by (auto simp: bmap_ok_def)

subsection \<open>Keys of memory regions\<close>

text \<open>The regions a client holds, over any sequence of registrations and releases of those it holds.\<close>

inductive mr_reach :: "xib_bmap \<Rightarrow> xib_bmap \<Rightarrow> xib_mr list \<Rightarrow> bool" for m0 where
  start: "mr_reach m0 m0 []"
| alloc: "mr_reach m0 m held \<Longrightarrow> xib_alloc_mr kz key pdn m = (Some mr, m') \<Longrightarrow> mr_reach m0 m' (mr # held)"
| reg: "mr_reach m0 m held \<Longrightarrow> run_state (xib_reg_mr kz key va len pa pdn m) log = (Some (Some mr, m'), log') \<Longrightarrow> mr_reach m0 m' (mr # held)"
| reg_user: "mr_reach m0 m held \<Longrightarrow> run_state (xib_reg_user_mr up key va len virt pdn m) log = ((Inr mr, m'), log') \<Longrightarrow> mr_reach m0 m' (mr # held)"
| dereg: "mr_reach m0 m held \<Longrightarrow> mr \<in> set held \<Longrightarrow> run_state (xib_dereg_mr mr m) log = (Some (r, m'), log') \<Longrightarrow> mr_reach m0 m' (remove1 mr held)"

definition held_ok :: "xib_bmap \<Rightarrow> xib_mr list \<Rightarrow> bool" where
  "held_ok m held \<longleftrightarrow> bmap_ok m \<and> distinct (map mr_idx held) \<and>
     (\<forall>mr \<in> set held. mr_idx mr < max_count m \<and> unat (mr_idx mr) \<notin> bmap_free m \<and> (\<exists>pd. mr = new_mr (mr_idx mr) (mr_key mr) pd))"

text \<open>A registration of any kind takes a free number.\<close>

lemma registered_new:
  assumes "bmap_ok m"
  shows "xib_alloc_mr kz key pdn m = (Some mr, m') \<Longrightarrow> \<exists>idx pd. xib_bmap_alloc_id m = (0, idx, m') \<and> mr = new_mr idx key pd"
    "run_state (xib_reg_mr kz key va len pa pdn m) log = (Some (Some mr, m'), log') \<Longrightarrow> \<exists>idx pd. xib_bmap_alloc_id m = (0, idx, m') \<and> mr = new_mr idx key pd"
    "run_state (xib_reg_user_mr up key va len virt pdn m) log = ((Inr mr, m'), log') \<Longrightarrow> \<exists>idx pd. xib_bmap_alloc_id m = (0, idx, m') \<and> mr = new_mr idx key pd"
proof -
  obtain ret idx b where id: "xib_bmap_alloc_id m = (ret, idx, b)" by (metis prod_cases3)
  have r: "\<not> ret < 0 \<Longrightarrow> ret = 0" using alloc_id_cases [OF assms id] by auto
  show "xib_alloc_mr kz key pdn m = (Some mr, m') \<Longrightarrow> \<exists>idx pd. xib_bmap_alloc_id m = (0, idx, m') \<and> mr = new_mr idx key pd"
    using id r by (auto simp: xib_alloc_mr_def split: if_splits)
  show "run_state (xib_reg_mr kz key va len pa pdn m) log = (Some (Some mr, m'), log') \<Longrightarrow> \<exists>idx pd. xib_bmap_alloc_id m = (0, idx, m') \<and> mr = new_mr idx key pd"
    using id r by (auto simp: xib_reg_mr_def xrnic_reg_mr_def Let_def split: if_splits)
  show "run_state (xib_reg_user_mr up key va len virt pdn m) log = ((Inr mr, m'), log') \<Longrightarrow> \<exists>idx pd. xib_bmap_alloc_id m = (0, idx, m') \<and> mr = new_mr idx key pd"
    using id r by (auto simp: xib_reg_user_mr_def xrnic_reg_mr_def Let_def split: if_splits)
qed

lemma new_mr_sel [simp]: "mr_idx (new_mr i k p) = i" "mr_key (new_mr i k p) = k" "ib_rkey (new_mr i k p) = push_bit 8 i OR ucast k"
  by (simp_all add: new_mr_def)

lemma held_ok_new:
  assumes "held_ok m held" "xib_bmap_alloc_id m = (0, idx, m')" "mr = new_mr idx key pd"
  shows "held_ok m' (mr # held) \<and> max_count m' = max_count m"
proof -
  have ok: "bmap_ok m" using assms(1) by (simp add: held_ok_def)
  note t = alloc_id_takes [OF ok assms(2)]
  have "idx \<notin> mr_idx ` set held" using t(1) assms(1) by (auto simp: held_ok_def)
  moreover have "idx < max_count m" using t(1) by (auto simp: bmap_free_def word_less_nat_alt)
  ultimately show ?thesis using assms(1,3) t by (auto simp: held_ok_def)
qed

lemma held_ok_registered:
  assumes "held_ok m held" "bmap_ok m \<Longrightarrow> \<exists>idx pd. xib_bmap_alloc_id m = (0, idx, m') \<and> mr = new_mr idx key pd"
  shows "held_ok m' (mr # held) \<and> max_count m' = max_count m"
proof -
  have "bmap_ok m" using assms(1) by (simp add: held_ok_def)
  then show ?thesis using assms(2) held_ok_new [OF assms(1)] by blast
qed

lemma held_ok_dereg:
  assumes "held_ok m held" "mr \<in> set held" "run_state (xib_dereg_mr mr m) log = (Some (r, m'), log')"
  shows "held_ok m' (remove1 mr held) \<and> max_count m' = max_count m"
proof -
  have ok: "bmap_ok m" "unat (mr_idx mr) < unat (max_count m)" using assms(1,2) by (auto simp: held_ok_def word_less_nat_alt)
  have m': "bmap_ok m'" "bmap_free m' = insert (unat (mr_idx mr)) (bmap_free m)" "max_count m' = max_count m"
    using release_id_free [OF ok] assms(3) by (auto simp: xib_dereg_mr_def)
  have d: "distinct held" using assms(1) by (simp add: held_ok_def distinct_map)
  have "unat (mr_idx x) \<noteq> unat (mr_idx mr)" if "x \<in> set (remove1 mr held)" for x
    using that assms(1,2) d by (auto simp: held_ok_def distinct_map inj_on_def simp flip: word_unat_eq_iff)
  moreover have "distinct (map mr_idx (remove1 mr held))"
    using assms(1) by (auto simp: held_ok_def distinct_map intro: inj_on_subset dest: notin_set_remove1)
  ultimately show ?thesis using assms(1) m' d by (auto simp: held_ok_def)
qed

lemma mr_reach_ok: "mr_reach m0 m held \<Longrightarrow> bmap_ok m0 \<Longrightarrow> held_ok m held \<and> max_count m = max_count m0"
proof (induction rule: mr_reach.induct)
  case start
  then show ?case by (simp add: held_ok_def)
next
  case (alloc m held kz key pdn mr m')
  then have "held_ok m held" "max_count m = max_count m0" by simp_all
  then show ?case using held_ok_registered [OF _ registered_new(1) [OF _ alloc.hyps(2)]] by simp
next
  case (reg m held kz key va len pa pdn log mr m' log')
  then have "held_ok m held" "max_count m = max_count m0" by simp_all
  then show ?case using held_ok_registered [OF _ registered_new(2) [OF _ reg.hyps(2)]] by simp
next
  case (reg_user m held up key va len virt pdn log mr m' log')
  then have "held_ok m held" "max_count m = max_count m0" by simp_all
  then show ?case using held_ok_registered [OF _ registered_new(3) [OF _ reg_user.hyps(2)]] by simp
next
  case (dereg m held mr log r m' log')
  then show ?case using held_ok_dereg by metis
qed

text \<open>As long as two numbers are free, two allocations in a row succeed.\<close>

lemma two_free:
  assumes "bmap_ok m" "i \<in> bmap_free m" "j \<in> bmap_free m" "i \<noteq> j"
  obtains idx1 m1 idx2 m2 where "xib_bmap_alloc_id m = (0, idx1, m1)" "xib_bmap_alloc_id m1 = (0, idx2, m2)"
proof -
  have ex: "\<exists>idx m''. xib_bmap_alloc_id m' = (0, idx, m'')" if "bmap_ok m'" "bmap_free m' \<noteq> {}" for m'
  proof -
    obtain ret idx m'' where id: "xib_bmap_alloc_id m' = (ret, idx, m'')" by (metis prod_cases3)
    then show ?thesis using alloc_id_cases [OF that(1) id] that(2) by auto
  qed
  obtain idx1 m1 where 1: "xib_bmap_alloc_id m = (0, idx1, m1)" using ex [OF assms(1)] assms(2) by blast
  have "bmap_free m1 \<noteq> {}" using alloc_id_takes [OF assms(1) 1] assms(2-4) by auto
  then show ?thesis using ex alloc_id_takes(3) [OF assms(1) 1] 1 that by blast
qed



text \<open>releasing the region that a DMA registration returned gives back number 0, whoever holds it: the next registration gets the
  same number, and with it the entry of the device, as a region that is still in use.\<close>

theorem dma_mr_frees_other:
  assumes "bmap_ok m" "0 < max_count m" "xib_get_dma_mr True = Inr dma" "mr = new_mr 0 key pd"
  shows "\<exists>m' mr' m''. run_state (xib_dereg_mr dma m) log = (Some (0, m'), log) \<and>
    xib_alloc_mr True key' pdn m' = (Some mr', m'') \<and> mr_idx mr' = mr_idx mr"
proof -
  have dma: "mr_idx dma = 0" using assms(3) by (auto simp: xib_get_dma_mr_def)
  have lt: "unat (0::u32) < unat (max_count m)" using assms(2) by (simp add: word_less_nat_alt)
  obtain m' where m': "xib_bmap_release_id m 0 = Some m'" "bmap_free m' = insert (unat (0::u32)) (bmap_free m)" "bmap_ok m'"
    using release_id_free [OF assms(1) lt] by blast
  obtain ret idx m'' where id: "xib_bmap_alloc_id m' = (ret, idx, m'')" by (metis prod_cases3)
  have "ret = 0" "\<forall>j \<in> bmap_free m'. unat idx \<le> j" using alloc_id_cases [OF m'(3) id] m'(2) by auto
  moreover from this have "idx = 0" using m'(2) by (simp add: unsigned_eq_0_iff)
  ultimately show ?thesis using m'(1) id assms(4) dma by (simp add: xib_dereg_mr_def xib_alloc_mr_def)
qed

theorem dma_mr_frees_other_witness:
  "\<exists>m' mr' m''. run_state (xib_dereg_mr \<lparr>ib_lkey = 0x101, ib_rkey = 0x101, mr_idx = 0, mr_pd = 0, mr_type = XIB_MR_DMA, mr_key = 0\<rparr>
      \<lparr>bitmap = replicate 64 True, max_count = 16\<rparr>) [] = (Some (0, m'), []) \<and> xib_alloc_mr True 9 1 m' = (Some mr', m'') \<and> mr_idx mr' = 0"
  using dma_mr_frees_other [of "\<lparr>bitmap = replicate 64 True, max_count = 16\<rparr>"
      "\<lparr>ib_lkey = 0x101, ib_rkey = 0x101, mr_idx = 0, mr_pd = 0, mr_type = XIB_MR_DMA, mr_key = 0\<rparr>" "new_mr 0 5 1" 5 1 "[]" 9 1]
  by (auto simp: bmap_ok_def xib_get_dma_mr_def)

text \<open>C37: a release of a region does not reach the device: the entry still has the key and the rights to read and write, so the peer
  keeps its access until the number is used again.\<close>

theorem dereg_leaves_access:
  assumes "bmap_ok m" "run_state (xib_reg_user_mr up key start len va pdn m) log = ((Inr mr, m1), log1)"
  shows "\<exists>m2. run_state (xib_dereg_mr mr m1) log1 = (Some (0, m2), log1) \<and> bmap_free m2 = bmap_free m \<and>
    reg_value init log1 (XRNIC_MR_BUF_RKEY (mr_idx mr)) = ucast key \<and>
    reg_value init log1 (XRNIC_MR_ACC_DESC (mr_idx mr)) AND 0xFFFF = 2"
proof -
  obtain idx pd where id: "xib_bmap_alloc_id m = (0, idx, m1)" and mr: "mr = new_mr idx key pd"
    using registered_new(3) [OF assms] by blast
  note t = alloc_id_takes [OF assms(1) id]
  have lt: "unat idx < unat (max_count m1)" using t(1,4) by (simp add: bmap_free_def)
  obtain m2 where m2: "xib_bmap_release_id m1 idx = Some m2" "bmap_free m2 = insert (unat idx) (bmap_free m1)"
    using release_id_free [OF _ lt] t(3) by auto
  have log1: "log1 = snd (run_state (xrnic_reg_mr va len [up_page up start] pdn idx key) log)"
    using assms(2) id by (auto simp: xib_reg_user_mr_def split: if_splits prod.splits)
  have "reg_value init log1 (XRNIC_MR_BUF_RKEY idx) = ucast key" "reg_value init log1 (XRNIC_MR_ACC_DESC idx) AND 0xFFFF = 2"
    unfolding log1 by (simp_all add: xrnic_reg_mr_def mreg_defs Let_def acc_desc_rights ucast_u8_and_ff)
  moreover have "insert (unat idx) (bmap_free m1) = bmap_free m" using t(1,2) by auto
  ultimately show ?thesis using m2 mr by (simp add: xib_dereg_mr_def)
qed

definition demo_pages :: user_pages where
  "demo_pages = \<lparr>up_kzalloc = True, up_free_page = True, up_gup = 1, up_page = (\<lambda>va. 0x80000000 + (va - va mod 4096))\<rparr>"

theorem dereg_leaves_access_witness:
  "\<exists>mr m1 log1 m2. run_state (xib_reg_user_mr demo_pages 0x5A 0x1000 0x1000 0x1000 3 \<lparr>bitmap = replicate 64 False, max_count = 16\<rparr>) [] = ((Inr mr, m1), log1) \<and>
     run_state (xib_dereg_mr mr m1) log1 = (Some (0, m2), log1) \<and> reg_value (\<lambda>_. 0) log1 (XRNIC_MR_BUF_RKEY (mr_idx mr)) = 0x5A"
proof -
  let ?m = "\<lparr>bitmap = replicate 64 False, max_count = 16\<rparr>"
  obtain ret idx m' where id: "xib_bmap_alloc_id ?m = (ret, idx, m')" by (metis prod_cases3)
  have ok: "bmap_ok ?m" by (simp add: bmap_ok_def)
  have "0 \<in> bmap_free ?m" by (simp add: bmap_free_def)
  then have "ret = 0" using alloc_id_cases [OF ok id] by auto
  then obtain mr m1 log1 where r: "run_state (xib_reg_user_mr demo_pages 0x5A 0x1000 0x1000 0x1000 3 ?m) [] = ((Inr mr, m1), log1)"
    using id by (simp add: xib_reg_user_mr_def demo_pages_def xrnic_reg_mr_def Let_def)
  show ?thesis using r dereg_leaves_access [OF ok r, of "\<lambda>_. 0"] by auto
qed

lemma mreg_apart:
  assumes "idx \<noteq> idx'" "unat idx < 2 ^ 12" "unat idx' < 2 ^ 12" "a < 0x100" "b < 0x100"
  shows "mreg a idx \<noteq> mreg b idx'"
proof
  have ab: "unat a < 0x100" "unat b < 0x100" using assms(4,5) by (simp_all add: word_less_nat_alt)
  assume "mreg a idx = mreg b idx'"
  then have e: "unat a + unat idx * 0x100 = unat b + unat idx' * 0x100"
    using unat_mreg [OF assms(2) ab(1)] unat_mreg [OF assms(3) ab(2)] by simp
  have "(unat a + unat idx * 0x100) div 0x100 = unat idx" "(unat b + unat idx' * 0x100) div 0x100 = unat idx'" using ab by simp_all
  then have "unat idx = unat idx'" using e by simp
  then show False using assms(1) by (simp add: word_unat_eq_iff)
qed

text \<open>the offset of a buffer in its page is lost in its registration: two buffers that begin in the same page are given the same
  physical base, so at most one of them is translated to the right bytes.\<close>

theorem reg_user_mr_loses_offset:
  assumes "bmap_ok m" "start \<noteq> start'" "up_page up start = up_page up start'"
    and "run_state (xib_reg_user_mr up key start len va pdn m) log = ((Inr mr, m1), log1)"
    and "run_state (xib_reg_user_mr up key' start' len' va' pdn m1) log1 = ((Inr mr', m2), log2)"
    and "unat (max_count m) \<le> 2 ^ 12"
  shows "mr_idx mr \<noteq> mr_idx mr' \<and>
    u64_of (reg_value init log2) (XRNIC_MR_BUF_BASE_LO (mr_idx mr)) (XRNIC_MR_BUF_BASE_HI (mr_idx mr)) =
    u64_of (reg_value init log2) (XRNIC_MR_BUF_BASE_LO (mr_idx mr')) (XRNIC_MR_BUF_BASE_HI (mr_idx mr'))"
proof -
  obtain idx pd where id: "xib_bmap_alloc_id m = (0, idx, m1)" and mr: "mr = new_mr idx key pd"
    using registered_new(3) [OF assms(1,4)] by blast
  note t = alloc_id_takes [OF assms(1) id]
  have ok1: "bmap_ok m1" using t(3) by simp
  obtain idx' pd' where id': "xib_bmap_alloc_id m1 = (0, idx', m2)" and mr': "mr' = new_mr idx' key' pd'"
    using registered_new(3) [OF ok1 assms(5)] by blast
  have f': "unat idx' \<in> bmap_free m1" using alloc_id_takes(1) [OF ok1 id'] by simp
  have ne: "idx \<noteq> idx'" using t(2) f' by auto
  have lt: "unat idx < 2 ^ 12" "unat idx' < 2 ^ 12" using t(1,2) f' assms(6) by (auto simp: bmap_free_def)
  have l1: "log1 = snd (run_state (xrnic_reg_mr va len [up_page up start] pdn idx key) log)"
    and l2: "log2 = snd (run_state (xrnic_reg_mr va' len' [up_page up start'] pdn idx' key') log1)"
    using assms(4,5) id id' by (auto simp: xib_reg_user_mr_def split: if_splits prod.splits)
  have apart: "mreg a idx \<noteq> mreg b idx'" if "a < 0x100" "b < 0x100" for a b
    using mreg_apart [OF ne lt that] .
  show ?thesis
    unfolding l2 l1 mr mr' using ne assms(3) apart
    by (simp add: xrnic_reg_mr_def mreg_defs Let_def u64_of_def split_64)
qed

theorem reg_user_mr_loses_offset_witness:
  "\<exists>mr m1 log1 mr' m2 log2.
     run_state (xib_reg_user_mr demo_pages 0x5A 0x1000 0x10 0x1000 3 \<lparr>bitmap = replicate 64 False, max_count = 16\<rparr>) [] = ((Inr mr, m1), log1) \<and>
     run_state (xib_reg_user_mr demo_pages 0x5B 0x1010 0x10 0x1010 3 m1) log1 = ((Inr mr', m2), log2) \<and>
     u64_of (reg_value (\<lambda>_. 0) log2) (XRNIC_MR_BUF_BASE_LO (mr_idx mr)) (XRNIC_MR_BUF_BASE_HI (mr_idx mr)) =
     u64_of (reg_value (\<lambda>_. 0) log2) (XRNIC_MR_BUF_BASE_LO (mr_idx mr')) (XRNIC_MR_BUF_BASE_HI (mr_idx mr'))"
proof -
  let ?m = "\<lparr>bitmap = replicate 64 False, max_count = 16\<rparr>"
  have ok: "bmap_ok ?m" by (simp add: bmap_ok_def)
  obtain idx1 m1 idx2 m2 where id1: "xib_bmap_alloc_id ?m = (0, idx1, m1)" and id2: "xib_bmap_alloc_id m1 = (0, idx2, m2)"
    by (rule two_free [OF ok, of 0 1]) (simp_all add: bmap_free_def)
  obtain mr log1 where r1: "run_state (xib_reg_user_mr demo_pages 0x5A 0x1000 0x10 0x1000 3 ?m) [] = ((Inr mr, m1), log1)"
    using id1 by (simp add: xib_reg_user_mr_def demo_pages_def xrnic_reg_mr_def Let_def)
  obtain mr' log2 where r2: "run_state (xib_reg_user_mr demo_pages 0x5B 0x1010 0x10 0x1010 3 m1) log1 = ((Inr mr', m2), log2)"
    using id2 by (simp add: xib_reg_user_mr_def demo_pages_def xrnic_reg_mr_def Let_def)
  have "up_page demo_pages 0x1000 = up_page demo_pages 0x1010" by (simp add: demo_pages_def)
  then show ?thesis using r1 r2 reg_user_mr_loses_offset [OF ok _ _ r1 r2, of "\<lambda>_. 0"] by auto
qed

end
