(* ===== verification/Xib_Netdev.thy ===== *)
theory Xib_Netdev
  imports Xib_Send
begin

text \<open>
  The network interface under the RDMA device, \<open>recipes-modules/xib-module/files/main.c\<close>: its MTU, addresses and identifier,
  and the notifiers through which the kernel reports changes of them.  A kernel device is known by its name.
\<close>

unbundle bit_operations_syntax

subsection \<open>The interface\<close>

text \<open>\<open>nd_in4\<close> is \<open>None\<close> without \<open>ip_ptr\<close>, and holds the first address of \<open>ifa_list\<close> if there is one; \<open>nd_in6\<close> is
  the list of IPv6 addresses in the order of \<open>addr_list\<close>, 16 bytes each.\<close>

record net_device =
  nd_name :: string
  nd_mtu :: u32
  nd_addr :: "u8 list"
  nd_in4 :: "u32 option option"
  nd_in6 :: "u8 list list option"

text \<open>What the functions below use of \<open>ibdev\<close>: the path MTU, and whether \<open>xl\<close> is set.\<close>

record ib_net =
  ib_mtu :: u16
  ib_xl :: bool

definition pmtu_of :: "u32 \<Rightarrow> u16" where
  "pmtu_of mtu = (if mtu = 340 then 0 else if mtu = 592 then 1 else if mtu = 1500 then 2 else if mtu = 2200 then 3
     else if mtu = 4200 then 4 else 4)"

text \<open>\<open>None\<close> is a null \<open>ibdev\<close>.\<close>

definition update_mtu :: "net_device \<Rightarrow> ib_net option \<Rightarrow> (int \<times> ib_net option) option" where
  "update_mtu dev ib = map_option (\<lambda>x. (0, Some (x\<lparr>ib_mtu := pmtu_of (nd_mtu dev)\<rparr>))) ib"

fun config_ip6_list :: "u8 list list \<Rightarrow> unit dev" where
  "config_ip6_list [] = State_Monad.return ()"
| "config_ip6_list (a # as) = do {config_raw_ip XRNIC_IPV6_ADD_1 (gid_words a) True; config_ip6_list as}"

text \<open>Only the IPv4 branch looks whether \<open>ibdev\<close> and \<open>xl\<close> are there.\<close>

definition set_ip_address :: "net_device option \<Rightarrow> bool \<Rightarrow> ib_net option \<Rightarrow> (int \<times> ib_net option) option dev" where
  "set_ip_address dev is_ipv4 ib =
     (case dev of None \<Rightarrow> State_Monad.return (Some (0, ib))
      | Some nd \<Rightarrow>
        if is_ipv4 then
          (case nd_in4 nd of None \<Rightarrow> State_Monad.return (Some (- EFAULT, ib))
           | Some None \<Rightarrow> State_Monad.return (Some (- EFAULT, ib))
           | Some (Some a) \<Rightarrow>
               if a = 0 then State_Monad.return (Some (- EINVAL, ib))
               else case ib of None \<Rightarrow> State_Monad.return (Some (- EFAULT, ib))
               | Some x \<Rightarrow>
                   if \<not> ib_xl x then State_Monad.return (Some (- EFAULT, ib))
                   else do {config_raw_ip XRNIC_IPV4_ADDR [a] False; State_Monad.return (update_mtu nd ib)})
        else
          (case nd_in6 nd of None \<Rightarrow> State_Monad.return (Some (- EFAULT, ib))
           | Some as \<Rightarrow>
               if as = [] then State_Monad.return (Some (0, ib))
               else case ib of None \<Rightarrow> State_Monad.return None
               | Some x \<Rightarrow>
                   if \<not> ib_xl x then State_Monad.return None
                   else do {config_ip6_list as; State_Monad.return (update_mtu nd ib)}))"

subsection \<open>Notifiers\<close>

datatype netdev_event = NETDEV_CHANGEADDR | NETDEV_CHANGEMTU | NETDEV_UP | NETDEV_DOWN | NETDEV_OTHER

text \<open>The device is the one the event is about, whichever that is.\<close>

definition handle_netdev_notifier :: "netdev_event \<Rightarrow> net_device option \<Rightarrow> ib_net option \<Rightarrow> (int \<times> ib_net option) option dev" where
  "handle_netdev_notifier event dev ib =
     (case dev of None \<Rightarrow> State_Monad.return (Some (- EINVAL, ib))
      | Some nd \<Rightarrow>
        (case event of
           NETDEV_CHANGEADDR \<Rightarrow>
             (if \<exists>x. ib = Some x \<and> ib_xl x then do {xrnic_set_mac (nd_addr nd); State_Monad.return (Some (0, ib))}
              else State_Monad.return None)
         | NETDEV_CHANGEMTU \<Rightarrow> State_Monad.return (map_option (\<lambda>(r, ib'). (0, ib')) (update_mtu nd ib))
         | _ \<Rightarrow> State_Monad.return (Some (0, ib))))"

text \<open>\<open>ifa\<close> is the name of the device of the address, \<open>None\<close> for a null pointer; \<open>dev\<close> is what the kernel finds under the
  name of the RDMA device's interface.\<close>

definition handle_inetaddr_notification ::
  "netdev_event \<Rightarrow> string option \<Rightarrow> bool \<Rightarrow> net_device option \<Rightarrow> ib_net option \<Rightarrow> (int \<times> ib_net option) option dev" where
  "handle_inetaddr_notification event ifa is_ipv4 dev ib =
     (case ifa of None \<Rightarrow> State_Monad.return (Some (- EINVAL, ib))
      | Some ev_dev \<Rightarrow> case dev of None \<Rightarrow> State_Monad.return (Some (- EINVAL, ib))
      | Some nd \<Rightarrow>
          if is_ipv4 \<and> ev_dev \<noteq> nd_name nd then State_Monad.return (Some (0, ib))
          else if event = NETDEV_UP then do {
            r \<leftarrow> set_ip_address (Some nd) is_ipv4 ib;
            State_Monad.return (map_option (\<lambda>(ret, ib'). (0, ib')) r)}
          else State_Monad.return (Some (0, ib)))"

definition cmac_inetaddr_event ::
  "netdev_event \<Rightarrow> string option \<Rightarrow> net_device option \<Rightarrow> ib_net option \<Rightarrow> (int \<times> ib_net option) option dev" where
  "cmac_inetaddr_event event ifa dev ib = do {
     r \<leftarrow> handle_inetaddr_notification event ifa True dev ib;
     State_Monad.return (map_option (\<lambda>(ret, ib'). (0, ib')) r)}"

definition cmac_inet6addr_event ::
  "netdev_event \<Rightarrow> string option \<Rightarrow> net_device option \<Rightarrow> ib_net option \<Rightarrow> (int \<times> ib_net option) option dev" where
  "cmac_inet6addr_event event ifa dev ib = do {
     r \<leftarrow> handle_inetaddr_notification event ifa False dev ib;
     State_Monad.return (map_option (\<lambda>(ret, ib'). (0, ib')) r)}"

text \<open>The identifier of the node.\<close>

definition xib_get_guid :: "u8 list \<Rightarrow> u8 list" where
  "xib_get_guid mac = [(mac ! 0) XOR 2, mac ! 1, mac ! 2, 0xff, 0xfe, mac ! 3, mac ! 4, mac ! 5]"

subsection \<open>What the device is told\<close>

lemma run_config_ip6_list:
  "as \<noteq> [] \<Longrightarrow> \<exists>pre. run_state (config_ip6_list as) log = ((), snd (run_state (config_raw_ip XRNIC_IPV6_ADD_1 (gid_words (last as)) True) (log @ pre)))"
proof (induction as arbitrary: log)
  case (Cons a as)
  obtain new where new: "run_state (config_raw_ip XRNIC_IPV6_ADD_1 (gid_words a) True) log = ((), log @ new)"
    by (simp add: config_raw_ip_def gid_words_def config_words_four)
  show ?case
  proof (cases "as = []")
    case True
    then show ?thesis using new by (intro exI [of _ "[]"]) simp
  next
    case False
    then obtain pre where "run_state (config_ip6_list as) (log @ new) =
        ((), snd (run_state (config_raw_ip XRNIC_IPV6_ADD_1 (gid_words (last as)) True) ((log @ new) @ pre)))"
      using Cons.IH by blast
    then show ?thesis using new False by (intro exI [of _ "new @ pre"]) simp
  qed
qed simp


text \<open>an IPv6 address that comes up on any interface makes the device take the addresses of its own interface one after
  the other, so that the last one of the list is the one it answers to.\<close>

theorem inet6addr_up_last:
  assumes "nd_in6 nd = Some as" "as \<noteq> []" "ib_xl x"
    and "readback hw {XRNIC_IPV6_ADD_1, XRNIC_IPV6_ADD_1 + 4, XRNIC_IPV6_ADD_1 + 8, XRNIC_IPV6_ADD_1 + 12}"
  shows "\<exists>log'. run_state (cmac_inet6addr_event NETDEV_UP (Some name) (Some nd) (Some x)) log =
      (Some (0, Some (x\<lparr>ib_mtu := pmtu_of (nd_mtu nd)\<rparr>)), log') \<and>
    fst (run_state (get_raw_ip hw XRNIC_IPV6_ADD_1 True) log') = gid_words (last as)"
proof -
  obtain pre where run: "run_state (config_ip6_list as) log =
      ((), snd (run_state (config_raw_ip XRNIC_IPV6_ADD_1 (gid_words (last as)) True) (log @ pre)))"
    using run_config_ip6_list [OF assms(2)] by blast
  have "fst (run_state (do {config_raw_ip XRNIC_IPV6_ADD_1 (gid_words (last as)) True; get_raw_ip hw XRNIC_IPV6_ADD_1 True}) (log @ pre)) =
      gid_words (last as)"
    by (rule config_get_raw_ip) (use assms(4) in \<open>simp_all add: gid_words_def\<close>)
  then show ?thesis using run assms(1-3)
    by (simp add: cmac_inet6addr_event_def handle_inetaddr_notification_def set_ip_address_def update_mtu_def case_prod_beta)
qed

text \<open>the notifier of device changes does not look which interface changed: a new hardware address of any other interface
  becomes the source address of the RDMA device.\<close>

theorem netdev_notifier_any_device:
  assumes "ib_xl x" "readback hw {XRNIC_MAC_ADDR_LO, XRNIC_MAC_ADDR_HI}"
  shows "\<exists>log'. run_state (handle_netdev_notifier NETDEV_CHANGEADDR (Some other) (Some x)) log = (Some (0, Some x), log') \<and>
    hw log' XRNIC_MAC_ADDR_LO = be_bytes (nd_addr other ! 2) (nd_addr other ! 3) (nd_addr other ! 4) (nd_addr other ! 5) \<and>
    hw log' XRNIC_MAC_ADDR_HI = be_bytes2 (nd_addr other ! 0) (nd_addr other ! 1)"
  using assms by (simp add: handle_netdev_notifier_def xrnic_set_mac_def readback_def XRNIC_MAC_ADDR_LO_def XRNIC_MAC_ADDR_HI_def greg_def)

text \<open>The payload of a path MTU code.\<close>

definition pmtu_bytes :: "u16 \<Rightarrow> nat" where
  "pmtu_bytes c = 256 * 2 ^ unat c"

text \<open>the path MTU fits the link for the five interface MTUs of the table and for those of at least 4096 bytes; for every
  other one it is 4096 bytes and does not.\<close>

theorem pmtu_fits_iff:
  "pmtu_bytes (pmtu_of mtu) \<le> unat mtu \<longleftrightarrow> mtu \<in> {340, 592, 1500, 2200, 4200} \<or> 4096 \<le> mtu"
proof -
  have "pmtu_bytes (pmtu_of mtu) = 4096" if "mtu \<notin> {340, 592, 1500, 2200}"
    using that by (simp add: pmtu_of_def pmtu_bytes_def)
  moreover have "pmtu_bytes (pmtu_of mtu) \<le> unat mtu" if "mtu \<in> {340, 592, 1500, 2200}"
    using that by (auto simp: pmtu_of_def pmtu_bytes_def)
  ultimately show ?thesis by (cases "mtu \<in> {340, 592, 1500, 2200}") (auto simp: word_le_nat_alt)
qed

text \<open>The hardware address can be read off the identifier.\<close>

lemma guid_injective:
  assumes "length m = 6" "length m' = 6" "xib_get_guid m = xib_get_guid m'"
  shows "m = m'"
proof (rule nth_equalityI)
  have twice: "(b XOR 2) XOR 2 = b" for b :: u8 by (simp add: xor.assoc)
  have "(m ! 0) XOR 2 = (m' ! 0) XOR 2" using assms(3) by (simp add: xib_get_guid_def)
  then have "m ! 0 = m' ! 0" using twice [of "m ! 0"] twice [of "m' ! 0"] by metis
  moreover fix i assume "i < length m"
  then have "i \<in> {0, 1, 2, 3, 4, 5}" using assms(1) by auto
  ultimately show "m ! i = m' ! i" using assms(3) by (auto simp: xib_get_guid_def)
qed (use assms in simp)

subsection \<open>Examples\<close>

definition demo_netdev :: net_device where
  "demo_netdev = \<lparr>nd_name = ''eth0'', nd_mtu = 4200, nd_addr = [2, 0, 0, 0, 0, 1], nd_in4 = Some (Some 0x0100000A),
     nd_in6 = Some [replicate 16 0xFE, replicate 16 0xFD]\<rparr>"

definition demo_ib :: ib_net where
  "demo_ib = \<lparr>ib_mtu = 4, ib_xl = True\<rparr>"


theorem inet6addr_up_last_witness:
  "\<exists>log'. fst (run_state (get_raw_ip (reg_value (\<lambda>_. 0)) XRNIC_IPV6_ADD_1 True) log') = gid_words (replicate 16 0xFD) \<and>
     snd (run_state (cmac_inet6addr_event NETDEV_UP (Some ''lo'') (Some demo_netdev) (Some demo_ib)) []) = log'"
  using inet6addr_up_last [of demo_netdev "[replicate 16 0xFE, replicate 16 0xFD]" demo_ib "reg_value (\<lambda>_. 0)" "''lo''" "[]"]
  by (auto simp: demo_netdev_def demo_ib_def readback_mem)

theorem netdev_notifier_any_device_witness:
  "\<exists>log'. snd (run_state (handle_netdev_notifier NETDEV_CHANGEADDR (Some (demo_netdev\<lparr>nd_name := ''usb0'', nd_addr := [6, 5, 4, 3, 2, 1]\<rparr>)) (Some demo_ib)) []) = log' \<and>
     reg_value (\<lambda>_. 0) log' XRNIC_MAC_ADDR_LO = 0x04030201"
  using netdev_notifier_any_device [of demo_ib "reg_value (\<lambda>_. 0)" "demo_netdev\<lparr>nd_name := ''usb0'', nd_addr := [6, 5, 4, 3, 2, 1]\<rparr>" "[]"]
  by (auto simp: demo_ib_def readback_mem be_bytes_def)

end
