(* ===== verification/Xib_Pfc.thy ===== *)
theory Xib_Pfc
  imports Xib_Rnic
begin

text \<open>
  Priority flow control: the files under \<open>pfc\<close> in sysfs, \<open>recipes-modules/xib-module/files/main.c\<close>.  A file is
  shown as the text of a number and stored by writing one; each is a field of one of three registers.
\<close>

unbundle bit_operations_syntax

subsection \<open>Numbers as text\<close>

text \<open>\<open>sprintf("%u\n", n)\<close>, and the kernel's \<open>simple_strtol(buf, NULL, 10)\<close>: an optional minus sign and the leading digits,
  modulo \<open>2 ^ 64\<close>.\<close>

fun dec_digits :: "nat \<Rightarrow> string" where
  "dec_digits n = (if n < 10 then [char_of (48 + n)] else dec_digits (n div 10) @ [char_of (48 + n mod 10)])"

declare dec_digits.simps [simp del]

definition show_u32 :: "u32 \<Rightarrow> string" where
  "show_u32 v = dec_digits (unat v) @ [CHR 0x0A]"

definition is_digit :: "char \<Rightarrow> bool" where
  "is_digit c \<longleftrightarrow> 48 \<le> (of_char c :: nat) \<and> (of_char c :: nat) \<le> 57"

fun digits_value :: "u64 \<Rightarrow> string \<Rightarrow> u64" where
  "digits_value acc [] = acc"
| "digits_value acc (c # cs) = (if is_digit c then digits_value (acc * 10 + of_nat (of_char c - 48)) cs else acc)"

definition simple_strtol :: "string \<Rightarrow> u64" where
  "simple_strtol s = (case s of [] \<Rightarrow> 0 | c # cs \<Rightarrow> if c = CHR ''-'' then - digits_value 0 cs else digits_value 0 s)"

subsection \<open>The files\<close>

definition XRNIC_ROCE_PAUSE_OFFSET :: u32 where "XRNIC_ROCE_PAUSE_OFFSET = greg 0x8"
definition XRNIC_PAUSE_CONF :: u32 where "XRNIC_PAUSE_CONF = greg 0xC"
definition XRNIC_NON_ROCE_PAUSE_OFFSET :: u32 where "XRNIC_NON_ROCE_PAUSE_OFFSET = greg 0x18"

definition show_bit :: "hardware \<Rightarrow> nat \<Rightarrow> string dev" where
  "show_bit hw b = do {
     val \<leftarrow> xrnic_ior hw XRNIC_PAUSE_CONF;
     State_Monad.return (if val AND push_bit b 1 \<noteq> 0 then ''1'' @ [CHR 0x0A] else ''0'' @ [CHR 0x0A])}"

definition store_bit :: "hardware \<Rightarrow> nat \<Rightarrow> string \<Rightarrow> nat dev" where
  "store_bit hw b buf = do {
     val \<leftarrow> xrnic_ior hw XRNIC_PAUSE_CONF;
     let en = (ucast (simple_strtol buf) :: u32);
     do_when (en = 0) (xrnic_iow XRNIC_PAUSE_CONF (val AND NOT (push_bit b 1)));
     do_when (en = 1) (xrnic_iow XRNIC_PAUSE_CONF (val OR push_bit b 1));
     State_Monad.return (length buf)}"

definition show_roce_pfc_enable :: "hardware \<Rightarrow> string dev" where
  "show_roce_pfc_enable hw = show_bit hw 0"

definition show_non_roce_pfc_enable :: "hardware \<Rightarrow> string dev" where
  "show_non_roce_pfc_enable hw = show_bit hw 1"

definition store_roce_pfc_enable :: "hardware \<Rightarrow> string \<Rightarrow> nat dev" where
  "store_roce_pfc_enable hw = store_bit hw 0"

definition store_non_roce_pfc_enable :: "hardware \<Rightarrow> string \<Rightarrow> nat dev" where
  "store_non_roce_pfc_enable hw = store_bit hw 1"

definition show_prio :: "hardware \<Rightarrow> nat \<Rightarrow> string dev" where
  "show_prio hw k = do {
     val \<leftarrow> xrnic_ior hw XRNIC_PAUSE_CONF;
     State_Monad.return (show_u32 (drop_bit k val AND 0xF))}"

definition store_prio :: "hardware \<Rightarrow> nat \<Rightarrow> string \<Rightarrow> nat dev" where
  "store_prio hw k buf = do {
     val \<leftarrow> xrnic_ior hw XRNIC_PAUSE_CONF;
     let prio = (ucast (simple_strtol buf) :: u32);
     do_when (prio \<le> 8) (xrnic_iow XRNIC_PAUSE_CONF ((val AND NOT (push_bit k 0xF)) OR push_bit k prio));
     State_Monad.return (length buf)}"

definition show_roce_pfc_priority :: "hardware \<Rightarrow> string dev" where
  "show_roce_pfc_priority hw = show_prio hw 4"

definition show_non_roce_pfc_priority :: "hardware \<Rightarrow> string dev" where
  "show_non_roce_pfc_priority hw = show_prio hw 8"

definition store_roce_pfc_priority :: "hardware \<Rightarrow> string \<Rightarrow> nat dev" where
  "store_roce_pfc_priority hw = store_prio hw 4"

definition store_non_roce_pfc_priority :: "hardware \<Rightarrow> string \<Rightarrow> nat dev" where
  "store_non_roce_pfc_priority hw = store_prio hw 8"

definition show_xon :: "hardware \<Rightarrow> u32 \<Rightarrow> string dev" where
  "show_xon hw reg = do {val \<leftarrow> xrnic_ior hw reg; State_Monad.return (show_u32 (val AND 0xFFFF))}"

definition store_xon :: "hardware \<Rightarrow> u32 \<Rightarrow> string \<Rightarrow> nat dev" where
  "store_xon hw reg buf = do {
     val \<leftarrow> xrnic_ior hw reg;
     let xon = (ucast (simple_strtol buf) :: u32);
     do_when (xon \<le> 512) (xrnic_iow reg (xon OR (val AND 0xFFFF0000)));
     State_Monad.return (length buf)}"

definition show_xoff :: "hardware \<Rightarrow> u32 \<Rightarrow> string dev" where
  "show_xoff hw reg = do {val \<leftarrow> xrnic_ior hw reg; State_Monad.return (show_u32 (drop_bit 16 val))}"

definition store_xoff :: "hardware \<Rightarrow> u32 \<Rightarrow> string \<Rightarrow> nat dev" where
  "store_xoff hw reg buf = do {
     val \<leftarrow> xrnic_ior hw reg;
     let xoff = (ucast (simple_strtol buf) :: u32);
     do_when (xoff \<le> 512) (xrnic_iow reg (push_bit 16 xoff OR (val AND 0xFFFF)));
     State_Monad.return (length buf)}"

definition show_roce_pfc_xon :: "hardware \<Rightarrow> string dev" where
  "show_roce_pfc_xon hw = show_xon hw XRNIC_ROCE_PAUSE_OFFSET"

definition show_non_roce_pfc_xon :: "hardware \<Rightarrow> string dev" where
  "show_non_roce_pfc_xon hw = show_xon hw XRNIC_NON_ROCE_PAUSE_OFFSET"

definition store_roce_pfc_xon :: "hardware \<Rightarrow> string \<Rightarrow> nat dev" where
  "store_roce_pfc_xon hw = store_xon hw XRNIC_ROCE_PAUSE_OFFSET"

definition store_non_roce_pfc_xon :: "hardware \<Rightarrow> string \<Rightarrow> nat dev" where
  "store_non_roce_pfc_xon hw = store_xon hw XRNIC_NON_ROCE_PAUSE_OFFSET"

definition show_non_roce_pfc_xoff :: "hardware \<Rightarrow> string dev" where
  "show_non_roce_pfc_xoff hw = show_xoff hw XRNIC_NON_ROCE_PAUSE_OFFSET"

definition show_roce_pfc_xoff :: "hardware \<Rightarrow> string dev" where
  "show_roce_pfc_xoff hw = show_xoff hw XRNIC_ROCE_PAUSE_OFFSET"

definition store_roce_pfc_xoff :: "hardware \<Rightarrow> string \<Rightarrow> nat dev" where
  "store_roce_pfc_xoff hw = store_xoff hw XRNIC_ROCE_PAUSE_OFFSET"

definition store_non_roce_pfc_xoff :: "hardware \<Rightarrow> string \<Rightarrow> nat dev" where
  "store_non_roce_pfc_xoff hw = store_xoff hw XRNIC_NON_ROCE_PAUSE_OFFSET"

definition show_pfc_priority_check :: "hardware \<Rightarrow> string dev" where
  "show_pfc_priority_check hw = do {
     val \<leftarrow> xrnic_ior hw XRNIC_PAUSE_CONF;
     State_Monad.return (show_u32 (drop_bit 13 val AND 1))}"

definition store_pfc_priority_check :: "hardware \<Rightarrow> string \<Rightarrow> nat dev" where
  "store_pfc_priority_check hw = store_bit hw 13"

text \<open>The table \<open>pfc_attrs\<close>.\<close>

datatype pfc_attr =
    RoceEnable | RocePriority | RoceXon | RoceXoff
  | NonRoceEnable | NonRocePriority | NonRoceXon | NonRoceXoff | DisablePriorityCheck

fun pfc_show :: "pfc_attr \<Rightarrow> hardware \<Rightarrow> string dev" where
  "pfc_show RoceEnable = show_roce_pfc_enable"
| "pfc_show RocePriority = show_roce_pfc_priority"
| "pfc_show RoceXon = show_roce_pfc_xon"
| "pfc_show RoceXoff = show_roce_pfc_xoff"
| "pfc_show NonRoceEnable = show_non_roce_pfc_enable"
| "pfc_show NonRocePriority = show_non_roce_pfc_priority"
| "pfc_show NonRoceXon = show_non_roce_pfc_xon"
| "pfc_show NonRoceXoff = show_non_roce_pfc_xoff"
| "pfc_show DisablePriorityCheck = show_pfc_priority_check"

fun pfc_store :: "pfc_attr \<Rightarrow> hardware \<Rightarrow> string \<Rightarrow> nat dev" where
  "pfc_store RoceEnable = store_roce_pfc_enable"
| "pfc_store RocePriority = store_roce_pfc_priority"
| "pfc_store RoceXon = store_roce_pfc_xon"
| "pfc_store RoceXoff = store_roce_pfc_xoff"
| "pfc_store NonRoceEnable = store_non_roce_pfc_enable"
| "pfc_store NonRocePriority = store_non_roce_pfc_priority"
| "pfc_store NonRoceXon = store_non_roce_pfc_xon"
| "pfc_store NonRoceXoff = store_non_roce_pfc_xoff"
| "pfc_store DisablePriorityCheck = store_pfc_priority_check"

text \<open>\<open>kobj\<close> is whether \<open>kobject_create_and_add\<close> succeeds, \<open>grp\<close> what \<open>sysfs_create_group\<close> returns.\<close>

definition pfc_create_sysfs_entries :: "bool \<Rightarrow> int \<Rightarrow> int" where
  "pfc_create_sysfs_entries kobj grp = (if \<not> kobj then - ENOMEM else grp)"

subsection \<open>Text and numbers\<close>

lemma is_digit_char: "d < 10 \<Longrightarrow> is_digit (char_of (48 + d :: nat)) \<and> of_char (char_of (48 + d :: nat)) = (48 + d :: nat)"
  by (simp add: is_digit_def)

lemma digits_value_append:
  "(\<And>c. c \<in> set xs \<Longrightarrow> is_digit c) \<Longrightarrow> digits_value acc (xs @ ys) = digits_value (digits_value acc xs) ys"
  by (induction xs arbitrary: acc) auto

lemma dec_digits_are_digits: "c \<in> set (dec_digits n) \<Longrightarrow> is_digit c"
proof (induction n rule: dec_digits.induct)
  case (1 n)
  then show ?case
    using is_digit_char [of n] is_digit_char [of "n mod 10"] by (subst (asm) dec_digits.simps) (auto split: if_splits)
qed

lemma digits_value_dec: "digits_value 0 (dec_digits n) = of_nat n"
proof (induction n rule: dec_digits.induct)
  case (1 n)
  show ?case
  proof (cases "n < 10")
    case True
    then show ?thesis using is_digit_char [of n] by (subst dec_digits.simps) simp
  next
    case False
    have eq: "of_nat (n div 10) * 10 + of_nat (n mod 10) = (of_nat n :: u64)"
      by (metis div_mult_mod_eq of_nat_add of_nat_mult of_nat_numeral)
    show ?thesis
      using 1 [OF False] False is_digit_char [of "n mod 10"] dec_digits_are_digits [of _ "n div 10"]
      by (subst dec_digits.simps) (simp add: digits_value_append eq)
  qed
qed

lemma dec_digits_hd: "\<exists>c cs. dec_digits n = c # cs \<and> is_digit c"
proof -
  have "dec_digits n \<noteq> []" by (subst dec_digits.simps) simp
  then show ?thesis using dec_digits_are_digits [of "hd (dec_digits n)" n] by (metis list.collapse list.set_sel(1))
qed

lemma strtol_show: "simple_strtol (dec_digits n @ [CHR 0x0A]) = of_nat n" "simple_strtol (dec_digits n) = of_nat n"
proof -
  obtain c cs where c: "dec_digits n = c # cs" "is_digit c" using dec_digits_hd by blast
  then have "c \<noteq> CHR ''-''" by (auto simp: is_digit_def)
  then have "simple_strtol (dec_digits n @ ys) = digits_value 0 (dec_digits n @ ys)" for ys
    using c by (simp add: simple_strtol_def)
  from this [of "[CHR 0x0A]"] this [of "[]"] show "simple_strtol (dec_digits n @ [CHR 0x0A]) = of_nat n" "simple_strtol (dec_digits n) = of_nat n"
    using dec_digits_are_digits [of _ n] by (simp_all add: digits_value_append digits_value_dec is_digit_def)
qed

lemma strtol_u32 [simp]: "(ucast (simple_strtol (show_u32 v)) :: u32) = v"
proof -
  have "(ucast (ucast v :: u64) :: u32) = v" by (rule bit_word_eqI) (simp add: bit_simps)
  then show ?thesis by (simp add: show_u32_def strtol_show)
qed

subsection \<open>Fields of a register\<close>

definition get_field :: "nat \<Rightarrow> nat \<Rightarrow> u32 \<Rightarrow> u32" where
  "get_field w k v = drop_bit k v AND mask w"

definition set_field :: "nat \<Rightarrow> nat \<Rightarrow> u32 \<Rightarrow> u32 \<Rightarrow> u32" where
  "set_field w k n v = (v AND NOT (push_bit k (mask w))) OR push_bit k (n AND mask w)"

lemma get_set_field: "k + w \<le> 32 \<Longrightarrow> get_field w k (set_field w k n v) = n AND mask w"
  unfolding get_field_def set_field_def by (rule bit_word_eqI) (auto simp: bit_simps)

lemma get_set_field_other: "k + w \<le> k' \<or> k' + w' \<le> k \<Longrightarrow> get_field w' k' (set_field w k n v) = get_field w' k' v"
  unfolding get_field_def set_field_def by (rule bit_word_eqI) (auto simp: bit_simps dest: bit_imp_le_length)

lemma literal_masks: "(1 :: u32) = mask 1" "(0xF :: u32) = mask 4" "(0xFFFF :: u32) = mask 16" "(0xFFFF0000 :: u32) = NOT (mask 16)"
  by (simp_all add: mask_eq_exp_minus_1)

text \<open>Where the field of a file is: the register, the width, the position, and the greatest value it takes.\<close>

fun attr_reg :: "pfc_attr \<Rightarrow> u32" where
  "attr_reg RoceXon = XRNIC_ROCE_PAUSE_OFFSET"
| "attr_reg RoceXoff = XRNIC_ROCE_PAUSE_OFFSET"
| "attr_reg NonRoceXon = XRNIC_NON_ROCE_PAUSE_OFFSET"
| "attr_reg NonRoceXoff = XRNIC_NON_ROCE_PAUSE_OFFSET"
| "attr_reg _ = XRNIC_PAUSE_CONF"

fun attr_width :: "pfc_attr \<Rightarrow> nat" where
  "attr_width RoceEnable = 1"
| "attr_width NonRoceEnable = 1"
| "attr_width DisablePriorityCheck = 1"
| "attr_width RocePriority = 4"
| "attr_width NonRocePriority = 4"
| "attr_width _ = 16"

fun attr_pos :: "pfc_attr \<Rightarrow> nat" where
  "attr_pos RoceEnable = 0"
| "attr_pos NonRoceEnable = 1"
| "attr_pos RocePriority = 4"
| "attr_pos NonRocePriority = 8"
| "attr_pos DisablePriorityCheck = 13"
| "attr_pos RoceXoff = 16"
| "attr_pos NonRoceXoff = 16"
| "attr_pos _ = 0"

fun attr_max :: "pfc_attr \<Rightarrow> u32" where
  "attr_max a = (if attr_width a = 1 then 1 else if attr_width a = 4 then 8 else 512)"

lemma attr_fits: "attr_pos a + attr_width a \<le> 32" "n \<le> attr_max a \<Longrightarrow> n AND mask (attr_width a) = n"
proof -
  show "attr_pos a + attr_width a \<le> 32" by (cases a) simp_all
  assume n: "n \<le> attr_max a"
  have "unat n < 2 ^ attr_width a" using n by (cases a) (auto simp: word_le_nat_alt)
  then show "n AND mask (attr_width a) = n"
    unfolding take_bit_eq_mask [symmetric] by (simp add: word_unat_eq_iff unsigned_take_bit_eq take_bit_nat_eq_self_iff)
qed

lemma attr_disjoint:
  "a \<noteq> b \<Longrightarrow> attr_reg a = attr_reg b \<Longrightarrow> attr_pos a + attr_width a \<le> attr_pos b \<or> attr_pos b + attr_width b \<le> attr_pos a"
  by (cases a; cases b) (simp_all add: XRNIC_ROCE_PAUSE_OFFSET_def XRNIC_PAUSE_CONF_def XRNIC_NON_ROCE_PAUSE_OFFSET_def greg_def)

lemma show_one: "show_u32 1 = ''1'' @ [CHR 0x0A]" "show_u32 0 = ''0'' @ [CHR 0x0A]"
  by (simp_all add: show_u32_def dec_digits.simps, code_simp+)

lemmas pfc_show_defs = show_roce_pfc_enable_def show_non_roce_pfc_enable_def show_roce_pfc_priority_def
  show_non_roce_pfc_priority_def show_roce_pfc_xon_def show_non_roce_pfc_xon_def show_roce_pfc_xoff_def
  show_non_roce_pfc_xoff_def show_pfc_priority_check_def show_bit_def show_prio_def show_xon_def show_xoff_def

lemmas pfc_store_defs = store_roce_pfc_enable_def store_non_roce_pfc_enable_def store_roce_pfc_priority_def
  store_non_roce_pfc_priority_def store_roce_pfc_xon_def store_non_roce_pfc_xon_def store_roce_pfc_xoff_def
  store_non_roce_pfc_xoff_def store_pfc_priority_check_def

lemma bit_field: "get_field 1 b v = (if v AND push_bit b 1 \<noteq> 0 then 1 else 0)" if "b < 32"
proof (rule bit_word_eqI)
  fix i assume "i < LENGTH(32)"
  have "v AND push_bit b 1 \<noteq> 0 \<longleftrightarrow> bit v b"
    using that by (auto simp: word_eq_0_iff_bits bit_and_iff bit_exp_iff)
  then show "bit (get_field 1 b v) i \<longleftrightarrow> bit (if v AND push_bit b 1 \<noteq> 0 then 1 else 0 :: u32) i"
    by (cases "i = 0") (auto simp: get_field_def bit_simps)
qed

text \<open>A file shows the number in its field.\<close>

lemma run_pfc_show:
  "run_state (pfc_show a hw) log = (show_u32 (get_field (attr_width a) (attr_pos a) (hw log (attr_reg a))), log @ [IoR (attr_reg a)])"
proof (cases "a = DisablePriorityCheck")
  case True
  then show ?thesis by (simp add: show_pfc_priority_check_def get_field_def)
next
  case False
  have "drop_bit 16 v AND mask 16 = drop_bit 16 v" for v :: u32 by (rule bit_word_eqI) (auto simp: bit_simps dest: bit_imp_le_length)
  then show ?thesis using False
    by (cases a) (simp_all only: pfc_show.simps attr_width.simps attr_pos.simps attr_reg.simps pfc_show_defs literal_masks(2,3) bit_field show_one,
       simp_all add: get_field_def bit_field [unfolded get_field_def] show_one)
qed

lemma stored_fields:
  "b < 32 \<Longrightarrow> v AND NOT (push_bit b 1) = set_field 1 b 0 v" "b < 32 \<Longrightarrow> v OR push_bit b 1 = set_field 1 b 1 v"
  "n AND mask 16 = n \<Longrightarrow> n OR (v AND 0xFFFF0000) = set_field 16 0 n v"
  "n AND mask 16 = n \<Longrightarrow> push_bit 16 n OR (v AND 0xFFFF) = set_field 16 16 n v"
  "n AND mask 4 = n \<Longrightarrow> (v AND NOT (push_bit k 0xF)) OR push_bit k n = set_field 4 k n v"
proof -
  show "b < 32 \<Longrightarrow> v AND NOT (push_bit b 1) = set_field 1 b 0 v" by (simp add: set_field_def)
  show "b < 32 \<Longrightarrow> v OR push_bit b 1 = set_field 1 b 1 v"
    unfolding set_field_def by (rule bit_word_eqI) (auto simp: bit_simps)
  show "n AND mask 16 = n \<Longrightarrow> n OR (v AND 0xFFFF0000) = set_field 16 0 n v"
    by (simp only: set_field_def literal_masks) (simp add: or.commute)
  have "mask 16 = NOT (push_bit 16 (mask 16 :: u32))" by (simp add: mask_eq_exp_minus_1 push_bit_eq_mult)
  then show "n AND mask 16 = n \<Longrightarrow> push_bit 16 n OR (v AND 0xFFFF) = set_field 16 16 n v"
    by (simp only: set_field_def literal_masks(3)) (simp add: or.commute)
  show "n AND mask 4 = n \<Longrightarrow> (v AND NOT (push_bit k 0xF)) OR push_bit k n = set_field 4 k n v"
    by (simp only: set_field_def literal_masks(2))
qed

lemma fits_mask: "unat n < 2 ^ w \<Longrightarrow> n AND mask w = (n :: u32)"
  unfolding take_bit_eq_mask [symmetric] by (simp add: word_unat_eq_iff unsigned_take_bit_eq take_bit_nat_eq_self_iff)

lemma run_store_bit:
  assumes "n = (ucast (simple_strtol buf) :: u32)" "b < 32"
  shows "run_state (store_bit hw b buf) log = (length buf, log @ IoR XRNIC_PAUSE_CONF #
    (if n \<le> 1 then [IoW XRNIC_PAUSE_CONF (set_field 1 b n (hw log XRNIC_PAUSE_CONF))] else []))"
proof -
  have "n \<le> 1 \<longleftrightarrow> n = 0 \<or> n = 1" by (auto simp: word_le_nat_alt word_unat_eq_iff)
  then show ?thesis using assms stored_fields(1,2) [OF assms(2)] by (auto simp: store_bit_def do_when_def Let_def)
qed

lemma run_store_prio:
  assumes "n = (ucast (simple_strtol buf) :: u32)"
  shows "run_state (store_prio hw k buf) log = (length buf, log @ IoR XRNIC_PAUSE_CONF #
    (if n \<le> 8 then [IoW XRNIC_PAUSE_CONF (set_field 4 k n (hw log XRNIC_PAUSE_CONF))] else []))"
proof -
  have "n \<le> 8 \<Longrightarrow> n AND mask 4 = n" by (rule fits_mask) (simp add: word_le_nat_alt)
  then show ?thesis using assms stored_fields(5) [of n _ k] by (auto simp: store_prio_def do_when_def Let_def)
qed

lemma xon_range: "n \<le> 512 \<Longrightarrow> n AND mask 16 = (n :: u32)"
  by (rule fits_mask) (simp add: word_le_nat_alt)

lemma run_store_xon:
  assumes "n = (ucast (simple_strtol buf) :: u32)"
  shows "run_state (store_xon hw reg buf) log = (length buf, log @ IoR reg #
    (if n \<le> 512 then [IoW reg (set_field 16 0 n (hw log reg))] else []))"
  using assms stored_fields(3) xon_range by (auto simp: store_xon_def do_when_def Let_def)

lemma run_store_xoff:
  assumes "n = (ucast (simple_strtol buf) :: u32)"
  shows "run_state (store_xoff hw reg buf) log = (length buf, log @ IoR reg #
    (if n \<le> 512 then [IoW reg (set_field 16 16 n (hw log reg))] else []))"
  using assms stored_fields(4) xon_range by (auto simp: store_xoff_def do_when_def Let_def)

text \<open>Storing a number a file takes sets its field, storing a greater one changes nothing; either way all of the text is
  consumed.\<close>

lemma run_pfc_store:
  assumes "n = (ucast (simple_strtol buf) :: u32)"
  shows "run_state (pfc_store a hw buf) log =
    (length buf, log @ IoR (attr_reg a) #
      (if n \<le> attr_max a then [IoW (attr_reg a) (set_field (attr_width a) (attr_pos a) n (hw log (attr_reg a)))] else []))"
  using assms by (cases a) (simp_all add: pfc_store_defs run_store_bit run_store_prio run_store_xon run_store_xoff)

subsection \<open>What a file shows\<close>

text \<open>C25: the files are independent and keep what is stored: after a number that a file takes was written to it, the
  file shows that number and every other file shows what it showed before; a number it does not take
  changes none of them.\<close>

theorem pfc_files_independent:
  assumes rb: "readback hw {XRNIC_PAUSE_CONF, XRNIC_ROCE_PAUSE_OFFSET, XRNIC_NON_ROCE_PAUSE_OFFSET}"
  shows "fst (run_state (do {pfc_store a hw (show_u32 n); pfc_show b hw}) log) =
    (if b = a \<and> n \<le> attr_max a then show_u32 n else fst (run_state (pfc_show b hw) log))"
proof -
  have rd: "hw l (attr_reg c) = reg_value (hw []) l (attr_reg c)" for l c
    using rb by (cases c) (auto simp: readback_def)
  show ?thesis
    using attr_disjoint [of a b] attr_fits(1) [of a] attr_fits(2) [of n a] get_set_field [of "attr_pos a" "attr_width a" n]
    by (auto simp: run_pfc_store [of n "show_u32 n"] run_pfc_show rd [of "_ @ _"] rd [of log] get_set_field_other)
qed

theorem pfc_files_independent_witness:
  "fst (run_state (do {pfc_store RocePriority (reg_value (\<lambda>_. 0x2013)) (show_u32 5); pfc_show RocePriority (reg_value (\<lambda>_. 0x2013))}) []) = show_u32 5 \<and>
   fst (run_state (do {pfc_store RocePriority (reg_value (\<lambda>_. 0x2013)) (show_u32 9); pfc_show RocePriority (reg_value (\<lambda>_. 0x2013))}) []) =
     fst (run_state (pfc_show RocePriority (reg_value (\<lambda>_. 0x2013))) [])"
  using pfc_files_independent [of "reg_value (\<lambda>_. 0x2013)" RocePriority 5 RocePriority "[]"]
    pfc_files_independent [of "reg_value (\<lambda>_. 0x2013)" RocePriority 9 RocePriority "[]"]
  by (simp add: readback_mem)

text \<open>text that does not begin with a digit or a sign is taken as the number 0: writing a word such as \<open>on\<close> switches flow
  control off and reports success.\<close>

theorem pfc_garbage_disables:
  assumes "\<not> is_digit c" "c \<noteq> CHR ''-''" "readback hw {XRNIC_PAUSE_CONF}"
  shows "run_state (do {n \<leftarrow> store_roce_pfc_enable hw (c # cs); s \<leftarrow> show_roce_pfc_enable hw; State_Monad.return (n, s)}) log =
    ((Suc (length cs), show_u32 0), log @ [IoR XRNIC_PAUSE_CONF,
      IoW XRNIC_PAUSE_CONF (set_field 1 0 0 (hw log XRNIC_PAUSE_CONF)), IoR XRNIC_PAUSE_CONF])"
proof -
  have z: "simple_strtol (c # cs) = 0" using assms(1,2) by (simp add: simple_strtol_def)
  have rd: "hw l XRNIC_PAUSE_CONF = reg_value (hw []) l XRNIC_PAUSE_CONF" for l using assms(3) by (simp add: readback_def)
  show ?thesis using get_set_field [of 0 1 0]
    by (simp add: store_roce_pfc_enable_def run_store_bit [of 0] z run_pfc_show [of RoceEnable, simplified] rd [of "_ @ _"])
qed

theorem pfc_garbage_disables_witness:
  "fst (run_state (do {n \<leftarrow> store_roce_pfc_enable (reg_value (\<lambda>_. 1)) ''on''; s \<leftarrow> show_roce_pfc_enable (reg_value (\<lambda>_. 1)); State_Monad.return (n, s)}) []) =
     (2, show_u32 0)"
  using pfc_garbage_disables [of "CHR ''o''" "reg_value (\<lambda>_. 1)" "''n''" "[]"] by (simp add: readback_mem is_digit_def)

end
