(* ===== verification/Axidma.thy ===== *)
theory Axidma
  imports Xib_Poll
begin

text \<open>
  The stream of notifications for immediate data and remote invalidation,
  \<open>recipes-modules/xib-module/files/axidma.c\<close> and \<open>axidma.h\<close>: a ring of 128 descriptors that the DMA engine fills and the
  interrupt handler empties.  Reads of the engine's registers are answered by a parameter, as in \<open>Xib_Regs\<close>.
\<close>

unbundle bit_operations_syntax

subsection \<open>Data\<close>

record axidma_bd =
  bd_next :: u64
  bd_phys :: u64
  bd_cntrl :: u32
  bd_status :: u32

record rq_noti_buffer =
  noti_data :: u32
  noti_type :: u8
  noti_qpid :: u16
  noti_rq_pi :: u16

text \<open>\<open>None\<close> is a null pointer.  The buffers behind \<open>rq_noti_buf\<close> are the list of their contents.\<close>

record axidma_q =
  rx_irq :: u32
  rx_bd_v :: "axidma_bd list option"
  rx_bd_p :: u64
  rx_bd_ci :: u32
  rq_noti_buf :: "rq_noti_buffer option list option"
  rx_packets :: u64
  rx_bytes :: u64

definition RX_BD_NUM :: nat where "RX_BD_NUM = 128"
definition XAXIDMA_RX_CR_OFFSET :: u32 where "XAXIDMA_RX_CR_OFFSET = 0x30"
definition XAXIDMA_RX_SR_OFFSET :: u32 where "XAXIDMA_RX_SR_OFFSET = 0x34"
definition XAXIDMA_RX_CDESC_OFFSET :: u32 where "XAXIDMA_RX_CDESC_OFFSET = 0x38"
definition XAXIDMA_RX_TDESC_OFFSET :: u32 where "XAXIDMA_RX_TDESC_OFFSET = 0x40"
definition XAXIDMA_BD_STS_COMPLETE_MASK :: u32 where "XAXIDMA_BD_STS_COMPLETE_MASK = 0x80000000"

abbreviation SEND_INVALIDATE :: u8 where "SEND_INVALIDATE \<equiv> 1"
abbreviation SEND_IMMEDIATE :: u8 where "SEND_IMMEDIATE \<equiv> 2"

subsection \<open>The engine's registers\<close>

datatype dma_io = DmaR u32 | DmaW u32 u64

type_synonym dma_hw = "dma_io list \<Rightarrow> u32 \<Rightarrow> u32"

type_synonym dlog = "dma_io list"

definition axidma_in32 :: "dma_hw \<Rightarrow> u32 \<Rightarrow> dlog \<Rightarrow> u32 \<times> dlog" where
  "axidma_in32 hw reg l = (hw l reg, l @ [DmaR reg])"

text \<open>On other processors than MicroBlaze the arguments of \<open>__raw_writel\<close> are exchanged: the value is taken as an address,
  which no mapping covers.\<close>

definition axidma_out32 :: "bool \<Rightarrow> u32 \<Rightarrow> u32 \<Rightarrow> dlog \<Rightarrow> dlog option" where
  "axidma_out32 microblaze reg v l = (if microblaze then Some (l @ [DmaW reg (ucast v)]) else None)"

definition axidma_bdout :: "u32 \<Rightarrow> u64 \<Rightarrow> dlog \<Rightarrow> dlog" where
  "axidma_bdout reg v l = l @ [DmaW reg v]"

subsection \<open>Setting up and releasing the ring\<close>

datatype dma_block = NotiBuffers | NotiPointers | Descriptors

text \<open>What is freed.  The null pointer is dereferenced when the array of pointers is missing.\<close>

definition axidma_bd_release :: "axidma_q \<Rightarrow> dma_block list option" where
  "axidma_bd_release dq = do {
     nb \<leftarrow> rq_noti_buf dq;
     bufs \<leftarrow> (if nb ! 0 \<noteq> None then (if rx_bd_v dq = None then None else Some [NotiBuffers]) else Some []);
     Some (bufs @ [NotiPointers] @ (if rx_bd_v dq \<noteq> None then [Descriptors] else []))}"

record dma_env =
  de_kcalloc :: bool
  de_bufs :: "u64 option"
  de_ring :: "u64 option"
  de_mem :: "rq_noti_buffer list"

definition init_bd :: "u64 \<Rightarrow> u64 \<Rightarrow> nat \<Rightarrow> axidma_bd" where
  "init_bd ring bufs i = \<lparr>bd_next = ring + of_nat (128 * (Suc i mod RX_BD_NUM)), bd_phys = bufs + of_nat (8 * i), bd_cntrl = 8, bd_status = 0\<rparr>"

definition rx_control :: "u32 \<Rightarrow> u32" where
  "rx_control cr = (((cr AND NOT 0x00FF0000 OR push_bit 16 1) AND NOT 0xFF000000) OR push_bit 24 254) OR 0x7000"

definition start_rx :: "bool \<Rightarrow> dma_hw \<Rightarrow> u64 \<Rightarrow> dlog \<Rightarrow> dlog option" where
  "start_rx mb hw ring l0 = do {
     let (cr, l1) = axidma_in32 hw XAXIDMA_RX_CR_OFFSET l0;
     l2 \<leftarrow> axidma_out32 mb XAXIDMA_RX_CR_OFFSET (rx_control cr) l1;
     let l3 = axidma_bdout XAXIDMA_RX_CDESC_OFFSET ring l2;
     let (cr, l4) = axidma_in32 hw XAXIDMA_RX_CR_OFFSET l3;
     l5 \<leftarrow> axidma_out32 mb XAXIDMA_RX_CR_OFFSET (cr OR 1) l4;
     Some (axidma_bdout XAXIDMA_RX_TDESC_OFFSET (ring + of_nat (128 * (RX_BD_NUM - 1))) l5)}"

text \<open>The return value, the queue, what was freed, the accesses.  A descriptor is aligned to 128 bytes, a notification
  has 8.  \<open>None\<close> is a fault.\<close>

definition axidma_bd_init ::
  "bool \<Rightarrow> dma_hw \<Rightarrow> dma_env \<Rightarrow> axidma_q \<Rightarrow> dlog \<Rightarrow> (int \<times> axidma_q \<times> dma_block list \<times> dlog) option" where
  "axidma_bd_init mb hw env dq l =
     (if \<not> de_kcalloc env then map_option (\<lambda>f. (- ENOMEM, dq, f, l)) (axidma_bd_release (dq\<lparr>rq_noti_buf := None\<rparr>))
      else let dq1 = dq\<lparr>rq_noti_buf := Some (replicate RX_BD_NUM None)\<rparr> in
        case de_bufs env of
          None \<Rightarrow> map_option (\<lambda>f. (- ENOMEM, dq1, f, l)) (axidma_bd_release dq1)
        | Some bufs \<Rightarrow>
            (case de_ring env of
               None \<Rightarrow> map_option (\<lambda>f. (- ENOMEM, dq1\<lparr>rx_bd_v := None\<rparr>, f, l)) (axidma_bd_release (dq1\<lparr>rx_bd_v := None\<rparr>))
             | Some ring \<Rightarrow>
                 map_option (\<lambda>l'. (0, dq1\<lparr>rx_bd_v := Some (map (init_bd ring bufs) [0..<RX_BD_NUM]), rx_bd_p := ring,
                     rq_noti_buf := Some (map Some (take RX_BD_NUM (de_mem env))), rx_bd_ci := 0\<rparr>, [], l'))
                   (start_rx mb hw ring l)))"

subsection \<open>Receiving notifications\<close>

record noti_dev =
  nt_qps :: "xib_qp option list"
  nt_mr_map :: xib_bmap
  nt_log :: "io list"

text \<open>A notification records its data for the receive entry it names, and an invalidation also takes the region away.
  Indices are one less than the numbers; \<open>None\<close> is an access outside an array or through a null pointer.\<close>

definition record_imm :: "rq_noti_buffer \<Rightarrow> xib_qp option list \<Rightarrow> xib_qp option list option" where
  "record_imm buf qps =
     (let q = unat (noti_qpid buf) - 1; p = unat (noti_rq_pi buf) - 1 in
      if noti_qpid buf = 0 \<or> length qps \<le> q then None
      else case qps ! q of None \<Rightarrow> None
      | Some qp \<Rightarrow>
          if noti_rq_pi buf = 0 \<or> length (imm_inv_data qp) \<le> p then None
          else Some (qps[q := Some (qp\<lparr>imm_inv_data := (imm_inv_data qp)[p :=
            \<lparr>inv_data = noti_data buf, inv_type = noti_type buf, isvalid = True\<rparr>]\<rparr>)]))"

definition apply_noti :: "rq_noti_buffer \<Rightarrow> noti_dev \<Rightarrow> noti_dev option" where
  "apply_noti buf d = do {
     qps \<leftarrow> (if noti_type buf = SEND_INVALIDATE \<or> noti_type buf = SEND_IMMEDIATE then record_imm buf (nt_qps d) else Some (nt_qps d));
     let d1 = d\<lparr>nt_qps := qps\<rparr>;
     if noti_type buf = SEND_INVALIDATE
     then (case run_state (xrnic_unreg_mr (nt_mr_map d1) (noti_data buf)) (nt_log d1) of
             (None, l) \<Rightarrow> None
           | (Some m, l) \<Rightarrow> Some (d1\<lparr>nt_mr_map := m, nt_log := l\<rparr>))
     else Some d1}"

definition bd_complete :: "axidma_bd \<Rightarrow> bool" where
  "bd_complete b \<longleftrightarrow> bd_status b AND XAXIDMA_BD_STS_COMPLETE_MASK \<noteq> 0"

definition bd_done :: "axidma_bd \<Rightarrow> axidma_bd" where
  "bd_done b = b\<lparr>bd_cntrl := 8, bd_status := 0\<rparr>"

text \<open>The loop over the memory of the ring as it is when the handler runs, with the local counters \<open>tail_p\<close> and
  \<open>packets\<close>; \<open>size\<close> is 8 times the latter.\<close>

function recv_loop ::
  "u64 \<Rightarrow> rq_noti_buffer option list \<Rightarrow> axidma_bd list \<Rightarrow> nat \<Rightarrow> u64 \<Rightarrow> u32 \<Rightarrow> noti_dev \<Rightarrow>
     (axidma_bd list \<times> nat \<times> u64 \<times> u32 \<times> noti_dev) option" where
  "recv_loop ring bufs bds ci tail pkts d =
     (if length bds \<le> ci then None
      else if \<not> bd_complete (bds ! ci) then Some (bds, ci, tail, pkts, d)
      else if length bufs \<le> ci then None
      else case bufs ! ci of None \<Rightarrow> None
      | Some buf \<Rightarrow>
          (case apply_noti buf d of None \<Rightarrow> None
           | Some d' \<Rightarrow> recv_loop ring bufs (bds[ci := bd_done (bds ! ci)]) (Suc ci mod RX_BD_NUM)
               (ring + of_nat (128 * ci)) (pkts + 1) d'))"
  by auto

lemma pending_done:
  "ci < length bds \<Longrightarrow> bd_complete (bds ! ci) \<Longrightarrow>
     length (filter bd_complete (bds[ci := bd_done (bds ! ci)])) < length (filter bd_complete bds)"
proof -
  assume a: "ci < length bds" "bd_complete (bds ! ci)"
  have nd: "\<not> bd_complete (bd_done (bds ! ci))" by (simp add: bd_complete_def bd_done_def)
  have "length (filter bd_complete bds) = length (filter bd_complete (take ci bds @ bds ! ci # drop (Suc ci) bds))"
    using a(1) by (simp only: id_take_nth_drop [symmetric])
  then show ?thesis using a(1) nd a(2) by (simp add: upd_conv_take_nth_drop)
qed

termination recv_loop
  by (relation "measure (\<lambda>(ring, bufs, bds, ci, tail, pkts, d). length (filter bd_complete bds))") (auto intro: pending_done)

declare recv_loop.simps [simp del]

definition axidma_rq_recv :: "axidma_q \<Rightarrow> noti_dev \<Rightarrow> dlog \<Rightarrow> (axidma_q \<times> noti_dev \<times> dlog) option" where
  "axidma_rq_recv dq d l = do {
     bds \<leftarrow> rx_bd_v dq;
     bufs \<leftarrow> rq_noti_buf dq;
     (bds', ci, tail, pkts, d') \<leftarrow> recv_loop (rx_bd_p dq) bufs bds (unat (rx_bd_ci dq)) 0 0 d;
     Some (dq\<lparr>rx_bd_v := Some bds', rx_bd_ci := of_nat ci, rx_packets := rx_packets dq + ucast pkts,
             rx_bytes := rx_bytes dq + ucast (pkts * 8)\<rparr>, d',
           if tail \<noteq> 0 then axidma_bdout XAXIDMA_RX_TDESC_OFFSET tail l else l)}"

definition axidma_rx_irq ::
  "bool \<Rightarrow> dma_hw \<Rightarrow> axidma_q \<Rightarrow> noti_dev \<Rightarrow> dlog \<Rightarrow> (axidma_q \<times> noti_dev \<times> dlog) option" where
  "axidma_rx_irq mb hw dq d l0 = do {
     let (status, l1) = axidma_in32 hw XAXIDMA_RX_SR_OFFSET l0;
     if status AND 0x4000 \<noteq> 0 then Some (dq, d, l1)
     else do {
       (dq', d', l2) \<leftarrow> (if status AND 0x3000 \<noteq> 0 then do {
            la \<leftarrow> axidma_out32 mb XAXIDMA_RX_SR_OFFSET status l1;
            let (cr, lb) = axidma_in32 hw XAXIDMA_RX_CR_OFFSET la;
            lc \<leftarrow> axidma_out32 mb XAXIDMA_RX_CR_OFFSET (cr AND NOT 0x3000) lb;
            axidma_rq_recv dq d lc}
          else Some (dq, d, l1));
       let (cr, l3) = axidma_in32 hw XAXIDMA_RX_CR_OFFSET l2;
       l4 \<leftarrow> axidma_out32 mb XAXIDMA_RX_CR_OFFSET (cr OR 0x3000) l3;
       Some (dq', d', l4)}}"

subsection \<open>Loading and unloading\<close>

record axidma_node =
  an_found :: bool
  an_kzalloc :: bool
  an_resource :: int
  an_ioremap :: bool
  an_irq :: u32
  an_request_irq :: int

definition zero_axidma_q :: axidma_q where
  "zero_axidma_q = \<lparr>rx_irq = 0, rx_bd_v = None, rx_bd_p = 0, rx_bd_ci = 0, rq_noti_buf = None, rx_packets = 0, rx_bytes = 0\<rparr>"

text \<open>The return value and \<open>dmaq\<close>.  A failure of \<open>axidma_bd_init\<close> is only printed.\<close>

definition axidma_init ::
  "bool \<Rightarrow> dma_hw \<Rightarrow> axidma_node \<Rightarrow> dma_env \<Rightarrow> dlog \<Rightarrow> (int \<times> axidma_q option \<times> dlog) option" where
  "axidma_init mb hw np env l =
     (if \<not> an_found np then Some (- ENODEV, None, l)
      else if \<not> an_kzalloc np then Some (- ENOMEM, None, l)
      else if an_resource np < 0 \<or> \<not> an_ioremap np then Some (- ENODEV, Some zero_axidma_q, l)
      else let dq = zero_axidma_q\<lparr>rx_irq := an_irq np\<rparr> in
        if an_irq np = 0 then Some (- ENODEV, Some dq, l)
        else do {
          (r, dq', freed, l') \<leftarrow> axidma_bd_init mb hw env dq l;
          Some (if an_request_irq np \<noteq> 0 then (an_request_irq np, Some (dq'\<lparr>rx_irq := 0\<rparr>), l') else (0, Some dq', l'))})"

text \<open>Whether the interrupt is given back, and what is freed.\<close>

definition axidma_exit :: "axidma_q option \<Rightarrow> (bool \<times> dma_block list) option" where
  "axidma_exit dmaq =
     (case dmaq of None \<Rightarrow> Some (False, [])
      | Some dq \<Rightarrow> map_option (\<lambda>f. (rx_irq dq \<noteq> 0, f)) (axidma_bd_release dq))"

subsection \<open>The ring\<close>

fun apply_notis :: "rq_noti_buffer list \<Rightarrow> noti_dev \<Rightarrow> noti_dev option" where
  "apply_notis [] d = Some d"
| "apply_notis (b # bs) d = Option.bind (apply_noti b d) (apply_notis bs)"

definition clear_slots :: "nat list \<Rightarrow> axidma_bd list \<Rightarrow> axidma_bd list" where
  "clear_slots is bds = fold (\<lambda>i b. b[i := bd_done (b ! i)]) is bds"

lemma bd_done_simps [simp]: "\<not> bd_complete (bd_done b)" "bd_done (bd_done b) = bd_done b"
  "bd_next (bd_done b) = bd_next b" "bd_phys (bd_done b) = bd_phys b"
  by (simp_all add: bd_complete_def bd_done_def)

lemma length_clear_slots [simp]: "length (clear_slots is bds) = length bds"
  by (induction "is" arbitrary: bds) (simp_all add: clear_slots_def)

lemma clear_slots_nth:
  "i < length bds \<Longrightarrow> clear_slots is bds ! i = (if i \<in> set is then bd_done (bds ! i) else bds ! i)"
proof (induction "is" arbitrary: bds)
  case (Cons j js)
  have "clear_slots (j # js) bds = clear_slots js (bds[j := bd_done (bds ! j)])" by (simp add: clear_slots_def)
  then show ?case using Cons.IH [of "bds[j := bd_done (bds ! j)]"] Cons.prems
    by (cases "i = j") auto
qed (simp add: clear_slots_def)

lemma slots_wrap: "slots mx f (Suc n) = (f mod mx) # slots mx (Suc f mod mx) n"
  by (simp only: slots_Suc slots_mod)

text \<open>The handler takes the run of completed descriptors that begins at its position: at most the whole ring.\<close>

definition completed_run :: "axidma_bd list \<Rightarrow> nat \<Rightarrow> nat \<Rightarrow> bool" where
  "completed_run bds ci k \<longleftrightarrow> k \<le> RX_BD_NUM \<and> (\<forall>i \<in> set (slots RX_BD_NUM ci k). bd_complete (bds ! i)) \<and>
     (k < RX_BD_NUM \<longrightarrow> \<not> bd_complete (bds ! ((ci + k) mod RX_BD_NUM)))"

lemma slot_distinct: "ci < 128 \<Longrightarrow> 0 < j \<Longrightarrow> j < 128 \<Longrightarrow> (ci + j) mod 128 \<noteq> (ci :: nat)"
  by (auto simp: mod_if)

lemma completed_run_step:
  assumes "length bds = RX_BD_NUM" "ci < RX_BD_NUM" "completed_run bds ci (Suc k)"
  shows "completed_run (bds[ci := bd_done (bds ! ci)]) (Suc ci mod RX_BD_NUM) k" "bd_complete (bds ! ci)"
proof -
  have k: "k < 128" using assms(3) by (simp add: completed_run_def RX_BD_NUM_def)
  have other: "bds[ci := bd_done (bds ! ci)] ! ((ci + Suc j) mod 128) = bds ! ((ci + Suc j) mod 128)" if "j < 127" for j
    using slot_distinct [of ci "Suc j"] that assms(2) by (simp add: RX_BD_NUM_def)
  have shift: "(Suc ci mod 128 + j) mod 128 = (ci + Suc j) mod 128" for j by (simp add: mod_simps)
  show "bd_complete (bds ! ci)" using assms(2,3) by (simp add: completed_run_def slots_wrap)
  have "\<forall>j<k. bd_complete (bds ! ((ci + Suc j) mod 128))"
    using assms(3) unfolding completed_run_def slots_wrap by (auto simp: slots_def shift RX_BD_NUM_def)
  moreover have "\<not> bd_complete (bds[ci := bd_done (bds ! ci)] ! ((ci + Suc k) mod 128))"
  proof (cases "k = 127")
    case True
    then have "(ci + Suc k) mod 128 = ci" using assms(2) by (simp add: RX_BD_NUM_def)
    then show ?thesis using assms(1,2) by simp
  next
    case False
    then show ?thesis using assms(3) k other [of k] by (simp add: completed_run_def RX_BD_NUM_def)
  qed
  ultimately show "completed_run (bds[ci := bd_done (bds ! ci)]) (Suc ci mod RX_BD_NUM) k"
    using k other by (simp add: completed_run_def slots_def shift RX_BD_NUM_def)
qed

lemma recv_loop_exact:
  assumes "length bds = RX_BD_NUM" "length notis = RX_BD_NUM" "ci < RX_BD_NUM" "completed_run bds ci k"
    and "apply_notis (map (\<lambda>i. notis ! i) (slots RX_BD_NUM ci k)) d = Some d'"
  shows "recv_loop ring (map Some notis) bds ci tail pkts d =
    Some (clear_slots (slots RX_BD_NUM ci k) bds, (ci + k) mod RX_BD_NUM,
      if k = 0 then tail else ring + of_nat (128 * ((ci + k - 1) mod RX_BD_NUM)), pkts + of_nat k, d')"
  using assms
proof (induction k arbitrary: bds ci d tail pkts)
  case 0
  then show ?case by (subst recv_loop.simps) (simp add: completed_run_def clear_slots_def slots_def RX_BD_NUM_def)
next
  case (Suc k)
  let ?bds = "bds[ci := bd_done (bds ! ci)]" and ?ci = "Suc ci mod RX_BD_NUM"
  note st = completed_run_step [OF Suc.prems(1,3,4)]
  obtain d1 where d1: "apply_noti (notis ! ci) d = Some d1" "apply_notis (map (\<lambda>i. notis ! i) (slots RX_BD_NUM ?ci k)) d1 = Some d'"
    using Suc.prems(3,5) by (auto simp: slots_wrap bind_eq_Some_conv)
  have "?ci < RX_BD_NUM" by (simp add: RX_BD_NUM_def)
  then have "recv_loop ring (map Some notis) ?bds ?ci (ring + of_nat (128 * ci)) (pkts + 1) d1 =
      Some (clear_slots (slots RX_BD_NUM ?ci k) ?bds, (?ci + k) mod RX_BD_NUM,
        if k = 0 then ring + of_nat (128 * ci) else ring + of_nat (128 * ((?ci + k - 1) mod RX_BD_NUM)), pkts + 1 + of_nat k, d')"
    using Suc.IH st(1) d1(2) Suc.prems(1,2) by simp
  moreover have "(?ci + k - 1) mod RX_BD_NUM = (ci + k) mod RX_BD_NUM" if "k \<noteq> 0"
    using that by (cases k) (simp_all add: mod_simps)
  moreover have "clear_slots (slots RX_BD_NUM ?ci k) ?bds = clear_slots (slots RX_BD_NUM ci (Suc k)) bds"
    using Suc.prems(3) by (simp add: slots_wrap clear_slots_def)
  ultimately show ?case using Suc.prems(1-3) st(2) d1(1)
    by (subst recv_loop.simps) (auto simp: mod_simps algebra_simps)
qed

text \<open>The queue after set-up, and after every interrupt.\<close>

definition ring_wf :: "axidma_q \<Rightarrow> bool" where
  "ring_wf dq \<longleftrightarrow> unat (rx_bd_ci dq) < RX_BD_NUM \<and>
     (\<exists>bds notis bufs. rx_bd_v dq = Some bds \<and> rq_noti_buf dq = Some (map Some notis) \<and>
        length bds = RX_BD_NUM \<and> length notis = RX_BD_NUM \<and>
        (\<forall>i < RX_BD_NUM. bd_next (bds ! i) = rx_bd_p dq + of_nat (128 * (Suc i mod RX_BD_NUM)) \<and>
           bd_phys (bds ! i) = bufs + of_nat (8 * i)))"

definition ring_of :: "axidma_q \<Rightarrow> axidma_bd list" where "ring_of dq = (case rx_bd_v dq of Some bds \<Rightarrow> bds | None \<Rightarrow> [])"

definition notis_of :: "axidma_q \<Rightarrow> rq_noti_buffer list" where
  "notis_of dq = (case rq_noti_buf dq of Some nb \<Rightarrow> map (\<lambda>b. case b of Some x \<Rightarrow> x | None \<Rightarrow> undefined) nb | None \<Rightarrow> [])"

text \<open>The notifications of the completed run, in order.\<close>

definition pending_notis :: "axidma_q \<Rightarrow> nat \<Rightarrow> rq_noti_buffer list" where
  "pending_notis dq k = map (\<lambda>i. notis_of dq ! i) (slots RX_BD_NUM (unat (rx_bd_ci dq)) k)"

lemma bd_addr_nonzero:
  assumes "p \<noteq> 0" "unat p + 128 * RX_BD_NUM < 2 ^ 64" "i < RX_BD_NUM"
  shows "p + of_nat (128 * i) \<noteq> (0::u64)"
proof -
  have u: "unat (of_nat (128 * i) :: u64) = 128 * i"
    using assms(3) by (simp add: unsigned_of_nat take_bit_nat_eq_self_iff RX_BD_NUM_def del: of_nat_mult)
  then have "unat (p + of_nat (128 * i)) = unat p + 128 * i"
    using assms(2,3) by (subst unat_add_no_wrap) simp_all
  then show ?thesis using assms(1) by (metis add_eq_0_iff_both_eq_0 unat_0 unsigned_eq_0_iff)
qed

lemma packet_counts:
  assumes "k \<le> 128"
  shows "ucast (of_nat k :: u32) = (of_nat k :: u64)" "ucast (of_nat k * 8 :: u32) = (of_nat (8 * k) :: u64)"
proof -
  have "take_bit 32 k = k" "take_bit 64 k = k" using assms by (simp_all add: take_bit_nat_eq_self_iff)
  then show "ucast (of_nat k :: u32) = (of_nat k :: u64)" "ucast (of_nat k * 8 :: u32) = (of_nat (8 * k) :: u64)"
    using assms by (simp_all add: word_unat_eq_iff unsigned_of_nat unat_word_ariths)
qed

text \<open>C15: a call of \<open>axidma_rq_recv\<close> returns and handles exactly the notifications of the completed descriptors from its position
  on, each once and in order; it clears their descriptors and no others, counts them, and hands the last one back to
  the engine; the ring stays well formed.\<close>

theorem axidma_rq_recv_exact:
  assumes wf: "ring_wf dq" and run: "completed_run (ring_of dq) (unat (rx_bd_ci dq)) k"
    and ok: "apply_notis (pending_notis dq k) d = Some d'" and tail: "rx_bd_p dq \<noteq> 0" "unat (rx_bd_p dq) + 128 * RX_BD_NUM < 2 ^ 64"
  shows "\<exists>dq'. axidma_rq_recv dq d l =
      Some (dq', d', if k = 0 then l
        else l @ [DmaW XAXIDMA_RX_TDESC_OFFSET (rx_bd_p dq + of_nat (128 * ((unat (rx_bd_ci dq) + k - 1) mod RX_BD_NUM)))]) \<and>
    ring_wf dq' \<and> unat (rx_bd_ci dq') = (unat (rx_bd_ci dq) + k) mod RX_BD_NUM \<and>
    (\<forall>i < RX_BD_NUM. ring_of dq' ! i =
       (if i \<in> set (slots RX_BD_NUM (unat (rx_bd_ci dq)) k) then bd_done (ring_of dq ! i) else ring_of dq ! i)) \<and>
    rx_packets dq' = rx_packets dq + of_nat k \<and> rx_bytes dq' = rx_bytes dq + of_nat (8 * k)"
proof -
  obtain bds notis bufs where w: "rx_bd_v dq = Some bds" "rq_noti_buf dq = Some (map Some notis)"
      "length bds = RX_BD_NUM" "length notis = RX_BD_NUM"
      "\<And>i. i < RX_BD_NUM \<Longrightarrow> bd_next (bds ! i) = rx_bd_p dq + of_nat (128 * (Suc i mod RX_BD_NUM)) \<and> bd_phys (bds ! i) = bufs + of_nat (8 * i)"
    and ci: "unat (rx_bd_ci dq) < RX_BD_NUM"
    using wf by (auto simp: ring_wf_def)
  let ?ci = "unat (rx_bd_ci dq)" and ?n = "(unat (rx_bd_ci dq) + k) mod RX_BD_NUM"
  let ?t = "rx_bd_p dq + of_nat (128 * ((?ci + k - 1) mod RX_BD_NUM))"
  let ?bds = "clear_slots (slots RX_BD_NUM ?ci k) bds"
  have sets: "ring_of dq = bds" "notis_of dq = notis" using w(1,2) by (simp_all add: ring_of_def notis_of_def comp_def)
  have lp: "recv_loop (rx_bd_p dq) (map Some notis) bds ?ci 0 0 d =
      Some (?bds, ?n, if k = 0 then 0 else ?t, 0 + of_nat k, d')"
    by (rule recv_loop_exact) (use w ci run ok in \<open>simp_all add: sets pending_notis_def\<close>)
  have tl: "?t \<noteq> 0" by (rule bd_addr_nonzero [OF tail]) (simp add: RX_BD_NUM_def)
  have k: "k \<le> 128" using run by (simp add: completed_run_def RX_BD_NUM_def)
  have n: "unat (of_nat ?n :: u32) = ?n" by (simp add: unsigned_of_nat take_bit_nat_eq_self_iff RX_BD_NUM_def order_less_trans [OF mod_less_divisor])
  note pk = packet_counts [OF k]
  define dq' where "dq' = dq\<lparr>rx_bd_v := Some ?bds, rx_bd_ci := of_nat ?n, rx_packets := rx_packets dq + of_nat k,
    rx_bytes := rx_bytes dq + of_nat (8 * k)\<rparr>"
  have "axidma_rq_recv dq d l = Some (dq', d', if k = 0 then l else l @ [DmaW XAXIDMA_RX_TDESC_OFFSET ?t])"
    using lp w(1,2) tl pk unfolding axidma_rq_recv_def dq'_def by (simp add: axidma_bdout_def)
  moreover have "ring_wf dq'"
    unfolding ring_wf_def dq'_def using w n by (auto simp: clear_slots_nth RX_BD_NUM_def intro!: exI [of _ bufs])
  ultimately show ?thesis using n w(3) by (auto simp: dq'_def ring_of_def sets(1) clear_slots_nth w(1))
qed

text \<open>set-up on MicroBlaze with memory at hand gives a well-formed ring whose descriptors are all empty, and starts the
  engine with the first descriptor as the current and the last one as the tail.\<close>

theorem axidma_bd_init_ring:
  assumes "de_kcalloc env" "de_bufs env = Some bufs" "de_ring env = Some ring" "length (de_mem env) = RX_BD_NUM"
  shows "\<exists>dq' l'. axidma_bd_init True hw env dq l = Some (0, dq', [], l') \<and> ring_wf dq' \<and> rx_bd_p dq' = ring \<and>
    completed_run (ring_of dq') (unat (rx_bd_ci dq')) 0 \<and>
    DmaW XAXIDMA_RX_CDESC_OFFSET ring \<in> set l' \<and> last l' = DmaW XAXIDMA_RX_TDESC_OFFSET (ring + of_nat (128 * (RX_BD_NUM - 1)))"
proof -
  obtain l' where l': "start_rx True hw ring l = Some l'" "DmaW XAXIDMA_RX_CDESC_OFFSET ring \<in> set l'"
      "last l' = DmaW XAXIDMA_RX_TDESC_OFFSET (ring + of_nat (128 * (RX_BD_NUM - 1)))"
    by (simp add: start_rx_def axidma_in32_def axidma_out32_def axidma_bdout_def)
  let ?dq = "dq\<lparr>rx_bd_v := Some (map (init_bd ring bufs) [0..<RX_BD_NUM]), rx_bd_p := ring,
    rq_noti_buf := Some (map Some (take RX_BD_NUM (de_mem env))), rx_bd_ci := 0\<rparr>"
  have "ring_wf ?dq" unfolding ring_wf_def
    using assms(4) by (auto simp: init_bd_def RX_BD_NUM_def intro!: exI [of _ bufs])
  moreover have "completed_run (ring_of ?dq) 0 0"
    by (simp add: completed_run_def ring_of_def slots_def init_bd_def bd_complete_def RX_BD_NUM_def)
  ultimately show ?thesis using assms(1-3) l' by (simp add: axidma_bd_init_def)
qed

text \<open>a notification with number 0 for the queue pair or for the receive entry, or for a queue pair that does not exist,
  makes the handler access memory outside the arrays.\<close>

theorem apply_noti_faults:
  assumes "noti_type buf \<in> {SEND_INVALIDATE, SEND_IMMEDIATE}"
    and "noti_qpid buf = 0 \<or> noti_rq_pi buf = 0 \<or> length (nt_qps d) < unat (noti_qpid buf)"
  shows "apply_noti buf d = None"
proof -
  have "record_imm buf (nt_qps d) = None" using assms(2) by (auto simp: record_imm_def Let_def split: option.splits)
  then show ?thesis using assms(1) by (auto simp: apply_noti_def)
qed

text \<open>on other processors than MicroBlaze the set-up faults whenever the device tree has the DMA engine and memory is at
  hand; on every processor it faults when the array of pointers cannot be allocated.\<close>

theorem axidma_init_faults:
  assumes "an_found np" "an_kzalloc np" "0 \<le> an_resource np" "an_ioremap np" "an_irq np \<noteq> 0"
    and "\<not> mb \<and> de_bufs env \<noteq> None \<and> de_ring env \<noteq> None \<or> \<not> de_kcalloc env"
  shows "axidma_init mb hw np env l = None"
proof (cases "de_kcalloc env")
  case True
  then obtain bufs ring where "\<not> mb" "de_bufs env = Some bufs" "de_ring env = Some ring" using assms(6) by auto
  then show ?thesis using True assms(1-5)
    by (simp add: axidma_init_def axidma_bd_init_def start_rx_def axidma_in32_def axidma_out32_def)
next
  case False
  then show ?thesis using assms(1-5) by (simp add: axidma_init_def axidma_bd_init_def axidma_bd_release_def)
qed

text \<open>C31: an immediate value that a notification recorded for the receive entry the driver completes next is reported with
  that completion, once.\<close>

theorem noti_reaches_completion:
  assumes "noti_type buf = SEND_IMMEDIATE" "apply_noti buf d = Some d'"
    and "nt_qps d' ! (unat (noti_qpid buf) - 1) = Some qp" "unat (noti_rq_pi buf) = Suc (unat (cons (rq qp)))"
    and "cons (rq qp) \<noteq> gsi_cons (rq qp)"
  shows "\<exists>ws qp'. poll_recv recv_wc (Suc n) qp = (recv_wc qp # ws, qp') \<and> wc_ex (recv_wc qp) = noti_data buf \<and>
    wc_flags (recv_wc qp) = 2 \<and> \<not> isvalid (imm_inv_data (recv_done qp) ! unat (cons (rq qp)))"
proof -
  obtain q where q: "noti_qpid buf \<noteq> 0" "unat (noti_qpid buf) - 1 < length (nt_qps d)"
      "unat (noti_rq_pi buf) - 1 < length (imm_inv_data q)"
      "nt_qps d' = (nt_qps d)[unat (noti_qpid buf) - 1 := Some (q\<lparr>imm_inv_data := (imm_inv_data q)[unat (noti_rq_pi buf) - 1 :=
            \<lparr>inv_data = noti_data buf, inv_type = noti_type buf, isvalid = True\<rparr>]\<rparr>)]"
    using assms(1,2)
    by (auto simp: apply_noti_def record_imm_def Let_def bind_eq_Some_conv not_le split: if_splits option.splits)
  have idx: "unat (noti_rq_pi buf) - 1 = unat (cons (rq qp))" using assms(4) by simp
  have qp: "imm_inv_data qp ! unat (cons (rq qp)) = \<lparr>inv_data = noti_data buf, inv_type = noti_type buf, isvalid = True\<rparr>"
      "unat (cons (rq qp)) < length (imm_inv_data qp)"
  proof -
    let ?q = "q\<lparr>imm_inv_data := (imm_inv_data q)[unat (cons (rq qp)) := \<lparr>inv_data = noti_data buf, inv_type = noti_type buf, isvalid = True\<rparr>]\<rparr>"
    have eq: "qp = ?q" using q assms(3) unfolding idx by simp
    have "unat (cons (rq qp)) < length (imm_inv_data q)" using q(3) unfolding idx .
    moreover have "imm_inv_data qp = (imm_inv_data q)[unat (cons (rq qp)) := \<lparr>inv_data = noti_data buf, inv_type = noti_type buf, isvalid = True\<rparr>]"
      using arg_cong [OF eq, of imm_inv_data] by simp
    ultimately show "imm_inv_data qp ! unat (cons (rq qp)) = \<lparr>inv_data = noti_data buf, inv_type = noti_type buf, isvalid = True\<rparr>"
        "unat (cons (rq qp)) < length (imm_inv_data qp)" by simp_all
  qed
  then show ?thesis using assms(1,5)
    by (auto simp: recv_wc_def recv_done_def imm_ex_def imm_flags_def Let_def split: prod.splits)
qed

subsection \<open>Examples\<close>

definition demo_noti :: rq_noti_buffer where
  "demo_noti = \<lparr>noti_data = 0xCAFE, noti_type = 2, noti_qpid = 1, noti_rq_pi = 1\<rparr>"

definition demo_noti_qp :: xib_qp where
  "demo_noti_qp = demo_qp\<lparr>imm_inv_data := [\<lparr>inv_data = 0, inv_type = 0, isvalid = False\<rparr>], rq := demo_rq\<lparr>gsi_cons := 1\<rparr>\<rparr>"

definition demo_noti_dev :: noti_dev where
  "demo_noti_dev = \<lparr>nt_qps = [Some demo_noti_qp], nt_mr_map = \<lparr>bitmap = [], max_count = 0\<rparr>, nt_log = []\<rparr>"

definition demo_noti_done :: noti_dev where
  "demo_noti_done = demo_noti_dev\<lparr>nt_qps := [Some (demo_noti_qp\<lparr>imm_inv_data := [\<lparr>inv_data = 0xCAFE, inv_type = 2, isvalid = True\<rparr>]\<rparr>)]\<rparr>"

definition demo_axidma :: axidma_q where
  "demo_axidma = \<lparr>rx_irq = 5, rx_bd_v = Some ((map (init_bd 0x1000 0x9000) [0..<RX_BD_NUM])[0 := (init_bd 0x1000 0x9000 0)\<lparr>bd_status := 0x80000000\<rparr>]),
     rx_bd_p = 0x1000, rx_bd_ci = 0, rq_noti_buf = Some (map Some (replicate RX_BD_NUM demo_noti)), rx_packets = 0, rx_bytes = 0\<rparr>"

lemma demo_apply: "apply_noti demo_noti demo_noti_dev = Some demo_noti_done"
  by (simp add: apply_noti_def record_imm_def demo_noti_def demo_noti_dev_def demo_noti_done_def demo_noti_qp_def)

lemma demo_ring_wf: "ring_wf demo_axidma"
proof -
  let ?bds = "(map (init_bd 0x1000 0x9000) [0..<RX_BD_NUM])[0 := (init_bd 0x1000 0x9000 0)\<lparr>bd_status := 0x80000000\<rparr>]"
  have "bd_next (?bds ! i) = 0x1000 + of_nat (128 * (Suc i mod RX_BD_NUM)) \<and> bd_phys (?bds ! i) = 0x9000 + of_nat (8 * i)" if "i < RX_BD_NUM" for i
    using that by (cases "i = 0") (simp_all add: init_bd_def)
  then show ?thesis unfolding ring_wf_def demo_axidma_def
    by (intro conjI exI [of _ ?bds] exI [of _ "replicate RX_BD_NUM demo_noti"] exI [of _ "0x9000"]) (simp_all add: RX_BD_NUM_def)
qed

theorem axidma_rq_recv_exact_witness:
  "\<exists>dq'. axidma_rq_recv demo_axidma demo_noti_dev [] = Some (dq', demo_noti_done, [DmaW XAXIDMA_RX_TDESC_OFFSET 0x1000]) \<and>
     ring_wf dq' \<and> unat (rx_bd_ci dq') = 1"
proof -
  have s: "slots RX_BD_NUM 0 1 = [0]" by (simp add: slots_def RX_BD_NUM_def)
  have "completed_run (ring_of demo_axidma) 0 1"
    using s by (simp add: completed_run_def slots_def ring_of_def demo_axidma_def bd_complete_def XAXIDMA_BD_STS_COMPLETE_MASK_def init_bd_def RX_BD_NUM_def)
  moreover have "apply_notis (pending_notis demo_axidma 1) demo_noti_dev = Some demo_noti_done"
    by (simp add: pending_notis_def demo_axidma_def slots_def notis_of_def RX_BD_NUM_def demo_apply)
  ultimately show ?thesis
    using axidma_rq_recv_exact [of demo_axidma 1 demo_noti_dev demo_noti_done "[]"] demo_ring_wf
    by (auto simp: demo_axidma_def RX_BD_NUM_def)
qed

theorem axidma_bd_init_ring_witness:
  "\<exists>dq' l'. axidma_bd_init True (\<lambda>_ _. 0) \<lparr>de_kcalloc = True, de_bufs = Some 0x9000, de_ring = Some 0x1000, de_mem = replicate RX_BD_NUM demo_noti\<rparr>
     zero_axidma_q [] = Some (0, dq', [], l') \<and> ring_wf dq'"
  using axidma_bd_init_ring [of "\<lparr>de_kcalloc = True, de_bufs = Some 0x9000, de_ring = Some 0x1000, de_mem = replicate RX_BD_NUM demo_noti\<rparr>"
      "0x9000" "0x1000" "\<lambda>_ _. 0" zero_axidma_q "[]"] by auto

theorem apply_noti_faults_witness: "apply_noti (demo_noti\<lparr>noti_rq_pi := 0\<rparr>) demo_noti_dev = None"
  by (rule apply_noti_faults) (simp_all add: demo_noti_def)

theorem axidma_init_faults_witness:
  "axidma_init False (\<lambda>_ _. 0) \<lparr>an_found = True, an_kzalloc = True, an_resource = 0, an_ioremap = True, an_irq = 7, an_request_irq = 0\<rparr>
     \<lparr>de_kcalloc = True, de_bufs = Some 0x9000, de_ring = Some 0x1000, de_mem = []\<rparr> [] = None"
  by (rule axidma_init_faults) simp_all

theorem noti_reaches_completion_witness:
  "\<exists>qp ws qp'. nt_qps demo_noti_done = [Some qp] \<and> poll_recv recv_wc (Suc 3) qp = (recv_wc qp # ws, qp') \<and> wc_ex (recv_wc qp) = 0xCAFE"
proof -
  let ?qp = "demo_noti_qp\<lparr>imm_inv_data := [\<lparr>inv_data = 0xCAFE, inv_type = 2, isvalid = True\<rparr>]\<rparr>"
  have "\<exists>ws qp'. poll_recv recv_wc (Suc 3) ?qp = (recv_wc ?qp # ws, qp') \<and> wc_ex (recv_wc ?qp) = noti_data demo_noti \<and>
      wc_flags (recv_wc ?qp) = 2 \<and> \<not> isvalid (imm_inv_data (recv_done ?qp) ! unat (cons (rq ?qp)))"
    by (rule noti_reaches_completion [OF _ demo_apply])
      (simp_all add: demo_noti_def demo_noti_done_def demo_noti_qp_def demo_rq_def)
  then show ?thesis by (auto simp: demo_noti_done_def demo_noti_def)
qed

end
