(* ===== verification/Xib_Probe.thy ===== *)
theory Xib_Probe
  imports Xib_Verbs Xib_Netdev Xib_Pfc Axidma
begin

text \<open>
  Loading and unloading of the driver: \<open>xlnx_ernic_probe\<close> and \<open>xlnx_ernic_remove\<close> of
  \<open>recipes-modules/xib-module/files/main.c\<close>, the strings of \<open>xib_kmm_export.h\<close>, and the PL allocator,
  \<open>recipes-modules/pl-allocator/files/pl_allocater.c\<close>, whose device the driver takes.  This is where the components of
  the driver are put together; the theorems say what state they start from.
\<close>

unbundle bit_operations_syntax

subsection \<open>The PL allocator\<close>

record pl_alloc_ctrl =
  plc_dev :: bool
  ref_count :: int

text \<open>\<open>kz\<close> is whether \<open>kzalloc\<close> succeeds, \<open>rc\<close> what \<open>of_reserved_mem_device_init\<close> returns.  The missing memory is only
  printed; \<open>None\<close> is the write through the null pointer that follows.\<close>

definition xlnx_pl_alloc_probe :: "bool \<Rightarrow> int \<Rightarrow> (int \<times> pl_alloc_ctrl option) option" where
  "xlnx_pl_alloc_probe kz rc =
     (if rc \<noteq> 0 then Some (- EFAULT, None)
      else if \<not> kz then None
      else Some (0, Some \<lparr>plc_dev = True, ref_count = 0\<rparr>))"

text \<open>Whether there is a device; \<open>None\<close> is a null \<open>plc\<close>.\<close>

definition xlnx_pl_alloc_get_device :: "pl_alloc_ctrl option \<Rightarrow> (bool \<times> pl_alloc_ctrl option) option" where
  "xlnx_pl_alloc_get_device plc = map_option (\<lambda>c. (plc_dev c, Some (c\<lparr>ref_count := ref_count c + 1\<rparr>))) plc"

subsection \<open>Memory types\<close>

definition xib_mem_str_to_type :: "string option \<Rightarrow> int" where
  "xib_mem_str_to_type str =
     (case str of None \<Rightarrow> - EINVAL
      | Some s \<Rightarrow>
          if strcaseeq s ''ps'' then uint XMEM_PS_DDR
          else if strcaseeq s ''pl'' then uint XMEM_PL_DDR
          else if strcaseeq s ''bram'' then uint XMEM_BRAM
          else if strcaseeq s ''eddr'' then uint XMEM_EXT_DDR
          else - EINVAL)"

definition queue_mem_ok :: "kmm \<Rightarrow> string \<Rightarrow> bool" where
  "queue_mem_ok k from = get_xib_mem_accessible_status k (of_int (xib_mem_str_to_type (Some from)))"

definition check_queue_mem_types :: "kmm \<Rightarrow> string \<Rightarrow> string \<Rightarrow> string \<Rightarrow> int" where
  "check_queue_mem_types k sq_m cq_m rq_m =
     (if \<not> queue_mem_ok k sq_m then - EFAULT
      else if \<not> queue_mem_ok k cq_m then - EFAULT
      else if \<not> queue_mem_ok k rq_m then - EFAULT
      else 0)"

subsection \<open>The device while it is loaded\<close>

text \<open>\<open>struct xilinx_ib_dev\<close>, and which of its registrations are in force.\<close>

record probe_dev =
  pb_dev :: life_dev
  pb_attr :: dev_attrs
  pb_pd_map :: xib_bmap
  pb_mr_map :: xib_bmap
  pb_net :: ib_net
  pb_guid :: "u8 list"
  pb_retry :: "u64 \<times> u64"
  pb_in_pkt_err :: "u64 \<times> u64"
  pb_dmaq :: "axidma_q option"
  pb_registered :: bool
  pb_pfc :: bool
  pb_irq :: bool
  pb_notifiers :: bool
  pb_started :: bool

definition zero_bmap :: xib_bmap where
  "zero_bmap = \<lparr>bitmap = [], max_count = 0\<rparr>"

definition zero_xl :: xrnic_local where
  "zero_xl = \<lparr>xl_irq = 0, qp1_sq_db_p = 0, qp1_sq_db = [], qp1_rq_db_p = 0, qp1_rq_db = [], qps_enabled = 0,
     udp_sport = 0, db_pa = 0, db_size = 0, in_pkt_err = [], in_pkt_err_db_local = 0, num_intr_banks = 0, cq_rq_db_size = 0\<rparr>"

text \<open>What \<open>ib_alloc_device\<close> returns, with the number of queue pairs and the first path MTU.\<close>

definition fresh_dev :: "u32 \<Rightarrow> mem_state \<Rightarrow> probe_dev" where
  "fresh_dev n ms =
     \<lparr>pb_dev = \<lparr>qp_list = [], gsi_qp = None, max_qp = n, xl = zero_xl, qp_map = zero_bmap, dev_mem = ms\<rparr>,
      pb_attr = \<lparr>da_max_pd = 0, da_max_cq_wqes = 0, da_max_qp = n, da_max_mr = 0, da_max_send_sge = 0\<rparr>,
      pb_pd_map = zero_bmap, pb_mr_map = zero_bmap, pb_net = \<lparr>ib_mtu = 4, ib_xl = False\<rparr>, pb_guid = [], pb_retry = (0, 0),
      pb_in_pkt_err = (0, 0), pb_dmaq = None, pb_registered = False, pb_pfc = False, pb_irq = False, pb_notifiers = False,
      pb_started = False\<rparr>"

text \<open>What the device tree and the kernel answer.  \<open>pe_register\<close> is \<open>ib_register_device\<close> with what its clients do to the
  device before it returns.\<close>

record ernic_env =
  pe_kmm :: kmm
  pe_life :: life_env
  pe_cq_mem :: string
  pe_rtr_mem :: string
  pe_bram :: "bool \<times> u64 \<times> (int + resource) option"
  pe_eddr :: "bool \<times> u64 \<times> reg_cells option"
  pe_alloc :: bool
  pe_num_qp :: "u32 option"
  pe_num_pd :: "u32 option"
  pe_sgl_depth :: "u32 option"
  pe_pf :: platform
  pe_kzalloc :: "nat \<Rightarrow> bool"
  pe_netdev :: "net_device option"
  pe_ernic_node :: bool
  pe_register :: "probe_dev \<Rightarrow> (int \<times> probe_dev) dev"
  pe_pfc_kobj :: bool
  pe_pfc_group :: int
  pe_request_irq :: int
  pe_microblaze :: bool
  pe_dma_hw :: dma_hw
  pe_axi_node :: axidma_node
  pe_axi_env :: dma_env

subsection \<open>The steps of the probe\<close>

text \<open>A step faults (\<open>None\<close>), returns from the probe with an error and what it leaves behind (\<open>Inl\<close>), or goes on.\<close>

type_synonym probe_step = "((int \<times> probe_dev) + probe_dev) option dev"

definition probe_then :: "probe_step \<Rightarrow> (probe_dev \<Rightarrow> probe_step) \<Rightarrow> probe_step" where
  "probe_then m f = do {
     r \<leftarrow> m;
     (case r of None \<Rightarrow> State_Monad.return None
      | Some (Inl e) \<Rightarrow> State_Monad.return (Some (Inl e))
      | Some (Inr d) \<Rightarrow> f d)}"

definition go_on :: "probe_dev \<Rightarrow> probe_step" where
  "go_on d = State_Monad.return (Some (Inr d))"

definition give_up :: "int \<Rightarrow> probe_dev \<Rightarrow> probe_step" where
  "give_up err d = State_Monad.return (Some (Inl (err, d)))"

text \<open>The memory managers.  Their results are not looked at.\<close>

definition probe_memory :: "ernic_env \<Rightarrow> pl_alloc_ctrl option \<Rightarrow> mem_state \<Rightarrow> (pl_alloc_ctrl option \<times> mem_state) option" where
  "probe_memory env plc ms = do {
     (dev, plc') \<leftarrow> xlnx_pl_alloc_get_device plc;
     let ms1 = (if dev then snd (xib_register_pl_allocator ms) else ms\<lparr>pl_alloc_dev := False\<rparr>);
     (r, ms2) \<leftarrow> (case pe_bram env of (km, va, np) \<Rightarrow> mgr_bram_init km (le_kz (pe_life env)) va ms1 np);
     Some (plc', snd (case pe_eddr env of (km, garbage, np) \<Rightarrow> mgr_ext_ddr_init km (le_kz (pe_life env)) garbage ms2 np))}"

definition num_qp :: "ernic_env \<Rightarrow> u32" where
  "num_qp env = (case pe_num_qp env of None \<Rightarrow> 32 | Some n \<Rightarrow> n)"

definition probe_attrs :: "ernic_env \<Rightarrow> u32 \<Rightarrow> dev_attrs" where
  "probe_attrs env n =
     (let pd = (case pe_num_pd env of None \<Rightarrow> 256 | Some p \<Rightarrow> p) in
      \<lparr>da_max_pd = pd, da_max_cq_wqes = 1024, da_max_qp = n, da_max_mr = pd,
       da_max_send_sge = (case pe_sgl_depth env of None \<Rightarrow> 0 | Some s \<Rightarrow> s)\<rparr>)"

definition set_xl :: "(xrnic_local \<Rightarrow> xrnic_local) \<Rightarrow> probe_dev \<Rightarrow> probe_dev" where
  "set_xl f d = d\<lparr>pb_dev := (pb_dev d)\<lparr>xl := f (xl (pb_dev d))\<rparr>\<rparr>"

text \<open>The device, its registers, its interface and its limits.\<close>

definition probe_attach :: "ernic_env \<Rightarrow> mem_state \<Rightarrow> probe_step" where
  "probe_attach env ms =
     (let n = num_qp env; d0 = fresh_dev n ms in
      if \<not> pe_alloc env then give_up (- ENOMEM) d0
      else do {
        r \<leftarrow> xrnic_hw_init (pe_pf env) ms (pe_kzalloc env 0) n;
        (case r of
           InitNullXib \<Rightarrow> State_Monad.return None
         | InitFail \<Rightarrow> give_up (- ENODEV) d0
         | InitOk x \<Rightarrow>
             let d1 = (set_xl (\<lambda>_. x) d0)\<lparr>pb_net := \<lparr>ib_mtu = 4, ib_xl = True\<rparr>\<rparr> in
             (case pe_netdev env of
                None \<Rightarrow> give_up (- EINVAL) d1
              | Some nd \<Rightarrow>
                  let d2 = d1\<lparr>pb_net := \<lparr>ib_mtu = pmtu_of (nd_mtu nd), ib_xl = True\<rparr>\<rparr> in
                  if \<not> pe_ernic_node env then give_up (- EFAULT) d2
                  else go_on ((set_xl (\<lambda>x. x\<lparr>num_intr_banks := n div 32\<rparr>) d2)
                    \<lparr>pb_guid := xib_get_guid (nd_addr nd), pb_attr := probe_attrs env n\<rparr>)))})"

definition rtr_bytes :: u64 where "rtr_bytes = 1024 * 4096"

definition err_bytes :: "u32 \<Rightarrow> u64" where "err_bytes n = ucast (n * 8)"

text \<open>The buffers for retries and for errors of incoming packets.\<close>

definition probe_buffers :: "ernic_env \<Rightarrow> probe_dev \<Rightarrow> probe_step" where
  "probe_buffers env d =
     (case xib_alloc_coherent (le_dma (pe_life env)) (le_kz (pe_life env)) (dev_mem (pb_dev d)) (pe_rtr_mem env) rtr_bytes of
        None \<Rightarrow> State_Monad.return None
      | Some ((va, pa), ms) \<Rightarrow>
          let d1 = d\<lparr>pb_dev := (pb_dev d)\<lparr>dev_mem := ms\<rparr>, pb_retry := (va, 0)\<rparr> in
          (case pa of None \<Rightarrow> give_up (- ENOMEM) d1
           | Some rtr \<Rightarrow>
               if rtr = 0 then give_up (- ENOMEM) d1
               else do {
                 set_base XRNIC_DATA_BUF_BASE_LSB XRNIC_DATA_BUF_BASE_MSB rtr;
                 xrnic_iow XRNIC_DATA_BUF_SZ (1024 OR push_bit 16 4096);
                 let d2 = d1\<lparr>pb_retry := (va, rtr)\<rparr>;
                 let n = max_qp (pb_dev d);
                 (case pf_dma (pe_pf env) DevPs (err_bytes n) of
                    None \<Rightarrow> give_up (- ENOMEM) d2
                  | Some (eva, ba) \<Rightarrow>
                      if ba = 0 then give_up (- ENOMEM) d2
                      else do {
                        set_base XRNIC_INCG_PKT_ERRQ_BASE_LSB XRNIC_INCG_PKT_ERRQ_BASE_MSB ba;
                        xrnic_iow XRNIC_INCG_PKT_ERRQ_SZ n;
                        go_on ((set_xl (\<lambda>x. x\<lparr>in_pkt_err := replicate (unat (err_bytes n) div 4) 0\<rparr>) d2)\<lparr>pb_in_pkt_err := (eva, ba)\<rparr>)})}))"

text \<open>The table and the three sets of numbers: without memory the table is null and a set stays empty, and nobody looks.\<close>

definition bmap_or_zero :: "bool \<Rightarrow> u32 \<Rightarrow> xib_bmap" where
  "bmap_or_zero kc n = (case xib_bmap_alloc kc n of None \<Rightarrow> zero_bmap | Some b \<Rightarrow> b)"

definition probe_ids :: "ernic_env \<Rightarrow> probe_dev \<Rightarrow> probe_dev" where
  "probe_ids env d =
     (let n = max_qp (pb_dev d); a = pb_attr d in
      d\<lparr>pb_dev := (pb_dev d)\<lparr>qp_list := (if pe_kzalloc env 1 then replicate (unat n) None else []),
           qp_map := bmap_or_zero (pe_kzalloc env 3) n\<rparr>,
        pb_pd_map := bmap_or_zero (pe_kzalloc env 2) (da_max_pd a),
        pb_mr_map := bmap_or_zero (pe_kzalloc env 4) (da_max_mr a)\<rparr>)"

definition probe_register :: "ernic_env \<Rightarrow> probe_dev \<Rightarrow> probe_step" where
  "probe_register env d = do {
     (err, d') \<leftarrow> pe_register env d;
     if err \<noteq> 0 then give_up err d' else go_on (d'\<lparr>pb_registered := True\<rparr>)}"

definition reserve_qp1 :: "probe_dev \<Rightarrow> probe_dev" where
  "reserve_qp1 d = (case xib_bmap_alloc_id (qp_map (pb_dev d)) of (r, q, m) \<Rightarrow> d\<lparr>pb_dev := (pb_dev d)\<lparr>qp_map := m\<rparr>\<rparr>)"

text \<open>Interrupt, start of the device, notifiers and DMA queue.  \<open>axidma_init\<close>'s return value is not looked at.\<close>

definition probe_start :: "ernic_env \<Rightarrow> probe_dev \<Rightarrow> probe_step" where
  "probe_start env d =
     (if pe_request_irq env \<noteq> 0 then give_up (pe_request_irq env) (d\<lparr>pb_pfc := False, pb_registered := False\<rparr>)
      else do {
        let d1 = set_xl (\<lambda>x. x\<lparr>qps_enabled := max_qp (pb_dev d), udp_sport := 0x8cd1\<rparr>) (d\<lparr>pb_irq := True\<rparr>);
        xrnic_start (xl (pb_dev d1));
        (case axidma_init (pe_microblaze env) (pe_dma_hw env) (pe_axi_node env) (pe_axi_env env) [] of
           None \<Rightarrow> State_Monad.return None
         | Some (r, dq, l) \<Rightarrow> go_on (d1\<lparr>pb_started := True, pb_notifiers := True, pb_dmaq := dq\<rparr>))})"

text \<open>The addresses, the number of the GSI pair and the PFC files.  When these fail the value returned is that of the last
  \<open>set_ip_address\<close>.\<close>

definition probe_network :: "ernic_env \<Rightarrow> probe_dev \<Rightarrow> probe_step" where
  "probe_network env d = do {
     do_when (pe_netdev env \<noteq> None) (xrnic_set_mac (nd_addr (the (pe_netdev env))));
     r4 \<leftarrow> set_ip_address (pe_netdev env) True (Some (pb_net d));
     (case r4 of None \<Rightarrow> State_Monad.return None
      | Some (e4, ib4) \<Rightarrow> do {
          r6 \<leftarrow> set_ip_address (pe_netdev env) False ib4;
          (case r6 of None \<Rightarrow> State_Monad.return None
           | Some (err, ib6) \<Rightarrow>
               let d1 = reserve_qp1 (d\<lparr>pb_net := (case ib6 of Some x \<Rightarrow> x | None \<Rightarrow> pb_net d)\<rparr>) in
               if pfc_create_sysfs_entries (pe_pfc_kobj env) (pe_pfc_group env) \<noteq> 0
               then give_up err (d1\<lparr>pb_registered := False\<rparr>)
               else go_on (d1\<lparr>pb_pfc := True\<rparr>))})}"

text \<open>The value returned, the device, and the PL allocator; \<open>None\<close> is a fault.  The device is what is left behind, also
  after an error: nothing but the registrations is undone.\<close>

definition xlnx_ernic_probe ::
  "ernic_env \<Rightarrow> pl_alloc_ctrl option \<Rightarrow> mem_state \<Rightarrow> (int \<times> probe_dev option \<times> pl_alloc_ctrl option) option dev" where
  "xlnx_ernic_probe env plc ms =
     (let e = check_queue_mem_types (pe_kmm env) (le_sq_mem (pe_life env)) (pe_cq_mem env) (le_rq_mem (pe_life env)) in
      if e \<noteq> 0 then State_Monad.return (Some (e, None, plc))
      else case probe_memory env plc ms of
        None \<Rightarrow> State_Monad.return None
      | Some (plc', ms') \<Rightarrow> do {
          r \<leftarrow> probe_then (probe_then (probe_then (probe_then (probe_attach env ms') (probe_buffers env))
                 (\<lambda>d. probe_register env (probe_ids env d))) (probe_network env)) (probe_start env);
          State_Monad.return (case r of None \<Rightarrow> None
            | Some (Inl (err, d)) \<Rightarrow> Some (err, Some d, plc')
            | Some (Inr d) \<Rightarrow> Some (0, Some d, plc'))})"

text \<open>The interrupt of the device stays requested.  The fourth component is what the DMA queue gives back.\<close>

definition xlnx_ernic_remove :: "life_env \<Rightarrow> probe_dev \<Rightarrow> (int \<times> probe_dev \<times> bool \<times> dma_block list) option" where
  "xlnx_ernic_remove env d = do {
     (axi_irq, blocks) \<leftarrow> axidma_exit (pb_dmaq d);
     let x = xl (pb_dev d);
     let ms0 = dev_mem (pb_dev d);
     let ms1 = (if fst (pb_retry d) \<noteq> 0 then buf_free env ms0 rtr_bytes (snd (pb_retry d)) else ms0);
     let ms2 = (if fst (pb_in_pkt_err d) \<noteq> 0 then buf_free env ms1 (err_bytes (da_max_qp (pb_attr d))) (snd (pb_in_pkt_err d)) else ms1);
     let ms3 = xrnic_hw_deinit (le_kz env) (le_virt env (qp1_sq_db_p x), le_virt env (qp1_rq_db_p x)) ms2 x;
     Some (0, d\<lparr>pb_dev := (pb_dev d)\<lparr>dev_mem := ms3\<rparr>, pb_notifiers := False, pb_pfc := False, pb_registered := False\<rparr>, axi_irq, blocks)}"

subsection \<open>What a loaded device looks like\<close>

text \<open>A step of the probe that went on was not the last word of an earlier one.\<close>

lemma run_probe_then:
  "run_state (probe_then m f) log =
     (case run_state m log of (None, l) \<Rightarrow> (None, l) | (Some (Inl e), l) \<Rightarrow> (Some (Inl e), l) | (Some (Inr d), l) \<Rightarrow> run_state (f d) l)"
  by (simp add: probe_then_def split: prod.splits option.splits sum.splits)

lemma probe_then_on:
  assumes "run_state (probe_then m f) log = (Some (Inr d'), log')"
  obtains d l where "run_state m log = (Some (Inr d), l)" "run_state (f d) l = (Some (Inr d'), log')"
  using assms by (auto simp: run_probe_then split: prod.splits option.splits sum.splits)

lemma run_steps [simp]:
  "run_state (go_on d) log = (Some (Inr d), log)" "run_state (give_up e d) log = (Some (Inl (e, d)), log)"
  by (simp_all add: go_on_def give_up_def)

text \<open>The doorbell area has a word for every queue pair.\<close>

lemma db_area_holds:
  assumes "unat n < 2 ^ 20"
  shows "unat n \<le> unat (db_area_size n) div 4"
proof -
  have a: "unat (n * 4 + 4095) = unat n * 4 + 4095"
    using assms by (simp add: unat_word_ariths)
  have "unat (db_area_size n) = ((unat n * 4 + 4095) div 4096) * 4096"
    using a assms unfolding db_area_size_def by (simp add: unat_word_ariths unat_div)
  then show ?thesis by (simp add: div_mult_mod_eq)
qed

lemma hw_init_sizes:
  assumes "run_state (xrnic_hw_init pf ms kz n) log = (InitOk x, log')"
  shows "length (qp1_sq_db x) = unat (db_area_size n) div 4" "length (qp1_rq_db x) = unat (db_area_size n) div 4"
  using assms by (auto simp: xrnic_hw_init_def Let_def split: if_splits option.splits prod.splits)

lemma probe_attach_on:
  assumes "run_state (probe_attach env ms) log = (Some (Inr d), log')"
  shows "max_qp (pb_dev d) = num_qp env" "num_intr_banks (xl (pb_dev d)) = num_qp env div 32"
    "length (qp1_sq_db (xl (pb_dev d))) = unat (db_area_size (num_qp env)) div 4"
    "length (qp1_rq_db (xl (pb_dev d))) = unat (db_area_size (num_qp env)) div 4" "pb_attr d = probe_attrs env (num_qp env)"
    "ib_xl (pb_net d)" "gsi_qp (pb_dev d) = None"
  using assms hw_init_sizes
  by (auto simp: probe_attach_def Let_def set_xl_def fresh_dev_def split: if_splits init_result.splits option.splits prod.splits)

lemma probe_buffers_on:
  assumes "run_state (probe_buffers env d) log = (Some (Inr d'), log')"
  shows "max_qp (pb_dev d') = max_qp (pb_dev d)" "num_intr_banks (xl (pb_dev d')) = num_intr_banks (xl (pb_dev d))"
    "qp1_sq_db (xl (pb_dev d')) = qp1_sq_db (xl (pb_dev d))" "qp1_rq_db (xl (pb_dev d')) = qp1_rq_db (xl (pb_dev d))"
    "pb_attr d' = pb_attr d" "length (in_pkt_err (xl (pb_dev d'))) = unat (err_bytes (max_qp (pb_dev d))) div 4"
    "in_pkt_err_db_local (xl (pb_dev d')) = in_pkt_err_db_local (xl (pb_dev d))"
    "snd (pb_retry d') \<noteq> 0" "snd (pb_in_pkt_err d') \<noteq> 0"
  using assms by (auto simp: probe_buffers_def Let_def set_xl_def split: if_splits option.splits prod.splits)

lemma probe_network_on:
  assumes "run_state (probe_network env d) log = (Some (Inr d'), log')"
  shows "qp_map (pb_dev d') = snd (snd (xib_bmap_alloc_id (qp_map (pb_dev d))))" "xl (pb_dev d') = xl (pb_dev d)"
    "qp_list (pb_dev d') = qp_list (pb_dev d)" "max_qp (pb_dev d') = max_qp (pb_dev d)" "pb_attr d' = pb_attr d"
    "pb_pd_map d' = pb_pd_map d" "pb_mr_map d' = pb_mr_map d" "pb_registered d' = pb_registered d" "pb_pfc d'"
  using assms by (auto simp: probe_network_def reserve_qp1_def Let_def split: if_splits option.splits prod.splits)

lemma probe_start_on:
  assumes "run_state (probe_start env d) log = (Some (Inr d'), log')"
  shows "qp_map (pb_dev d') = qp_map (pb_dev d)" "qp_list (pb_dev d') = qp_list (pb_dev d)" "max_qp (pb_dev d') = max_qp (pb_dev d)"
    "xl (pb_dev d') = (xl (pb_dev d))\<lparr>qps_enabled := max_qp (pb_dev d), udp_sport := 0x8cd1\<rparr>" "pb_attr d' = pb_attr d"
    "pb_pd_map d' = pb_pd_map d" "pb_mr_map d' = pb_mr_map d" "pb_registered d' = pb_registered d" "pb_pfc d' = pb_pfc d" "pb_irq d'" "pb_started d'"
  using assms by (auto simp: probe_start_def Let_def set_xl_def xrnic_start_def split: if_splits option.splits prod.splits)

text \<open>A client of the verbs that is told of the device during its registration may create the GSI pair, but takes no number.\<close>

definition registers_quietly :: "ernic_env \<Rightarrow> bool" where
  "registers_quietly env \<longleftrightarrow>
     (\<forall>d l. case fst (run_state (pe_register env d) l) of (e, d') \<Rightarrow>
        qp_map (pb_dev d') = qp_map (pb_dev d) \<and> qp_list (pb_dev d') = qp_list (pb_dev d) \<and> max_qp (pb_dev d') = max_qp (pb_dev d) \<and>
        pb_pd_map d' = pb_pd_map d \<and> pb_mr_map d' = pb_mr_map d \<and> pb_attr d' = pb_attr d \<and>
        length (qp1_sq_db (xl (pb_dev d'))) = length (qp1_sq_db (xl (pb_dev d))) \<and>
        length (qp1_rq_db (xl (pb_dev d'))) = length (qp1_rq_db (xl (pb_dev d))) \<and>
        num_intr_banks (xl (pb_dev d')) = num_intr_banks (xl (pb_dev d)))"

definition pfc_created :: "ernic_env \<Rightarrow> bool" where
  "pfc_created env \<longleftrightarrow> pfc_create_sysfs_entries (pe_pfc_kobj env) (pe_pfc_group env) = 0"

lemma probe_then_error:
  assumes "run_state (probe_then m f) log = (Some (Inl e), log')"
    and "\<And>l. run_state m log = (Some (Inl e), l) \<Longrightarrow> P" "\<And>d l. run_state (f d) l = (Some (Inl e), log') \<Longrightarrow> P"
  shows P
  using assms by (auto simp: run_probe_then split: prod.splits option.splits sum.splits)

lemma step_errors:
  "run_state (probe_attach env ms) log = (Some (Inl (e, d')), log') \<Longrightarrow> e \<noteq> 0"
  "run_state (probe_buffers env d) log = (Some (Inl (e, d')), log') \<Longrightarrow> e \<noteq> 0"
  "run_state (probe_register env d) log = (Some (Inl (e, d')), log') \<Longrightarrow> e \<noteq> 0"
  "run_state (probe_network env d) log = (Some (Inl (e, d')), log') \<Longrightarrow> \<not> pfc_created env"
  "run_state (probe_start env d) log = (Some (Inl (e, d')), log') \<Longrightarrow> e \<noteq> 0"
  by (auto simp: probe_attach_def probe_buffers_def probe_register_def probe_network_def probe_start_def pfc_created_def Let_def
      split: if_splits init_result.splits option.splits prod.splits)

text \<open>With the PFC files in place, the value 0 means that every step was taken.\<close>

lemma probe_success:
  assumes "run_state (xlnx_ernic_probe env plc ms) log = (Some (0, Some d, plc'), log')" "pfc_created env"
  obtains ms' d1 l1 d2 l2 d3 l3 d4 l4 l5 where
    "run_state (probe_attach env ms') log = (Some (Inr d1), l1)" "run_state (probe_buffers env d1) l1 = (Some (Inr d2), l2)"
    "run_state (probe_register env (probe_ids env d2)) l2 = (Some (Inr d3), l3)" "run_state (probe_network env d3) l3 = (Some (Inr d4), l4)"
    "run_state (probe_start env d4) l4 = (Some (Inr d), l5)"
proof -
  let ?c = "\<lambda>ms'. probe_then (probe_then (probe_then (probe_then (probe_attach env ms') (probe_buffers env))
                 (\<lambda>d. probe_register env (probe_ids env d))) (probe_network env)) (probe_start env)"
  have no: "False" if r: "run_state (?c ms') log = (Some (Inl (0, d')), l)" for ms' d' l
    using r assms(2) by (elim probe_then_error) (auto dest: step_errors)
  obtain ms' l where r: "run_state (?c ms') log = (Some (Inr d), l)"
    using assms(1) no by (auto simp: xlnx_ernic_probe_def Let_def split: if_splits option.splits prod.splits sum.splits)
  then show ?thesis by (elim probe_then_on) (rule that)
qed

lemma alloc_id_least:
  assumes "bmap_ok b" "xib_bmap_alloc_id b = (ret, num, b')" "bmap_free b \<noteq> {}"
  shows "ret = 0" "j \<in> bmap_free b \<Longrightarrow> unat num \<le> j"
  using alloc_id_cases [OF assms(1,2)] assms(3) by auto

text \<open>The state a successful probe ends in.\<close>

lemma probe_ready:
  assumes "run_state (xlnx_ernic_probe env plc ms) log = (Some (0, Some d, plc'), log')" "pfc_created env"
    and "registers_quietly env" "\<forall>i. pe_kzalloc env i" "0 < unat (num_qp env)" "unat (num_qp env) < 2 ^ 20"
  shows "bmap_ok (qp_map (pb_dev d)) \<and> bmap_free (qp_map (pb_dev d)) = {1..<unat (num_qp env)} \<and>
    qp_list (pb_dev d) = replicate (unat (num_qp env)) None \<and> unat (max_count (qp_map (pb_dev d))) = unat (num_qp env) \<and>
    bmap_free (pb_pd_map d) = {..<unat (da_max_pd (pb_attr d))} \<and> bmap_free (pb_mr_map d) = {..<unat (da_max_mr (pb_attr d))} \<and>
    unat (num_qp env) \<le> length (qp1_sq_db (xl (pb_dev d))) \<and> unat (num_qp env) \<le> length (qp1_rq_db (xl (pb_dev d))) \<and>
    pb_irq d \<and> pb_registered d \<and> pb_pfc d"
proof -
  obtain ms' d1 l1 d2 l2 d3 l3 d4 l4 l5 where
    r: "run_state (probe_attach env ms') log = (Some (Inr d1), l1)" "run_state (probe_buffers env d1) l1 = (Some (Inr d2), l2)"
    "run_state (probe_register env (probe_ids env d2)) l2 = (Some (Inr d3), l3)" "run_state (probe_network env d3) l3 = (Some (Inr d4), l4)"
    "run_state (probe_start env d4) l4 = (Some (Inr d), l5)"
    using probe_success [OF assms(1,2)] .
  note 1 = probe_attach_on [OF r(1)] and 2 = probe_buffers_on [OF r(2)] and 4 = probe_network_on [OF r(4)] and 5 = probe_start_on [OF r(5)]
  let ?i = "probe_ids env d2"
  have 3: "qp_map (pb_dev d3) = qp_map (pb_dev ?i)" "qp_list (pb_dev d3) = qp_list (pb_dev ?i)" "max_qp (pb_dev d3) = max_qp (pb_dev ?i)"
    "pb_pd_map d3 = pb_pd_map ?i" "pb_mr_map d3 = pb_mr_map ?i" "pb_attr d3 = pb_attr ?i" "pb_registered d3"
    "length (qp1_sq_db (xl (pb_dev d3))) = length (qp1_sq_db (xl (pb_dev ?i)))"
    "length (qp1_rq_db (xl (pb_dev d3))) = length (qp1_rq_db (xl (pb_dev ?i)))"
    using r(3) assms(3) [unfolded registers_quietly_def, rule_format, of ?i l2]
    by (auto simp: probe_register_def split: if_splits prod.splits)
  have new: "bmap_ok (bmap_or_zero True n) \<and> bmap_free (bmap_or_zero True n) = {..<unat n} \<and> max_count (bmap_or_zero True n) = n" for n
    using bmap_alloc_ok [of True n] by (auto simp: bmap_or_zero_def xib_bmap_alloc_def)
  have maps: "pb_pd_map ?i = bmap_or_zero True (da_max_pd (pb_attr ?i))" "pb_mr_map ?i = bmap_or_zero True (da_max_mr (pb_attr ?i))"
    "qp_map (pb_dev ?i) = bmap_or_zero True (num_qp env)" "qp_list (pb_dev ?i) = replicate (unat (num_qp env)) None"
    using assms(4) 1(1) 2(1) by (simp_all add: probe_ids_def Let_def)
  have qm: "bmap_ok (qp_map (pb_dev d3))" "bmap_free (qp_map (pb_dev d3)) = {..<unat (num_qp env)}" "max_count (qp_map (pb_dev d3)) = num_qp env"
    using new 3(1) maps(3) by simp_all
  obtain ret q m where id: "xib_bmap_alloc_id (qp_map (pb_dev d3)) = (ret, q, m)" by (metis prod_cases3)
  have z: "0 \<in> bmap_free (qp_map (pb_dev d3))" using qm(2) assms(5) by simp
  then have ne: "bmap_free (qp_map (pb_dev d3)) \<noteq> {}" by blast
  note c = alloc_id_least [OF qm(1) id ne]
  have q: "unat q = 0" using c(2) [OF z] by simp
  have m: "bmap_free m = {..<unat (num_qp env)} - {0}" "bmap_ok m" "max_count m = num_qp env"
    using alloc_id_takes [OF qm(1) id] c(1) q qm(2,3) by simp_all
  have xs: "qp1_sq_db (xl (pb_dev ?i)) = qp1_sq_db (xl (pb_dev d2))" "qp1_rq_db (xl (pb_dev ?i)) = qp1_rq_db (xl (pb_dev d2))"
    by (simp_all add: probe_ids_def Let_def)
  have "{..<unat (num_qp env)} - {0} = {1..<unat (num_qp env)}" by auto
  then show ?thesis
    using 1 2 3 4 5 id m maps new xs db_area_holds [OF assms(6)] by simp
qed


subsection \<open>Queue pair numbers while the driver is loaded\<close>

text \<open>What a creation does to the set of numbers: nothing, one is taken, or one is taken and given back.\<close>

lemma buffers_keep:
  "run_state (xib_alloc_qp_buffers env qp d) log = (Some (r, qp', d'), log') \<Longrightarrow> qp_map d' = qp_map d \<and> hw_qpn qp' = hw_qpn qp"
  using alloc_qp_buffers_effect(2,5) by blast

lemma create_kernel_map:
  assumes ok: "bmap_ok (qp_map d)" and "run_state (xib_create_kernel_qp env a qp0 d) log = (Some (r, qp, d'), log')"
  shows "(qp_map d' = qp_map d \<and> r \<noteq> 0) \<or> (\<exists>bm. xib_bmap_alloc_id (qp_map d) = (0, hw_qpn qp, bm) \<and>
    (qp_map d' = bm \<or> r \<noteq> 0 \<and> xib_bmap_release_id bm (hw_qpn qp) = Some (qp_map d')))"
proof -
  obtain ret num bm where id: "xib_bmap_alloc_id (qp_map d) = (ret, num, bm)" by (metis prod_cases3)
  have r0: "\<not> ret < 0 \<Longrightarrow> ret = 0" using alloc_id_cases [OF ok id] by auto
  show ?thesis using assms(2) id r0
    by (auto simp: xib_create_kernel_qp_def Let_def set_depths_def zero_counters_def set_arrays_def xib_qp_add_def
        split: if_splits option.splits prod.splits dest!: buffers_keep)
qed

lemma create_user_map:
  assumes ok: "bmap_ok (qp_map d)" and "run_state (xib_create_user_qp a u qp0 d) log = (Some (r, qp, d'), log')"
  shows "(qp_map d' = qp_map d \<and> r \<noteq> 0) \<or> (\<exists>bm. xib_bmap_alloc_id (qp_map d) = (0, hw_qpn qp, bm) \<and> qp_map d' = bm)"
proof -
  obtain ret num bm where id: "xib_bmap_alloc_id (qp_map d) = (ret, num, bm)" by (metis prod_cases3)
  have r0: "\<not> ret < 0 \<Longrightarrow> ret = 0" using alloc_id_cases [OF ok id] by auto
  show ?thesis using assms(2) id r0
    by (auto simp: xib_create_user_qp_def Let_def set_depths_def zero_counters_def xib_qp_add_def run_set_base xrnic_qp_set_pd_def
        program_queue_depth_def split: if_splits option.splits prod.splits)
qed

lemma create_gsi_map:
  assumes "run_state (xib_gsi_create_qp env a qp0 d) log = (Some (r, qp, d'), log')"
  shows "qp_map d' = qp_map d"
  using assms
  by (auto simp: xib_gsi_create_qp_def xib_alloc_gsi_qp_buffers_def Let_def run_set_base program_queue_depth_def program_dbs_def
      program_sq_db_def program_rq_db_def xib_qp_add_def split: if_splits option.splits prod.splits)

lemma create_qp_map:
  assumes ok: "bmap_ok (qp_map d)" and run: "run_state (xib_create_qp env a ty udata qp0 d) log = (Some (r, qp, d'), log')"
  shows "qp_map d' = qp_map d \<and> (ty = IB_QPT_RC \<longrightarrow> r \<noteq> 0) \<or> (\<exists>bm. ty = IB_QPT_RC \<and> xib_bmap_alloc_id (qp_map d) = (0, hw_qpn qp, bm) \<and>
    (qp_map d' = bm \<or> r \<noteq> 0 \<and> xib_bmap_release_id bm (hw_qpn qp) = Some (qp_map d')))"
proof (cases ty)
  case IB_QPT_GSI
  then show ?thesis using run create_gsi_map by (fastforce simp: xib_create_qp_def split: if_splits)
next
  case IB_QPT_RC
  show ?thesis
  proof (cases udata)
    case None
    then have "(r \<noteq> 0 \<and> d' = d) \<or> (\<exists>l. run_state (xib_create_kernel_qp env a qp0 d) log = (Some (r, qp, d'), l))"
      using run IB_QPT_RC by (auto simp: xib_create_qp_def split: if_splits option.splits prod.splits)
    then show ?thesis using create_kernel_map [OF ok] IB_QPT_RC by blast
  next
    case (Some u)
    then have "(r \<noteq> 0 \<and> d' = d) \<or> (\<exists>l. run_state (xib_create_user_qp a u qp0 d) log = (Some (r, qp, d'), l))"
      using run IB_QPT_RC by (auto simp: xib_create_qp_def split: if_splits option.splits prod.splits)
    then show ?thesis using create_user_map [OF ok] IB_QPT_RC by blast
  qed
next
  case IB_QPT_OTHER
  then show ?thesis using run by (simp add: xib_create_qp_def split: if_splits)
qed

text \<open>Creations and destructions in any order, for the kernel and for users, with the numbers of the reliable pairs that are in use.\<close>

inductive qp_reach :: "life_dev \<Rightarrow> life_dev \<Rightarrow> u32 list \<Rightarrow> bool" for d0 where
  start: "qp_reach d0 d0 []"
| create: "qp_reach d0 d nums \<Longrightarrow> run_state (xib_create_qp env a ty udata qp0 d) log = (Some (r, qp, d'), log') \<Longrightarrow>
    qp_reach d0 d' (if ty = IB_QPT_RC \<and> r = 0 then hw_qpn qp # nums else nums)"
| destroy: "qp_reach d0 d nums \<Longrightarrow> qp_type qp \<noteq> XIB_QP_TYPE_GSI \<Longrightarrow> hw_qpn qp \<in> set nums \<Longrightarrow>
    xib_destroy_qp env jiffies hz qp d log = Some (d', log') \<Longrightarrow> qp_reach d0 d' (remove1 (hw_qpn qp) nums)"
| destroy_gsi: "qp_reach d0 d nums \<Longrightarrow> qp_type qp = XIB_QP_TYPE_GSI \<Longrightarrow>
    xib_destroy_qp env jiffies hz qp d log = Some (d', log') \<Longrightarrow> qp_reach d0 d' nums"

definition numbers_ok :: "xib_bmap \<Rightarrow> u32 list \<Rightarrow> bool" where
  "numbers_ok m nums \<longleftrightarrow> bmap_ok m \<and> 0 \<notin> bmap_free m \<and> distinct nums \<and> 0 \<notin> set nums \<and>
     (\<forall>q \<in> set nums. unat q < unat (max_count m) \<and> unat q \<notin> bmap_free m)"

lemma numbers_ok_take:
  assumes "numbers_ok m nums" "xib_bmap_alloc_id m = (0, q, m')"
  shows "numbers_ok m' (q # nums)" "numbers_ok m' nums"
proof -
  have ok: "bmap_ok m" using assms(1) by (simp add: numbers_ok_def)
  note t = alloc_id_takes [OF ok assms(2)]
  have "unat q < unat (max_count m)" "q \<noteq> 0" "q \<notin> set nums" using t(1) assms(1) by (auto simp: numbers_ok_def bmap_free_def)
  then show "numbers_ok m' (q # nums)" "numbers_ok m' nums" using assms(1) t by (auto simp: numbers_ok_def)
qed

lemma numbers_ok_release:
  assumes "numbers_ok m (q # nums)" "xib_bmap_release_id m q = Some m'"
  shows "numbers_ok m' nums"
proof -
  have ok: "bmap_ok m" "unat q < unat (max_count m)" "0 < unat q" using assms(1) by (auto simp: numbers_ok_def unat_gt_0)
  have "bmap_free m' = insert (unat q) (bmap_free m)" "bmap_ok m'" "max_count m' = max_count m"
    using release_id_free [OF ok(1,2)] assms(2) by auto
  then show ?thesis using assms(1) ok(3) by (auto simp: numbers_ok_def simp flip: word_unat_eq_iff)
qed

lemma numbers_ok_front: "numbers_ok m nums \<Longrightarrow> q \<in> set nums \<Longrightarrow> numbers_ok m (q # remove1 q nums)"
  by (auto simp: numbers_ok_def dest: notin_set_remove1)

lemma destroy_map:
  assumes "xib_destroy_qp env jiffies hz qp d log = Some (d', log')"
  shows "if qp_type qp = XIB_QP_TYPE_GSI then qp_map d' = qp_map d else xib_bmap_release_id (qp_map d) (hw_qpn qp) = Some (qp_map d')"
  using assms by (cases "qp_type qp") (auto simp: xib_destroy_qp_def destroy_tail_def bind_eq_Some_conv)

lemma qp_reach_numbers: "qp_reach d0 d nums \<Longrightarrow> numbers_ok (qp_map d0) [] \<Longrightarrow> numbers_ok (qp_map d) nums"
proof (induction rule: qp_reach.induct)
  case start
  then show ?case .
next
  case (create d nums env a ty udata qp0 log r qp d' log')
  then have n: "numbers_ok (qp_map d) nums" and ok: "bmap_ok (qp_map d)" by (simp_all add: numbers_ok_def)
  show ?case using create_qp_map [OF ok create.hyps(2)] n numbers_ok_take [OF n] numbers_ok_release by (auto split: if_splits)
next
  case (destroy d nums qp env jiffies hz log d' log')
  then have "numbers_ok (qp_map d) (hw_qpn qp # remove1 (hw_qpn qp) nums)"
    using numbers_ok_front by blast
  then show ?case using destroy_map [OF destroy.hyps(4)] destroy.hyps(2) numbers_ok_release by simp
next
  case (destroy_gsi d nums qp env jiffies hz log d' log')
  then show ?case using destroy_map by fastforce
qed


subsection \<open>What goes wrong\<close>

text \<open>when the PFC files cannot be created, the probe takes the device back from the RDMA core and returns what the last
  \<open>set_ip_address\<close> returned: 0 for an interface with IPv6, so the kernel believes the driver to be bound, with no interrupt
  and a device that was not started.\<close>

theorem pfc_failure_reported_as_success:
  assumes "check_queue_mem_types (pe_kmm env) (le_sq_mem (pe_life env)) (pe_cq_mem env) (le_rq_mem (pe_life env)) = 0"
    and "probe_memory env plc ms = Some (plc', ms')"
    and "run_state (probe_then (probe_then (probe_attach env ms') (probe_buffers env)) (\<lambda>d. probe_register env (probe_ids env d))) log =
      (Some (Inr d3), l3)"
    and "\<not> pfc_created env" "pe_netdev env = Some nd" "nd_in4 nd = Some None" "nd_in6 nd = Some as" "ib_xl (pb_net d3)"
  shows "\<exists>d log'. run_state (xlnx_ernic_probe env plc ms) log = (Some (0, Some d, plc'), log') \<and> \<not> pb_registered d \<and>
    pb_irq d = pb_irq d3 \<and> pb_started d = pb_started d3"
proof -
  have "\<exists>d' l. run_state (probe_network env d3) l3 = (Some (Inl (0, d')), l) \<and> \<not> pb_registered d' \<and> pb_irq d' = pb_irq d3 \<and> pb_started d' = pb_started d3"
    using assms(4-8) by (auto simp: probe_network_def set_ip_address_def update_mtu_def Let_def do_when_def reserve_qp1_def pfc_created_def split: prod.splits)
  then obtain d' l where n: "run_state (probe_network env d3) l3 = (Some (Inl (0, d')), l)"
    and d': "\<not> pb_registered d'" "pb_irq d' = pb_irq d3" "pb_started d' = pb_started d3" by blast
  show ?thesis using assms(1-3) n d' by (simp add: xlnx_ernic_probe_def Let_def run_probe_then)
qed

text \<open>with fewer than 32 queue pairs the number of interrupt banks is rounded down to none: the handler looks at no queue
  pair and no completion is ever announced.\<close>

theorem few_qps_no_events:
  assumes "run_state (xlnx_ernic_probe env plc ms) log = (Some (0, Some d, plc'), log')" "pfc_created env" "registers_quietly env"
    and "num_qp env < 32"
  shows "run_state (xib_irq_event hw (xib_dev.truncate (pb_dev d)) st) l = (([], None), l)"
proof -
  obtain ms' d1 l1 d2 l2 d3 l3 d4 l4 l5 where
    r: "run_state (probe_attach env ms') log = (Some (Inr d1), l1)" "run_state (probe_buffers env d1) l1 = (Some (Inr d2), l2)"
    "run_state (probe_register env (probe_ids env d2)) l2 = (Some (Inr d3), l3)" "run_state (probe_network env d3) l3 = (Some (Inr d4), l4)"
    "run_state (probe_start env d4) l4 = (Some (Inr d), l5)"
    using probe_success [OF assms(1,2)] .
  have i: "num_intr_banks (xl (pb_dev (probe_ids env d2))) = num_intr_banks (xl (pb_dev d2))" by (simp add: probe_ids_def Let_def)
  have "num_intr_banks (xl (pb_dev d3)) = num_intr_banks (xl (pb_dev (probe_ids env d2)))"
    using r(3) assms(3) [unfolded registers_quietly_def, rule_format, of "probe_ids env d2" l2]
    by (auto simp: probe_register_def split: if_splits prod.splits)
  then have "num_intr_banks (xl (pb_dev d)) = num_qp env div 32"
    using i probe_attach_on(2) [OF r(1)] probe_buffers_on(2) [OF r(2)] probe_network_on(2) [OF r(4)] probe_start_on(4) [OF r(5)] by simp
  moreover have "num_qp env div 32 = 0"
  proof -
    have "unat (num_qp env div 32) = 0" using assms(4) by (simp add: unat_div word_less_nat_alt)
    then show ?thesis by (simp add: unsigned_eq_0_iff)
  qed
  ultimately show ?thesis by (simp add: xib_irq_event_def Let_def xib_dev.defs)
qed

text \<open>An unload leaves the interrupt requested, with the device as the handler's argument.\<close>

theorem remove_leaves_irq:
  "xlnx_ernic_remove env d = Some (r, d', irq, blocks) \<Longrightarrow> r = 0 \<and> pb_irq d' = pb_irq d \<and> \<not> pb_registered d' \<and> \<not> pb_notifiers d'"
  by (auto simp: xlnx_ernic_remove_def Let_def bind_eq_Some_conv)

subsection \<open>Examples\<close>

definition demo_kmm_state :: kmm where
  "demo_kmm_state = \<lparr>mmr_head = [], mmr_set = True, file_open_cnt = 0, mm_list_lock = False, supported_mem_types = 0x3E, processor_access = 0x3E\<rparr>"

definition demo_probe_env :: "bool \<Rightarrow> ernic_env" where
  "demo_probe_env pfc =
     \<lparr>pe_kmm = demo_kmm_state, pe_life = demo_life_env, pe_cq_mem = ''ps'', pe_rtr_mem = ''ps'', pe_bram = (True, 0, None), pe_eddr = (True, 0, None),
      pe_alloc = True, pe_num_qp = Some 8, pe_num_pd = None, pe_sgl_depth = None,
      pe_pf = \<lparr>pf_resource = Some (0xA0000000, 0xA1FFFFFF), pf_ioremap_ok = True, pf_irq = 60, pf_buf_alloc = (\<lambda>n sz. 0x70000000),
        pf_dma = (\<lambda>dev len. Some (0x1000, 0x2000))\<rparr>,
      pe_kzalloc = (\<lambda>i. True), pe_netdev = Some (demo_netdev\<lparr>nd_in4 := Some None, nd_in6 := Some []\<rparr>), pe_ernic_node = True,
      pe_register = (\<lambda>d. State_Monad.return (0, d)), pe_pfc_kobj = pfc, pe_pfc_group = 0, pe_request_irq = 0, pe_microblaze = False,
      pe_dma_hw = (\<lambda>l r. 0), pe_axi_node = \<lparr>an_found = False, an_kzalloc = True, an_resource = 0, an_ioremap = True, an_irq = 0, an_request_irq = 0\<rparr>,
      pe_axi_env = \<lparr>de_kcalloc = True, de_bufs = None, de_ring = None, de_mem = []\<rparr>\<rparr>"

definition demo_mem :: mem_state where
  "demo_mem = \<lparr>bram_mem_mgr = [None, None], bram_ctrl_cnt = 0, eddr_mem_mgr = None, pl_alloc_dev = False\<rparr>"

definition demo_plc :: pl_alloc_ctrl where "demo_plc = \<lparr>plc_dev = True, ref_count = 0\<rparr>"

lemma demo_mem_types: "check_queue_mem_types demo_kmm_state ''ps'' ''ps'' ''ps'' = 0"
  by (simp add: check_queue_mem_types_def queue_mem_ok_def xib_mem_str_to_type_def get_xib_mem_accessible_status_def
      is_xib_memory_available_def demo_kmm_state_def mem_type_defs strcaseeq_def)

lemma demo_probe_memory:
  "probe_memory (demo_probe_env pfc) (Some demo_plc) demo_mem = Some (Some (demo_plc\<lparr>ref_count := 1\<rparr>), demo_mem\<lparr>pl_alloc_dev := True\<rparr>)"
  by (simp add: probe_memory_def demo_probe_env_def xlnx_pl_alloc_get_device_def demo_plc_def demo_mem_def mgr_bram_init_def Let_def
      mgr_ext_ddr_init_def xib_register_pl_allocator_def)

lemma demo_env_sel [simp]:
  "pe_kmm (demo_probe_env p) = demo_kmm_state" "pe_life (demo_probe_env p) = demo_life_env" "pe_cq_mem (demo_probe_env p) = ''ps''"
  "pe_kzalloc (demo_probe_env p) = (\<lambda>i. True)" "num_qp (demo_probe_env p) = 8" "pfc_created (demo_probe_env p) = p"
  "pe_netdev (demo_probe_env p) = Some (demo_netdev\<lparr>nd_in4 := Some None, nd_in6 := Some []\<rparr>)" "registers_quietly (demo_probe_env p)"
  "pe_alloc (demo_probe_env p)" "pe_ernic_node (demo_probe_env p)" "le_sq_mem demo_life_env = ''ps''" "le_rq_mem demo_life_env = ''ps''"
  by (simp_all add: demo_probe_env_def num_qp_def pfc_created_def pfc_create_sysfs_entries_def registers_quietly_def demo_life_env_def)

lemma demo_hw_init: "\<exists>x l. run_state (xrnic_hw_init (pe_pf (demo_probe_env p)) (demo_mem\<lparr>pl_alloc_dev := True\<rparr>) True 8) log = (InitOk x, l)"
  by (cases "run_state (xrnic_set_bufs (pf_buf_alloc (pe_pf (demo_probe_env p)))) log")
    (simp add: xrnic_hw_init_def Let_def demo_probe_env_def demo_mem_def xib_pl_present_def xib_alloc_coherent_def xib_get_alloc_dev_def
      strcaseeq_def dma_fallback_def)

lemma demo_steps:
  "\<exists>d l. run_state (probe_attach (demo_probe_env p) (demo_mem\<lparr>pl_alloc_dev := True\<rparr>)) log = (Some (Inr d), l) \<and> ib_xl (pb_net d) \<and> \<not> pb_irq d \<and> \<not> pb_started d"
  "\<exists>d' l. run_state (probe_buffers (demo_probe_env p) d) log = (Some (Inr d'), l) \<and> pb_net d' = pb_net d \<and> pb_irq d' = pb_irq d \<and> pb_started d' = pb_started d"
  "\<exists>d' l. run_state (probe_register (demo_probe_env p) d) log = (Some (Inr d'), l) \<and> pb_net d' = pb_net d \<and> pb_irq d' = pb_irq d \<and> pb_started d' = pb_started d"
  "ib_xl (pb_net d) \<Longrightarrow> \<exists>d' l. run_state (probe_network (demo_probe_env True) d) log = (Some (Inr d'), l)"
  "\<exists>d' l. run_state (probe_start (demo_probe_env p) d) log = (Some (Inr d'), l)"
proof -
  show "\<exists>d l. run_state (probe_attach (demo_probe_env p) (demo_mem\<lparr>pl_alloc_dev := True\<rparr>)) log = (Some (Inr d), l) \<and> ib_xl (pb_net d) \<and> \<not> pb_irq d \<and> \<not> pb_started d"
  proof -
    obtain x l where "run_state (xrnic_hw_init (pe_pf (demo_probe_env p)) (demo_mem\<lparr>pl_alloc_dev := True\<rparr>) True 8) log = (InitOk x, l)"
      using demo_hw_init by blast
    then show ?thesis by (simp add: probe_attach_def Let_def set_xl_def fresh_dev_def)
  qed
  show "\<exists>d' l. run_state (probe_buffers (demo_probe_env p) d) log = (Some (Inr d'), l) \<and> pb_net d' = pb_net d \<and> pb_irq d' = pb_irq d \<and> pb_started d' = pb_started d"
    by (simp add: probe_buffers_def Let_def demo_probe_env_def demo_life_env_def xib_alloc_coherent_def xib_get_alloc_dev_def
        strcaseeq_def dma_fallback_def set_xl_def run_set_base)
  show "\<exists>d' l. run_state (probe_register (demo_probe_env p) d) log = (Some (Inr d'), l) \<and> pb_net d' = pb_net d \<and> pb_irq d' = pb_irq d \<and> pb_started d' = pb_started d"
    by (simp add: probe_register_def demo_probe_env_def)
  show "\<exists>d' l. run_state (probe_network (demo_probe_env True) d) log = (Some (Inr d'), l)" if "ib_xl (pb_net d)"
    using that by (simp add: probe_network_def set_ip_address_def Let_def demo_probe_env_def pfc_create_sysfs_entries_def prod.case_eq_if)
  show "\<exists>d' l. run_state (probe_start (demo_probe_env p) d) log = (Some (Inr d'), l)"
    by (simp add: probe_start_def Let_def demo_probe_env_def axidma_init_def prod.case_eq_if)
qed

lemma demo_registered:
  obtains d l where "run_state (probe_then (probe_then (probe_attach (demo_probe_env p) (demo_mem\<lparr>pl_alloc_dev := True\<rparr>)) (probe_buffers (demo_probe_env p)))
      (\<lambda>d. probe_register (demo_probe_env p) (probe_ids (demo_probe_env p) d))) [] = (Some (Inr d), l)"
    "ib_xl (pb_net d)" "\<not> pb_irq d" "\<not> pb_started d"
proof -
  let ?e = "demo_probe_env p"
  obtain d1 l1 where 1: "run_state (probe_attach ?e (demo_mem\<lparr>pl_alloc_dev := True\<rparr>)) [] = (Some (Inr d1), l1)" "ib_xl (pb_net d1)" "\<not> pb_irq d1" "\<not> pb_started d1"
    using demo_steps(1) by blast
  obtain d2 l2 where 2: "run_state (probe_buffers ?e d1) l1 = (Some (Inr d2), l2)" "pb_net d2 = pb_net d1" "pb_irq d2 = pb_irq d1" "pb_started d2 = pb_started d1"
    using demo_steps(2) by blast
  obtain d3 l3 where 3: "run_state (probe_register ?e (probe_ids ?e d2)) l2 = (Some (Inr d3), l3)" "pb_net d3 = pb_net (probe_ids ?e d2)"
      "pb_irq d3 = pb_irq (probe_ids ?e d2)" "pb_started d3 = pb_started (probe_ids ?e d2)"
    using demo_steps(3) by blast
  show ?thesis by (rule that [of d3 l3]) (use 1 2 3 in \<open>simp_all add: run_probe_then probe_ids_def Let_def\<close>)
qed

lemma demo_probed:
  obtains d l where "run_state (xlnx_ernic_probe (demo_probe_env True) (Some demo_plc) demo_mem) [] = (Some (0, Some d, Some (demo_plc\<lparr>ref_count := 1\<rparr>)), l)"
proof -
  let ?e = "demo_probe_env True"
  obtain d3 l3 where 3: "run_state (probe_then (probe_then (probe_attach ?e (demo_mem\<lparr>pl_alloc_dev := True\<rparr>)) (probe_buffers ?e))
      (\<lambda>d. probe_register ?e (probe_ids ?e d))) [] = (Some (Inr d3), l3)" "ib_xl (pb_net d3)"
    using demo_registered .
  obtain d4 l4 where 4: "run_state (probe_network ?e d3) l3 = (Some (Inr d4), l4)" using demo_steps(4) [OF 3(2)] by blast
  obtain d5 l5 where 5: "run_state (probe_start ?e d4) l4 = (Some (Inr d5), l5)" using demo_steps(5) by blast
  show ?thesis by (rule that [of d5 l5]) (use 3 4 5 demo_mem_types demo_probe_memory in \<open>simp add: xlnx_ernic_probe_def run_probe_then\<close>)
qed

lemma demo_room: "le_kcalloc demo_life_env i" "\<not> ia_cq_cqe demo_init < ia_max_send_wr demo_init"
  by (simp_all add: demo_life_env_def demo_init_def)



theorem pfc_failure_reported_as_success_witness:
  "\<exists>d plc' l. run_state (xlnx_ernic_probe (demo_probe_env False) (Some demo_plc) demo_mem) [] = (Some (0, Some d, plc'), l) \<and>
     \<not> pb_registered d \<and> \<not> pb_irq d \<and> \<not> pb_started d"
proof -
  obtain d3 l3 where 3: "run_state (probe_then (probe_then (probe_attach (demo_probe_env False) (demo_mem\<lparr>pl_alloc_dev := True\<rparr>)) (probe_buffers (demo_probe_env False)))
      (\<lambda>d. probe_register (demo_probe_env False) (probe_ids (demo_probe_env False) d))) [] = (Some (Inr d3), l3)" "ib_xl (pb_net d3)" "\<not> pb_irq d3" "\<not> pb_started d3"
    using demo_registered .
  show ?thesis using pfc_failure_reported_as_success [OF _ demo_probe_memory 3(1), of "demo_netdev\<lparr>nd_in4 := Some None, nd_in6 := Some []\<rparr>" "[]"]
      3(2-4) demo_mem_types by auto
qed

theorem few_qps_no_events_witness:
  "\<exists>d plc' l. run_state (xlnx_ernic_probe (demo_probe_env True) (Some demo_plc) demo_mem) [] = (Some (0, Some d, plc'), l) \<and>
     run_state (xib_irq_event (\<lambda>log r. 0xFF) (xib_dev.truncate (pb_dev d)) 0x50) [] = (([], None), [])"
proof -
  obtain d l where r: "run_state (xlnx_ernic_probe (demo_probe_env True) (Some demo_plc) demo_mem) [] = (Some (0, Some d, Some (demo_plc\<lparr>ref_count := 1\<rparr>)), l)"
    using demo_probed .
  then show ?thesis using few_qps_no_events [OF r] by simp
qed

end
