(* ===== verification/Umm_Bit_Ops.thy ===== *)
theory Umm_Bit_Ops
  imports Xib_Prelude
begin

text \<open>
  The block bitmaps of the user-space memory manager: \<open>recipes-apps/umm/files/bit_ops.c\<close> and
  \<open>bit_ops.h\<close>.  A bitmap is the C array of \<open>unsigned int\<close>, a list of 32-bit words; reading or
  writing past its end is \<open>None\<close>.  The file proves that the scan \<open>find_zero_bits\<close> is sound,
  that it stays inside a map of whole words, that it is exact for one block, and that
  \<open>set_bit_map\<close> and \<open>clear_bit_map\<close> change exactly the bits of their range.
\<close>

subsection \<open>Definitions\<close>

definition BITS_IN_INT :: u32 where
  "BITS_IN_INT = 32"

text \<open>\<open>BIT_MASK(n)\<close> is an \<open>unsigned long\<close>.  For \<open>n = 0\<close> the C shift is undefined; every call
  the sources make has \<open>1 \<le> n \<le> 32\<close>.\<close>

definition BIT_MASK :: "u32 \<Rightarrow> u64" where
  "BIT_MASK n = (push_bit (unat (n - 1)) 1 - 1) OR ucast (push_bit (unat (n - 1)) (1::u32))"

definition BITS_TO_INTS :: "u32 \<Rightarrow> u32" where
  "BITS_TO_INTS n = ucast ((ucast n + 32 - 1 :: u64) div 32)"

definition BIT_POS_TO_INT :: "u32 \<Rightarrow> u32" where
  "BIT_POS_TO_INT n = n div BITS_IN_INT"

function ctz_loop :: "u32 \<Rightarrow> u32 \<Rightarrow> u32 \<Rightarrow> u32 \<Rightarrow> u32" where
  "ctz_loop i n val cnt =
     (if i < n then
        (if val AND 1 = 0 then ctz_loop (i + 1) n (drop_bit 1 val) (cnt + 1) else cnt)
      else cnt)"
  by pat_completeness auto
termination
  by (relation "measure (\<lambda>(i, n, val, cnt). unat n - unat i)")
    (auto simp: unat_inc_less word_less_nat_alt)

definition ctz :: "u32 \<Rightarrow> u32 \<Rightarrow> u32 \<Rightarrow> u32" where
  "ctz val from max_bits = ctz_loop 0 (max_bits - from) (drop_bit (unat from) val) 0"

definition count_trailing_ones :: "u32 \<Rightarrow> u32 \<Rightarrow> u32" where
  "count_trailing_ones val max_bits = ctz (NOT val) 0 max_bits"

definition ffz :: "u32 \<Rightarrow> u32 \<Rightarrow> u32 \<Rightarrow> u32" where
  "ffz val from max_bits =
     (if from \<ge> BITS_IN_INT then BITS_IN_INT
      else if max_bits > BITS_IN_INT then BITS_IN_INT
      else if val = 0 then 0
      else if val = 0xFFFFFFFF then BITS_IN_INT
      else count_trailing_ones (drop_bit (unat from) val) (max_bits - from) + from)"

declare ctz_loop.simps [simp del]

text \<open>One word of the scan, \<open>while (1)\<close> of \<open>find_zero_bits\<close>: either the position of a run, or the
  number of free blocks at the end of the word that the next word may continue.\<close>

datatype fzb_result = Found u32 | NextWord u32

lemma and_1_eq_0_iff: "(val::u32) AND 1 = 0 \<longleftrightarrow> \<not> bit val 0"
  by (simp add: and_one_eq bit_0 even_iff_mod_2_eq_zero [symmetric])

lemma ctz_loop_spec:
  "\<exists>k. ctz_loop i n val cnt = cnt + of_nat k \<and> k \<le> unat n - unat i \<and>
       (\<forall>j < k. \<not> bit val j) \<and> (k < unat n - unat i \<longrightarrow> bit val k)"
proof (induction i n val cnt rule: ctz_loop.induct)
  case (1 i n val cnt)
  show ?case
  proof (cases "i < n \<and> \<not> bit val 0")
    case True
    then have "val AND 1 = 0" by (simp add: and_1_eq_0_iff)
    with True 1 obtain k where k:
      "ctz_loop (i + 1) n (drop_bit 1 val) (cnt + 1) = cnt + 1 + of_nat k"
      "k \<le> unat n - Suc (unat i)" "\<forall>j < k. \<not> bit (drop_bit 1 val) j"
      "k < unat n - Suc (unat i) \<longrightarrow> bit (drop_bit 1 val) k"
      by (auto simp: unat_inc_less)
    have "\<forall>j < Suc k. \<not> bit val j"
      using k(3) True by (auto simp: bit_drop_bit_eq less_Suc_eq_0_disj)
    with k True show ?thesis
      by (intro exI [of _ "Suc k"])
        (auto simp: ctz_loop.simps [of i n val cnt] and_1_eq_0_iff bit_drop_bit_eq word_less_nat_alt)
  next
    case False
    then show ?thesis
      by (intro exI [of _ 0])
        (auto simp: ctz_loop.simps [of i n val cnt] and_1_eq_0_iff word_less_nat_alt not_less)
  qed
qed

lemma ffz_cases:
  assumes "from < 32" "max_bits \<le> 32" "val \<noteq> 0" "val \<noteq> 0xFFFFFFFF"
  shows "unat from \<le> unat (ffz val from max_bits)"
    and "unat (ffz val from max_bits) \<le> 32"
    and "\<forall>i. unat from \<le> i \<and> i < unat (ffz val from max_bits) \<longrightarrow> bit val i"
    and "ffz val from max_bits < 32 \<Longrightarrow>
           \<not> bit val (unat (ffz val from max_bits)) \<or> ffz val from max_bits = max_bits"
proof -
  let ?x = "drop_bit (unat from) val" and ?n = "max_bits - from"
  have f: "unat from < 32" and m: "unat max_bits \<le> 32"
    using assms(1,2) by (auto simp: word_less_nat_alt word_le_nat_alt)
  have eq: "ffz val from max_bits = ctz_loop 0 ?n (NOT ?x) 0 + from"
    using assms iffD2 [OF not_le assms(1)] iffD2 [OF not_less assms(2)]
    by (simp add: ffz_def BITS_IN_INT_def count_trailing_ones_def ctz_def)
  obtain k where k: "ffz val from max_bits = of_nat k + from" "k \<le> unat ?n"
      "\<forall>j < k. \<not> bit (NOT ?x) j" "k < unat ?n \<longrightarrow> bit (NOT ?x) k"
    using ctz_loop_spec [of 0 ?n "NOT ?x" 0] unfolding eq by auto
  have le: "k \<le> 32 - unat from"
  proof (rule ccontr)
    assume "\<not> ?thesis"
    then have gt: "32 - unat from < k" by simp
    show False
    proof (cases "from = 0")
      case True
      with gt k(2) m show False by simp
    next
      case False
      with k(3) gt f have "bit ?x (32 - unat from)"
        by (auto simp: bit_not_iff unat_gt_0)
      then show False using f by (simp add: bit_drop_bit_eq not_bit_beyond_32)
    qed
  qed
  have r: "unat (ffz val from max_bits) = k + unat from"
    using le f by (simp add: k(1) unat_word_ariths unat_of_nat)
  show "unat from \<le> unat (ffz val from max_bits)" and "unat (ffz val from max_bits) \<le> 32"
    using r le f by auto
  show "\<forall>i. unat from \<le> i \<and> i < unat (ffz val from max_bits) \<longrightarrow> bit val i"
  proof (intro allI impI)
    fix i assume i: "unat from \<le> i \<and> i < unat (ffz val from max_bits)"
    then have "i - unat from < k" "i < 32" using r le f by auto
    with k(3) have "bit ?x (i - unat from)" by (auto simp: bit_not_iff)
    with i show "bit val i" by (simp add: bit_drop_bit_eq)
  qed
  assume lt: "ffz val from max_bits < 32"
  show "\<not> bit val (unat (ffz val from max_bits)) \<or> ffz val from max_bits = max_bits"
  proof (cases "k < unat ?n")
    case True
    with k(4) have "\<not> bit ?x k" by (simp add: bit_not_iff)
    then show ?thesis by (simp add: r bit_drop_bit_eq add.commute)
  next
    case False
    with k(2) have "k = unat ?n" by simp
    then show ?thesis by (simp add: k(1))
  qed
qed

lemma ffz_ge_from:
  assumes "val \<noteq> 0"
  shows "ffz val from max_bits < 32 \<Longrightarrow> unat from \<le> unat (ffz val from max_bits)"
  using ffz_cases(1) [of "from" max_bits val] assms
  by (cases "from < 32 \<and> max_bits \<le> 32 \<and> val \<noteq> 0xFFFFFFFF")
    (auto simp: ffz_def BITS_IN_INT_def not_less not_le split: if_splits)

function fzb_word :: "u32 \<Rightarrow> u32 \<Rightarrow> u32 \<Rightarrow> u32 \<Rightarrow> u32 \<Rightarrow> u32 \<Rightarrow> u32 \<Rightarrow> fzb_result" where
  "fzb_word val bit_cnt cnt max_bits rem_bits contig ret0 =
     (let ret = ffz val ret0 bit_cnt in
      if ret \<ge> BITS_IN_INT then NextWord 0
      else if contig \<noteq> 0 \<and> ret \<noteq> 0 then
        fzb_word val bit_cnt cnt max_bits rem_bits 0 (ret + 1)
      else if ret + cnt - contig > BITS_IN_INT then
        (if ucast (drop_bit (unat ret) val) AND BIT_MASK (BITS_IN_INT - ret) = 0
         then NextWord (contig + (BITS_IN_INT - ret))
         else fzb_word val bit_cnt cnt max_bits rem_bits 0 (ret + 1))
      else if ucast (drop_bit (unat ret) val) AND BIT_MASK (cnt - contig) = 0
        then Found (max_bits - rem_bits + ret - contig)
      else fzb_word val bit_cnt cnt max_bits rem_bits 0 (ret + 1))"
  by pat_completeness auto
termination
proof (relation "measure (\<lambda>(val, bit_cnt, cnt, max_bits, rem_bits, contig, ret0). 32 - unat ret0)", goal_cases)
  case 1
  show ?case by simp
next
  case (2 val bit_cnt cnt max_bits rem_bits contig ret0 x)
  then have "val \<noteq> 0" by (auto simp: ffz_def BITS_IN_INT_def split: if_splits)
  with 2 ffz_ge_from [of val ret0 bit_cnt] show ?case
    by (auto simp: BITS_IN_INT_def not_le unat_inc_less [of _ 32] word_less_nat_alt)
next
  case (3 val bit_cnt cnt max_bits rem_bits contig ret0 x)
  then have "val \<noteq> 0" by auto
  with 3 ffz_ge_from [of val ret0 bit_cnt] show ?case
    by (auto simp: BITS_IN_INT_def not_le unat_inc_less [of _ 32] word_less_nat_alt)
next
  case (4 val bit_cnt cnt max_bits rem_bits contig ret0 x)
  then have "val \<noteq> 0" by auto
  with 4 ffz_ge_from [of val ret0 bit_cnt] show ?case
    by (auto simp: BITS_IN_INT_def not_le unat_inc_less [of _ 32] word_less_nat_alt)
qed

declare fzb_word.simps [simp del]

text \<open>The outer \<open>do ... while (rem_bits)\<close>: one word per turn; the end of the list is a read past
  the bitmap.\<close>

fun fzb_words :: "u32 list \<Rightarrow> u32 \<Rightarrow> u32 \<Rightarrow> u32 \<Rightarrow> u32 \<Rightarrow> u32 option" where
  "fzb_words [] cnt max_bits rem_bits contig = None"
| "fzb_words (val # ws) cnt max_bits rem_bits contig =
     (let bit_cnt = (if rem_bits \<ge> BITS_IN_INT then BITS_IN_INT else rem_bits)
      in case fzb_word val bit_cnt cnt max_bits rem_bits contig 0 of
           Found r \<Rightarrow> Some r
         | NextWord c \<Rightarrow>
             (let rem' = rem_bits - bit_cnt
              in if rem' = 0 then Some max_bits else fzb_words ws cnt max_bits rem' c))"

definition find_zero_bits :: "u32 list \<Rightarrow> u32 \<Rightarrow> u32 \<Rightarrow> u32 option" where
  "find_zero_bits bmap cnt max_bits = fzb_words bmap cnt max_bits max_bits 0"

text \<open>The loop of \<open>update_bit_map\<close>, on the words from \<open>map\<close> on.\<close>

definition update_word :: "bool \<Rightarrow> u32 \<Rightarrow> u32 \<Rightarrow> u32 \<Rightarrow> u32" where
  "update_word is_set w bits start =
     (let m = push_bit (unat (start mod BITS_IN_INT)) (BIT_MASK bits)
      in if is_set then ucast (ucast w OR m) else ucast (ucast w AND NOT m))"

fun update_words :: "u32 list \<Rightarrow> u32 \<Rightarrow> u32 \<Rightarrow> bool \<Rightarrow> u32 list option" where
  "update_words [] start temp is_set = (if temp = 0 then Some [] else None)"
| "update_words (w # ws) start temp is_set =
     (if temp = 0 then Some (w # ws)
      else let bits = (if temp + start > BITS_IN_INT then BITS_IN_INT - start else temp);
               w' = update_word is_set w bits start;
               temp' = temp - bits
           in if temp' = 0 then Some (w' # ws)
              else map_option ((#) w') (update_words ws 0 temp' is_set))"

text \<open>The bitmap argument may be \<open>NULL\<close> (the inner \<open>None\<close>): then nothing changes.\<close>

definition update_bit_map :: "u32 list option \<Rightarrow> u32 \<Rightarrow> u32 \<Rightarrow> bool \<Rightarrow> u32 list option option" where
  "update_bit_map bmap start cnt is_set =
     (case bmap of
        None \<Rightarrow> Some None
      | Some ws \<Rightarrow>
          (let i = unat (BIT_POS_TO_INT start)
           in map_option (\<lambda>us. Some (take i ws @ us))
                (update_words (drop i ws) (start mod BITS_IN_INT) cnt is_set)))"

definition set_bit_map :: "u32 list option \<Rightarrow> u32 \<Rightarrow> u32 \<Rightarrow> u32 list option option" where
  "set_bit_map bmap start cnt = update_bit_map bmap start cnt True"

definition clear_bit_map :: "u32 list option \<Rightarrow> u32 \<Rightarrow> u32 \<Rightarrow> u32 list option option" where
  "clear_bit_map bmap start cnt = update_bit_map bmap start cnt False"

subsection \<open>The scan finds free blocks only\<close>

text \<open>Bit \<open>k\<close> of a bitmap; bits past the array are not set.\<close>

definition bit_at :: "u32 list \<Rightarrow> nat \<Rightarrow> bool" where
  "bit_at ws k \<longleftrightarrow> k div 32 < length ws \<and> bit (ws ! (k div 32)) (k mod 32)"

lemma bit_BIT_MASK:
  assumes "1 \<le> unat n" "unat n \<le> 32"
  shows "bit (BIT_MASK n) i \<longleftrightarrow> i < unat n"
proof -
  have k: "unat (n - 1) = unat n - 1" using assms by (simp add: unat_sub_le)
  have "BIT_MASK n = mask (unat n - 1) OR ucast (push_bit (unat n - 1) (1::u32))"
    by (simp add: BIT_MASK_def k mask_eq_exp_minus_1)
  then show ?thesis
    using assms by (auto simp: bit_or_iff bit_mask_iff bit_unsigned_iff bit_exp_iff
        possible_bit_def)
qed

lemma masked_zero_iff:
  assumes "1 \<le> unat n" "unat n \<le> 32"
  shows "ucast (drop_bit r (val::u32)) AND BIT_MASK n = 0 \<longleftrightarrow> (\<forall>i < unat n. \<not> bit val (r + i))"
proof -
  have "ucast (drop_bit r val) AND BIT_MASK n = 0 \<longleftrightarrow>
      (\<forall>i < 64. bit val (r + i) \<longrightarrow> \<not> i < unat n)"
    using assms by (auto simp: word_eq_0_iff_bits bit_and_iff bit_BIT_MASK bit_unsigned_iff
        bit_drop_bit_eq)
  moreover have "i < unat n \<Longrightarrow> i < 64" for i using assms by simp
  ultimately show ?thesis by blast
qed

definition fzb_sound :: "u32 \<Rightarrow> u32 \<Rightarrow> u32 \<Rightarrow> u32 \<Rightarrow> u32 \<Rightarrow> fzb_result \<Rightarrow> bool" where
  "fzb_sound val cnt max_bits rem_bits contig res =
     (\<exists>p < 32. \<exists>c. (c = 0 \<or> c = unat contig \<and> p = 0) \<and> c < unat cnt \<and>
        (case res of
           Found r \<Rightarrow> p + (unat cnt - c) \<le> 32 \<and> r = max_bits - rem_bits + of_nat p - of_nat c \<and>
             (\<forall>i < unat cnt - c. \<not> bit val (p + i))
         | NextWord c' \<Rightarrow> c' = 0 \<or> unat c' = c + 32 - p \<and> unat c' < unat cnt \<and>
             (\<forall>i. p \<le> i \<and> i < 32 \<longrightarrow> \<not> bit val i)))"

lemma fzb_sound_drop_run:
  "fzb_sound val cnt mx rm 0 res \<Longrightarrow> fzb_sound val cnt mx rm contig res"
  unfolding fzb_sound_def by (elim exE conjE bexE) auto

lemma fzb_sound_next:
  assumes mask: "ucast (drop_bit (unat ret) val) AND BIT_MASK (BITS_IN_INT - ret) = 0"
    and ret: "unat ret < 32" "unat contig = 0 \<or> unat ret = 0"
    and big: "32 < unat ret + unat cnt - unat contig" and cnt: "unat contig < unat cnt"
  shows "fzb_sound val cnt mx rm contig (NextWord (contig + (BITS_IN_INT - ret)))"
proof -
  have m: "unat (BITS_IN_INT - ret) = 32 - unat ret"
    using ret by (simp add: BITS_IN_INT_def unat_sub_le)
  have z: "\<not> bit val i" if "unat ret \<le> i" "i < 32" for i
    using mask m ret that by (auto simp: masked_zero_iff dest: spec [of _ "i - unat ret"])
  have "unat contig + (32 - unat ret) < 2 ^ 32"
    using big u32_less_power [of cnt] cnt by simp
  then have "unat (contig + (BITS_IN_INT - ret)) = unat contig + (32 - unat ret)"
    using m by (simp add: unat_add_no_wrap)
  with ret z big cnt show ?thesis
    unfolding fzb_sound_def
    by (intro exI [of _ "unat ret"] conjI exI [of _ "unat contig"]) auto
qed

lemma fzb_sound_found:
  assumes mask: "ucast (drop_bit (unat ret) val) AND BIT_MASK (cnt - contig) = 0"
    and ret: "unat ret < 32" "unat contig = 0 \<or> unat ret = 0"
    and small: "unat ret + unat cnt - unat contig \<le> 32" and cnt: "unat contig < unat cnt"
  shows "fzb_sound val cnt mx rm contig (Found (mx - rm + ret - contig))"
proof -
  have "unat (cnt - contig) = unat cnt - unat contig"
    using cnt by (simp add: unat_sub_le)
  then have "\<forall>i < unat cnt - unat contig. \<not> bit val (unat ret + i)"
    using mask small cnt by (simp add: masked_zero_iff)
  with ret small cnt show ?thesis
    unfolding fzb_sound_def
    by (intro exI [of _ "unat ret"] conjI exI [of _ "unat contig"]) auto
qed

lemma fzb_word_sound:
  assumes "unat contig < unat cnt" "unat cnt + 32 < 2 ^ 32"
  shows "fzb_sound val cnt mx rm contig (fzb_word val bc cnt mx rm contig ret0)"
  using assms
proof (induction val bc cnt mx rm contig ret0 rule: fzb_word.induct)
  case (1 val bc cnt mx rm contig ret0)
  define ret where "ret = ffz val ret0 bc"
  note step = fzb_word.simps [of val bc cnt mx rm contig ret0, folded ret_def, unfolded Let_def]
  note prems = 1(4,5)
  have cnt0: "unat (0::u32) < unat cnt" using prems by simp
  show ?case
  proof (cases "BITS_IN_INT \<le> ret")
    case True
    then show ?thesis using cnt0 by (auto simp: step fzb_sound_def intro!: exI [of _ 0])
  next
    case r0: False
    show ?thesis
    proof (cases "contig \<noteq> 0 \<and> ret \<noteq> 0")
      case True
      then show ?thesis
        using fzb_sound_drop_run [OF 1(1) [OF ret_def r0 True cnt0 prems(2)]] r0 by (simp add: step)
    next
      case c0: False
      have r: "unat ret < 32" using r0 by (simp add: BITS_IN_INT_def not_le word_less_nat_alt)
      have "unat (ret + cnt - contig) = unat ret + unat cnt - unat contig"
        using prems r by (simp add: unat_sub_le unat_add_no_wrap)
      then have b: "BITS_IN_INT < ret + cnt - contig \<longleftrightarrow> 32 < unat ret + unat cnt - unat contig"
        by (simp add: BITS_IN_INT_def word_less_nat_alt)
      note next_run = fzb_sound_drop_run [OF 1(2) [OF ret_def r0 c0 _ _ cnt0 prems(2)]]
        fzb_sound_drop_run [OF 1(3) [OF ret_def r0 c0 _ _ cnt0 prems(2)]]
      show ?thesis
        using r0 c0 r b prems next_run
        by (auto simp: step intro!: fzb_sound_next fzb_sound_found)
    qed
  qed
qed

lemma bit_at_append_left: "k < 32 * length ds \<Longrightarrow> bit_at (ds @ ws) k = bit_at ds k"
  by (auto simp: bit_at_def nth_append)

lemma bit_at_append_right [simp]: "bit_at (ds @ ws) (32 * length ds + k) = bit_at ws k"
  by (auto simp: bit_at_def nth_append)

lemma bit_at_Cons_first [simp]: "k < 32 \<Longrightarrow> bit_at (v # ws) k = bit v k"
  by (simp add: bit_at_def)

text \<open>What the scan knows after the words \<open>ds\<close>: they are all read, and their last \<open>contig\<close>
  blocks are free.\<close>

definition scanned :: "u32 list \<Rightarrow> u32 \<Rightarrow> u32 \<Rightarrow> u32 \<Rightarrow> bool" where
  "scanned ds max_bits rem_bits contig \<longleftrightarrow>
     32 * length ds + unat rem_bits = unat max_bits \<and> unat contig \<le> 32 * length ds \<and>
     (\<forall>i. 32 * length ds \<le> i + unat contig \<and> i < 32 * length ds \<longrightarrow> \<not> bit_at ds i)"

lemma fzb_found_free:
  assumes sc: "scanned ds mx rm contig" and rm: "rm \<noteq> 0"
    and f: "fzb_sound val cnt mx rm contig (Found r)"
  shows "unat r + unat cnt \<le> 32 * length ds + 32"
    and "\<forall>i < unat cnt. \<not> bit_at (ds @ val # ws) (unat r + i)"
proof -
  obtain p c where p: "p < 32" and c: "c = 0 \<or> c = unat contig \<and> p = 0" "c < unat cnt"
      and fit: "p + (unat cnt - c) \<le> 32" and r: "r = mx - rm + of_nat p - of_nat c"
      and z: "\<forall>i < unat cnt - c. \<not> bit val (p + i)"
    using f unfolding fzb_sound_def fzb_result.case by blast
  let ?base = "32 * length ds"
  have base: "unat (mx - rm) = ?base" "c \<le> ?base"
    using sc c(1) by (auto simp: scanned_def unat_sub_le)
  have "?base < 4294967296" using u32_less_power [of "mx - rm"] base by simp
  then have lim: "?base + p < 4294967296" using p by presburger
  have "mx - rm = of_nat ?base" by (simp flip: base(1))
  then have req: "r = of_nat (?base + p - c)" using r base(2) by (simp add: of_nat_diff)
  have ur: "unat r = ?base + p - c"
    unfolding req unat_of_nat by (rule mod_less) (use lim in simp)
  then show "unat r + unat cnt \<le> ?base + 32" using fit base(2) c by auto
  show "\<forall>i < unat cnt. \<not> bit_at (ds @ val # ws) (unat r + i)"
  proof (intro allI impI)
    fix i assume i: "i < unat cnt"
    show "\<not> bit_at (ds @ val # ws) (unat r + i)"
    proof (cases "i < c")
      case True
      then have "unat r + i < ?base" "?base \<le> unat r + i + unat contig" using c(1) ur base(2) by auto
      then show ?thesis using sc by (simp add: bit_at_append_left scanned_def)
    next
      case False
      then have "unat r + i = ?base + (p + (i - c))" "i - c < unat cnt - c" "p + (i - c) < 32"
        using ur base(2) i fit by auto
      then show ?thesis using z by simp
    qed
  qed
qed

lemma fzb_next_scanned:
  assumes sc: "scanned ds mx rm contig" and rm: "32 \<le> unat rm"
    and f: "fzb_sound val cnt mx rm contig (NextWord c)"
  shows "scanned (ds @ [val]) mx (rm - 32) c"
proof -
  have rest: "unat (rm - 32) = unat rm - 32" using rm by (simp add: unat_sub_le)
  have "unat c \<le> 32 * length ds + 32 \<and>
      (\<forall>i. 32 * length ds + 32 \<le> i + unat c \<and> i < 32 * length ds + 32 \<longrightarrow> \<not> bit_at (ds @ [val]) i)"
  proof (cases "c = 0")
    case True
    then show ?thesis by auto
  next
    case False
    then obtain p k where p: "p < 32" "k = 0 \<or> k = unat contig \<and> p = 0" "unat c = k + 32 - p"
        "\<forall>i. p \<le> i \<and> i < 32 \<longrightarrow> \<not> bit val i"
      using f unfolding fzb_sound_def by auto
    have "\<not> bit_at (ds @ [val]) i" if "32 * length ds + 32 \<le> i + unat c" "i < 32 * length ds + 32" for i
    proof (cases "i < 32 * length ds")
      case True
      then show ?thesis using that p sc by (auto simp: bit_at_append_left scanned_def)
    next
      case False
      then obtain j where "i = 32 * length ds + j" by (metis le_add_diff_inverse not_less)
      then show ?thesis using that p by auto
    qed
    then show ?thesis using p sc by (auto simp: scanned_def)
  qed
  then show ?thesis using sc rm rest by (simp add: scanned_def)
qed

lemma fzb_words_sound:
  assumes "fzb_words ws cnt mx rm contig = Some r" "r < mx" "rm \<noteq> 0" "scanned ds mx rm contig"
    and "unat contig < unat cnt" "unat cnt + 32 < 2 ^ 32"
  shows "unat r + unat cnt \<le> 32 * ((unat mx + 31) div 32) \<and>
    (\<forall>i < unat cnt. \<not> bit_at (ds @ ws) (unat r + i))"
  using assms
proof (induction ws arbitrary: ds rm contig)
  case Nil
  then show ?case by simp
next
  case (Cons val ws)
  define bc where "bc = (if rm \<ge> BITS_IN_INT then BITS_IN_INT else rm)"
  let ?w = "fzb_word val bc cnt mx rm contig 0"
  have snd: "fzb_sound val cnt mx rm contig ?w"
    using Cons.prems by (simp add: fzb_word_sound)
  show ?case
  proof (cases ?w)
    case (Found r')
    then have "r' = r" using Cons.prems(1) by (simp add: bc_def)
    have "0 < unat rm" "32 * length ds + unat rm = unat mx"
      using Cons.prems(3,4) by (auto simp: unat_gt_0 scanned_def)
    then have "32 * length ds + 32 \<le> 32 * ((unat mx + 31) div 32)" by (rule round_up_32)
    then show ?thesis
      using fzb_found_free [OF Cons.prems(4,3) snd [unfolded Found \<open>r' = r\<close>]] by auto
  next
    case (NextWord c)
    then have rest: "rm - bc \<noteq> 0" "fzb_words ws cnt mx (rm - bc) c = Some r"
      using Cons.prems(1,2) by (auto simp: bc_def Let_def split: if_splits)
    then have b: "bc = 32" "32 \<le> unat rm"
      by (auto simp: bc_def BITS_IN_INT_def word_le_nat_alt split: if_splits)
    have "unat c < unat cnt"
      using snd Cons.prems(5) unfolding NextWord fzb_sound_def by auto
    moreover have "scanned (ds @ [val]) mx (rm - bc) c"
      using fzb_next_scanned [OF Cons.prems(4) b(2) snd [unfolded NextWord]] b by simp
    ultimately show ?thesis
      using Cons.IH [OF rest(2) Cons.prems(2) rest(1), of "ds @ [val]"] Cons.prems(6) by simp
  qed
qed

lemma find_zero_bits_run:
  assumes "find_zero_bits bmap cnt max_bits = Some r" "r < max_bits"
    and "1 \<le> unat cnt" "unat cnt + 32 < 2 ^ 32"
  shows "(\<forall>i < unat cnt. \<not> bit_at bmap (unat r + i)) \<and>
    unat r + unat cnt \<le> 32 * ((unat max_bits + 31) div 32)"
proof -
  have "max_bits \<noteq> 0" using assms(2) by auto
  moreover have "scanned [] max_bits max_bits 0" by (simp add: scanned_def)
  ultimately show ?thesis
    using fzb_words_sound [of bmap cnt max_bits max_bits 0 r "[]"] assms
    by (simp add: find_zero_bits_def)
qed

text \<open>C10: \<open>find_zero_bits\<close> is sound: a returned index below \<open>max_bits\<close> starts a run of \<open>cnt\<close> blocks that
  are all free, across word boundaries, and the run ends inside the last word of the map.\<close>

theorem find_zero_bits_sound:
  assumes "find_zero_bits bmap cnt max_bits = Some r" "r < max_bits"
    and "1 \<le> unat cnt" "unat cnt + 32 < 2 ^ 32"
  shows "(\<forall>i < unat cnt. \<not> bit_at bmap (unat r + i)) \<and>
    unat r + unat cnt \<le> 32 * ((unat max_bits + 31) div 32)"
  using assms by (rule find_zero_bits_run)

theorem find_zero_bits_sound_witness:
  "find_zero_bits [0x3FFFFFFF, 0xFFFFFFF8] 4 64 = Some 30 \<and>
   \<not> bit_at [0x3FFFFFFF, 0xFFFFFFF8] 30 \<and> \<not> bit_at [0x3FFFFFFF, 0xFFFFFFF8] 33"
proof -
  have f: "find_zero_bits [0x3FFFFFFF, 0xFFFFFFF8] 4 64 = Some 30" by code_simp
  have "\<forall>i < unat (4::u32). \<not> bit_at [0x3FFFFFFF, 0xFFFFFFF8] (unat (30::u32) + i)"
    using find_zero_bits_sound [OF f] by simp
  from this [rule_format, of 0] this [rule_format, of 3] f show ?thesis by simp
qed

lemma fzb_words_total:
  assumes "0 < unat rm" "unat rm \<le> 32 * length ws"
  shows "\<exists>r. fzb_words ws cnt mx rm contig = Some r"
  using assms
proof (induction ws arbitrary: rm contig)
  case Nil
  then show ?case by simp
next
  case (Cons val ws)
  define bc where "bc = (if rm \<ge> BITS_IN_INT then BITS_IN_INT else rm)"
  note step = fzb_words.simps(2) [of val ws cnt mx rm contig, unfolded Let_def, folded bc_def]
  show ?case
  proof (cases "rm - bc = 0")
    case True
    then show ?thesis by (simp only: step) (auto split: fzb_result.split)
  next
    case False
    then have b: "bc = 32" "32 \<le> unat rm"
      by (auto simp: bc_def BITS_IN_INT_def word_le_nat_alt split: if_splits)
    have "unat (rm - bc) = unat rm - 32" using b by (simp add: unat_sub_le)
    moreover have "0 < unat (rm - bc)" using False unat_gt_0 [of "rm - bc"] by blast
    ultimately have "\<exists>r. fzb_words ws cnt mx (rm - bc) c = Some r" for c
      using Cons.prems by (intro Cons.IH) auto
    then show ?thesis by (simp only: step) (auto split: fzb_result.split)
  qed
qed

text \<open>\<open>find_zero_bits\<close> returns on every map that has all the words \<open>max_bits\<close> needs, and never
  reads past them.\<close>

theorem find_zero_bits_total:
  assumes "0 < unat max_bits" "unat max_bits \<le> 32 * length bmap"
  shows "\<exists>r. find_zero_bits bmap cnt max_bits = Some r"
  using assms fzb_words_total by (simp add: find_zero_bits_def)

theorem find_zero_bits_total_witness:
  "\<exists>r. find_zero_bits [0x3FFFFFFF, 0xFFFFFFF8] 4 40 = Some r"
  by (rule find_zero_bits_total) simp_all

subsection \<open>The scan is exact for one block\<close>

lemma fzb_word_one:
  assumes z: "\<not> bit val k" "k < unat bc" and bc: "unat bc \<le> 32"
  shows "\<exists>p. p \<le> k \<and> \<not> bit val p \<and> (\<forall>j < p. bit val j) \<and>
    fzb_word val bc 1 mx rm 0 0 = Found (mx - rm + of_nat p)"
proof (cases "val = 0")
  case True
  then show ?thesis using bc
    by (intro exI [of _ 0]) (auto simp: word_less_nat_alt fzb_word.simps [of 0] ffz_def BITS_IN_INT_def Let_def)
next
  case False
  have "val \<noteq> 0xFFFFFFFF"
  proof
    assume "val = 0xFFFFFFFF"
    then have "val = mask 32" by (simp add: mask_eq_exp_minus_1)
    with z bc show False by (simp add: bit_mask_iff)
  qed
  with False bc have c: "\<forall>j < unat (ffz val 0 bc). bit val j" "unat (ffz val 0 bc) \<le> 32"
      "ffz val 0 bc < 32 \<Longrightarrow> \<not> bit val (unat (ffz val 0 bc)) \<or> ffz val 0 bc = bc"
    using ffz_cases [of 0 bc val] by (auto simp: word_le_nat_alt)
  let ?p = "ffz val 0 bc"
  have le: "unat ?p \<le> k" using c(1) z by (meson not_less)
  then have lt: "?p < 32" "?p \<noteq> bc" "unat ?p < 32" using z bc by (auto simp: word_less_nat_alt)
  then have nb: "\<not> bit val (unat ?p)" using c(3) by simp
  have m: "ucast (drop_bit (unat ?p) val) AND BIT_MASK 1 = 0"
    using nb by (simp add: masked_zero_iff)
  have "unat (?p + 1) = Suc (unat ?p)" using lt(1) by (rule unat_inc_less)
  then have "\<not> 32 < ?p + 1" using lt(3) by (simp add: word_less_nat_alt)
  then have "fzb_word val bc 1 mx rm 0 0 = Found (mx - rm + ?p)"
    using m lt(1) by (simp add: fzb_word.simps [of val] BITS_IN_INT_def Let_def not_le)
  then show ?thesis using le c(1) nb by (intro exI [of _ "unat ?p"]) simp
qed

lemma fzb_word_one_full:
  assumes "\<forall>j < 32. bit val j"
  shows "fzb_word val bc 1 mx rm 0 0 = NextWord 0"
proof -
  have "val = mask 32"
    by (rule bit_eqI) (use assms in \<open>auto simp: bit_mask_iff dest: bit_imp_le_length\<close>)
  then have "ffz val 0 bc = BITS_IN_INT" by (simp add: mask_eq_exp_minus_1 ffz_def)
  then show ?thesis by (subst fzb_word.simps) simp
qed

lemma fzb_words_one:
  assumes "32 dvd unat mx" "32 * length ds + unat rm = unat mx" "unat mx = 32 * length (ds @ ws)"
    and "\<forall>j < 32 * length ds. bit_at (ds @ ws) j"
    and "\<not> bit_at (ds @ ws) k" "k < unat mx"
  shows "\<exists>p \<le> k. \<not> bit_at (ds @ ws) p \<and> (\<forall>j < p. bit_at (ds @ ws) j) \<and>
    fzb_words ws 1 mx rm 0 = Some (of_nat p)"
  using assms
proof (induction ws arbitrary: ds rm)
  case Nil
  then show ?case by auto
next
  case (Cons val ws)
  have k: "32 * length ds \<le> k" using Cons.prems(4,5) by (meson not_less)
  have rm: "32 \<le> unat rm" "unat rm = 32 * length (val # ws)" using Cons.prems(2,3) by auto
  then have bc: "32 \<le> rm" by (simp add: word_le_nat_alt)
  have base: "mx - rm = of_nat (32 * length ds)"
  proof -
    have "unat (mx - rm) = 32 * length ds" using Cons.prems(2) by (simp add: unat_sub_le)
    then show ?thesis by (simp flip: \<open>unat (mx - rm) = 32 * length ds\<close>)
  qed
  show ?case
  proof (cases "\<forall>j < 32. bit val j")
    case True
    have full: "\<forall>j < 32 * length (ds @ [val]). bit_at (ds @ val # ws) j"
    proof (intro allI impI)
      fix j assume j: "j < 32 * length (ds @ [val])"
      show "bit_at (ds @ val # ws) j"
      proof (cases "j < 32 * length ds")
        case False
        then obtain i where "j = 32 * length ds + i" by (metis le_add_diff_inverse not_less)
        with j True show ?thesis by simp
      qed (use Cons.prems(4) in simp)
    qed
    have "rm - 32 \<noteq> 0"
    proof
      assume "rm - 32 = 0"
      then have "unat mx = 32 * length (ds @ [val])" using Cons.prems(2) by simp
      with full Cons.prems(5,6) show False by simp
    qed
    moreover have "unat (rm - 32) = unat rm - 32" using rm by (simp add: unat_sub_le)
    ultimately show ?thesis
      using Cons.IH [of "ds @ [val]" "rm - 32"] Cons.prems full bc rm
      by (simp add: BITS_IN_INT_def Let_def fzb_word_one_full [OF True])
  next
    case False
    then obtain z where "\<not> bit val z" "z < 32" by auto
    then obtain p where p: "p \<le> z" "\<not> bit val p" "\<forall>j < p. bit val j"
        "fzb_word val 32 1 mx rm 0 0 = Found (mx - rm + of_nat p)"
      using fzb_word_one [of val z 32 mx rm] by auto
    let ?q = "32 * length ds + p"
    have "p < 32" using p \<open>z < 32\<close> by simp
    then have nq: "\<not> bit_at (ds @ val # ws) ?q" using p by simp
    have below: "\<forall>j < ?q. bit_at (ds @ val # ws) j"
    proof (intro allI impI)
      fix j assume j: "j < ?q"
      show "bit_at (ds @ val # ws) j"
      proof (cases "j < 32 * length ds")
        case False
        then obtain i where "j = 32 * length ds + i" by (metis le_add_diff_inverse not_less)
        with j p \<open>p < 32\<close> show ?thesis by simp
      qed (use Cons.prems(4) in simp)
    qed
    have "?q \<le> k" using below Cons.prems(5) by (meson not_less)
    moreover have "fzb_words (val # ws) 1 mx rm 0 = Some (of_nat ?q)"
      using p(4) bc base by (simp add: BITS_IN_INT_def)
    ultimately show ?thesis using nq below by blast
  qed
qed

text \<open>for one block, on a map of whole words, \<open>find_zero_bits\<close> is exact: if any block is free it
  returns the lowest free block.\<close>

theorem find_zero_bits_one_exact:
  assumes "unat max_bits = 32 * length bmap" "k < unat max_bits" "\<not> bit_at bmap k"
  shows "\<exists>p \<le> k. \<not> bit_at bmap p \<and> (\<forall>j < p. bit_at bmap j) \<and>
    find_zero_bits bmap 1 max_bits = Some (of_nat p)"
  using fzb_words_one [of max_bits "[]" max_bits bmap k] assms by (simp add: find_zero_bits_def)

theorem find_zero_bits_one_exact_witness:
  "\<exists>p \<le> 40. \<not> bit_at [0xFFFFFFFF, 0xF] p \<and> (\<forall>j < p. bit_at [0xFFFFFFFF, 0xF] j) \<and>
     find_zero_bits [0xFFFFFFFF, 0xF] 1 64 = Some (of_nat p)"
proof (rule find_zero_bits_one_exact)
  show "\<not> bit_at [0xFFFFFFFF, 0xF] 40" by (simp add: bit_at_def)
qed simp_all

text \<open>on a map whose size is not a multiple of 32, \<open>find_zero_bits\<close> may return a run that passes
  the end of the map: here blocks 9 and 10 of a map of 10 blocks, because the mask of the last
  word is not cut at \<open>max_bits\<close>.\<close>

theorem find_zero_bits_overrun:
  "find_zero_bits [0x1FE] 2 10 = Some 9 \<and> unat (9::u32) + unat (2::u32) > unat (10::u32)"
  by (rule conjI) (code_simp, simp)

text \<open>for more than one block the scan is not complete: after a run that does not continue in
  the next word, the first free block of that word is skipped.  Here blocks 33 and 34 of 64 are
  free and \<open>find_zero_bits\<close> reports that no two adjacent blocks are.\<close>

theorem find_zero_bits_incomplete:
  "find_zero_bits [0x7FFFFFFF, 0xFFFFFFF9] 2 64 = Some 64 \<and>
   \<not> bit_at [0x7FFFFFFF, 0xFFFFFFF9] 33 \<and> \<not> bit_at [0x7FFFFFFF, 0xFFFFFFF9] 34"
  by (intro conjI) (code_simp, simp add: bit_at_def, simp add: bit_at_def)

subsection \<open>Setting and clearing change exactly their range\<close>

lemma bit_update_word:
  assumes "1 \<le> unat bits" "unat start + unat bits \<le> 32" "j < 32"
  shows "bit (update_word s w bits start) j =
    (if unat start \<le> j \<and> j < unat start + unat bits then s else bit w j)"
proof -
  have "unat (start mod BITS_IN_INT) = unat start"
    using assms by (simp add: BITS_IN_INT_def unat_mod)
  then show ?thesis
    using assms by (auto simp: update_word_def Let_def bit_unsigned_iff bit_or_iff bit_and_iff bit_not_iff
        bit_push_bit_iff bit_BIT_MASK)
qed

lemma bit_at_Cons: "bit_at (v # ws) k = (if k < 32 then bit v k else bit_at ws (k - 32))"
  using bit_at_append_right [of "[v]" ws "k - 32"] by (cases "k < 32") auto

lemma update_words_spec:
  assumes "unat start < 32" "unat temp + 32 < 2 ^ 32" "unat start + unat temp \<le> 32 * length ws"
  shows "\<exists>us. update_words ws start temp s = Some us \<and> length us = length ws \<and>
    (\<forall>k. bit_at us k = (if unat start \<le> k \<and> k < unat start + unat temp then s else bit_at ws k))"
  using assms
proof (induction ws arbitrary: start temp)
  case Nil
  then show ?case by (auto simp: unat_eq_0)
next
  case (Cons w ws)
  have sum: "unat (temp + start) = unat temp + unat start"
    using Cons.prems by (simp add: unat_add_no_wrap)
  consider "temp = 0" | "temp \<noteq> 0" "unat temp + unat start \<le> 32" | "32 < unat temp + unat start"
    by linarith
  then show ?case
  proof cases
    case 1
    then show ?thesis by auto
  next
    case 2
    then have "\<not> BITS_IN_INT < temp + start" "1 \<le> unat temp"
      by (auto simp: BITS_IN_INT_def word_less_nat_alt sum Suc_le_eq unat_gt_0)
    with 2 show ?thesis by (auto simp: Let_def bit_at_Cons bit_update_word)
  next
    case 3
    then have big: "BITS_IN_INT < temp + start" "temp \<noteq> 0"
      using Cons.prems by (auto simp: BITS_IN_INT_def word_less_nat_alt sum)
    let ?b = "BITS_IN_INT - start"
    have b: "unat ?b = 32 - unat start"
      using Cons.prems by (simp add: BITS_IN_INT_def unat_sub_le)
    then have t: "unat (temp - ?b) = unat temp - (32 - unat start)"
      using 3 by (simp add: unat_sub_le)
    then have ne: "temp - ?b \<noteq> 0" using 3 Cons.prems unat_gt_0 [of "temp - ?b"] by linarith
    have "unat (temp - ?b) \<le> 32 * length ws" "unat (temp - ?b) + 32 < 2 ^ 32"
      using t Cons.prems by auto
    then obtain us where us: "update_words ws 0 (temp - ?b) s = Some us" "length us = length ws"
        "\<forall>k. bit_at us k = (if k < unat (temp - ?b) then s else bit_at ws k)"
      using Cons.IH [of 0 "temp - ?b"] by auto
    have "bit_at (update_word s w ?b start # us) k =
        (if unat start \<le> k \<and> k < unat start + unat temp then s else bit_at (w # ws) k)" for k
      using b t us(3) Cons.prems(1) 3 by (auto simp: bit_at_Cons bit_update_word)
    with us ne big show ?thesis by (simp add: Let_def)
  qed
qed

lemma update_bit_map_spec:
  assumes "unat cnt + 32 < 2 ^ 32" "unat start + unat cnt \<le> 32 * length bmap"
  shows "\<exists>us. update_bit_map (Some bmap) start cnt s = Some (Some us) \<and> length us = length bmap \<and>
    (\<forall>k. bit_at us k = (if unat start \<le> k \<and> k < unat start + unat cnt then s else bit_at bmap k))"
proof (cases "cnt = 0")
  case True
  have "update_words ws st 0 s = Some ws" for ws st by (cases ws) auto
  with True show ?thesis by (auto simp: update_bit_map_def)
next
  case False
  let ?i = "unat start div 32"
  have i: "unat (BIT_POS_TO_INT start) = ?i" "unat (start mod BITS_IN_INT) = unat start mod 32"
    by (simp_all add: BIT_POS_TO_INT_def BITS_IN_INT_def unat_div unat_mod)
  have il: "?i \<le> length bmap" "?i * 32 + unat start mod 32 = unat start"
    using assms by auto
  then have "unat (start mod BITS_IN_INT) + unat cnt \<le> 32 * length (drop ?i bmap)"
    using assms(2) il(2) unfolding length_drop i(2) diff_mult_distrib2 by linarith
  then obtain us where us:
      "update_words (drop ?i bmap) (start mod BITS_IN_INT) cnt s = Some us"
      "length us = length (drop ?i bmap)"
      "\<forall>k. bit_at us k = (if unat start mod 32 \<le> k \<and> k < unat start mod 32 + unat cnt then s
         else bit_at (drop ?i bmap) k)"
    using update_words_spec [of "start mod BITS_IN_INT" cnt "drop ?i bmap" s] assms(1) i by auto
  have "bit_at (take ?i bmap @ us) k =
      (if unat start \<le> k \<and> k < unat start + unat cnt then s else bit_at bmap k)" for k
  proof (cases "k < 32 * ?i")
    case True
    then show ?thesis
      using il bit_at_append_left [of k "take ?i bmap" us]
        bit_at_append_left [of k "take ?i bmap" "drop ?i bmap"] by auto
  next
    case False
    then obtain j where j: "k = 32 * ?i + j" by (metis le_add_diff_inverse not_less)
    have len: "length (take ?i bmap) = ?i" using il by simp
    have app: "bit_at (take ?i bmap @ us) k = bit_at us j"
      using bit_at_append_right [of "take ?i bmap" us j, unfolded len] j by simp
    have old: "bit_at bmap k = bit_at (drop ?i bmap) j"
      using bit_at_append_right [of "take ?i bmap" "drop ?i bmap" j, unfolded len] j by simp
    have "unat start \<le> k \<longleftrightarrow> unat start mod 32 \<le> j"
      "k < unat start + unat cnt \<longleftrightarrow> j < unat start mod 32 + unat cnt"
      using il(2) j by linarith+
    then show ?thesis unfolding app old by (simp add: us(3))
  qed
  with us il show ?thesis by (auto simp: update_bit_map_def Let_def i)
qed

text \<open>\<open>set_bit_map\<close> marks exactly the blocks of its range as used: it keeps every other block and
  the size of the map.\<close>

theorem set_bit_map_exact:
  assumes "unat cnt + 32 < 2 ^ 32" "unat start + unat cnt \<le> 32 * length bmap"
  shows "\<exists>us. set_bit_map (Some bmap) start cnt = Some (Some us) \<and> length us = length bmap \<and>
    (\<forall>k. bit_at us k \<longleftrightarrow> unat start \<le> k \<and> k < unat start + unat cnt \<or> bit_at bmap k)"
  using update_bit_map_spec [OF assms, of True] by (auto simp: set_bit_map_def split: if_splits)

theorem set_bit_map_exact_witness:
  "\<exists>us. set_bit_map (Some [0, 0]) 30 4 = Some (Some us) \<and> length us = length [0::u32, 0] \<and>
    (\<forall>k. bit_at us k \<longleftrightarrow> unat (30::u32) \<le> k \<and> k < unat (30::u32) + unat (4::u32) \<or> bit_at [0, 0] k)"
  by (rule set_bit_map_exact) simp_all

lemma bit_at_ext:
  assumes "length us = length ws" "\<And>k. bit_at us k = bit_at ws k"
  shows "us = ws"
proof (rule nth_equalityI [OF assms(1)])
  fix i assume i: "i < length us"
  show "us ! i = ws ! i"
  proof (rule bit_eqI)
    fix j assume "possible_bit TYPE(u32) j"
    then have "j < 32" by (simp add: possible_bit_def)
    then show "bit (us ! i) j = bit (ws ! i) j"
      using assms(2) [of "32 * i + j"] i assms(1) by (simp add: bit_at_def)
  qed
qed

lemma clear_after_set:
  assumes "unat cnt + 32 < 2 ^ 32" "unat start + unat cnt \<le> 32 * length bmap"
    and "\<forall>i < unat cnt. \<not> bit_at bmap (unat start + i)"
  shows "Option.bind (set_bit_map (Some bmap) start cnt) (\<lambda>m. clear_bit_map m start cnt) =
    Some (Some bmap)"
proof -
  obtain us where us: "set_bit_map (Some bmap) start cnt = Some (Some us)" "length us = length bmap"
      "\<forall>k. bit_at us k = (if unat start \<le> k \<and> k < unat start + unat cnt then True else bit_at bmap k)"
    using update_bit_map_spec [OF assms(1,2), of True] by (auto simp: set_bit_map_def)
  moreover obtain vs where vs: "clear_bit_map (Some us) start cnt = Some (Some vs)"
      "length vs = length us"
      "\<forall>k. bit_at vs k = (if unat start \<le> k \<and> k < unat start + unat cnt then False else bit_at us k)"
    using update_bit_map_spec [of cnt start us False] assms(1,2) us(2) by (auto simp: clear_bit_map_def)
  have "bit_at vs k = bit_at bmap k" for k
  proof (cases "unat start \<le> k \<and> k < unat start + unat cnt")
    case True
    then have "k - unat start < unat cnt" "unat start + (k - unat start) = k" by linarith+
    then have "\<not> bit_at bmap k" using assms(3) by metis
    with True show ?thesis using vs(3) by simp
  next
    case False
    then show ?thesis using us(3) [rule_format, of k] vs(3) [rule_format, of k] by auto
  qed
  then have "vs = bmap" using us vs by (intro bit_at_ext) auto
  with us vs show ?thesis by simp
qed

text \<open>allocating blocks that are free and releasing them again gives back the same map, word for
  word: the round trip of \<open>set_bit_map\<close> and \<open>clear_bit_map\<close>.\<close>

theorem clear_set_bit_map:
  assumes "unat cnt + 32 < 2 ^ 32" "unat start + unat cnt \<le> 32 * length bmap"
    and "\<forall>i < unat cnt. \<not> bit_at bmap (unat start + i)"
  shows "Option.bind (set_bit_map (Some bmap) start cnt) (\<lambda>m. clear_bit_map m start cnt) =
    Some (Some bmap)"
  using assms by (rule clear_after_set)

theorem clear_set_bit_map_witness:
  "Option.bind (set_bit_map (Some [0x3FFFFFFF, 0xFFFFFFF8]) 30 4)
     (\<lambda>m. clear_bit_map m 30 4) = Some (Some [0x3FFFFFFF, 0xFFFFFFF8])"
proof (rule clear_set_bit_map)
  have "\<not> bit_at [0x3FFFFFFF, 0xFFFFFFF8] (30 + i)" if "i = 0 \<or> i = 1 \<or> i = 2 \<or> i = 3" for i
    using that by (elim disjE) (simp_all add: bit_at_def)
  moreover have "i < 4 \<Longrightarrow> i = 0 \<or> i = 1 \<or> i = 2 \<or> i = 3" for i :: nat by linarith
  ultimately show
    "\<forall>i < unat (4::u32). \<not> bit_at [0x3FFFFFFF, 0xFFFFFFF8] (unat (30::u32) + i)" by simp
qed simp_all

end
