(* ===== verification/Umm.thy ===== *)
theory Umm
  imports Umm_Bit_Ops Xib_Kmm
begin

text \<open>
  The user-space memory manager, \<open>recipes-apps/umm/files/umm.c\<close>, \<open>umm.h\<close> and \<open>umm_export.h\<close>, on top
  of the kernel manager of \<open>Xib_Kmm\<close> (its \<open>ioctl\<close> calls) and the bitmaps of \<open>Umm_Bit_Ops\<close>.  A
  process keeps, per memory type, a linked list of chunks with a tail pointer; the chunk records
  live in an explicit heap, so that the pointer updates of the list code are the code's own.  The
  result \<open>None\<close> of an operation is a call that does not return normally: a mutex taken twice, a null
  or dangling pointer, an array index out of range, a division by zero, or a shift by 32 or more.
\<close>

subsection \<open>Data\<close>

type_synonym ptr = nat

record xib_umem_chunk =
  u_size :: u64
  free_mem_bytes :: u64
  blk_size :: u64
  u_chunk_id :: u32
  u_mem_type :: u32
  free_blks :: u32
  u_base_va :: u64
  u_base_pa :: u64
  bmap :: "u32 list"
  max_blks :: u32
  next_chunk :: "ptr option"

type_synonym chunk_heap = "ptr \<Rightarrow> xib_umem_chunk option"

record umm_resp =
  sq_chunk_id :: int
  cq_chunk_id :: int
  rq_chunk_id :: int

text \<open>\<open>struct umm_proc_ctx\<close>.  The two arrays are indexed by memory type and have
  \<open>XMEM_MAX_MEM_TYPES\<close> entries; \<open>chunk_store\<close> is the heap.\<close>

record umm_proc_ctx =
  max_qp :: u32
  max_qp_per_app :: u32
  rq_buffer_size :: u32
  rq_depth :: u32
  sq_depth :: u32
  chunk_heads :: "ptr option list"
  chunk_tails :: "ptr option list"
  resp :: umm_resp
  mem_types :: u32
  proc_access_types :: u32
  umm_lock :: bool
  chunk_store :: chunk_heap

definition umm_mutex_lock :: "umm_proc_ctx \<Rightarrow> umm_proc_ctx option" where
  "umm_mutex_lock u = (if umm_lock u then None else Some (u\<lparr>umm_lock := True\<rparr>))"

definition umm_mutex_unlock :: "umm_proc_ctx \<Rightarrow> umm_proc_ctx" where
  "umm_mutex_unlock u = u\<lparr>umm_lock := False\<rparr>"

definition nth_opt :: "'a list \<Rightarrow> nat \<Rightarrow> 'a option" where
  "nth_opt xs i = (if i < length xs then Some (xs ! i) else None)"

subsection \<open>Helpers of the headers\<close>

definition get_mem_type :: "u32 \<Rightarrow> u32" where
  "get_mem_type cid = drop_bit 24 cid AND 0x7F"

definition is_mem_type_valid :: "u32 \<Rightarrow> bool" where
  "is_mem_type_valid t \<longleftrightarrow> t \<ge> 0 \<and> t < XMEM_MAX_MEM_TYPES"

definition xib_get_rq_sge_cnt :: "u32 \<Rightarrow> u32" where
  "xib_get_rq_sge_cnt payload_size = (payload_size + 256 - 1) div 256"

definition SIZE_TO_BLOCKS :: "u64 \<Rightarrow> u64 \<Rightarrow> u32 option" where
  "SIZE_TO_BLOCKS ts bs = (if bs = 0 then None else Some (ucast ((ts + bs - 1) div bs)))"

definition get_blk_num :: "xib_umem_chunk \<Rightarrow> u64 \<Rightarrow> u32 option" where
  "get_blk_num c va = SIZE_TO_BLOCKS (va - u_base_va c) (blk_size c)"

text \<open>The size parameter is an \<open>unsigned int\<close>.\<close>

definition is_vaddr_within_range :: "xib_umem_chunk \<Rightarrow> u64 \<Rightarrow> u32 \<Rightarrow> bool" where
  "is_vaddr_within_range c va sz \<longleftrightarrow> va \<ge> u_base_va c \<and> u_base_va c + u_size c \<ge> va + ucast sz"

definition is_single_blk_mem :: "xib_umem_chunk \<Rightarrow> bool" where
  "is_single_blk_mem c \<longleftrightarrow> blk_size c = u_size c \<and> max_blks c = 1"

definition is_chunk_in_use :: "xib_umem_chunk \<Rightarrow> bool" where
  "is_chunk_in_use c \<longleftrightarrow> free_blks c \<noteq> max_blks c"

definition chunk_has_mem :: "xib_umem_chunk \<Rightarrow> u32 \<Rightarrow> bool" where
  "chunk_has_mem c blk_cnt = (if blk_cnt > max_blks c then False else \<not> free_blks c < blk_cnt)"

text \<open>\<open>1U << n\<close>: undefined from 32 on.\<close>

definition shl1 :: "u32 \<Rightarrow> u32 option" where
  "shl1 n = (if n < 32 then Some (push_bit (unat n) 1) else None)"

abbreviation XMM_MEM_UNAVAILBLE :: int where "XMM_MEM_UNAVAILBLE \<equiv> 0"
abbreviation XMM_MEM_AVAILABLE :: int where "XMM_MEM_AVAILABLE \<equiv> 1"
abbreviation XMM_PROC_HAS_ACCESS :: int where "XMM_PROC_HAS_ACCESS \<equiv> 3"

definition umm_memory_available :: "umm_proc_ctx option \<Rightarrow> u32 \<Rightarrow> int option" where
  "umm_memory_available ctx memory_type = do {
     temp \<leftarrow> shl1 memory_type;
     case ctx of
       None \<Rightarrow> Some (- EFAULT)
     | Some u \<Rightarrow> Some (if mem_types u AND temp \<noteq> 0 then XMM_MEM_AVAILABLE else XMM_MEM_UNAVAILBLE)}"

definition umm_mem_accessible_status :: "umm_proc_ctx option \<Rightarrow> u32 \<Rightarrow> int option" where
  "umm_mem_accessible_status ctx memory_type = do {
     temp \<leftarrow> shl1 memory_type;
     ret \<leftarrow> umm_memory_available ctx memory_type;
     Some (case ctx of
             None \<Rightarrow> ret
           | Some u \<Rightarrow> if ret = XMM_MEM_AVAILABLE \<and> proc_access_types u AND temp \<noteq> 0
                       then XMM_PROC_HAS_ACCESS else ret)}"

subsection \<open>The chunk lists\<close>

text \<open>The walk of \<open>get_chunk_info\<close>: the first chunk with the id, or \<open>NULL\<close>.\<close>

partial_function (option) chunk_walk :: "chunk_heap \<Rightarrow> ptr option \<Rightarrow> u32 \<Rightarrow> ptr option option" where
  "chunk_walk h iter cid =
     (case iter of
        None \<Rightarrow> Some None
      | Some p \<Rightarrow> do {
          c \<leftarrow> h p;
          if u_chunk_id c = cid then Some (Some p) else chunk_walk h (next_chunk c) cid})"

definition get_chunk_info :: "umm_proc_ctx \<Rightarrow> u32 \<Rightarrow> (ptr option \<times> umm_proc_ctx) option" where
  "get_chunk_info u cid = do {
     u1 \<leftarrow> umm_mutex_lock u;
     head \<leftarrow> nth_opt (chunk_heads u1) (unat (get_mem_type cid));
     iter \<leftarrow> chunk_walk (chunk_store u1) head cid;
     Some (iter, umm_mutex_unlock u1)}"

text \<open>The search loop of \<open>delete_chunk\<close>: the values of \<open>iter\<close> and \<open>prev\<close> at its end.\<close>

partial_function (option) delete_walk ::
  "chunk_heap \<Rightarrow> ptr option \<Rightarrow> ptr option \<Rightarrow> u32 \<Rightarrow> (ptr option \<times> ptr option) option" where
  "delete_walk h iter prev cid =
     (case iter of
        None \<Rightarrow> Some (None, prev)
      | Some p \<Rightarrow> do {
          c \<leftarrow> h p;
          if u_chunk_id c = cid then Some (Some p, prev)
          else delete_walk h (next_chunk c) (Some p) cid})"

text \<open>The unlinking of \<open>iter\<close> (lines 72--85).\<close>

definition unlink_chunk :: "umm_proc_ctx \<Rightarrow> nat \<Rightarrow> ptr \<Rightarrow> ptr option \<Rightarrow> umm_proc_ctx option" where
  "unlink_chunk u t p prev = do {
     c \<leftarrow> chunk_store u p;
     head \<leftarrow> nth_opt (chunk_heads u) t;
     u1 \<leftarrow> (if head = Some p then
              let u' = u\<lparr>chunk_heads := (chunk_heads u)[t := next_chunk c]\<rparr>
              in Some (if next_chunk c = None then u'\<lparr>chunk_tails := (chunk_tails u')[t := None]\<rparr> else u')
            else do {
              q \<leftarrow> prev;
              d \<leftarrow> chunk_store u q;
              Some (u\<lparr>chunk_store := (chunk_store u)(q \<mapsto> d\<lparr>next_chunk := next_chunk c\<rparr>)\<rparr>)});
     tail \<leftarrow> nth_opt (chunk_tails u1) t;
     Some (if tail = Some p then u1\<lparr>chunk_tails := (chunk_tails u1)[t := prev]\<rparr> else u1)}"

definition delete_chunk :: "umm_proc_ctx \<Rightarrow> ptr \<Rightarrow> (int \<times> umm_proc_ctx) option" where
  "delete_chunk u chunk = do {
     c \<leftarrow> chunk_store u chunk;
     let cid = u_chunk_id c;
     let t = get_mem_type cid;
     if \<not> is_mem_type_valid t then Some (- EINVAL, u)
     else do {
       head \<leftarrow> nth_opt (chunk_heads u) (unat t);
       if head = None then Some (- EFAULT, u)
       else do {
         u1 \<leftarrow> umm_mutex_lock u;
         (iter, prev) \<leftarrow> delete_walk (chunk_store u1) head None cid;
         (case iter of
            None \<Rightarrow> Some (- EINVAL, umm_mutex_unlock u1)
          | Some p \<Rightarrow> do {
              u2 \<leftarrow> unlink_chunk u1 (unat t) p prev;
              Some (0, umm_mutex_unlock (u2\<lparr>chunk_store := (chunk_store u2)(p := None)\<rparr>))})}}}"

text \<open>\<open>xib_umm_get_chunk_id\<close>: the first chunk, over the types from 1 on, that holds the address.\<close>

partial_function (option) va_walk :: "chunk_heap \<Rightarrow> ptr option \<Rightarrow> u64 \<Rightarrow> u32 option option" where
  "va_walk h iter va =
     (case iter of
        None \<Rightarrow> Some None
      | Some p \<Rightarrow> do {
          c \<leftarrow> h p;
          if is_vaddr_within_range c va 1 then Some (Some (u_chunk_id c))
          else va_walk h (next_chunk c) va})"

fun va_types :: "chunk_heap \<Rightarrow> ptr option list \<Rightarrow> u64 \<Rightarrow> u32 option" where
  "va_types h [] va = Some 0"
| "va_types h (head # heads) va = do {
     r \<leftarrow> va_walk h head va;
     case r of Some cid \<Rightarrow> Some cid | None \<Rightarrow> va_types h heads va}"

definition xib_umm_get_chunk_id :: "umm_proc_ctx \<Rightarrow> u64 \<Rightarrow> (u32 \<times> umm_proc_ctx) option" where
  "xib_umm_get_chunk_id u va = do {
     u1 \<leftarrow> umm_mutex_lock u;
     cid \<leftarrow> va_types (chunk_store u1) (tl (chunk_heads u1)) va;
     Some (cid, umm_mutex_unlock u1)}"

text \<open>The second component of the result is what is stored to \<open>*pa\<close>.\<close>

definition xib_umem_get_phy_addr ::
  "umm_proc_ctx \<Rightarrow> u32 \<Rightarrow> u64 \<Rightarrow> (int \<times> u64 option \<times> umm_proc_ctx) option" where
  "xib_umem_get_phy_addr u cid va = do {
     (chunk, u1) \<leftarrow> get_chunk_info u cid;
     case chunk of
       None \<Rightarrow> Some (- EINVAL, None, u1)
     | Some p \<Rightarrow> do {
         c \<leftarrow> chunk_store u1 p;
         if \<not> (u_base_va c \<le> va \<and> u_base_va c + u_size c \<ge> va) then Some (- EINVAL, None, u1)
         else Some (0, Some (va - u_base_va c + u_base_pa c), u1)}}"

subsection \<open>Calls into the kernel manager\<close>

text \<open>\<open>ioctl\<close> as the C library presents it: -1 for a negative result of the driver, the result
  otherwise.  The buffer keeps its contents when nothing was copied.\<close>

definition umm_ioctl :: "ioctl_env \<Rightarrow> kmm \<Rightarrow> u32 \<Rightarrow> xib_umem_ioctl_info \<Rightarrow>
    (int \<times> ioctl_reply \<times> kmm) option" where
  "umm_ioctl e k cmd req = do {
     (r, rep, k') \<leftarrow> xib_ioctl e k cmd req;
     Some (if r < 0 then - 1 else r, rep, k')}"

definition xib_umem_free_chunk ::
  "ioctl_env \<Rightarrow> umm_proc_ctx \<Rightarrow> kmm \<Rightarrow> u32 \<Rightarrow> (int \<times> umm_proc_ctx \<times> kmm) option" where
  "xib_umem_free_chunk e u k cid = do {
     (chunk, u1) \<leftarrow> get_chunk_info u cid;
     case chunk of
       None \<Rightarrow> Some (- EINVAL, u1, k)
     | Some p \<Rightarrow> do {
         c \<leftarrow> chunk_store u1 p;
         if is_chunk_in_use c then Some (- EFAULT, u1, k)
         else do {
           (ret, _, k') \<leftarrow> umm_ioctl e k XMM_FREE_OPC
             \<lparr>req_type = u_mem_type c, req_size = 0, req_chunk_ofs = 0, req_chunk_id = cid\<rparr>;
           if ret \<noteq> 0 then Some (ret, u1, k')
           else do {
             (ret', u2) \<leftarrow> delete_chunk u1 p;
             Some (ret', u2, k')}}}}"

text \<open>What the C library returns while a chunk is entered: the address \<open>calloc\<close> gives for the record
  (\<open>None\<close> for \<open>NULL\<close>), whether the bitmap could be allocated, and the address \<open>mmap\<close> gives (\<open>None\<close>
  for \<open>MAP_FAILED\<close>).\<close>

record table_env =
  calloc_chunk :: "ptr option"
  calloc_bmap_ok :: bool
  mmap_va :: "u64 option"

definition new_umem_chunk :: "xib_umem_ioctl_info \<Rightarrow> u64 \<Rightarrow> u32 \<Rightarrow> u64 \<Rightarrow> xib_umem_chunk" where
  "new_umem_chunk req bsz blks va =
     \<lparr>u_size = req_size req, free_mem_bytes = req_size req, blk_size = bsz,
      u_chunk_id = req_chunk_id req, u_mem_type = req_type req, free_blks = blks, u_base_va = va,
      u_base_pa = req_chunk_ofs req, bmap = replicate (unat (BITS_TO_INTS blks)) 0,
      max_blks = blks, next_chunk = None\<rparr>"

text \<open>The entry into the list (lines 234--242), under the lock.\<close>

definition append_chunk :: "umm_proc_ctx \<Rightarrow> nat \<Rightarrow> ptr \<Rightarrow> umm_proc_ctx option" where
  "append_chunk u t p = do {
     u1 \<leftarrow> umm_mutex_lock u;
     head \<leftarrow> nth_opt (chunk_heads u1) t;
     u2 \<leftarrow> (if head = None then Some (u1\<lparr>chunk_heads := (chunk_heads u1)[t := Some p]\<rparr>)
            else do {
              tail \<leftarrow> nth_opt (chunk_tails u1) t;
              q \<leftarrow> tail;
              d \<leftarrow> chunk_store u1 q;
              Some (u1\<lparr>chunk_store := (chunk_store u1)(q \<mapsto> d\<lparr>next_chunk := Some p\<rparr>)\<rparr>)});
     Some (umm_mutex_unlock (u2\<lparr>chunk_tails := (chunk_tails u2)[t := Some p]\<rparr>))}"

definition update_umem_table ::
  "table_env \<Rightarrow> umm_proc_ctx \<Rightarrow> xib_umem_ioctl_info \<Rightarrow> u64 \<Rightarrow> (int \<times> umm_proc_ctx) option" where
  "update_umem_table e u req bsz =
     (case calloc_chunk e of
        None \<Rightarrow> Some (- ENOMEM, u)
      | Some p \<Rightarrow> do {
          blks \<leftarrow> SIZE_TO_BLOCKS (req_size req) bsz;
          if \<not> calloc_bmap_ok e then Some (- ENOMEM, u)
          else do {
            stat \<leftarrow> umm_mem_accessible_status (Some u) (req_type req);
            case (if stat \<noteq> XMM_PROC_HAS_ACCESS then Some (req_chunk_ofs req) else mmap_va e) of
              None \<Rightarrow> Some (- EFAULT, u)
            | Some va \<Rightarrow> do {
                u' \<leftarrow> append_chunk
                  (u\<lparr>chunk_store := (chunk_store u)(p \<mapsto> new_umem_chunk req bsz blks va)\<rparr>)
                  (unat (req_type req)) p;
                Some (sint (req_chunk_id req), u')}}})"

definition request_memory ::
  "ioctl_env \<Rightarrow> table_env \<Rightarrow> umm_proc_ctx \<Rightarrow> kmm \<Rightarrow> u32 \<Rightarrow> u64 \<Rightarrow> u64 \<Rightarrow>
     (int \<times> umm_proc_ctx \<times> kmm) option" where
  "request_memory ie te u k memory_type bsz total_size = do {
     (ret, rep, k') \<leftarrow> umm_ioctl ie k XMM_ALLOC_OPC
       \<lparr>req_type = memory_type, req_size = total_size, req_chunk_ofs = 0, req_chunk_id = 0\<rparr>;
     if ret \<noteq> 0 then Some (ret, u, k')
     else (case rep of
             InfoReply req \<Rightarrow> do {
               (ret', u') \<leftarrow> update_umem_table te u req bsz;
               Some (ret', u', k')}
           | _ \<Rightarrow> None)}"

text \<open>\<open>total_size & ~(page_size - 1)\<close> is computed with a 32-bit mask, which is extended with zeros.\<close>

definition round_total :: "u64 \<Rightarrow> u64" where
  "round_total total_size =
     (if total_size AND 0xFFF \<noteq> 0
      then (total_size AND ucast (NOT (0xFFF :: u32))) + 0x1000 else total_size)"

definition xib_umem_alloc_chunk ::
  "ioctl_env \<Rightarrow> table_env \<Rightarrow> umm_proc_ctx option \<Rightarrow> kmm \<Rightarrow> u32 \<Rightarrow> u64 \<Rightarrow> u64 \<Rightarrow> bool \<Rightarrow>
     (int \<times> umm_proc_ctx option \<times> kmm) option" where
  "xib_umem_alloc_chunk ie te ctx k memory_type block_size total_size proc_access =
     (if block_size = 0 \<or> total_size = 0 then Some (- EINVAL, ctx, k)
      else if \<not> is_mem_type_valid memory_type then Some (- EINVAL, ctx, k)
      else do {
        ret \<leftarrow> umm_mem_accessible_status ctx memory_type;
        if ret = XMM_MEM_UNAVAILBLE then Some (- EINVAL, ctx, k)
        else if ret < 0 then Some (ret, ctx, k)
        else if proc_access \<and> ret = XMM_MEM_AVAILABLE then Some (- EINVAL, ctx, k)
        else do {
          u \<leftarrow> ctx;
          let total = round_total total_size;
          let bsz = (if total_size AND 0xFFF \<noteq> 0 \<and> total_size = block_size then total else block_size);
          (r, u', k') \<leftarrow> request_memory ie te u k memory_type bsz total;
          Some (r, Some u', k')}})"

subsection \<open>Blocks of a chunk\<close>

definition reserve_mem_blocks :: "xib_umem_chunk \<Rightarrow> u32 \<Rightarrow> (u32 \<times> xib_umem_chunk) option" where
  "reserve_mem_blocks c blk_cnt = do {
     bit_num \<leftarrow> find_zero_bits (bmap c) blk_cnt (max_blks c);
     if bit_num < max_blks c then do {
       m \<leftarrow> set_bit_map (Some (bmap c)) bit_num blk_cnt;
       ws \<leftarrow> m;
       Some (bit_num, c\<lparr>bmap := ws, free_mem_bytes := free_mem_bytes c - ucast blk_cnt * blk_size c,
                        free_blks := free_blks c - blk_cnt\<rparr>)}
     else Some (bit_num, c)}"

definition chunk_alloc :: "xib_umem_chunk \<Rightarrow> u64 \<Rightarrow> (u64 \<times> xib_umem_chunk) option" where
  "chunk_alloc c sz = do {
     blk_cnt \<leftarrow> SIZE_TO_BLOCKS sz (blk_size c);
     if \<not> chunk_has_mem c blk_cnt then Some (0, c)
     else do {
       (blk_num, c') \<leftarrow> reserve_mem_blocks c blk_cnt;
       if blk_num \<ge> max_blks c then Some (0, c')
       else Some (u_base_va c + ucast blk_num * blk_size c, c')}}"

text \<open>\<open>xib_umem_alloc_mem\<close>: the chunk is looked up, then changed under the lock.\<close>

definition xib_umem_alloc_mem ::
  "umm_proc_ctx \<Rightarrow> u32 \<Rightarrow> u64 \<Rightarrow> (u64 \<times> umm_proc_ctx) option" where
  "xib_umem_alloc_mem u cid sz =
     (if sz = 0 then Some (word_of_int (- EINVAL), u)
      else do {
        (chunk, u1) \<leftarrow> get_chunk_info u cid;
        case chunk of
          None \<Rightarrow> Some (0, u1)
        | Some p \<Rightarrow> do {
            u2 \<leftarrow> umm_mutex_lock u1;
            c \<leftarrow> chunk_store u2 p;
            (va, c') \<leftarrow> chunk_alloc c sz;
            Some (va, umm_mutex_unlock (u2\<lparr>chunk_store := (chunk_store u2)(p \<mapsto> c')\<rparr>))}})"

definition chunk_free :: "xib_umem_chunk \<Rightarrow> u64 \<Rightarrow> u64 \<Rightarrow> xib_umem_chunk option" where
  "chunk_free c uva sz = do {
     blk_cnt \<leftarrow> SIZE_TO_BLOCKS sz (blk_size c);
     blk_num \<leftarrow> get_blk_num c uva;
     m \<leftarrow> clear_bit_map (Some (bmap c)) blk_num blk_cnt;
     ws \<leftarrow> m;
     Some (c\<lparr>bmap := ws, free_mem_bytes := free_mem_bytes c + ucast blk_cnt * blk_size c,
             free_blks := free_blks c + blk_cnt\<rparr>)}"

definition xib_umem_free_mem ::
  "umm_proc_ctx \<Rightarrow> u32 \<Rightarrow> u64 \<Rightarrow> u64 \<Rightarrow> (int \<times> umm_proc_ctx) option" where
  "xib_umem_free_mem u cid uva sz = do {
     (chunk, u1) \<leftarrow> get_chunk_info u cid;
     case chunk of
       None \<Rightarrow> Some (- EINVAL, u1)
     | Some p \<Rightarrow> do {
         c \<leftarrow> chunk_store u1 p;
         if \<not> is_vaddr_within_range c uva (ucast sz) then Some (- EINVAL, u1)
         else do {
           u2 \<leftarrow> umm_mutex_lock u1;
           c' \<leftarrow> chunk_free c uva sz;
           Some (0, umm_mutex_unlock (u2\<lparr>chunk_store := (chunk_store u2)(p \<mapsto> c')\<rparr>))}}}"

subsection \<open>The context of a process\<close>

record xib_umem_ctx_info =
  i_max_qp_per_app :: u32
  i_rq_buffer_size :: u32
  i_rq_depth :: u32
  i_sq_depth :: u32

text \<open>\<open>!info->sq_depth < XMEM_DEF_SQ_DEPTH\<close> compares the negation, 0 or 1, with 16.\<close>

definition update_req_data :: "xib_umem_ctx_info \<Rightarrow> xib_umem_ctx_info" where
  "update_req_data i0 =
     (let i1 = (if i_max_qp_per_app i0 = 0 then i0\<lparr>i_max_qp_per_app := 10\<rparr> else i0);
          i2 = (if i_rq_buffer_size i1 < 256 then i1\<lparr>i_rq_buffer_size := 256\<rparr> else i1);
          i3 = (if i_rq_depth i2 < 16 then i2\<lparr>i_rq_depth := 16\<rparr> else i2);
          neg = (if i_sq_depth i3 = 0 then 1 else 0 :: int)
      in if neg < 16 then i3\<lparr>i_sq_depth := 16\<rparr> else i3)"

text \<open>\<open>get_mem_alloc_type\<close>: the environment is a function from names to values.\<close>

definition get_mem_alloc_type :: "(string \<Rightarrow> string option) \<Rightarrow> string \<Rightarrow> int" where
  "get_mem_alloc_type getenv queue =
     (case getenv (''XMM_'' @ queue @ ''_TYPE'') of
        None \<Rightarrow> - EFAULT
      | Some env \<Rightarrow>
          if strcaseeq env ''PL'' then uint XMEM_PL_DDR
          else if strcaseeq env ''PS'' then uint XMEM_PS_DDR
          else if strcaseeq env ''EDDR'' then uint XMEM_EXT_DDR
          else if strcaseeq env ''BRAM'' then uint XMEM_BRAM
          else if strcaseeq env ''PCI_DDR'' then uint XMEM_PCI_DDR
          else - EFAULT)"

text \<open>The strings of \<open>umm_export.h\<close>.\<close>

definition xib_mem_str_to_mem_type :: "string option \<Rightarrow> int" where
  "xib_mem_str_to_mem_type str =
     (case str of
        None \<Rightarrow> - EINVAL
      | Some s \<Rightarrow>
          if strcaseeq s ''ps'' then uint XMEM_PS_DDR
          else if strcaseeq s ''pl'' then uint XMEM_PL_DDR
          else if strcaseeq s ''bram'' then uint XMEM_BRAM
          else if strcaseeq s ''eddr'' then uint XMEM_EXT_DDR
          else - EINVAL)"

text \<open>One queue of \<open>alloc_queues\<close>: the memory type as an \<open>unsigned int\<close> (the test \<open>mem_type < 0\<close> that
  follows it is never true), the size rounded up to pages, and the chunk.  \<open>Inl\<close> is the failure of
  the access test, \<open>Inr\<close> the result of \<open>xib_umem_alloc_chunk\<close>.\<close>

definition queue_size :: "u32 \<Rightarrow> u32 \<Rightarrow> u32" where
  "queue_size per_qp n =
     (let alloc_size = per_qp * n; rest = alloc_size AND 0xFFF
      in if rest \<noteq> 0 then alloc_size + (0x1000 - rest) else alloc_size)"

definition alloc_queue ::
  "(string \<Rightarrow> string option) \<Rightarrow> ioctl_env \<Rightarrow> table_env \<Rightarrow> string \<Rightarrow> u32 \<Rightarrow> u32 \<Rightarrow>
     umm_proc_ctx \<Rightarrow> kmm \<Rightarrow> ((unit + int) \<times> umm_proc_ctx \<times> kmm) option" where
  "alloc_queue getenv ie te queue blk per_qp u k = do {
     let mt = (word_of_int (get_mem_alloc_type getenv queue) :: u32);
     stat \<leftarrow> umm_mem_accessible_status (Some u) mt;
     if stat \<noteq> XMM_PROC_HAS_ACCESS then Some (Inl (), u, k)
     else do {
       (cid, ctx, k') \<leftarrow> xib_umem_alloc_chunk ie te (Some u) k mt (ucast blk)
         (ucast (queue_size per_qp (max_qp u))) True;
       u' \<leftarrow> ctx;
       Some (Inr cid, u', k')}}"

record queues_env =
  q_getenv :: "string \<Rightarrow> string option"
  sq_ie :: ioctl_env
  sq_te :: table_env
  cq_ie :: ioctl_env
  cq_te :: table_env
  rq_ie :: ioctl_env
  rq_te :: table_env
  free1_ie :: ioctl_env
  free2_ie :: ioctl_env

text \<open>The two error labels: \<open>cq_alloc_error\<close> frees the send queue's chunk and falls through to
  \<open>rq_alloc_error\<close>, which frees the completion queue's.\<close>

definition rq_alloc_error ::
  "queues_env \<Rightarrow> umm_proc_ctx \<Rightarrow> kmm \<Rightarrow> (int \<times> umm_proc_ctx \<times> kmm) option" where
  "rq_alloc_error e u k = do {
     (_, u', k') \<leftarrow> xib_umem_free_chunk (free2_ie e) u k (word_of_int (cq_chunk_id (resp u)));
     Some (- EFAULT, u', k')}"

definition cq_alloc_error ::
  "queues_env \<Rightarrow> umm_proc_ctx \<Rightarrow> kmm \<Rightarrow> (int \<times> umm_proc_ctx \<times> kmm) option" where
  "cq_alloc_error e u k = do {
     (_, u', k') \<leftarrow> xib_umem_free_chunk (free1_ie e) u k (word_of_int (sq_chunk_id (resp u)));
     rq_alloc_error e u' k'}"

definition alloc_queues ::
  "queues_env \<Rightarrow> umm_proc_ctx \<Rightarrow> kmm \<Rightarrow> (int \<times> umm_proc_ctx \<times> kmm) option" where
  "alloc_queues e u k = do {
     (sq, u1, k1) \<leftarrow> alloc_queue (q_getenv e) (sq_ie e) (sq_te e) ''SQ'' 0x1000 (sq_depth u * 64) u k;
     case sq of
       Inl _ \<Rightarrow> Some (- EFAULT, u1, k1)
     | Inr sq_id \<Rightarrow>
         if sq_id < 0 then Some (- ENOMEM, u1, k1)
         else do {
           let u2 = u1\<lparr>resp := (resp u1)\<lparr>sq_chunk_id := sq_id\<rparr>\<rparr>;
           (cq, u3, k3) \<leftarrow> alloc_queue (q_getenv e) (cq_ie e) (cq_te e) ''CQ'' (sq_depth u * 4)
             (sq_depth u * 4) u2 k1;
           case cq of
             Inl _ \<Rightarrow> cq_alloc_error e u3 k3
           | Inr cq_id \<Rightarrow>
               if cq_id < 0 then cq_alloc_error e u3 k3
               else do {
                 let u4 = u3\<lparr>resp := (resp u3)\<lparr>cq_chunk_id := cq_id\<rparr>\<rparr>;
                 (rq, u5, k5) \<leftarrow> alloc_queue (q_getenv e) (rq_ie e) (rq_te e) ''RQ'' 0x1000
                   (rq_depth u * rq_buffer_size u) u4 k3;
                 case rq of
                   Inl _ \<Rightarrow> rq_alloc_error e u5 k5
                 | Inr rq_id \<Rightarrow>
                     if rq_id < 0 then rq_alloc_error e u5 k5
                     else Some (0, u5\<lparr>resp := (resp u5)\<lparr>rq_chunk_id := rq_id\<rparr>\<rparr>, k5)}}}"

text \<open>The global \<open>umm_ctx\<close>: \<open>NULL\<close>, a live context, or a pointer to memory that was freed.\<close>

datatype umm_ctx_ptr = UmmNull | UmmLive umm_proc_ctx | UmmFreed

text \<open>The pointer \<open>xib_umem_create_context\<close> returns: \<open>NULL\<close>, the response of the live context, or a
  pointer into the freed one.\<close>

datatype create_result = RespNull | RespOf umm_resp | RespFreed

record create_env =
  open_ok :: bool
  calloc_ctx_ok :: bool
  support_ie :: ioctl_env
  queues :: queues_env

definition empty_ctx :: "xib_umem_ctx_info \<Rightarrow> umm_proc_ctx" where
  "empty_ctx i =
     \<lparr>max_qp = i_max_qp_per_app i, max_qp_per_app = i_max_qp_per_app i,
      rq_buffer_size = i_rq_buffer_size i, rq_depth = i_rq_depth i, sq_depth = i_sq_depth i,
      chunk_heads = replicate (unat XMEM_MAX_MEM_TYPES) None,
      chunk_tails = replicate (unat XMEM_MAX_MEM_TYPES) None,
      resp = \<lparr>sq_chunk_id = 0, cq_chunk_id = 0, rq_chunk_id = 0\<rparr>,
      mem_types = 0, proc_access_types = 0, umm_lock = False, chunk_store = (\<lambda>_. None)\<rparr>"

definition xib_get_supported_mem_info ::
  "ioctl_env \<Rightarrow> umm_proc_ctx \<Rightarrow> kmm \<Rightarrow> (int \<times> umm_proc_ctx \<times> kmm) option" where
  "xib_get_supported_mem_info e u k = do {
     (ret, rep, k') \<leftarrow> umm_ioctl e k XMM_SUPPORT_OPC
       \<lparr>req_type = 0, req_size = 0, req_chunk_ofs = 0, req_chunk_id = 0\<rparr>;
     if ret \<noteq> 0 then Some (ret, u\<lparr>mem_types := 0, proc_access_types := 0\<rparr>, k')
     else (case rep of
             SupportReply stypes atypes \<Rightarrow> Some (0, u\<lparr>mem_types := stypes, proc_access_types := atypes\<rparr>, k')
           | _ \<Rightarrow> None)}"

text \<open>Opening and closing the device file are \<open>xib_open\<close> and \<open>xib_close\<close> of the kernel manager.  The
  caller's \<open>umm_info\<close> is updated with the defaults after its values were copied.\<close>

definition xib_umem_create_context ::
  "create_env \<Rightarrow> umm_ctx_ptr \<Rightarrow> kmm \<Rightarrow> xib_umem_ctx_info option \<Rightarrow>
     (create_result \<times> umm_ctx_ptr \<times> kmm \<times> xib_umem_ctx_info option) option" where
  "xib_umem_create_context e ctx k info =
     (case ctx of
        UmmLive u \<Rightarrow> Some (RespOf (resp u), ctx, k, info)
      | UmmFreed \<Rightarrow> Some (RespFreed, ctx, k, info)
      | UmmNull \<Rightarrow>
          (case info of
             None \<Rightarrow> Some (RespNull, UmmNull, k, None)
           | Some i \<Rightarrow>
               if \<not> open_ok e then Some (RespNull, UmmNull, k, info)
               else let k1 = snd (xib_open k) in
               if \<not> calloc_ctx_ok e then do {
                 (_, k2) \<leftarrow> xib_close k1;
                 Some (RespNull, UmmNull, k2, info)}
               else do {
                 let i' = update_req_data i;
                 (_, u1, k2) \<leftarrow> xib_get_supported_mem_info (support_ie e) (empty_ctx i) k1;
                 (ret, u2, k3) \<leftarrow> alloc_queues (queues e) u1 k2;
                 if ret \<noteq> 0 then do {
                   (_, k4) \<leftarrow> xib_close k3;
                   Some (RespNull, UmmFreed, k4, Some i')}
                 else Some (RespOf (resp u2), UmmLive u2, k3, Some i')}))"

text \<open>\<open>xib_umem_delete_context\<close>: the loops over the types from 1 on and over the chunks of a type, with
  the mutex held.  One turn frees the three queues and steps to \<open>chunk->next\<close>.\<close>

definition delete_turn ::
  "ioctl_env \<Rightarrow> umm_proc_ctx \<times> kmm \<Rightarrow> (umm_proc_ctx \<times> kmm) option" where
  "delete_turn e uk = do {
     let (u, k) = uk;
     (_, u1, k1) \<leftarrow> xib_umem_free_chunk e u k (word_of_int (sq_chunk_id (resp u)));
     (_, u2, k2) \<leftarrow> xib_umem_free_chunk e u1 k1 (word_of_int (rq_chunk_id (resp u1)));
     (_, u3, k3) \<leftarrow> xib_umem_free_chunk e u2 k2 (word_of_int (cq_chunk_id (resp u2)));
     Some (u3, k3)}"

text \<open>The result \<open>Inl\<close> is the jump to \<open>fail\<close>.\<close>

partial_function (option) delete_chunks ::
  "(umm_proc_ctx \<times> kmm \<Rightarrow> (umm_proc_ctx \<times> kmm) option) \<Rightarrow> umm_proc_ctx \<times> kmm \<Rightarrow> ptr option \<Rightarrow>
     ((umm_proc_ctx \<times> kmm) + (umm_proc_ctx \<times> kmm)) option" where
  "delete_chunks turn uk chunk =
     (case chunk of
        None \<Rightarrow> Some (Inr uk)
      | Some p \<Rightarrow> do {
          c \<leftarrow> chunk_store (fst uk) p;
          if is_chunk_in_use c then Some (Inl uk)
          else do {
            uk' \<leftarrow> turn uk;
            c' \<leftarrow> chunk_store (fst uk') p;
            delete_chunks turn uk' (next_chunk c')}})"

fun delete_types ::
  "ioctl_env \<Rightarrow> nat list \<Rightarrow> umm_proc_ctx \<times> kmm \<Rightarrow> (umm_proc_ctx \<times> kmm) option" where
  "delete_types e [] uk = Some uk"
| "delete_types e (t # ts) uk = do {
     head \<leftarrow> nth_opt (chunk_heads (fst uk)) t;
     r \<leftarrow> delete_chunks (delete_turn e) uk head;
     case r of Inl uk' \<Rightarrow> Some uk' | Inr uk' \<Rightarrow> delete_types e ts uk'}"

definition xib_umem_delete_context ::
  "ioctl_env \<Rightarrow> umm_proc_ctx \<Rightarrow> kmm \<Rightarrow> (umm_proc_ctx \<times> kmm) option" where
  "xib_umem_delete_context e u k = do {
     u1 \<leftarrow> umm_mutex_lock u;
     (u2, k2) \<leftarrow> delete_types e [1..<unat XMEM_MAX_MEM_TYPES] (u1, k);
     Some (umm_mutex_unlock u2, k2)}"

subsection \<open>The linked lists implement lists\<close>

text \<open>\<open>chunk_path h x ps\<close>: following \<open>next\<close> from \<open>x\<close> visits the records \<open>ps\<close> and ends.\<close>

fun chunk_path :: "chunk_heap \<Rightarrow> ptr option \<Rightarrow> ptr list \<Rightarrow> bool" where
  "chunk_path h x [] = (x = None)"
| "chunk_path h x (p # ps) =
     (x = Some p \<and> (case h p of None \<Rightarrow> False | Some c \<Rightarrow> chunk_path h (next_chunk c) ps))"

definition last_ptr :: "ptr list \<Rightarrow> ptr option" where
  "last_ptr ps = (if ps = [] then None else Some (last ps))"

text \<open>The table refines six lists of records: heads and tail pointers agree with them, no record is
  on two lists, and the lock is free.\<close>

definition umm_ok :: "umm_proc_ctx \<Rightarrow> ptr list list \<Rightarrow> bool" where
  "umm_ok u ls \<longleftrightarrow>
     \<not> umm_lock u \<and> length ls = 6 \<and> distinct (concat ls) \<and>
     chunk_tails u = map last_ptr ls \<and> length (chunk_heads u) = 6 \<and>
     (\<forall>t < 6. chunk_path (chunk_store u) (chunk_heads u ! t) (ls ! t))"

definition ids_match :: "chunk_heap \<Rightarrow> u32 \<Rightarrow> ptr \<Rightarrow> bool" where
  "ids_match h cid p = (case h p of None \<Rightarrow> False | Some c \<Rightarrow> u_chunk_id c = cid)"

lemma chunk_path_upd [simp]:
  "q \<notin> set ps \<Longrightarrow> chunk_path (h(q := v)) x ps = chunk_path h x ps"
  by (induction ps arbitrary: x) (auto split: option.split)

lemma chunk_path_mem: "chunk_path h x ps \<Longrightarrow> p \<in> set ps \<Longrightarrow> \<exists>c. h p = Some c"
  by (induction ps arbitrary: x) (auto split: option.splits)

lemma chunk_walk_None [simp]: "chunk_walk h None cid = Some None"
  by (subst chunk_walk.simps) simp

lemma chunk_walk_Some [simp]:
  "h p = Some c \<Longrightarrow> chunk_walk h (Some p) cid =
     (if u_chunk_id c = cid then Some (Some p) else chunk_walk h (next_chunk c) cid)"
  by (subst chunk_walk.simps) simp

lemma delete_walk_Some [simp]:
  "h p = Some c \<Longrightarrow> delete_walk h (Some p) prev cid =
     (if u_chunk_id c = cid then Some (Some p, prev) else delete_walk h (next_chunk c) (Some p) cid)"
  by (subst delete_walk.simps) simp

lemma chunk_walk_path:
  "chunk_path h x ps \<Longrightarrow> chunk_walk h x cid = Some (find (ids_match h cid) ps)"
  by (induction ps arbitrary: x) (auto simp: ids_match_def split: option.splits)

lemma delete_walk_path:
  assumes "chunk_path h x (ps @ p # qs)" "ids_match h cid p" "\<forall>q \<in> set ps. \<not> ids_match h cid q"
  shows "delete_walk h x prev cid = Some (Some p, if ps = [] then prev else Some (last ps))"
  using assms
  by (induction ps arbitrary: x prev) (auto simp: ids_match_def split: option.splits)

lemma distinct_concat_nth: "distinct (concat ls) \<Longrightarrow> t < length ls \<Longrightarrow> distinct (ls ! t)"
  by (auto simp: distinct_concat_iff)

lemma distinct_concat_disjoint:
  assumes "distinct (concat ls)" "i < length ls" "t < length ls" "i \<noteq> t" "q \<in> set (ls ! t)"
  shows "q \<notin> set (ls ! i)"
  using assms
proof (induction ls arbitrary: i t)
  case (Cons l ls)
  have sub: "x \<in> set (concat ls)" if "x \<in> set (ls ! m)" "m < length ls" for x m
    using that by (auto intro: bexI [of _ "ls ! m"])
  have d: "x \<in> set l \<Longrightarrow> x \<notin> set (concat ls)" for x using Cons.prems(1) by auto
  show ?case
  proof (cases i)
    case 0
    with Cons.prems obtain m where "t = Suc m" by (cases t) auto
    with Cons.prems have "q \<in> set (concat ls)" by (intro sub) auto
    with d show ?thesis using 0 by auto
  next
    case (Suc j)
    show ?thesis
    proof (cases t)
      case 0
      then show ?thesis using Cons.prems d [of q] sub [of q j] Suc by auto
    next
      case (Suc m)
      then show ?thesis using Cons \<open>i = Suc j\<close> by simp
    qed
  qed
qed simp

lemma distinct_concat_snoc:
  assumes "distinct (concat ls)" "t < length ls" "p \<notin> set (concat ls)"
  shows "distinct (concat (ls[t := ls ! t @ [p]]))"
proof -
  have "concat (ls[t := ls ! t @ [p]]) = concat (take t ls) @ (ls ! t @ [p]) @ concat (drop (Suc t) ls)"
    using assms(2) by (simp add: upd_conv_take_nth_drop)
  moreover have "concat ls = concat (take t ls) @ ls ! t @ concat (drop (Suc t) ls)"
    using arg_cong [OF id_take_nth_drop [OF assms(2)], of concat]
    by (simp only: concat_append concat.simps)
  ultimately show ?thesis using assms(1,3) by auto
qed

lemma chunk_path_snoc:
  assumes "chunk_path h x (ps @ [q])" "distinct (ps @ [q, p])" "h q = Some d" "h p = Some c"
    "next_chunk c = None"
  shows "chunk_path (h(q \<mapsto> d\<lparr>next_chunk := Some p\<rparr>)) x (ps @ [q, p])"
  using assms by (induction ps arbitrary: x) (auto split: option.splits)

lemma chunk_path_unlink:
  assumes "chunk_path h x (ps @ q # p # qs)" "distinct (ps @ q # p # qs)" "h p = Some c" "h q = Some d"
  shows "chunk_path (h(q \<mapsto> d\<lparr>next_chunk := next_chunk c\<rparr>)) x (ps @ q # qs)"
  using assms by (induction ps arbitrary: x) (auto split: option.splits)

lemma append_chunk_refines:
  assumes ok: "umm_ok u ls" and t: "t < 6" and p: "chunk_store u p = Some c" "next_chunk c = None"
    "p \<notin> set (concat ls)"
  shows "\<exists>u'. append_chunk u t p = Some u' \<and> umm_ok u' (ls[t := ls ! t @ [p]]) \<and>
    (\<forall>q. q \<notin> set (ls ! t) \<longrightarrow> chunk_store u' q = chunk_store u q)"
proof -
  let ?ls = "ls[t := ls ! t @ [p]]"
  have len: "length ls = 6" "length (chunk_heads u) = 6" and path: "chunk_path (chunk_store u) (chunk_heads u ! t) (ls ! t)"
    and tails: "chunk_tails u = map last_ptr ls" and dist: "distinct (concat ls)"
    using ok t by (auto simp: umm_ok_def)
  have dp: "distinct (concat ?ls)" using dist p(3) t len(1) by (intro distinct_concat_snoc) auto
  have pt: "p \<notin> set (ls ! i)" if "i < 6" for i using p(3) that len(1) by auto
  have tl': "(chunk_tails u)[t := Some p] = map last_ptr ?ls"
    using tails t len(1) by (simp add: map_update last_ptr_def)
  have lockf: "\<not> umm_lock u" using ok by (simp add: umm_ok_def)
  show ?thesis
  proof (cases "ls ! t")
    case Nil
    then have h: "chunk_heads u ! t = None" using path by simp
    let ?u = "umm_mutex_unlock (u\<lparr>umm_lock := True, chunk_heads := (chunk_heads u)[t := Some p],
      chunk_tails := (chunk_tails u)[t := Some p]\<rparr>)"
    have a: "append_chunk u t p = Some ?u"
      using h lockf t len by (simp add: append_chunk_def umm_mutex_lock_def nth_opt_def)
    have "umm_ok ?u ?ls"
      using ok t len dp tl' Nil p
      by (auto simp: umm_ok_def umm_mutex_unlock_def nth_list_update)
    with a show ?thesis by (auto simp: umm_mutex_unlock_def)
  next
    case (Cons a as)
    then obtain ps q where pq: "ls ! t = ps @ [q]" by (metis list.discI rev_exhaust)
    then obtain d where d: "chunk_store u q = Some d" using chunk_path_mem [OF path] by auto
    have h: "chunk_heads u ! t \<noteq> None" using path Cons by auto
    have tail: "chunk_tails u ! t = Some q" using tails t len(1) pq by (simp add: last_ptr_def)
    let ?u = "umm_mutex_unlock (u\<lparr>umm_lock := True,
      chunk_store := (chunk_store u)(q \<mapsto> d\<lparr>next_chunk := Some p\<rparr>),
      chunk_tails := (chunk_tails u)[t := Some p]\<rparr>)"
    have a: "append_chunk u t p = Some ?u"
      using h lockf t len tails tail d by (auto simp: append_chunk_def umm_mutex_lock_def nth_opt_def)
    have "distinct (ps @ [q, p])" using distinct_concat_nth [OF dp, of t] t len(1) pq by simp
    then have new: "chunk_path ((chunk_store u)(q \<mapsto> d\<lparr>next_chunk := Some p\<rparr>)) (chunk_heads u ! t) (ls ! t @ [p])"
      using chunk_path_snoc [OF path [unfolded pq] _ d p(1,2)] pq by simp
    have other: "q \<notin> set (ls ! i)" if "i < 6" "i \<noteq> t" for i
      using distinct_concat_disjoint [OF dist, of i t q] that t len(1) pq by auto
    have "umm_ok ?u ?ls"
      using ok t len dp tl' new other
      by (auto simp: umm_ok_def umm_mutex_unlock_def nth_list_update)
    with a pq show ?thesis by (auto simp: umm_mutex_unlock_def)
  qed
qed

lemma distinct_concat_drop:
  assumes "distinct (concat ls)" "t < length ls" "ls ! t = xs @ p # ys"
  shows "distinct (concat (ls[t := xs @ ys])) \<and> p \<notin> set (concat (ls[t := xs @ ys]))"
proof -
  have "concat (ls[t := xs @ ys]) = concat (take t ls) @ (xs @ ys) @ concat (drop (Suc t) ls)"
    using assms(2) by (simp add: upd_conv_take_nth_drop)
  moreover have "concat ls = concat (take t ls) @ (xs @ p # ys) @ concat (drop (Suc t) ls)"
    using arg_cong [OF id_take_nth_drop [OF assms(2)], of concat] assms(3)
    by (simp only: concat_append concat.simps)
  ultimately show ?thesis using assms(1) by auto
qed

lemma unlink_chunk_refines:
  assumes ok: "umm_ok u ls" and t: "t < 6" and split: "ls ! t = xs @ p # ys"
    and c: "chunk_store u p = Some c"
    and prev: "prev = last_ptr xs"
  shows "\<exists>u'. unlink_chunk (u\<lparr>umm_lock := True\<rparr>) t p prev = Some u' \<and>
    umm_ok (umm_mutex_unlock (u'\<lparr>chunk_store := (chunk_store u')(p := None)\<rparr>)) (ls[t := xs @ ys])"
proof -
  let ?ls = "ls[t := xs @ ys]"
  have len: "length ls = 6" "length (chunk_heads u) = 6" and path: "chunk_path (chunk_store u) (chunk_heads u ! t) (xs @ p # ys)"
    and tails: "chunk_tails u = map last_ptr ls" and dist: "distinct (concat ls)"
    using ok t split by (auto simp: umm_ok_def)
  have dp: "distinct (concat ?ls)" "p \<notin> set (concat ?ls)"
    using distinct_concat_drop [OF dist _ split] t len(1) by auto
  have dt: "distinct (xs @ p # ys)" using distinct_concat_nth [OF dist, of t] t len(1) split by simp
  have pn: "p \<notin> set (?ls ! i)" if "i < 6" for i using dp(2) that len(1) by auto
  have tail: "chunk_tails u ! t = Some (last (p # ys))"
    using tails t len(1) split by (simp add: last_ptr_def)
  have tl': "(if chunk_tails u ! t = Some p then (chunk_tails u)[t := last_ptr xs] else chunk_tails u) =
      map last_ptr ?ls"
  proof (cases "ys = []")
    case True
    then show ?thesis using tail tails t len(1) by (simp add: map_update)
  next
    case False
    then have "last ys \<noteq> p" "last_ptr (xs @ ys) = last_ptr (ls ! t)"
      using dt split by (auto simp: last_ptr_def)
    then show ?thesis using False tail tails t len(1)
      by (auto simp: map_update nth_list_update intro!: nth_equalityI)
  qed
  show ?thesis
  proof (cases "xs = []")
    case True
    have h: "chunk_heads u ! t = Some p" "chunk_path (chunk_store u) (next_chunk c) ys"
      using path True c by auto
    have ny: "next_chunk c = None \<longleftrightarrow> ys = []" using h(2) by (cases ys) auto
    let ?u = "u\<lparr>umm_lock := True, chunk_heads := (chunk_heads u)[t := next_chunk c],
      chunk_tails := map last_ptr ?ls\<rparr>"
    have "unlink_chunk (u\<lparr>umm_lock := True\<rparr>) t p prev = Some ?u"
      using h c t len prev True tl' tails ny tail
      by (auto simp: unlink_chunk_def nth_opt_def last_ptr_def Let_def)
    moreover have "umm_ok (umm_mutex_unlock (?u\<lparr>chunk_store := (chunk_store ?u)(p := None)\<rparr>)) ?ls"
      using ok t len dp h(2) True pn
      by (auto simp: umm_ok_def umm_mutex_unlock_def nth_list_update)
    ultimately show ?thesis by blast
  next
    case False
    then obtain vs q where q: "xs = vs @ [q]" by (metis rev_exhaust)
    then obtain d where d: "chunk_store u q = Some d" using chunk_path_mem [OF path] by auto
    have h: "chunk_heads u ! t \<noteq> Some p" using path dt False by (cases xs) auto
    let ?h = "(chunk_store u)(q \<mapsto> d\<lparr>next_chunk := next_chunk c\<rparr>)"
    let ?u = "u\<lparr>umm_lock := True, chunk_store := ?h, chunk_tails := map last_ptr ?ls\<rparr>"
    have "unlink_chunk (u\<lparr>umm_lock := True\<rparr>) t p prev = Some ?u"
      using h c d t len prev q tl' tails tail
      by (auto simp: unlink_chunk_def nth_opt_def last_ptr_def)
    moreover have new: "chunk_path ?h (chunk_heads u ! t) (xs @ ys)"
      using chunk_path_unlink [of "chunk_store u" "chunk_heads u ! t" vs q p ys c d] path dt c d q by simp
    moreover have other: "q \<notin> set (ls ! i)" if "i < 6" "i \<noteq> t" for i
      using distinct_concat_disjoint [OF dist, of i t q] that t len(1) split q by auto
    have "umm_ok (umm_mutex_unlock (?u\<lparr>chunk_store := (chunk_store ?u)(p := None)\<rparr>)) ?ls"
      using ok t len dp new other pn
      by (auto simp: umm_ok_def umm_mutex_unlock_def nth_list_update)
    ultimately show ?thesis by blast
  qed
qed

lemma update_umem_table_refines:
  assumes "umm_ok u ls" "calloc_chunk e = Some p" "p \<notin> set (concat ls)" "calloc_bmap_ok e"
    and "bsz \<noteq> 0" "unat (req_type req) < 6" "mmap_va e = Some va"
  shows "\<exists>u' c. update_umem_table e u req bsz = Some (sint (req_chunk_id req), u') \<and>
    umm_ok u' (ls[unat (req_type req) := ls ! unat (req_type req) @ [p]]) \<and>
    chunk_store u' p = Some c \<and> u_chunk_id c = req_chunk_id req \<and> u_base_pa c = req_chunk_ofs req \<and>
    free_blks c = max_blks c \<and> (\<forall>k. \<not> bit_at (bmap c) k)"
proof -
  let ?t = "unat (req_type req)"
  let ?blks = "ucast ((req_size req + bsz - 1) div bsz) :: u32"
  have sh: "shl1 (req_type req) = Some (push_bit ?t 1)"
    using assms(6) by (simp add: shl1_def word_less_nat_alt)
  obtain stat where stat: "umm_mem_accessible_status (Some u) (req_type req) = Some stat"
    by (simp add: umm_mem_accessible_status_def umm_memory_available_def sh)
  define v where "v = (if stat \<noteq> XMM_PROC_HAS_ACCESS then req_chunk_ofs req else va)"
  let ?c = "new_umem_chunk req bsz ?blks v"
  let ?u = "u\<lparr>chunk_store := (chunk_store u)(p \<mapsto> ?c)\<rparr>"
  have pn: "p \<notin> set (ls ! i)" if "i < 6" for i using assms(1,3) that by (auto simp: umm_ok_def)
  then have ok: "umm_ok ?u ls" using assms(1) by (auto simp: umm_ok_def)
  obtain u' where u': "append_chunk ?u ?t p = Some u'" "umm_ok u' (ls[?t := ls ! ?t @ [p]])"
      "chunk_store u' p = Some ?c"
    using append_chunk_refines [OF ok assms(6), of p ?c] assms(3) pn [OF assms(6)]
    by (auto simp: new_umem_chunk_def)
  have "update_umem_table e u req bsz = Some (sint (req_chunk_id req), u')"
    using assms(2,4,5,7) stat u'(1)
    by (cases "stat = XMM_PROC_HAS_ACCESS")
      (simp_all add: update_umem_table_def SIZE_TO_BLOCKS_def v_def)
  moreover have "u_chunk_id ?c = req_chunk_id req" "u_base_pa ?c = req_chunk_ofs req"
      "free_blks ?c = max_blks ?c" "\<forall>k. \<not> bit_at (bmap ?c) k"
    by (auto simp: new_umem_chunk_def bit_at_def)
  ultimately show ?thesis using u'(2,3) by blast
qed

text \<open>entering a chunk implements appending to the list of its type: \<open>update_umem_table\<close> returns the
  chunk's id, the tail pointers stay right, and the new record is the last of its list with all
  blocks free.\<close>

theorem update_umem_table_appends:
  assumes "umm_ok u ls" "calloc_chunk e = Some p" "p \<notin> set (concat ls)" "calloc_bmap_ok e"
    and "bsz \<noteq> 0" "unat (req_type req) < 6" "mmap_va e = Some va"
  shows "\<exists>u' c. update_umem_table e u req bsz = Some (sint (req_chunk_id req), u') \<and>
    umm_ok u' (ls[unat (req_type req) := ls ! unat (req_type req) @ [p]]) \<and>
    chunk_store u' p = Some c \<and> u_chunk_id c = req_chunk_id req \<and> u_base_pa c = req_chunk_ofs req \<and>
    free_blks c = max_blks c \<and> (\<forall>k. \<not> bit_at (bmap c) k)"
  using assms by (rule update_umem_table_refines)

text \<open>\<open>delete_chunk\<close> implements removal from the list: the chunk's record is freed, heads and tail
  pointers stay right, and the other chunks keep their order.\<close>

theorem delete_chunk_removes:
  assumes "umm_ok u ls" "t < 6" "ls ! t = xs @ p # ys"
    and "chunk_store u p = Some c" "unat (get_mem_type (u_chunk_id c)) = t"
    and "\<forall>q \<in> set xs. \<not> ids_match (chunk_store u) (u_chunk_id c) q"
  shows "\<exists>u'. delete_chunk u p = Some (0, u') \<and> umm_ok u' (ls[t := xs @ ys]) \<and> chunk_store u' p = None"
proof -
  have path: "chunk_path (chunk_store u) (chunk_heads u ! t) (xs @ p # ys)"
    and len: "length (chunk_heads u) = 6" and l: "\<not> umm_lock u"
    using assms(1-3) by (auto simp: umm_ok_def)
  have walk: "delete_walk (chunk_store u) (chunk_heads u ! t) None (u_chunk_id c) = Some (Some p, last_ptr xs)"
    using delete_walk_path [OF path _ assms(6), of None] assms(4)
    by (simp add: ids_match_def last_ptr_def)
  have valid: "is_mem_type_valid (get_mem_type (u_chunk_id c))"
    using assms(2,5) by (simp add: is_mem_type_valid_def mem_type_defs word_less_nat_alt)
  have h: "chunk_heads u ! t \<noteq> None" using path by (cases xs) auto
  obtain u' where "unlink_chunk (u\<lparr>umm_lock := True\<rparr>) t p (last_ptr xs) = Some u'"
    "umm_ok (umm_mutex_unlock (u'\<lparr>chunk_store := (chunk_store u')(p := None)\<rparr>)) (ls[t := xs @ ys])"
    using unlink_chunk_refines [OF assms(1-4) refl] by blast
  then show ?thesis
    using assms(2,4,5) l walk valid h len
    by (auto simp: delete_chunk_def nth_opt_def umm_mutex_lock_def umm_mutex_unlock_def Let_def)
qed

lemma umm_lock_cycle: "\<not> umm_lock u \<Longrightarrow> umm_mutex_unlock (u\<lparr>umm_lock := True\<rparr>) = u"
  by (cases u) (simp add: umm_mutex_unlock_def)

lemma get_chunk_info_path:
  assumes "umm_ok u ls" "unat (get_mem_type cid) < 6"
  shows "get_chunk_info u cid =
    Some (find (ids_match (chunk_store u) cid) (ls ! unat (get_mem_type cid)), u)"
proof -
  have "chunk_walk (chunk_store u) (chunk_heads u ! unat (get_mem_type cid)) cid =
      Some (find (ids_match (chunk_store u) cid) (ls ! unat (get_mem_type cid)))"
    using assms by (intro chunk_walk_path) (auto simp: umm_ok_def)
  moreover have "\<not> umm_lock u" "length (chunk_heads u) = 6" using assms(1) by (auto simp: umm_ok_def)
  ultimately show ?thesis
    using assms(2) by (simp add: get_chunk_info_def umm_mutex_lock_def nth_opt_def umm_lock_cycle)
qed

subsection \<open>Blocks: allocation and release\<close>

definition used_blks :: "xib_umem_chunk \<Rightarrow> nat set" where
  "used_blks c = {k. bit_at (bmap c) k}"

text \<open>A chunk's accounts: the bitmap has a word for every 32 blocks, the free-block counter counts the
  clear bits, the blocks fill the chunk exactly and the addresses do not wrap.\<close>

definition chunk_wf :: "xib_umem_chunk \<Rightarrow> bool" where
  "chunk_wf c \<longleftrightarrow>
     0 < unat (max_blks c) \<and> length (bmap c) = (unat (max_blks c) + 31) div 32 \<and>
     unat (max_blks c) + 64 < 2 ^ 32 \<and> 0 < unat (blk_size c) \<and>
     unat (max_blks c) * unat (blk_size c) = unat (u_size c) \<and>
     unat (u_base_va c) + unat (u_size c) < 2 ^ 64 \<and> unat (u_size c) < 2 ^ 63 \<and>
     unat (free_blks c) + card (used_blks c) = unat (max_blks c)"

lemma used_blks_finite [simp]: "finite (used_blks c)"
proof (rule finite_subset)
  show "used_blks c \<subseteq> {..<32 * length (bmap c)}"
    by (auto simp: used_blks_def bit_at_def)
qed simp

definition blocks_for :: "xib_umem_chunk \<Rightarrow> u64 \<Rightarrow> nat" where
  "blocks_for c sz = (unat sz + unat (blk_size c) - 1) div unat (blk_size c)"

lemma SIZE_TO_BLOCKS_unat:
  assumes "0 < unat bs" "unat ts + unat bs \<le> 2 ^ 64" "(unat ts + unat bs - 1) div unat bs < 2 ^ 32"
  shows "\<exists>n. SIZE_TO_BLOCKS ts bs = Some n \<and> unat n = (unat ts + unat bs - 1) div unat bs"
proof -
  have "bs \<noteq> 0" using assms(1) by auto
  have eq: "ts + bs - 1 = of_nat (unat ts + unat bs - 1)"
    using assms(1) by (simp add: of_nat_diff)
  have "unat (ts + bs - 1) = unat ts + unat bs - 1"
    unfolding eq unat_of_nat by (rule mod_less) (use assms in simp)
  then have "unat ((ts + bs - 1) div bs) = (unat ts + unat bs - 1) div unat bs" by (simp add: unat_div)
  then have "unat (ucast ((ts + bs - 1) div bs) :: u32) = (unat ts + unat bs - 1) div unat bs"
    using assms(3) by (simp add: take_bit_eq_mod unsigned_ucast_eq)
  then show ?thesis using \<open>bs \<noteq> 0\<close> by (simp add: SIZE_TO_BLOCKS_def)
qed

text \<open>What a successful block allocation did: \<open>n\<close> blocks from \<open>j\<close> on, free before and inside the chunk,
  are used now.\<close>

definition blocks_taken :: "xib_umem_chunk \<Rightarrow> u64 \<Rightarrow> u64 \<Rightarrow> xib_umem_chunk \<Rightarrow> nat \<Rightarrow> u32 \<Rightarrow> u32 \<Rightarrow> bool" where
  "blocks_taken c sz va c' n j cnt \<longleftrightarrow>
     n = blocks_for c sz \<and> unat cnt = n \<and> SIZE_TO_BLOCKS sz (blk_size c) = Some cnt \<and>
     unat j + n \<le> unat (max_blks c) \<and> va = u_base_va c + ucast j * blk_size c \<and>
     (\<forall>i < n. \<not> bit_at (bmap c) (unat j + i)) \<and>
     (\<exists>ws. set_bit_map (Some (bmap c)) j cnt = Some (Some ws) \<and>
        c' = c\<lparr>bmap := ws, free_mem_bytes := free_mem_bytes c - ucast cnt * blk_size c,
               free_blks := free_blks c - cnt\<rparr>)"

lemma chunk_blocks_for:
  assumes wf: "chunk_wf c" and sz: "0 < unat sz" "unat sz \<le> unat (u_size c)"
  shows "\<exists>cnt. SIZE_TO_BLOCKS sz (blk_size c) = Some cnt \<and> unat cnt = blocks_for c sz \<and>
    1 \<le> unat cnt \<and> unat cnt \<le> unat (max_blks c)"
proof -
  let ?b = "unat (blk_size c)" and ?m = "unat (max_blks c)"
  have b: "0 < ?b" and full: "?m * ?b = unat (u_size c)" and m0: "0 < ?m"
    and lim: "?m + 64 < 2 ^ 32" "unat (u_size c) < 2 ^ 63"
    using wf by (auto simp: chunk_wf_def)
  have "unat sz + ?b - 1 < (?m + 1) * ?b" using sz full b by (simp add: algebra_simps)
  then have "blocks_for c sz < ?m + 1"
    unfolding blocks_for_def using b by (simp add: div_less_iff_less_mult)
  moreover have "1 \<le> blocks_for c sz"
    unfolding blocks_for_def using b sz(1) by (simp add: less_eq_div_iff_mult_less_eq)
  moreover have "1 * ?b \<le> ?m * ?b" using m0 by (intro mult_le_mono1) simp
  then have "unat sz + ?b \<le> 2 ^ 64" using full sz(2) lim(2) by simp
  ultimately show ?thesis
    using SIZE_TO_BLOCKS_unat [of "blk_size c" sz] b lim(1) unfolding blocks_for_def by auto
qed

lemma chunk_alloc_taken:
  assumes wf: "chunk_wf c" and words: "32 dvd unat (max_blks c)"
    and sz: "0 < unat sz" "unat sz \<le> unat (u_size c)"
    and a: "chunk_alloc c sz = Some (va, c')" "va \<noteq> 0"
  shows "\<exists>j cnt. blocks_taken c sz va c' (blocks_for c sz) j cnt \<and> cnt \<le> free_blks c"
proof -
  obtain cnt where cnt: "SIZE_TO_BLOCKS sz (blk_size c) = Some cnt" "unat cnt = blocks_for c sz"
      "1 \<le> unat cnt" "unat cnt \<le> unat (max_blks c)"
    using chunk_blocks_for [OF wf sz] by blast
  have lim: "unat (max_blks c) + 64 < 2 ^ 32" using wf by (simp add: chunk_wf_def)
  have has: "chunk_has_mem c cnt" using a cnt(1) by (auto simp: chunk_alloc_def split: if_splits)
  then have fb: "cnt \<le> free_blks c" by (auto simp: chunk_has_mem_def split: if_splits)
  obtain j where j: "find_zero_bits (bmap c) cnt (max_blks c) = Some j" "j < max_blks c"
    using a cnt(1) has
    by (auto simp: chunk_alloc_def reserve_mem_blocks_def bind_eq_Some_conv split: if_splits)
  have run: "\<forall>i < unat cnt. \<not> bit_at (bmap c) (unat j + i)"
      "unat j + unat cnt \<le> 32 * ((unat (max_blks c) + 31) div 32)"
    using find_zero_bits_run [OF j cnt(3)] cnt(4) lim by auto
  have "32 * ((unat (max_blks c) + 31) div 32) = unat (max_blks c)" using words by auto
  moreover obtain ws where ws: "set_bit_map (Some (bmap c)) j cnt = Some (Some ws)"
    using a cnt(1) has j
    by (auto simp: chunk_alloc_def reserve_mem_blocks_def bind_eq_Some_conv split: if_splits)
  moreover have "va = u_base_va c + ucast j * blk_size c"
      "c' = c\<lparr>bmap := ws, free_mem_bytes := free_mem_bytes c - ucast cnt * blk_size c,
             free_blks := free_blks c - cnt\<rparr>"
    using a cnt(1) has j ws by (auto simp: chunk_alloc_def reserve_mem_blocks_def split: if_splits)
  ultimately show ?thesis
    using run cnt fb unfolding blocks_taken_def by (intro exI [of _ j] exI [of _ cnt]) auto
qed

lemma taken_keeps_wf:
  assumes wf: "chunk_wf c" and t: "blocks_taken c sz va c' n j cnt" and fb: "cnt \<le> free_blks c"
  shows "chunk_wf c' \<and> used_blks c' = used_blks c \<union> {unat j..<unat j + n} \<and>
    used_blks c \<inter> {unat j..<unat j + n} = {}"
proof -
  obtain ws where ws: "set_bit_map (Some (bmap c)) j cnt = Some (Some ws)" and c':
      "c' = c\<lparr>bmap := ws, free_mem_bytes := free_mem_bytes c - ucast cnt * blk_size c,
             free_blks := free_blks c - cnt\<rparr>"
    using t by (auto simp: blocks_taken_def)
  have n: "unat cnt = n" "unat j + n \<le> unat (max_blks c)" using t by (auto simp: blocks_taken_def)
  have len: "length (bmap c) = (unat (max_blks c) + 31) div 32" "unat (max_blks c) + 64 < 2 ^ 32"
    using wf by (auto simp: chunk_wf_def)
  have "unat (max_blks c) \<le> 32 * length (bmap c)" unfolding len(1) by linarith
  then have us: "length ws = length (bmap c)"
      "\<forall>k. bit_at ws k = (if unat j \<le> k \<and> k < unat j + unat cnt then True else bit_at (bmap c) k)"
    using update_bit_map_spec [of cnt j "bmap c" True] n len(2) ws by (auto simp: set_bit_map_def)
  have dis: "used_blks c \<inter> {unat j..<unat j + n} = {}"
  proof -
    have "\<not> bit_at (bmap c) k" if "unat j \<le> k" "k < unat j + n" for k
      using t that by (auto simp: blocks_taken_def dest: spec [of _ "k - unat j"])
    then show ?thesis by (auto simp: used_blks_def)
  qed
  have un: "used_blks c' = used_blks c \<union> {unat j..<unat j + n}"
    using us(2) n(1) c' by (auto simp: used_blks_def)
  have "card (used_blks c') = card (used_blks c) + n"
    unfolding un using dis by (simp add: card_Un_disjoint)
  moreover have "unat (free_blks c - cnt) = unat (free_blks c) - n"
    using fb n(1) by (simp add: unat_sub_le word_le_nat_alt)
  moreover have "n \<le> unat (free_blks c)" using fb n(1) by (simp add: word_le_nat_alt)
  ultimately have "chunk_wf c'" using wf us(1) c' by (auto simp: chunk_wf_def)
  with un dis show ?thesis by blast
qed

lemma taken_block_num:
  assumes wf: "chunk_wf c" and t: "blocks_taken c sz va c' n j cnt"
  shows "get_blk_num c va = Some j \<and> unat va = unat (u_base_va c) + unat j * unat (blk_size c)"
proof -
  let ?b = "unat (blk_size c)"
  have jm: "unat j + n \<le> unat (max_blks c)" and va: "va = u_base_va c + ucast j * blk_size c"
    using t by (auto simp: blocks_taken_def)
  have b: "0 < ?b" and full: "unat (max_blks c) * ?b = unat (u_size c)"
    and lim: "unat (max_blks c) + 64 < 2 ^ 32" "unat (u_base_va c) + unat (u_size c) < 2 ^ 64"
      "unat (u_size c) < 2 ^ 63" and m0: "0 < unat (max_blks c)"
    using wf by (auto simp: chunk_wf_def)
  have le: "unat j * ?b \<le> unat (u_size c)" using jm by (simp flip: full)
  have prod: "unat (ucast j * blk_size c) = unat j * ?b"
    using le lim(3) by (simp add: unat_mult_lem [THEN iffD1])
  have "1 * ?b \<le> unat (max_blks c) * ?b" using m0 by (intro mult_le_mono1) simp
  then have "?b \<le> unat (u_size c)" using full by simp
  then have sum: "unat (ucast j * blk_size c) + ?b \<le> 2 ^ 64" using prod le lim(3) by simp
  have "(unat j * ?b + ?b - 1) div ?b = unat j"
    using b by (intro div_nat_eqI) (auto simp: algebra_simps)
  then obtain k where "SIZE_TO_BLOCKS (ucast j * blk_size c) (blk_size c) = Some k" "unat k = unat j"
    using SIZE_TO_BLOCKS_unat [OF b sum] prod u32_less_power [of j] by auto
  moreover have "k = j" using \<open>unat k = unat j\<close> by (simp add: word_unat_eq_iff)
  ultimately have "get_blk_num c va = Some j" by (simp add: get_blk_num_def va)
  moreover have "unat va = unat (u_base_va c) + unat j * ?b"
    unfolding va using prod le lim(2) by (subst unat_add_no_wrap) auto
  ultimately show ?thesis by simp
qed

lemma taken_fits:
  assumes wf: "chunk_wf c" and t: "blocks_taken c sz va c' n j cnt"
  shows "(unat j + n) * unat (blk_size c) \<le> unat (u_size c) \<and> unat sz \<le> n * unat (blk_size c)"
proof
  let ?b = "unat (blk_size c)"
  have "unat j + n \<le> unat (max_blks c)" using t by (simp add: blocks_taken_def)
  then have "(unat j + n) * ?b \<le> unat (max_blks c) * ?b" by (rule mult_le_mono1)
  moreover have "unat (max_blks c) * ?b = unat (u_size c)" using wf by (simp add: chunk_wf_def)
  ultimately show "(unat j + n) * ?b \<le> unat (u_size c)" by (simp only:)
  have b: "0 < ?b" and n: "n = (unat sz + ?b - 1) div ?b"
    using wf t by (auto simp: chunk_wf_def blocks_taken_def blocks_for_def)
  have "unat sz + ?b - 1 < n * ?b + ?b"
    unfolding n using b div_mult_mod_eq [of "unat sz + ?b - 1" ?b] mod_less_divisor [OF b, of "unat sz + ?b - 1"]
    by linarith
  then show "unat sz \<le> n * ?b" using b by simp
qed

lemma chunk_free_restores:
  assumes wf: "chunk_wf c" and t: "blocks_taken c sz va c' n j cnt"
  shows "chunk_free c' va sz = Some c"
proof -
  obtain ws where ws: "set_bit_map (Some (bmap c)) j cnt = Some (Some ws)" and c':
      "c' = c\<lparr>bmap := ws, free_mem_bytes := free_mem_bytes c - ucast cnt * blk_size c,
             free_blks := free_blks c - cnt\<rparr>"
    using t by (auto simp: blocks_taken_def)
  have n: "unat cnt = n" "unat j + n \<le> unat (max_blks c)" "SIZE_TO_BLOCKS sz (blk_size c) = Some cnt"
    and free: "\<forall>i < unat cnt. \<not> bit_at (bmap c) (unat j + i)"
    using t by (auto simp: blocks_taken_def)
  have len: "length (bmap c) = (unat (max_blks c) + 31) div 32" "unat (max_blks c) + 64 < 2 ^ 32"
    using wf by (auto simp: chunk_wf_def)
  have "unat (max_blks c) \<le> 32 * length (bmap c)" unfolding len(1) by linarith
  then have "clear_bit_map (Some ws) j cnt = Some (Some (bmap c))"
    using clear_after_set [of cnt j "bmap c"] n(1,2) free len(2) ws by simp
  moreover have "get_blk_num c' va = Some j"
    using taken_block_num [OF assms] c' by (simp add: get_blk_num_def)
  ultimately show ?thesis using n(3) c' by (cases c) (simp add: chunk_free_def)
qed

lemma taken_in_range:
  assumes wf: "chunk_wf c" and t: "blocks_taken c sz va c' n j cnt" and sz: "unat sz < 2 ^ 32"
  shows "u_base_va c \<le> va \<and> va + ucast (ucast sz :: u32) \<le> u_base_va c + u_size c"
proof -
  have lim: "unat (u_base_va c) + unat (u_size c) < 2 ^ 64" using wf by (simp add: chunk_wf_def)
  have "unat j * unat (blk_size c) + unat sz \<le> unat (u_size c)"
    using taken_fits [OF wf t] by (simp add: algebra_simps)
  then show ?thesis
    using taken_block_num [OF wf t] lim unat_ucast_64_32 [OF sz]
    by (simp add: word_le_nat_alt unat_add_no_wrap)
qed

lemma umm_ok_update:
  assumes "umm_ok u ls" "chunk_store u p = Some c" "next_chunk c' = next_chunk c"
  shows "umm_ok (u\<lparr>chunk_store := (chunk_store u)(p \<mapsto> c')\<rparr>) ls"
proof -
  have "chunk_path (h(p \<mapsto> c')) x ps = chunk_path h x ps" if "h p = Some c" for h x ps
    using that assms(3) by (induction ps arbitrary: x) (auto split: option.split)
  then show ?thesis using assms by (simp add: umm_ok_def)
qed

lemma ids_match_update:
  assumes "chunk_store u p = Some c" "u_chunk_id c' = u_chunk_id c"
  shows "ids_match ((chunk_store u)(p \<mapsto> c')) cid = ids_match (chunk_store u) cid"
  using assms by (simp add: ids_match_def fun_eq_iff)

lemma alloc_mem_found:
  assumes "umm_ok u ls" "unat (get_mem_type cid) < 6" "sz \<noteq> 0" "chunk_store u p = Some c"
    "find (ids_match (chunk_store u) cid) (ls ! unat (get_mem_type cid)) = Some p"
    "chunk_alloc c sz = Some (va, c')"
  shows "xib_umem_alloc_mem u cid sz = Some (va, u\<lparr>chunk_store := (chunk_store u)(p \<mapsto> c')\<rparr>)"
  using assms get_chunk_info_path [OF assms(1,2)]
  by (cases u) (auto simp: xib_umem_alloc_mem_def umm_mutex_lock_def umm_mutex_unlock_def umm_ok_def)


text \<open>releasing what \<open>xib_umem_alloc_mem\<close> returned, with the same size, restores the whole context:
  bitmap, counters and lists are as before.\<close>

theorem xib_umem_free_after_alloc:
  assumes "umm_ok u ls" "unat (get_mem_type cid) < 6" "chunk_store u p = Some c"
    "find (ids_match (chunk_store u) cid) (ls ! unat (get_mem_type cid)) = Some p"
    and "chunk_wf c" "32 dvd unat (max_blks c)" "0 < unat sz" "unat sz \<le> unat (u_size c)"
    and "chunk_alloc c sz = Some (va, c')" "va \<noteq> 0" "unat sz < 2 ^ 32"
  shows "Option.bind (xib_umem_alloc_mem u cid sz) (\<lambda>(a, u1). xib_umem_free_mem u1 cid a sz) =
    Some (0, u)"
proof -
  obtain j cnt where t: "blocks_taken c sz va c' (blocks_for c sz) j cnt" "cnt \<le> free_blks c"
    using chunk_alloc_taken [OF assms(5-10)] by blast
  have c': "next_chunk c' = next_chunk c" "u_chunk_id c' = u_chunk_id c" "u_base_va c' = u_base_va c"
      "u_size c' = u_size c"
    using t(1) by (auto simp: blocks_taken_def)
  let ?u = "u\<lparr>chunk_store := (chunk_store u)(p \<mapsto> c')\<rparr>"
  have a: "xib_umem_alloc_mem u cid sz = Some (va, ?u)"
    by (rule alloc_mem_found [OF assms(1,2) _ assms(3,4,9)]) (use assms(7) in auto)
  have info: "get_chunk_info ?u cid = Some (Some p, ?u)"
    using get_chunk_info_path [OF umm_ok_update [OF assms(1,3) c'(1)] assms(2)] assms(4)
    by (simp add: ids_match_update [OF assms(3) c'(2)])
  have r: "is_vaddr_within_range c' va (ucast sz)"
    using taken_in_range [OF assms(5) t(1) assms(11)] c' by (simp add: is_vaddr_within_range_def)
  have "\<not> umm_lock u" using assms(1) by (simp add: umm_ok_def)
  then show ?thesis
    using a info r chunk_free_restores [OF assms(5) t(1)] assms(3)
    by (cases u) (simp add: xib_umem_free_mem_def umm_mutex_lock_def umm_mutex_unlock_def fun_upd_idem)
qed

subsection \<open>Witness context\<close>

definition demo_uchunk :: xib_umem_chunk where
  "demo_uchunk = \<lparr>u_size = 0x20000, free_mem_bytes = 0x20000, blk_size = 0x1000,
     u_chunk_id = 0x1000001, u_mem_type = 1, free_blks = 32, u_base_va = 0x40000000,
     u_base_pa = 0x80000000, bmap = [0], max_blks = 32, next_chunk = None\<rparr>"

definition demo_uchunk' :: xib_umem_chunk where
  "demo_uchunk' = demo_uchunk\<lparr>bmap := [7], free_mem_bytes := 0x1D000, free_blks := 29\<rparr>"

definition demo_umm :: umm_proc_ctx where
  "demo_umm = \<lparr>max_qp = 4, max_qp_per_app = 4, rq_buffer_size = 256, rq_depth = 16, sq_depth = 16,
     chunk_heads = [None, Some 7, None, None, None, None],
     chunk_tails = [None, Some 7, None, None, None, None],
     resp = \<lparr>sq_chunk_id = 0, cq_chunk_id = 0, rq_chunk_id = 0\<rparr>,
     mem_types = 2, proc_access_types = 2, umm_lock = False, chunk_store = [7 \<mapsto> demo_uchunk]\<rparr>"

definition demo_lists :: "ptr list list" where
  "demo_lists = [[], [7], [], [], [], []]"

lemma less_6_cases: "(t::nat) < 6 \<longleftrightarrow> t = 0 \<or> t = 1 \<or> t = 2 \<or> t = 3 \<or> t = 4 \<or> t = 5"
  by auto

lemma demo_umm_ok: "umm_ok demo_umm demo_lists"
  by (auto simp: umm_ok_def demo_umm_def demo_lists_def last_ptr_def less_6_cases demo_uchunk_def)

lemma demo_uchunk_wf: "chunk_wf demo_uchunk"
proof -
  have "used_blks demo_uchunk = {}" by (auto simp: used_blks_def demo_uchunk_def bit_at_def)
  then show ?thesis by (simp add: chunk_wf_def demo_uchunk_def)
qed

lemma demo_chunk_alloc: "chunk_alloc demo_uchunk 0x2800 = Some (0x40000000, demo_uchunk')"
proof -
  have "find_zero_bits [0] 3 32 = Some 0" "set_bit_map (Some [0]) 0 3 = Some (Some [7])"
    by code_simp+
  then show ?thesis
    by (simp add: chunk_alloc_def demo_uchunk_def demo_uchunk'_def SIZE_TO_BLOCKS_def chunk_has_mem_def
        reserve_mem_blocks_def)
qed

lemma demo_uchunk_sel: "u_size demo_uchunk = 0x20000" "max_blks demo_uchunk = 32"
  by (simp_all add: demo_uchunk_def)

lemma demo_type: "get_mem_type 0x1000001 = 1"
  by (simp add: get_mem_type_def)

lemma demo_found:
  "find (ids_match (chunk_store demo_umm) 0x1000001) (demo_lists ! unat (get_mem_type 0x1000001)) = Some 7"
  by (simp add: demo_type demo_lists_def ids_match_def demo_umm_def demo_uchunk_def)

theorem update_umem_table_appends_witness:
  "\<exists>u' c. update_umem_table \<lparr>calloc_chunk = Some 9, calloc_bmap_ok = True, mmap_va = Some 0x50000000\<rparr> demo_umm
       (demo_req\<lparr>req_chunk_id := 0x1000002\<rparr>) 0x1000 = Some (sint (0x1000002::u32), u') \<and>
     umm_ok u' [[], [7, 9], [], [], [], []] \<and> chunk_store u' 9 = Some c \<and> free_blks c = max_blks c"
  using update_umem_table_appends [OF demo_umm_ok, of
      "\<lparr>calloc_chunk = Some 9, calloc_bmap_ok = True, mmap_va = Some 0x50000000\<rparr>" 9 "0x1000"
      "demo_req\<lparr>req_chunk_id := 0x1000002\<rparr>" "0x50000000"]
  by (auto simp: demo_lists_def demo_req_def XMEM_PL_DDR_def)

theorem delete_chunk_removes_witness:
  "\<exists>u'. delete_chunk demo_umm 7 = Some (0, u') \<and> umm_ok u' [[], [], [], [], [], []] \<and> chunk_store u' 7 = None"
  using delete_chunk_removes [OF demo_umm_ok, of 1 "[]" 7 "[]" demo_uchunk]
  by (auto simp: demo_lists_def demo_umm_def demo_type) (simp add: demo_uchunk_def demo_type)


theorem xib_umem_free_after_alloc_witness:
  "Option.bind (xib_umem_alloc_mem demo_umm 0x1000001 0x2800)
     (\<lambda>(a, u1). xib_umem_free_mem u1 0x1000001 a 0x2800) = Some (0, demo_umm)"
proof -
  have "chunk_store demo_umm 7 = Some demo_uchunk" by (simp add: demo_umm_def)
  from xib_umem_free_after_alloc [OF demo_umm_ok _ this demo_found demo_uchunk_wf _ _ _ demo_chunk_alloc]
  show ?thesis by (simp add: demo_type demo_uchunk_sel)
qed

subsection \<open>Address translation\<close>

text \<open>\<open>xib_umem_get_phy_addr\<close> maps a virtual address inside a chunk to the physical address at the
  same offset, inside the chunk's physical range, and changes nothing.\<close>

theorem xib_umem_get_phy_addr_linear:
  assumes "umm_ok u ls" "unat (get_mem_type cid) < 6" "chunk_store u p = Some c"
    "find (ids_match (chunk_store u) cid) (ls ! unat (get_mem_type cid)) = Some p"
    and "unat (u_base_va c) + unat (u_size c) < 2 ^ 64" "unat (u_base_pa c) + unat (u_size c) < 2 ^ 64"
    and "unat (u_base_va c) \<le> unat va" "unat va < unat (u_base_va c) + unat (u_size c)"
  shows "\<exists>pa. xib_umem_get_phy_addr u cid va = Some (0, Some pa, u) \<and>
    unat pa = unat (u_base_pa c) + (unat va - unat (u_base_va c)) \<and>
    unat pa < unat (u_base_pa c) + unat (u_size c)"
proof -
  have d: "unat (va - u_base_va c) = unat va - unat (u_base_va c)" using assms(7) by (rule unat_sub_le)
  then have "unat (va - u_base_va c + u_base_pa c) = unat (u_base_pa c) + (unat va - unat (u_base_va c))"
    using assms(6-8) by (subst unat_add_no_wrap) auto
  moreover have "u_base_va c \<le> va \<and> va \<le> u_base_va c + u_size c"
    using assms(5,7,8) by (simp add: word_le_nat_alt unat_add_no_wrap)
  ultimately show ?thesis
    using assms(3,4,7,8) get_chunk_info_path [OF assms(1,2)]
    by (auto simp: xib_umem_get_phy_addr_def)
qed

theorem xib_umem_get_phy_addr_linear_witness:
  "\<exists>pa. xib_umem_get_phy_addr demo_umm 0x1000001 0x40001234 = Some (0, Some pa, demo_umm) \<and>
     unat pa = 0x80001234"
proof -
  have "chunk_store demo_umm 7 = Some demo_uchunk" by (simp add: demo_umm_def)
  from xib_umem_get_phy_addr_linear [OF demo_umm_ok _ this demo_found, of "0x40001234"]
  show ?thesis by (auto simp: demo_type demo_uchunk_def)
qed

subsection \<open>Contexts\<close>

text \<open>\<open>xib_umem_delete_context\<close> never returns when there is a chunk to free: it calls
  \<open>xib_umem_free_chunk\<close> with the mutex held, and that function takes the mutex again.\<close>

theorem xib_umem_delete_context_deadlocks:
  assumes "umm_ok u ls" "t \<in> {1..<6}" "\<forall>i \<in> {1..<t}. ls ! i = []" "ls ! t = p # ps"
    and "chunk_store u p = Some c" "\<not> is_chunk_in_use c"
  shows "xib_umem_delete_context e u k = None"
proof -
  let ?u = "u\<lparr>umm_lock := True\<rparr>"
  have l: "\<not> umm_lock u" and len: "length (chunk_heads u) = 6"
    and heads: "\<And>i. i < 6 \<Longrightarrow> chunk_path (chunk_store u) (chunk_heads u ! i) (ls ! i)"
    using assms(1) by (auto simp: umm_ok_def)
  have turn: "delete_turn e (?u, k) = None"
    by (simp add: delete_turn_def xib_umem_free_chunk_def get_chunk_info_def umm_mutex_lock_def)
  have ht: "chunk_heads u ! t = Some p" using heads [of t] assms(2,4) by simp
  have stuck: "delete_chunks (delete_turn e) (?u, k) (Some p) = None"
    using assms(5,6) turn by (subst delete_chunks.simps) simp
  have skip: "delete_chunks (delete_turn e) (?u, k) None = Some (Inr (?u, k))"
    by (subst delete_chunks.simps) simp
  have "delete_types e [i..<6] (?u, k) = None" if "i \<le> t" "1 \<le> i" for i
    using that
  proof (induction "t - i" arbitrary: i)
    case 0
    then have "i = t" by simp
    then show ?case using assms(2) ht stuck len by (simp add: upt_conv_Cons nth_opt_def)
  next
    case (Suc n)
    then have "i < t" by simp
    then have "chunk_heads u ! i = None" using heads [of i] assms(2,3) Suc.prems by simp
    moreover have "delete_types e [Suc i..<6] (?u, k) = None" using Suc \<open>i < t\<close> by simp
    ultimately show ?case
      using assms(2) \<open>i < t\<close> len skip by (simp add: upt_conv_Cons nth_opt_def)
  qed
  from this [of 1] show ?thesis
    using l assms(2) by (simp add: xib_umem_delete_context_def umm_mutex_lock_def XMEM_MAX_MEM_TYPES_def)
qed

theorem xib_umem_delete_context_deadlocks_witness:
  "xib_umem_delete_context \<lparr>access_ok = True, env_kmalloc_ok = True, copy_to_user = 0\<rparr> demo_umm demo_kmm = None"
  using xib_umem_delete_context_deadlocks [OF demo_umm_ok, of 1 7 "[]" demo_uchunk]
  by (simp add: demo_lists_def demo_umm_def demo_uchunk_def is_chunk_in_use_def)

lemma update_req_data_forces_depth: "i_sq_depth (update_req_data i) = 16"
  by (simp add: update_req_data_def Let_def)

lemma round_total_drops_high_bits: "round_total 0x100000001 = 0x1000"
  by (simp add: round_total_def)

lemma create_after_failure:
  assumes "xib_umem_create_context e UmmNull k (Some i) = Some (RespNull, ctx, k', i')" "open_ok e"
    "calloc_ctx_ok e"
  shows "xib_umem_create_context e2 ctx k2 i2 = Some (RespFreed, UmmFreed, k2, i2)"
  using assms
  by (auto simp: xib_umem_create_context_def bind_eq_Some_conv Let_def split: if_splits prod.splits)

end
