(* ===== verification/Hw_Hs.thy ===== *)
theory Hw_Hs
  imports Xib_Rnic Xib_Kmm
begin

text \<open>
  The hardware-handshake driver, \<open>recipes-modules/hw-hs/files/hw_hs.c\<close> with \<open>hw_hs.h\<close> and
  \<open>hw_hs_ioctl.h\<close>: it programs the handshake engine (round settings, queue-pair contexts, stored work
  requests, the paced demo and its trace) and moves queue pairs of the RDMA core in and out of
  hardware-handshake mode.  The driver writes two register windows.  Accesses run in the state monad of
  \<open>Xib_Regs\<close>; an offset of the engine's window is logged with bit 31 set, one of the RDMA core's window as
  it is.  The C shift of a 32-bit value by 32 is undefined: its value is the parameter \<open>hs_shr32\<close>.
\<close>

unbundle bit_operations_syntax

subsection \<open>Windows\<close>

definition ernic_base :: u32 where "ernic_base = 0"
definition hh_base :: u32 where "hh_base = 0x80000000"

definition xib_iow32 :: "u32 \<Rightarrow> u32 \<Rightarrow> u32 \<Rightarrow> unit dev" where
  "xib_iow32 b off v = xrnic_iow (b + off) v"

definition xib_ior32 :: "hardware \<Rightarrow> u32 \<Rightarrow> u32 \<Rightarrow> u32 dev" where
  "xib_ior32 hw b off = xrnic_ior hw (b + off)"

definition HH_REG_CTRL :: u32 where "HH_REG_CTRL = 0x00"
definition HH_REG_STATUS :: u32 where "HH_REG_STATUS = 0x04"
definition HH_REG_QP_NUM :: u32 where "HH_REG_QP_NUM = 0x08"
definition HH_REG_PAY_LEN :: u32 where "HH_REG_PAY_LEN = 0x0C"
definition HH_REG_PATTERN :: u32 where "HH_REG_PATTERN = 0x10"
definition HH_REG_DBUF_LO :: u32 where "HH_REG_DBUF_LO = 0x14"
definition HH_REG_DBUF_HI :: u32 where "HH_REG_DBUF_HI = 0x18"
definition HH_REG_SQBASE_LO :: u32 where "HH_REG_SQBASE_LO = 0x1C"
definition HH_REG_SQBASE_HI :: u32 where "HH_REG_SQBASE_HI = 0x20"
definition HH_REG_SQ_DEPTH :: u32 where "HH_REG_SQ_DEPTH = 0x24"
definition HH_REG_FLAGS :: u32 where "HH_REG_FLAGS = 0x28"
definition HH_REG_REPLY_TO :: u32 where "HH_REG_REPLY_TO = 0x30"
definition HH_REG_ROUND_CNT :: u32 where "HH_REG_ROUND_CNT = 0x34"
definition HH_REG_RTT_LO :: u32 where "HH_REG_RTT_LO = 0x38"
definition HH_REG_RTT_HI :: u32 where "HH_REG_RTT_HI = 0x3C"
definition HH_REG_WQE_OPCODE :: u32 where "HH_REG_WQE_OPCODE = 0x40"
definition HH_REG_WQE_XFER_LEN :: u32 where "HH_REG_WQE_XFER_LEN = 0x44"
definition HH_REG_WQE_RKEY :: u32 where "HH_REG_WQE_RKEY = 0x48"
definition HH_REG_WQE_VA_LO :: u32 where "HH_REG_WQE_VA_LO = 0x4C"
definition HH_REG_WQE_VA_HI :: u32 where "HH_REG_WQE_VA_HI = 0x50"
definition HH_REG_WQE_OFFS_LO :: u32 where "HH_REG_WQE_OFFS_LO = 0x54"
definition HH_REG_WQE_OFFS_HI :: u32 where "HH_REG_WQE_OFFS_HI = 0x58"
definition HH_REG_WQE_WRID :: u32 where "HH_REG_WQE_WRID = 0x5C"
definition HH_REG_WQE_COMMIT :: u32 where "HH_REG_WQE_COMMIT = 0x60"
definition HH_REG_RUN_WQE_IDX :: u32 where "HH_REG_RUN_WQE_IDX = 0x64"
definition HH_REG_TIMER_QP_SEL :: u32 where "HH_REG_TIMER_QP_SEL = 0x68"
definition HH_REG_REPLY_BUF_LO :: u32 where "HH_REG_REPLY_BUF_LO = 0x6C"
definition HH_REG_REPLY_BUF_HI :: u32 where "HH_REG_REPLY_BUF_HI = 0x70"
definition HH_REG_REPLY_SEQ_OFF :: u32 where "HH_REG_REPLY_SEQ_OFF = 0x74"
definition HH_REG_LAST_RD :: u32 where "HH_REG_LAST_RD = 0x78"
definition HH_REG_QPCTX_COMMIT :: u32 where "HH_REG_QPCTX_COMMIT = 0x7C"
definition HH_REG_WQE_QP_REF :: u32 where "HH_REG_WQE_QP_REF = 0x84"
definition HH_REG_WQE_RING_CFG :: u32 where "HH_REG_WQE_RING_CFG = 0x88"
definition HH_REG_WQE_RING_LEN :: u32 where "HH_REG_WQE_RING_LEN = 0x8C"
definition HH_REG_REPLY_RING :: u32 where "HH_REG_REPLY_RING = 0x94"
definition HH_REG_DEMO_CTRL :: u32 where "HH_REG_DEMO_CTRL = 0xA8"
definition HH_REG_FREQ_LO :: u32 where "HH_REG_FREQ_LO = 0xAC"
definition HH_REG_FREQ_HI :: u32 where "HH_REG_FREQ_HI = 0xB0"
definition HH_REG_DEMO_STS :: u32 where "HH_REG_DEMO_STS = 0xB4"
definition HH_REG_CMD_CNT :: u32 where "HH_REG_CMD_CNT = 0xB8"
definition HH_REG_DEMO_ERR :: u32 where "HH_REG_DEMO_ERR = 0xBC"
definition HH_REG_DEMO_DEPTH :: u32 where "HH_REG_DEMO_DEPTH = 0xC0"
definition HH_REG_FREQ_SPAN :: u32 where "HH_REG_FREQ_SPAN = 0xC4"
definition HH_REG_LFSR_SEED :: u32 where "HH_REG_LFSR_SEED = 0xC8"
definition HH_REG_TRACE_CTRL :: u32 where "HH_REG_TRACE_CTRL = 0xCC"
definition HH_REG_TRACE_CNT :: u32 where "HH_REG_TRACE_CNT = 0xD0"
definition HH_REG_TRACE_STS :: u32 where "HH_REG_TRACE_STS = 0xD4"
definition HH_REG_WIN_SIZE :: u64 where "HH_REG_WIN_SIZE = 0x1000"

definition HH_NUM_CTX :: nat where "HH_NUM_CTX = 8"
definition HH_CTRL_START :: u32 where "HH_CTRL_START = 1"
definition HH_CTRL_ABORT :: u32 where "HH_CTRL_ABORT = 2"
definition HH_CTRL_SOFT_RESET :: u32 where "HH_CTRL_SOFT_RESET = 4"
definition HH_DEMO_START :: u32 where "HH_DEMO_START = 1"
definition HH_DEMO_RESET :: u32 where "HH_DEMO_RESET = 2"
definition HH_FLAG_REPLY_POLL :: u32 where "HH_FLAG_REPLY_POLL = 8"
definition HH_QPCTX_REBIND :: u32 where "HH_QPCTX_REBIND = 0x80000000"

lemmas hh_reg_defs = HH_REG_CTRL_def HH_REG_STATUS_def HH_REG_QP_NUM_def HH_REG_PAY_LEN_def
  HH_REG_PATTERN_def HH_REG_DBUF_LO_def HH_REG_DBUF_HI_def HH_REG_SQBASE_LO_def HH_REG_SQBASE_HI_def
  HH_REG_SQ_DEPTH_def HH_REG_FLAGS_def HH_REG_REPLY_TO_def HH_REG_ROUND_CNT_def HH_REG_RTT_LO_def
  HH_REG_RTT_HI_def HH_REG_WQE_OPCODE_def HH_REG_WQE_XFER_LEN_def HH_REG_WQE_RKEY_def HH_REG_WQE_VA_LO_def
  HH_REG_WQE_VA_HI_def HH_REG_WQE_OFFS_LO_def HH_REG_WQE_OFFS_HI_def HH_REG_WQE_WRID_def
  HH_REG_WQE_COMMIT_def HH_REG_RUN_WQE_IDX_def HH_REG_TIMER_QP_SEL_def HH_REG_REPLY_BUF_LO_def
  HH_REG_REPLY_BUF_HI_def HH_REG_REPLY_SEQ_OFF_def HH_REG_LAST_RD_def HH_REG_QPCTX_COMMIT_def
  HH_REG_WQE_QP_REF_def HH_REG_WQE_RING_CFG_def HH_REG_WQE_RING_LEN_def HH_REG_REPLY_RING_def
  HH_REG_DEMO_CTRL_def HH_REG_FREQ_LO_def HH_REG_FREQ_HI_def HH_REG_DEMO_STS_def HH_REG_CMD_CNT_def
  HH_REG_DEMO_ERR_def HH_REG_DEMO_DEPTH_def HH_REG_FREQ_SPAN_def HH_REG_LFSR_SEED_def HH_REG_TRACE_CTRL_def
  HH_REG_TRACE_CNT_def HH_REG_TRACE_STS_def

subsection \<open>Data\<close>

record hh_round_cfg =
  rc_qp_num :: u32
  rc_qp_cnt :: u32
  rc_payload_len :: u32
  rc_pattern :: u32
  rc_data_buf :: u64
  rc_sq_base :: u64
  rc_sq_depth :: u32
  rc_flags :: u32
  rc_reply_to :: u32
  rc_timer_qp_sel :: u32
  rc_run_wqe_idx :: u32
  rc_reply_buf :: u64
  rc_reply_seq_off :: u32
  rc_reply_stride_log2 :: u32

record hh_wqe_cfg =
  wq_idx :: u32
  wq_opcode :: u32
  wq_xfer_len :: u32
  wq_rkey :: u32
  wq_va_lsb :: u32
  wq_va_msb :: u32
  wq_local_offset :: u64
  wq_wrid :: u32
  wq_qp_ref :: u32
  wq_ring_en :: u32
  wq_ring_len :: u32
  wq_stride_local_log2 :: u32
  wq_stride_remote_log2 :: u32

record hh_qpctx_cfg =
  qc_ctx_idx :: u32
  qc_qp_num :: u32
  qc_sq_base :: u64
  qc_sq_depth :: u32
  qc_reply_buf :: u64
  qc_flags :: u32
  qc_reply_to :: u32
  qc_reply_seq_off :: u32
  qc_reply_stride_log2 :: u32
  qc_rebind :: u32

record hh_mr_rebase =
  mb_rkey :: u32
  mb_bram_pa :: u64

record hh_status_rd =
  st_status :: u32
  st_round_cnt :: u32
  st_rtt :: u64
  st_last_rd :: u32

record hh_demo_cfg =
  dc_freq_num :: u64
  dc_cmd_cnt :: u32
  dc_syn_depth :: u32
  dc_freq_span :: u32
  dc_lfsr_seed :: u32

record hh_trace_status =
  ts_cnt :: u32
  ts_full :: bool
  ts_sat :: bool

record hh_demo_status =
  ds_done :: u32
  ds_err_cnt :: u32
  ds_cmd_cnt :: u32
  ds_syn_depth :: u32
  ds_freq_num :: u64

record hh_ctx =
  cx_qp_num :: u32
  cx_sq_depth :: u32
  cx_valid :: bool

text \<open>\<open>hh_ctx_tab\<close> is the array \<open>ctx\<close> of eight entries, \<open>mutx_locked\<close> the state of the mutex.\<close>

record hw_hs_dev =
  hh_cfg_base :: u64
  hh_rcfg :: hh_round_cfg
  mutx_locked :: bool
  hh_addr_width :: u32
  hh_ctx_tab :: "hh_ctx list"

text \<open>The surroundings: the hardware, the undefined shift, and the RDMA driver's table of queue pairs.\<close>

record hs_env =
  hs_hw :: hardware
  hs_shr32 :: "u32 \<Rightarrow> u32"
  hs_qp_list :: "xib_qp option list"

text \<open>\<open>get_user_sq_depth\<close> of the RDMA driver: \<open>None\<close> is a fault.\<close>

definition get_user_sq_depth :: "hs_env \<Rightarrow> u32 \<Rightarrow> u32 option" where
  "get_user_sq_depth env q =
     (if unat q < length (hs_qp_list env) then map_option (\<lambda>qp. sq_max_wr (sq qp)) (hs_qp_list env ! unat q) else None)"

subsection \<open>Moving queue pairs in and out of handshake mode\<close>

text \<open>Steps 2 and 3 of \<open>setup_qps\<close>, for both directions.\<close>

definition reset_ptrs :: "u32 \<Rightarrow> unit dev" where
  "reset_ptrs q = do {
     xib_iow32 ernic_base (XRNIC_SQ_PROD_IDX q) 0;
     xib_iow32 ernic_base (XRNIC_STAT_CUR_SQ_PTR q) 0;
     xib_iow32 ernic_base (XRNIC_CQ_HEAD_PTR q) 0}"

definition setup_qp_en :: "hs_env \<Rightarrow> u32 \<Rightarrow> u32 \<Rightarrow> u32 \<Rightarrow> unit dev" where
  "setup_qp_en env aw q_depth q = do {
     xib_iow32 ernic_base (XRNIC_CQ_DB_ADDR_LSB q) (q + 1);
     (if aw = 64 then xib_iow32 ernic_base (XRNIC_CQ_DB_ADDR_MSB q) (hs_shr32 env (q + 1)) else State_Monad.return ());
     val \<leftarrow> xib_ior32 (hs_hw env) ernic_base (XRNIC_QUEUE_DEPTH q);
     xib_iow32 ernic_base (XRNIC_QUEUE_DEPTH q) ((val AND NOT 0xFFFF) OR (q_depth AND 0xFFFF));
     val \<leftarrow> xib_ior32 (hs_hw env) ernic_base (XRNIC_QP_CONF q);
     xib_iow32 ernic_base (XRNIC_QP_CONF q) (val AND NOT QP_HW_HSK_DIS AND NOT QP_CQE_EN)}"

definition setup_qp_dis :: "hs_env \<Rightarrow> u32 \<Rightarrow> u32 \<Rightarrow> xrnic_local \<Rightarrow> xrnic_local option dev" where
  "setup_qp_dis env aw q xl = do {
     val \<leftarrow> xib_ior32 (hs_hw env) ernic_base (XRNIC_QUEUE_DEPTH q);
     (case get_user_sq_depth env q of
        None \<Rightarrow> State_Monad.return None
      | Some depth \<Rightarrow> do {
          xib_iow32 ernic_base (XRNIC_QUEUE_DEPTH q) ((val AND NOT 0xFFFF) OR depth);
          (case xrnic_get_sq_db_addr xl (unat q) of
             None \<Rightarrow> State_Monad.return None
           | Some (db_addr, xl') \<Rightarrow> do {
               xib_iow32 ernic_base (XRNIC_CQ_DB_ADDR_LSB q) (ucast db_addr);
               (if aw = 64 then xib_iow32 ernic_base (XRNIC_CQ_DB_ADDR_MSB q) (ucast (drop_bit 32 db_addr))
                else State_Monad.return ());
               val \<leftarrow> xib_ior32 (hs_hw env) ernic_base (XRNIC_QP_CONF q);
               xib_iow32 ernic_base (XRNIC_QP_CONF q) (val OR QP_HW_HSK_DIS);
               State_Monad.return (Some xl')})})}"

text \<open>One queue pair; \<open>en\<close> is \<open>hh_state = HH_EN_STATE\<close>.  \<open>None\<close> is a fault.\<close>

definition setup_qp :: "hs_env \<Rightarrow> u32 \<Rightarrow> bool \<Rightarrow> u32 \<Rightarrow> u32 \<Rightarrow> xrnic_local \<Rightarrow> xrnic_local option dev" where
  "setup_qp env aw en q_depth q xl = do {
     reset_ptrs q;
     (if en then do {setup_qp_en env aw q_depth q; State_Monad.return (Some xl)}
      else setup_qp_dis env aw q xl)}"

fun setup_loop :: "hs_env \<Rightarrow> u32 \<Rightarrow> bool \<Rightarrow> u32 \<Rightarrow> u32 \<Rightarrow> nat \<Rightarrow> xrnic_local \<Rightarrow> xrnic_local option dev" where
  "setup_loop env aw en q_depth q 0 xl = State_Monad.return (Some xl)"
| "setup_loop env aw en q_depth q (Suc n) xl = do {
     r \<leftarrow> setup_qp env aw en q_depth q xl;
     (case r of
        None \<Rightarrow> State_Monad.return None
      | Some xl' \<Rightarrow> setup_loop env aw en q_depth (q + 1) n xl')}"

text \<open>The software-override bit is set around the changes.  A null \<open>xl\<close> is a fault.\<close>

definition setup_qps ::
  "hs_env \<Rightarrow> u32 \<Rightarrow> xrnic_local option \<Rightarrow> bool \<Rightarrow> u32 \<Rightarrow> u32 \<Rightarrow> u32 \<Rightarrow> xrnic_local option dev" where
  "setup_qps env aw xlp en qp_base qp_cnt q_depth =
     (case xlp of
        None \<Rightarrow> State_Monad.return None
      | Some xl \<Rightarrow> do {
          val \<leftarrow> xib_ior32 (hs_hw env) ernic_base XRNIC_ADV_CONF;
          xib_iow32 ernic_base XRNIC_ADV_CONF (val OR 1);
          r \<leftarrow> setup_loop env aw en q_depth qp_base (unat qp_cnt) xl;
          (case r of
             None \<Rightarrow> State_Monad.return None
           | Some xl' \<Rightarrow> do {
               val \<leftarrow> xib_ior32 (hs_hw env) ernic_base XRNIC_ADV_CONF;
               xib_iow32 ernic_base XRNIC_ADV_CONF (val AND NOT 1);
               State_Monad.return (Some xl')})})"

subsection \<open>Programming the engine\<close>

text \<open>The return value, the driver's data and the RDMA core's; \<open>None\<close> is a fault.\<close>

type_synonym hs_result = "(int \<times> hw_hs_dev \<times> xrnic_local option) option"

definition reply_slot_ok :: "hh_qpctx_cfg \<Rightarrow> bool" where
  "reply_slot_ok qc \<longleftrightarrow>
     \<not> 32 \<le> qc_reply_stride_log2 qc \<and>
     (let slot_bytes = push_bit (unat (qc_reply_stride_log2 qc)) 1 :: u32
      in \<not> (qc_reply_seq_off qc = 0 \<or> qc_reply_seq_off qc AND 3 \<noteq> 0 \<or>
            ucast (qc_reply_seq_off qc) + 4 > (ucast slot_bytes :: u64)))"

definition qpctx_depth :: "hh_qpctx_cfg \<Rightarrow> u32" where
  "qpctx_depth qc = (if qc_sq_depth qc \<noteq> 0 then qc_sq_depth qc else 1)"

definition stage_qpctx :: "hh_qpctx_cfg \<Rightarrow> unit dev" where
  "stage_qpctx qc = do {
     xib_iow32 hh_base HH_REG_QP_NUM (qc_qp_num qc);
     xib_iow32 hh_base HH_REG_SQBASE_LO (ucast (qc_sq_base qc));
     xib_iow32 hh_base HH_REG_SQBASE_HI (ucast (drop_bit 32 (qc_sq_base qc)));
     xib_iow32 hh_base HH_REG_SQ_DEPTH (qpctx_depth qc);
     xib_iow32 hh_base HH_REG_REPLY_BUF_LO (ucast (qc_reply_buf qc));
     xib_iow32 hh_base HH_REG_REPLY_BUF_HI (ucast (drop_bit 32 (qc_reply_buf qc)));
     xib_iow32 hh_base HH_REG_FLAGS (qc_flags qc);
     xib_iow32 hh_base HH_REG_REPLY_TO (qc_reply_to qc);
     xib_iow32 hh_base HH_REG_REPLY_SEQ_OFF (qc_reply_seq_off qc);
     xib_iow32 hh_base HH_REG_REPLY_RING (qc_reply_stride_log2 qc AND 0x3F);
     xib_iow32 hh_base HH_REG_QPCTX_COMMIT (qc_ctx_idx qc OR (if qc_rebind qc \<noteq> 0 then HH_QPCTX_REBIND else 0))}"

text \<open>Only for a rebind: the core's send queue is moved to the engine's and put in handshake mode.\<close>

definition rebind_ernic :: "hs_env \<Rightarrow> u32 \<Rightarrow> xrnic_local option \<Rightarrow> hh_qpctx_cfg \<Rightarrow> xrnic_local option option dev" where
  "rebind_ernic env aw xlp qc =
     (if xlp \<noteq> None \<and> qc_rebind qc \<noteq> 0 then do {
        xib_iow32 ernic_base (XRNIC_SNDQ_BUF_BASE_LSB (qc_qp_num qc)) (ucast (qc_sq_base qc));
        (if aw = 64 then xib_iow32 ernic_base (XRNIC_SNDQ_BUF_BASE_MSB (qc_qp_num qc)) (ucast (drop_bit 32 (qc_sq_base qc)))
         else State_Monad.return ());
        r \<leftarrow> setup_qps env aw xlp True (qc_qp_num qc) 1 (qpctx_depth qc);
        State_Monad.return (map_option Some r)}
      else State_Monad.return (Some xlp))"

definition set_ctx :: "hh_qpctx_cfg \<Rightarrow> hw_hs_dev \<Rightarrow> hw_hs_dev" where
  "set_ctx qc d = d\<lparr>hh_ctx_tab := (hh_ctx_tab d)[unat (qc_ctx_idx qc) :=
     \<lparr>cx_qp_num = qc_qp_num qc, cx_sq_depth = qpctx_depth qc, cx_valid = True\<rparr>]\<rparr>"

definition hw_hs_qpctx_commit ::
  "hs_env \<Rightarrow> hw_hs_dev \<Rightarrow> xrnic_local option \<Rightarrow> hh_qpctx_cfg \<Rightarrow> hs_result dev" where
  "hw_hs_qpctx_commit env d xlp qc =
     (if of_nat HH_NUM_CTX \<le> qc_ctx_idx qc then State_Monad.return (Some (- EINVAL, d, xlp))
      else if qc_flags qc AND HH_FLAG_REPLY_POLL \<noteq> 0 \<and> \<not> reply_slot_ok qc
      then State_Monad.return (Some (- EINVAL, d, xlp))
      else do {
        stage_qpctx qc;
        r \<leftarrow> rebind_ernic env (hh_addr_width d) xlp qc;
        State_Monad.return (map_option (\<lambda>xlp'. (0, set_ctx qc d, xlp')) r)})"

definition hw_hs_mr_rebase :: "hw_hs_dev \<Rightarrow> xrnic_local option \<Rightarrow> hh_mr_rebase \<Rightarrow> hs_result dev" where
  "hw_hs_mr_rebase d xlp r =
     (let mr_idx = drop_bit 8 (mb_rkey r) in
      if xlp = None then State_Monad.return (Some (- ENODEV, d, xlp))
      else do {
        xib_iow32 ernic_base (XRNIC_MR_BUF_BASE_LO mr_idx) (ucast (mb_bram_pa r));
        (if hh_addr_width d = 64
         then xib_iow32 ernic_base (XRNIC_MR_BUF_BASE_HI mr_idx) (ucast (drop_bit 32 (mb_bram_pa r)))
         else State_Monad.return ());
        State_Monad.return (Some (0, d, xlp))})"

definition ctx0_of :: "hh_round_cfg \<Rightarrow> hh_qpctx_cfg" where
  "ctx0_of c = \<lparr>qc_ctx_idx = 0, qc_qp_num = rc_qp_num c, qc_sq_base = rc_sq_base c, qc_sq_depth = rc_sq_depth c,
     qc_reply_buf = rc_reply_buf c, qc_flags = rc_flags c, qc_reply_to = rc_reply_to c,
     qc_reply_seq_off = rc_reply_seq_off c, qc_reply_stride_log2 = rc_reply_stride_log2 c, qc_rebind = 1\<rparr>"

definition write_round :: "hh_round_cfg \<Rightarrow> unit dev" where
  "write_round c = do {
     xib_iow32 hh_base HH_REG_PAY_LEN (rc_payload_len c);
     xib_iow32 hh_base HH_REG_PATTERN (rc_pattern c);
     xib_iow32 hh_base HH_REG_DBUF_LO (ucast (rc_data_buf c));
     xib_iow32 hh_base HH_REG_DBUF_HI (ucast (drop_bit 32 (rc_data_buf c)));
     xib_iow32 hh_base HH_REG_TIMER_QP_SEL (rc_timer_qp_sel c);
     xib_iow32 hh_base HH_REG_RUN_WQE_IDX (rc_run_wqe_idx c);
     xib_iow32 hh_base HH_REG_CTRL HH_CTRL_SOFT_RESET;
     xib_iow32 hh_base HH_REG_CTRL 0}"

definition hw_hs_config :: "hs_env \<Rightarrow> hw_hs_dev \<Rightarrow> xrnic_local option \<Rightarrow> hh_round_cfg \<Rightarrow> hs_result dev" where
  "hw_hs_config env d xlp c = do {
     write_round c;
     r \<leftarrow> hw_hs_qpctx_commit env d xlp (ctx0_of c);
     State_Monad.return (case r of
        None \<Rightarrow> None
      | Some (ret, d', xlp') \<Rightarrow> if ret \<noteq> 0 then Some (ret, d', xlp') else Some (0, d'\<lparr>hh_rcfg := c\<rparr>, xlp'))}"

definition ring_cfg :: "hh_wqe_cfg \<Rightarrow> u32" where
  "ring_cfg w = (if wq_ring_en w \<noteq> 0 then 1 else 0) OR push_bit 8 (wq_stride_local_log2 w AND 0x3F) OR
     push_bit 16 (wq_stride_remote_log2 w AND 0x3F)"

definition hw_hs_wqe_commit :: "hh_wqe_cfg \<Rightarrow> int dev" where
  "hw_hs_wqe_commit w = do {
     xib_iow32 hh_base HH_REG_WQE_OPCODE (wq_opcode w AND 3);
     xib_iow32 hh_base HH_REG_WQE_XFER_LEN (wq_xfer_len w);
     xib_iow32 hh_base HH_REG_WQE_RKEY (wq_rkey w);
     xib_iow32 hh_base HH_REG_WQE_VA_LO (wq_va_lsb w);
     xib_iow32 hh_base HH_REG_WQE_VA_HI (wq_va_msb w);
     xib_iow32 hh_base HH_REG_WQE_OFFS_LO (ucast (wq_local_offset w));
     xib_iow32 hh_base HH_REG_WQE_OFFS_HI (ucast (drop_bit 32 (wq_local_offset w)));
     xib_iow32 hh_base HH_REG_WQE_WRID (wq_wrid w AND 0xFFFF);
     xib_iow32 hh_base HH_REG_WQE_QP_REF (wq_qp_ref w);
     xib_iow32 hh_base HH_REG_WQE_RING_CFG (ring_cfg w);
     xib_iow32 hh_base HH_REG_WQE_RING_LEN (wq_ring_len w AND 0xFFFF);
     xib_iow32 hh_base HH_REG_WQE_COMMIT (wq_idx w);
     State_Monad.return 0}"

definition hh_start :: "int dev" where
  "hh_start = do {xib_iow32 hh_base HH_REG_CTRL HH_CTRL_START; State_Monad.return 0}"

definition hh_abort :: "int dev" where
  "hh_abort = do {xib_iow32 hh_base HH_REG_CTRL HH_CTRL_ABORT; State_Monad.return 0}"

subsection \<open>Reset\<close>

text \<open>\<open>hh_dump_qp_stat\<close> reads these registers of the core, in this order, and prints them.\<close>

definition dump_qp_regs :: "u32 \<Rightarrow> u32 list" where
  "dump_qp_regs q = [XRNIC_QP_CONF q, XRNIC_SQ_PROD_IDX q, XRNIC_STAT_CUR_SQ_PTR q, XRNIC_DEST_QP_CONF q,
     XRNIC_SNDQ_PSN q, XRNIC_IP_DEST_ADDR_1 q, XRNIC_SNDQ_BUF_BASE_MSB q, XRNIC_SNDQ_BUF_BASE_LSB q, qreg 0x98 q]"

definition dump_regs :: "u32 \<Rightarrow> u32 list" where
  "dump_regs aq = concat (map dump_qp_regs [0, 1, 2, 3, 4]) @
     [XRNIC_DEST_QP_CONF aq, XRNIC_DEST_QP_CONF aq, XRNIC_MAC_DEST_ADDR_HI aq, XRNIC_MAC_DEST_ADDR_LO aq,
      XRNIC_INT_STAT, greg 0x134, greg 0x138, greg 0x140, greg 0x13c,
      greg 0x108, greg 0x114, greg 0x104, greg 0x110, greg 0x130]"

fun read_all :: "hardware \<Rightarrow> u32 list \<Rightarrow> unit dev" where
  "read_all hw [] = State_Monad.return ()"
| "read_all hw (r # rs) = do {_ \<leftarrow> xib_ior32 hw ernic_base r; read_all hw rs}"

definition hh_dump_qp_stat :: "hs_env \<Rightarrow> hw_hs_dev \<Rightarrow> xrnic_local option \<Rightarrow> unit dev" where
  "hh_dump_qp_stat env d xlp =
     (if xlp = None then State_Monad.return ()
      else read_all (hs_hw env) (dump_regs (if rc_qp_num (hh_rcfg d) \<noteq> 0 then rc_qp_num (hh_rcfg d) else 1)))"

text \<open>Every valid context is taken out of handshake mode; the flag says whether there was one.\<close>

fun reset_ctxs ::
  "hs_env \<Rightarrow> u32 \<Rightarrow> hh_ctx list \<Rightarrow> xrnic_local option \<Rightarrow> (hh_ctx list \<times> xrnic_local option \<times> bool) option dev" where
  "reset_ctxs env aw [] xlp = State_Monad.return (Some ([], xlp, False))"
| "reset_ctxs env aw (cx # cxs) xlp =
     (if cx_valid cx then do {
        r \<leftarrow> setup_qps env aw xlp False (cx_qp_num cx) 1 (if cx_sq_depth cx \<noteq> 0 then cx_sq_depth cx else 1);
        (case r of
           None \<Rightarrow> State_Monad.return None
         | Some xl' \<Rightarrow> do {
             s \<leftarrow> reset_ctxs env aw cxs (Some xl');
             State_Monad.return (map_option (\<lambda>(cxs', xlp', any). (cx\<lparr>cx_valid := False\<rparr> # cxs', xlp', True)) s)})}
      else do {
        s \<leftarrow> reset_ctxs env aw cxs xlp;
        State_Monad.return (map_option (\<lambda>(cxs', xlp', any). (cx # cxs', xlp', any)) s)})"

definition hh_reset :: "hs_env \<Rightarrow> hw_hs_dev \<Rightarrow> xrnic_local option \<Rightarrow> hs_result dev" where
  "hh_reset env d xlp = do {
     hh_dump_qp_stat env d xlp;
     xib_iow32 hh_base HH_REG_CTRL HH_CTRL_SOFT_RESET;
     r \<leftarrow> reset_ctxs env (hh_addr_width d) (hh_ctx_tab d) xlp;
     (case r of
        None \<Rightarrow> State_Monad.return None
      | Some (cxs, xlp', any) \<Rightarrow>
          (let d' = d\<lparr>hh_ctx_tab := cxs\<rparr> in
           if any then State_Monad.return (Some (0, d', xlp'))
           else do {
             let c = hh_rcfg d;
             s \<leftarrow> setup_qps env (hh_addr_width d) xlp' False (if rc_qp_num c \<noteq> 0 then rc_qp_num c else 1)
                   (if rc_qp_cnt c \<noteq> 0 then rc_qp_cnt c else 1) (if rc_sq_depth c \<noteq> 0 then rc_sq_depth c else 1);
             State_Monad.return (map_option (\<lambda>xl'. (0, d', Some xl')) s)}))}"

subsection \<open>Status, pattern and the demo\<close>

text \<open>The reads of one 64-bit value: the high word first, as the C expression is written.\<close>

definition read_64 :: "hardware \<Rightarrow> u32 \<Rightarrow> u32 \<Rightarrow> u64 dev" where
  "read_64 hw hi lo = do {
     h \<leftarrow> xib_ior32 hw hh_base hi;
     l \<leftarrow> xib_ior32 hw hh_base lo;
     State_Monad.return (push_bit 32 (ucast h) OR ucast l)}"

definition hh_read_status :: "hardware \<Rightarrow> bool \<Rightarrow> (int \<times> hh_status_rd) dev" where
  "hh_read_status hw copy_ok = do {
     s \<leftarrow> xib_ior32 hw hh_base HH_REG_STATUS;
     n \<leftarrow> xib_ior32 hw hh_base HH_REG_ROUND_CNT;
     t \<leftarrow> read_64 hw HH_REG_RTT_HI HH_REG_RTT_LO;
     l \<leftarrow> xib_ior32 hw hh_base HH_REG_LAST_RD;
     State_Monad.return (if copy_ok then 0 else - EFAULT, \<lparr>st_status = s, st_round_cnt = n, st_rtt = t, st_last_rd = l\<rparr>)}"

definition hh_set_pattern :: "hw_hs_dev \<Rightarrow> u32 option \<Rightarrow> (int \<times> hw_hs_dev) dev" where
  "hh_set_pattern d arg =
     (case arg of
        None \<Rightarrow> State_Monad.return (- EFAULT, d)
      | Some pat \<Rightarrow> do {
          xib_iow32 hh_base HH_REG_PATTERN pat;
          State_Monad.return (0, d\<lparr>hh_rcfg := (hh_rcfg d)\<lparr>rc_pattern := pat\<rparr>\<rparr>)})"

definition hh_set_wqe_idx :: "hw_hs_dev \<Rightarrow> u32 option \<Rightarrow> (int \<times> hw_hs_dev) dev" where
  "hh_set_wqe_idx d arg =
     (case arg of
        None \<Rightarrow> State_Monad.return (- EFAULT, d)
      | Some i \<Rightarrow> do {
          xib_iow32 hh_base HH_REG_RUN_WQE_IDX i;
          State_Monad.return (0, d\<lparr>hh_rcfg := (hh_rcfg d)\<lparr>rc_run_wqe_idx := i\<rparr>\<rparr>)})"

definition demo_refused :: "hh_demo_cfg \<Rightarrow> bool" where
  "demo_refused c \<longleftrightarrow> dc_syn_depth c = 0 \<or> dc_syn_depth c AND 63 \<noteq> 0 \<or> dc_cmd_cnt c = 0 \<or>
     dc_freq_span c AND (dc_freq_span c + 1) \<noteq> 0"

definition hh_demo_configure :: "hh_demo_cfg \<Rightarrow> int dev" where
  "hh_demo_configure c =
     (if demo_refused c then State_Monad.return (- EINVAL)
      else do {
        xib_iow32 hh_base HH_REG_FREQ_LO (ucast (dc_freq_num c AND 0xFFFFFFFF));
        xib_iow32 hh_base HH_REG_FREQ_HI (ucast (drop_bit 32 (dc_freq_num c)));
        xib_iow32 hh_base HH_REG_CMD_CNT (dc_cmd_cnt c);
        xib_iow32 hh_base HH_REG_DEMO_DEPTH (dc_syn_depth c);
        xib_iow32 hh_base HH_REG_FREQ_SPAN (dc_freq_span c);
        xib_iow32 hh_base HH_REG_LFSR_SEED (dc_lfsr_seed c);
        xib_iow32 hh_base HH_REG_DEMO_CTRL HH_DEMO_RESET;
        xib_iow32 hh_base HH_REG_DEMO_CTRL 0;
        State_Monad.return 0})"

definition hh_demo_start :: "int dev" where
  "hh_demo_start = do {xib_iow32 hh_base HH_REG_DEMO_CTRL HH_DEMO_START; State_Monad.return 0}"

definition hh_demo_stop :: "int dev" where
  "hh_demo_stop = do {
     xib_iow32 hh_base HH_REG_DEMO_CTRL HH_DEMO_RESET;
     xib_iow32 hh_base HH_REG_DEMO_CTRL 0;
     State_Monad.return 0}"

definition hh_trace_arm :: "int dev" where
  "hh_trace_arm = do {
     xib_iow32 hh_base HH_REG_TRACE_CTRL 1;
     xib_iow32 hh_base HH_REG_TRACE_CTRL 0;
     State_Monad.return 0}"

definition hh_trace_status_rd :: "hardware \<Rightarrow> bool \<Rightarrow> (int \<times> hh_trace_status) dev" where
  "hh_trace_status_rd hw copy_ok = do {
     n \<leftarrow> xib_ior32 hw hh_base HH_REG_TRACE_CNT;
     sts \<leftarrow> xib_ior32 hw hh_base HH_REG_TRACE_STS;
     State_Monad.return (if copy_ok then 0 else - EFAULT,
       \<lparr>ts_cnt = n, ts_full = (sts AND 1 \<noteq> 0), ts_sat = (sts AND 2 \<noteq> 0)\<rparr>)}"

definition hh_demo_status_rd :: "hardware \<Rightarrow> bool \<Rightarrow> (int \<times> hh_demo_status) dev" where
  "hh_demo_status_rd hw copy_ok = do {
     s \<leftarrow> xib_ior32 hw hh_base HH_REG_DEMO_STS;
     e \<leftarrow> xib_ior32 hw hh_base HH_REG_DEMO_ERR;
     n \<leftarrow> xib_ior32 hw hh_base HH_REG_CMD_CNT;
     dep \<leftarrow> xib_ior32 hw hh_base HH_REG_DEMO_DEPTH;
     f \<leftarrow> read_64 hw HH_REG_FREQ_HI HH_REG_FREQ_LO;
     State_Monad.return (if copy_ok then 0 else - EFAULT,
       \<lparr>ds_done = s AND 1, ds_err_cnt = e, ds_cmd_cnt = n, ds_syn_depth = dep, ds_freq_num = f\<rparr>)}"

subsection \<open>File operations\<close>

definition IOC :: "u32 \<Rightarrow> u32 \<Rightarrow> u32 \<Rightarrow> u32" where
  "IOC dir nr sz = push_bit 30 dir OR push_bit 16 sz OR push_bit 8 0x48 OR nr"

definition HH_MAGIC_NUM :: u32 where "HH_MAGIC_NUM = 0x48"
definition MAX_HW_HSK_FNS :: u32 where "MAX_HW_HSK_FNS = 16"
definition HH_CONFIG :: u32 where "HH_CONFIG = IOC 1 0 72"
definition HH_WQE_COMMIT :: u32 where "HH_WQE_COMMIT = IOC 1 1 56"
definition HH_START :: u32 where "HH_START = IOC 0 2 0"
definition HH_ABORT :: u32 where "HH_ABORT = IOC 0 3 0"
definition HH_RESET :: u32 where "HH_RESET = IOC 0 4 0"
definition HH_READ_STATUS :: u32 where "HH_READ_STATUS = IOC 2 5 24"
definition HH_SET_PATTERN :: u32 where "HH_SET_PATTERN = IOC 1 6 4"
definition HH_SET_WQE_IDX :: u32 where "HH_SET_WQE_IDX = IOC 1 7 4"
definition HH_QPCTX_COMMIT :: u32 where "HH_QPCTX_COMMIT = IOC 1 8 56"
definition HH_MR_REBASE :: u32 where "HH_MR_REBASE = IOC 1 9 16"
definition HH_DEMO_CFG :: u32 where "HH_DEMO_CFG = IOC 1 10 24"
definition HH_DEMO_START_RUN :: u32 where "HH_DEMO_START_RUN = IOC 0 11 0"
definition HH_DEMO_STOP_RUN :: u32 where "HH_DEMO_STOP_RUN = IOC 0 12 0"
definition HH_DEMO_STATUS :: u32 where "HH_DEMO_STATUS = IOC 2 13 24"
definition HH_TRACE_ARM :: u32 where "HH_TRACE_ARM = IOC 0 14 0"
definition HH_TRACE_STATUS :: u32 where "HH_TRACE_STATUS = IOC 2 15 16"

text \<open>The caller's memory at the address of the argument: whether it may be accessed, what copying each structure
  from it gives (\<open>None\<close>: \<open>copy_from_user\<close> fails), and whether \<open>copy_to_user\<close> succeeds.\<close>

record hh_user =
  usr_access_ok :: bool
  usr_round :: "hh_round_cfg option"
  usr_wqe :: "hh_wqe_cfg option"
  usr_qpctx :: "hh_qpctx_cfg option"
  usr_mr :: "hh_mr_rebase option"
  usr_demo :: "hh_demo_cfg option"
  usr_u32 :: "u32 option"
  usr_copy_ok :: bool

datatype hh_out = OutNone | OutStatus hh_status_rd | OutTrace hh_trace_status | OutDemo hh_demo_status

type_synonym hh_reply = "(int \<times> hh_out \<times> hw_hs_dev \<times> xrnic_local option) option"

definition no_out :: "hs_result dev \<Rightarrow> hh_reply dev" where
  "no_out m = do {r \<leftarrow> m; State_Monad.return (map_option (\<lambda>(ret, d, xlp). (ret, OutNone, d, xlp)) r)}"

definition ret_only :: "hw_hs_dev \<Rightarrow> xrnic_local option \<Rightarrow> int dev \<Rightarrow> hh_reply dev" where
  "ret_only d xlp m = do {ret \<leftarrow> m; State_Monad.return (Some (ret, OutNone, d, xlp))}"

definition with_dev :: "xrnic_local option \<Rightarrow> (int \<times> hw_hs_dev) dev \<Rightarrow> hh_reply dev" where
  "with_dev xlp m = do {r \<leftarrow> m; State_Monad.return (Some (fst r, OutNone, snd r, xlp))}"

definition with_out :: "hw_hs_dev \<Rightarrow> xrnic_local option \<Rightarrow> ('a \<Rightarrow> hh_out) \<Rightarrow> (int \<times> 'a) dev \<Rightarrow> hh_reply dev" where
  "with_out d xlp f m = do {
     r \<leftarrow> m; State_Monad.return (Some (fst r, if fst r = 0 then f (snd r) else OutNone, d, xlp))}"

definition from_user :: "hw_hs_dev \<Rightarrow> xrnic_local option \<Rightarrow> 'a option \<Rightarrow> ('a \<Rightarrow> hh_reply dev) \<Rightarrow> hh_reply dev" where
  "from_user d xlp arg f = (case arg of None \<Rightarrow> State_Monad.return (Some (- EFAULT, OutNone, d, xlp)) | Some x \<Rightarrow> f x)"

definition hh_switch :: "hs_env \<Rightarrow> hh_user \<Rightarrow> hw_hs_dev \<Rightarrow> xrnic_local option \<Rightarrow> u32 \<Rightarrow> hh_reply dev" where
  "hh_switch env u d xlp cmd =
     (if cmd = HH_CONFIG then from_user d xlp (usr_round u) (\<lambda>c. no_out (hw_hs_config env d xlp c))
      else if cmd = HH_WQE_COMMIT then from_user d xlp (usr_wqe u) (\<lambda>w. ret_only d xlp (hw_hs_wqe_commit w))
      else if cmd = HH_START then ret_only d xlp hh_start
      else if cmd = HH_ABORT then ret_only d xlp hh_abort
      else if cmd = HH_RESET then no_out (hh_reset env d xlp)
      else if cmd = HH_READ_STATUS then with_out d xlp OutStatus (hh_read_status (hs_hw env) (usr_copy_ok u))
      else if cmd = HH_SET_PATTERN then with_dev xlp (hh_set_pattern d (usr_u32 u))
      else if cmd = HH_SET_WQE_IDX then with_dev xlp (hh_set_wqe_idx d (usr_u32 u))
      else if cmd = HH_QPCTX_COMMIT then from_user d xlp (usr_qpctx u) (\<lambda>q. no_out (hw_hs_qpctx_commit env d xlp q))
      else if cmd = HH_MR_REBASE then from_user d xlp (usr_mr u) (\<lambda>m. no_out (hw_hs_mr_rebase d xlp m))
      else if cmd = HH_DEMO_CFG then from_user d xlp (usr_demo u) (\<lambda>c. ret_only d xlp (hh_demo_configure c))
      else if cmd = HH_DEMO_START_RUN then ret_only d xlp hh_demo_start
      else if cmd = HH_DEMO_STOP_RUN then ret_only d xlp hh_demo_stop
      else if cmd = HH_TRACE_ARM then ret_only d xlp hh_trace_arm
      else if cmd = HH_TRACE_STATUS then with_out d xlp OutTrace (hh_trace_status_rd (hs_hw env) (usr_copy_ok u))
      else if cmd = HH_DEMO_STATUS then with_out d xlp OutDemo (hh_demo_status_rd (hs_hw env) (usr_copy_ok u))
      else State_Monad.return (Some (- ENOTTY, OutNone, d, xlp)))"

definition hh_dev_ioctl :: "hs_env \<Rightarrow> hh_user \<Rightarrow> hw_hs_dev \<Rightarrow> xrnic_local option \<Rightarrow> u32 \<Rightarrow> hh_reply dev" where
  "hh_dev_ioctl env u d xlp cmd =
     (if IOC_TYPE cmd \<noteq> HH_MAGIC_NUM then State_Monad.return (Some (- ENOTTY, OutNone, d, xlp))
      else if MAX_HW_HSK_FNS \<le> IOC_NR cmd then State_Monad.return (Some (- ENOTTY, OutNone, d, xlp))
      else if IOC_DIR cmd AND 3 \<noteq> 0 \<and> \<not> usr_access_ok u then State_Monad.return (Some (- EFAULT, OutNone, d, xlp))
      else hh_switch env u d xlp cmd)"

definition hh_dev_open :: "hw_hs_dev \<Rightarrow> int \<times> hw_hs_dev" where
  "hh_dev_open d = (if mutx_locked d then (- 16, d) else (0, d\<lparr>mutx_locked := True\<rparr>))"

definition hh_dev_close :: "hs_env \<Rightarrow> hw_hs_dev \<Rightarrow> xrnic_local option \<Rightarrow> hs_result dev" where
  "hh_dev_close env d xlp = do {
     r \<leftarrow> hh_reset env d xlp;
     State_Monad.return (map_option (\<lambda>(err, d', xlp'). (err, d'\<lparr>mutx_locked := False\<rparr>, xlp')) r)}"

text \<open>The page frame that \<open>io_remap_pfn_range\<close> maps and the size, or the error.\<close>

definition hh_dev_mmap :: "hw_hs_dev option \<Rightarrow> u64 \<Rightarrow> u64 \<Rightarrow> u64 \<Rightarrow> int + u64 \<times> u64" where
  "hh_dev_mmap dp vm_start vm_end vm_pgoff =
     (case dp of
        None \<Rightarrow> Inl (- ENODEV)
      | Some d \<Rightarrow>
          let sz = vm_end - vm_start in
          if vm_pgoff \<noteq> 0 \<or> HH_REG_WIN_SIZE < sz then Inl (- EINVAL)
          else Inr (drop_bit 12 (hh_cfg_base d), sz))"

subsection \<open>Loading and unloading\<close>

text \<open>Pointers that kernel functions return: the driver only tests them for null.\<close>

datatype kptr = KNull | KErr | KOk

datatype hs_res = R_dev | R_map | R_chrdev | R_cdev | R_class | R_device

record init_env =
  ie_rnic_node :: bool
  ie_hh_node :: bool
  ie_kmalloc :: bool
  ie_addr_width :: "u32 option"
  ie_resource :: "u64 option"
  ie_num_qp :: "u32 option"
  ie_ioremap :: bool
  ie_chrdev :: bool
  ie_cdev_alloc :: bool
  ie_cdev_add :: bool
  ie_class :: kptr
  ie_device :: kptr

definition zero_rcfg :: hh_round_cfg where
  "zero_rcfg = \<lparr>rc_qp_num = 0, rc_qp_cnt = 0, rc_payload_len = 0, rc_pattern = 0, rc_data_buf = 0, rc_sq_base = 0,
     rc_sq_depth = 0, rc_flags = 0, rc_reply_to = 0, rc_timer_qp_sel = 0, rc_run_wqe_idx = 0, rc_reply_buf = 0,
     rc_reply_seq_off = 0, rc_reply_stride_log2 = 0\<rparr>"

definition fresh_hs_dev :: "u64 \<Rightarrow> u32 \<Rightarrow> hw_hs_dev" where
  "fresh_hs_dev base aw = \<lparr>hh_cfg_base = base, hh_rcfg = zero_rcfg, mutx_locked = False, hh_addr_width = aw,
     hh_ctx_tab = replicate HH_NUM_CTX \<lparr>cx_qp_num = 0, cx_sq_depth = 0, cx_valid = False\<rparr>\<rparr>"

text \<open>The return value, the device if loading succeeded, and the resources held afterwards.\<close>

definition hh_dev_init :: "init_env \<Rightarrow> int \<times> hw_hs_dev option \<times> hs_res list" where
  "hh_dev_init e =
     (if \<not> ie_rnic_node e then (- EFAULT, None, [])
      else if \<not> ie_hh_node e then (- EFAULT, None, [])
      else if \<not> ie_kmalloc e then (- ENOMEM, None, [])
      else case ie_addr_width e of
        None \<Rightarrow> (- EFAULT, None, [])
      | Some aw \<Rightarrow>
          if \<not> (aw = 32 \<or> aw = 64) then (- EFAULT, None, [])
          else case ie_resource e of
            None \<Rightarrow> (- EFAULT, None, [])
          | Some base \<Rightarrow>
              if ie_num_qp e = None then (- EFAULT, None, [])
              else if \<not> ie_ioremap e then (- EFAULT, None, [])
              else if \<not> ie_chrdev e then (- EFAULT, None, [])
              else if \<not> ie_cdev_alloc e then (- EFAULT, None, [])
              else if \<not> ie_cdev_add e then (- EFAULT, None, [R_cdev])
              else if ie_class e = KNull then (- EFAULT, None, [])
              else if ie_device e = KNull then (- EFAULT, None, [])
              else (0, Some (fresh_hs_dev base aw), [R_dev, R_map, R_chrdev, R_cdev] @
                     (if ie_class e = KOk then [R_class] else []) @ (if ie_device e = KOk then [R_device] else [])))"

text \<open>\<open>hh_dev_exit\<close> after a successful load: every pointer it tests is non-null.\<close>

definition hh_dev_exit :: "hs_res list \<Rightarrow> hs_res list" where
  "hh_dev_exit held =
     removeAll R_dev (removeAll R_map (removeAll R_chrdev (removeAll R_cdev (removeAll R_class (removeAll R_device held)))))"
end
