(* ===== verification/Hw_Hs_Session.thy ===== *)
theory Hw_Hs_Session
  imports Hw_Hs
begin

text \<open>
  What the hardware-handshake driver of \<open>Hw_Hs\<close> guarantees: which contexts and demo settings it accepts,
  what it stages before a strobe, how queue pairs enter and leave handshake mode, and that sessions are
  exclusive.  \<open>in_handshake\<close> and \<open>given_back\<close> are the two states of a queue pair's registers.
\<close>

unbundle bit_operations_syntax

subsection \<open>Accesses\<close>

lemma run_iow32 [simp, dev_run]: "run_state (xib_iow32 b off v) log = ((), log @ [IoW (b + off) v])"
  by (simp add: xib_iow32_def)

lemma run_ior32 [simp, dev_run]: "run_state (xib_ior32 hw b off) log = (hw log (b + off), log @ [IoR (b + off)])"
  by (simp add: xib_ior32_def)

lemma touches_iow32 [touches_intros]: "b + off \<in> R \<Longrightarrow> touches (xib_iow32 b off v) R"
  unfolding xib_iow32_def by (rule touches_iow)

lemma touches_ior32 [touches_intros]: "touches (xib_ior32 hw b off) R"
  unfolding xib_ior32_def by (rule touches_ior)

lemma ernic_base_add [simp]: "ernic_base + off = off"
  by (simp add: ernic_base_def)

text \<open>The registers of the engine's window.\<close>

definition hh_window :: "u32 set" where
  "hh_window = {off. bit off 31}"

lemma hh_reg_in_window: "off < 0x80000000 \<Longrightarrow> hh_base + off \<in> hh_window"
proof -
  assume o: "off < 0x80000000"
  then have "unat (hh_base + off) = 0x80000000 + unat off"
    unfolding hh_base_def by (subst unat_add_no_wrap) (auto simp: word_less_nat_alt)
  then have "bit (unat (hh_base + off)) 31"
    using o by (simp add: bit_iff_odd word_less_nat_alt div_add_self1)
  then show ?thesis by (simp add: hh_window_def bit_unsigned_iff)
qed

lemma qreg_not_hh: "unat q < 2 ^ 12 \<Longrightarrow> unat ofs < 0x100 \<Longrightarrow> qreg ofs q \<notin> hh_window"
proof -
  assume "unat q < 2 ^ 12" "unat ofs < 0x100"
  then have "unat (qreg ofs q) < 2 ^ 31" by (simp add: unat_qreg)
  then have "\<not> bit (unat (qreg ofs q)) 31" by (auto simp: bit_iff_odd)
  then show ?thesis by (simp add: hh_window_def bit_unsigned_iff)
qed

lemma greg_not_qreg: "unat q < 2 ^ 12 \<Longrightarrow> unat ofs < 0x100 \<Longrightarrow> unat g < 0x80000 \<Longrightarrow> greg g \<noteq> qreg ofs q"
proof -
  assume a: "unat q < 2 ^ 12" "unat ofs < 0x100" "unat g < 0x80000"
  have "unat (greg g) = 0x100000 + unat g"
    using a(3) unfolding greg_def XRNIC_GLOBAL_REG_OFFSET_def by (subst unat_add_no_wrap) auto
  then show ?thesis using a unat_qreg [OF a(1,2)] by auto
qed

subsection \<open>Which contexts are accepted\<close>

text \<open>The specification of a usable reply slot, on numbers.\<close>

definition reply_slot_spec :: "hh_qpctx_cfg \<Rightarrow> bool" where
  "reply_slot_spec qc \<longleftrightarrow> unat (qc_reply_stride_log2 qc) < 32 \<and> 0 < unat (qc_reply_seq_off qc) \<and>
     4 dvd unat (qc_reply_seq_off qc) \<and> unat (qc_reply_seq_off qc) + 4 \<le> 2 ^ unat (qc_reply_stride_log2 qc)"

lemma and_3_iff: "(x::u32) AND 3 = 0 \<longleftrightarrow> 4 dvd unat x"
proof -
  have "x AND 3 = take_bit 2 x" by (simp add: take_bit_eq_mask mask_eq_exp_minus_1)
  then show ?thesis by (simp add: word_unat_eq_iff take_bit_eq_mod unat_mod mod_eq_0_iff_dvd)
qed

lemma and_63_iff: "(x::u32) AND 63 = 0 \<longleftrightarrow> 64 dvd unat x"
proof -
  have "x AND 63 = take_bit 6 x" by (simp add: take_bit_eq_mask mask_eq_exp_minus_1)
  then show ?thesis by (simp add: word_unat_eq_iff take_bit_eq_mod unat_mod mod_eq_0_iff_dvd)
qed

lemma unat_up: "unat (ucast (x::u32) :: u64) = unat x"
  using unsigned_less [of x] by (simp add: unsigned_ucast_eq take_bit_nat_eq_self)

lemma unat_slot: "k < 32 \<Longrightarrow> unat (push_bit k (1::u32)) = 2 ^ k"
proof -
  assume k: "k < 32"
  then have "(2::nat) ^ k < 2 ^ 32" by (rule power_strict_increasing) simp
  then have "unat (of_nat (2 ^ k) :: u32) = 2 ^ k" using k by (simp add: unsigned_of_nat take_bit_nat_eq_self del: of_nat_power)
  then show ?thesis by (simp add: push_bit_eq_mult)
qed

lemma reply_slot_ok_iff: "reply_slot_ok qc \<longleftrightarrow> reply_slot_spec qc"
proof (cases "unat (qc_reply_stride_log2 qc) < 32")
  case True
  let ?o = "qc_reply_seq_off qc" and ?k = "unat (qc_reply_stride_log2 qc)"
  have "unat ?o < 2 ^ 32" using unsigned_less [of ?o] by simp
  then have l: "unat (ucast ?o + 4 :: u64) = unat ?o + 4"
    by (subst unat_add_no_wrap) (simp_all add: unat_up)
  have r: "unat (ucast (push_bit ?k (1::u32)) :: u64) = 2 ^ ?k"
    using unat_slot [OF True] by (simp add: unat_up)
  have "(ucast ?o + 4 > (ucast (push_bit ?k 1 :: u32) :: u64)) \<longleftrightarrow> \<not> unat ?o + 4 \<le> 2 ^ ?k"
    unfolding word_less_nat_alt l r by auto
  then show ?thesis
    using True unfolding reply_slot_ok_def reply_slot_spec_def Let_def and_3_iff
    by (auto simp: word_le_nat_alt word_unat_eq_iff)
next
  case False
  then show ?thesis by (simp add: reply_slot_ok_def reply_slot_spec_def word_le_nat_alt)
qed

lemma flag_reply_poll: "f AND HH_FLAG_REPLY_POLL \<noteq> 0 \<longleftrightarrow> bit f 3"
proof -
  have "f AND HH_FLAG_REPLY_POLL \<noteq> 0 \<longleftrightarrow> f AND push_bit 3 1 \<noteq> 0" by (simp add: HH_FLAG_REPLY_POLL_def push_bit_of_1)
  also have "\<dots> \<longleftrightarrow> bit f 3" by (simp add: bit_iff_and_push_bit_not_eq_0)
  finally show ?thesis .
qed


text \<open>C26: a queue-pair context is accepted exactly when its index is one of the eight entries of the table and, if the
  reply is polled, the sequence number is an aligned word inside the reply slot but not at its start.  A
  context that is refused changes neither a register nor the driver's data.\<close>

theorem qpctx_commit_accepts:
  assumes "run_state (hw_hs_qpctx_commit env d xlp qc) log = (Some (ret, d', xlp'), log')"
  shows "(ret = 0 \<longleftrightarrow> unat (qc_ctx_idx qc) < 8 \<and> (bit (qc_flags qc) 3 \<longrightarrow> reply_slot_spec qc)) \<and>
    (ret \<noteq> 0 \<longrightarrow> ret = - EINVAL \<and> d' = d \<and> xlp' = xlp \<and> log' = log)"
proof (cases "unat (qc_ctx_idx qc) < 8 \<and> (bit (qc_flags qc) 3 \<longrightarrow> reply_slot_spec qc)")
  case True
  then have "\<not> of_nat HH_NUM_CTX \<le> qc_ctx_idx qc" "\<not> (qc_flags qc AND HH_FLAG_REPLY_POLL \<noteq> 0 \<and> \<not> reply_slot_ok qc)"
    by (auto simp: HH_NUM_CTX_def word_le_nat_alt flag_reply_poll reply_slot_ok_iff)
  then have "ret = 0" using assms by (auto simp: hw_hs_qpctx_commit_def split: prod.splits)
  then show ?thesis using True by simp
next
  case False
  then have "of_nat HH_NUM_CTX \<le> qc_ctx_idx qc \<or> (qc_flags qc AND HH_FLAG_REPLY_POLL \<noteq> 0 \<and> \<not> reply_slot_ok qc)"
    by (auto simp: HH_NUM_CTX_def word_le_nat_alt flag_reply_poll reply_slot_ok_iff)
  then have "ret = - EINVAL \<and> d' = d \<and> xlp' = xlp \<and> log' = log"
    using assms unfolding hw_hs_qpctx_commit_def by (simp add: if_split [of "\<lambda>m. run_state m log = r" for r] del: run_state_bind) (metis)
  then show ?thesis using False by simp
qed

subsection \<open>The demo\<close>

text \<open>the settings of the demo are accepted exactly when the table has a positive multiple of 64 bytes, at least one
  command is sent, and the jitter mask is \<open>2 ^ n - 1\<close> for some \<open>n\<close>: the bit trick implements that
  specification.  Refused settings write nothing.\<close>

theorem demo_configure_accepts:
  "(fst (run_state (hh_demo_configure c) log) = 0 \<longleftrightarrow>
     0 < unat (dc_syn_depth c) \<and> 64 dvd unat (dc_syn_depth c) \<and> 0 < unat (dc_cmd_cnt c) \<and>
     (\<exists>n\<le>32. unat (dc_freq_span c) = 2 ^ n - 1)) \<and>
   (demo_refused c \<longrightarrow> run_state (hh_demo_configure c) log = (- EINVAL, log))"
proof -
  have "demo_refused c \<longleftrightarrow> \<not> (0 < unat (dc_syn_depth c) \<and> 64 dvd unat (dc_syn_depth c) \<and> 0 < unat (dc_cmd_cnt c) \<and>
     (\<exists>n\<le>32. unat (dc_freq_span c) = 2 ^ n - 1))"
    unfolding demo_refused_def and_63_iff mask_test by (auto simp: word_unat_eq_iff)
  then show ?thesis by (auto simp: hh_demo_configure_def)
qed

lemma hh_regs_differ [simp]: "hh_base + a = hh_base + b \<longleftrightarrow> a = b"
  by simp

lemma u64_of_swap: "push_bit 32 (ucast (h::u32)) OR ucast (l::u32) = (ucast l OR push_bit 32 (ucast h) :: u64)"
  by (rule or.commute)

lemma ucast_low32: "ucast ((x::u64) AND 0xFFFFFFFF) = (ucast x :: u32)"
proof -
  have "x AND 0xFFFFFFFF = take_bit 32 x" by (simp add: take_bit_eq_mask mask_eq_exp_minus_1)
  then show ?thesis by (simp only:) (rule bit_word_eqI, auto simp: bit_simps)
qed

text \<open>on hardware whose demo registers keep what is written, the status reports the settings that were accepted.\<close>

theorem demo_status_roundtrip:
  assumes "readback hw ((+) hh_base ` {HH_REG_CMD_CNT, HH_REG_DEMO_DEPTH, HH_REG_FREQ_HI, HH_REG_FREQ_LO})"
    and "run_state (hh_demo_configure c) log = (0, log')"
  shows "\<exists>st. fst (run_state (hh_demo_status_rd hw True) log') = (0, st) \<and>
    ds_cmd_cnt st = dc_cmd_cnt c \<and> ds_syn_depth st = dc_syn_depth c \<and> ds_freq_num st = dc_freq_num c"
proof -
  have rb: "hw l (hh_base + r) = reg_value (hw []) l (hh_base + r)"
    if "r \<in> {HH_REG_CMD_CNT, HH_REG_DEMO_DEPTH, HH_REG_FREQ_HI, HH_REG_FREQ_LO}" for l r
    using assms(1) that unfolding readback_def by auto
  have "\<not> demo_refused c" using assms(2) by (auto simp: hh_demo_configure_def)
  then show ?thesis
    using assms(2) by (auto simp: hh_demo_configure_def hh_demo_status_rd_def read_64_def rb hh_reg_defs ucast_low32
        u64_of_swap split_64)
qed

subsection \<open>Stored work requests\<close>

lemma ring_cfg_fields:
  "ring_cfg w AND 1 = (if wq_ring_en w \<noteq> 0 then 1 else 0)"
  "drop_bit 8 (ring_cfg w) AND 0x3F = wq_stride_local_log2 w AND 0x3F"
  "drop_bit 16 (ring_cfg w) AND 0x3F = wq_stride_remote_log2 w AND 0x3F"
proof -
  have m: "(x::u32) AND 0x3F = take_bit 6 x" "x AND 1 = take_bit 1 x" for x
    by (simp_all add: take_bit_eq_mask mask_eq_exp_minus_1)
  show "ring_cfg w AND 1 = (if wq_ring_en w \<noteq> 0 then 1 else 0)"
    unfolding ring_cfg_def m by (rule bit_word_eqI) (auto simp: bit_simps)
  show "drop_bit 8 (ring_cfg w) AND 0x3F = wq_stride_local_log2 w AND 0x3F"
    unfolding ring_cfg_def m by (rule bit_word_eqI) (auto simp: bit_simps)
  show "drop_bit 16 (ring_cfg w) AND 0x3F = wq_stride_remote_log2 w AND 0x3F"
    unfolding ring_cfg_def m by (rule bit_word_eqI) (auto simp: bit_simps)
qed

lemma and_mask_small: "unat (x::u32) < 2 ^ k \<Longrightarrow> k \<le> 32 \<Longrightarrow> x AND mask k = x"
  by (simp add: take_bit_eq_mask [symmetric] word_unat_eq_iff unsigned_take_bit_eq take_bit_nat_eq_self)

text \<open>a work request is stored with one strobe, the last write, at a moment when the staging registers hold all its
  fields: those that fit the hardware's widths are kept exactly, and the ring settings can be read back
  from their packed register.\<close>

theorem wqe_commit_stages:
  assumes "unat (wq_opcode w) < 4" "unat (wq_wrid w) < 2 ^ 16" "unat (wq_ring_len w) < 2 ^ 16"
    "unat (wq_stride_local_log2 w) < 64" "unat (wq_stride_remote_log2 w) < 64"
  shows "\<exists>staged. run_state (hw_hs_wqe_commit w) log = (0, staged @ [IoW (hh_base + HH_REG_WQE_COMMIT) (wq_idx w)]) \<and>
    (let regs = (\<lambda>r. reg_value init staged (hh_base + r)); ring = regs HH_REG_WQE_RING_CFG in
      regs HH_REG_WQE_OPCODE = wq_opcode w \<and> regs HH_REG_WQE_XFER_LEN = wq_xfer_len w \<and>
      regs HH_REG_WQE_RKEY = wq_rkey w \<and> regs HH_REG_WQE_VA_LO = wq_va_lsb w \<and> regs HH_REG_WQE_VA_HI = wq_va_msb w \<and>
      u64_of regs HH_REG_WQE_OFFS_LO HH_REG_WQE_OFFS_HI = wq_local_offset w \<and>
      regs HH_REG_WQE_WRID = wq_wrid w \<and> regs HH_REG_WQE_QP_REF = wq_qp_ref w \<and>
      regs HH_REG_WQE_RING_LEN = wq_ring_len w \<and> (bit ring 0 \<longleftrightarrow> wq_ring_en w \<noteq> 0) \<and>
      drop_bit 8 ring AND 0x3F = wq_stride_local_log2 w \<and> drop_bit 16 ring AND 0x3F = wq_stride_remote_log2 w)"
proof -
  have m: "(3::u32) = mask 2" "(0xFFFF::u32) = mask 16" "(0x3F::u32) = mask 6" by (simp_all add: mask_eq_exp_minus_1)
  have f: "wq_opcode w AND 3 = wq_opcode w" "wq_wrid w AND 0xFFFF = wq_wrid w" "wq_ring_len w AND 0xFFFF = wq_ring_len w"
    "wq_stride_local_log2 w AND 0x3F = wq_stride_local_log2 w" "wq_stride_remote_log2 w AND 0x3F = wq_stride_remote_log2 w"
    unfolding m by (rule and_mask_small, use assms in simp_all)+
  have b: "bit (ring_cfg w) 0 \<longleftrightarrow> wq_ring_en w \<noteq> 0"
    by (simp add: ring_cfg_def bit_simps)
  show ?thesis
    by (simp add: hw_hs_wqe_commit_def Let_def u64_of_def hh_reg_defs split_64 ring_cfg_fields f b)
qed

subsection \<open>Into handshake mode\<close>

lemmas hs_qregs = XRNIC_SQ_PROD_IDX_def XRNIC_STAT_CUR_SQ_PTR_def XRNIC_CQ_HEAD_PTR_def XRNIC_CQ_DB_ADDR_LSB_def
  XRNIC_CQ_DB_ADDR_MSB_def XRNIC_QUEUE_DEPTH_def XRNIC_QP_CONF_def XRNIC_SNDQ_BUF_BASE_LSB_def XRNIC_SNDQ_BUF_BASE_MSB_def

text \<open>The registers \<open>setup_qps\<close> reads before it changes them; the model of the hardware must keep them.\<close>

definition hs_storage :: "u32 \<Rightarrow> u32 set" where
  "hs_storage q = {XRNIC_ADV_CONF, XRNIC_QUEUE_DEPTH q, XRNIC_QP_CONF q}"

lemma storageD:
  assumes "readback hw (hs_storage q)"
  shows "hw l XRNIC_ADV_CONF = reg_value (hw []) l XRNIC_ADV_CONF"
    "hw l (qreg 0x3C q) = reg_value (hw []) l (qreg 0x3C q)" "hw l (qreg 0 q) = reg_value (hw []) l (qreg 0 q)"
  using assms unfolding readback_def hs_storage_def by (auto simp: XRNIC_QUEUE_DEPTH_def XRNIC_QP_CONF_def)

lemma adv_conf_not_qreg:
  assumes "unat q < 2 ^ 12" "unat ofs < 0x100"
  shows "XRNIC_ADV_CONF \<noteq> qreg ofs q" "qreg ofs q \<noteq> XRNIC_ADV_CONF"
  using greg_not_qreg [OF assms, of 4] by (auto simp: XRNIC_ADV_CONF_def)

text \<open>What one queue pair's registers hold after it was put in handshake mode, in terms of what they held before.\<close>

definition in_handshake :: "(u32 \<Rightarrow> u32) \<Rightarrow> u32 \<Rightarrow> u32 \<Rightarrow> (u32 \<Rightarrow> u32) \<Rightarrow> bool" where
  "in_handshake old q depth regs \<longleftrightarrow>
     regs (XRNIC_SQ_PROD_IDX q) = 0 \<and> regs (XRNIC_STAT_CUR_SQ_PTR q) = 0 \<and> regs (XRNIC_CQ_HEAD_PTR q) = 0 \<and>
     regs (XRNIC_CQ_DB_ADDR_LSB q) = q + 1 \<and>
     regs (XRNIC_QUEUE_DEPTH q) = (old (XRNIC_QUEUE_DEPTH q) AND NOT 0xFFFF) OR (depth AND 0xFFFF) \<and>
     regs (XRNIC_QP_CONF q) = old (XRNIC_QP_CONF q) AND NOT QP_HW_HSK_DIS AND NOT QP_CQE_EN \<and>
     \<not> bit (regs XRNIC_ADV_CONF) 0"

lemma setup_qps_en:
  assumes "readback (hs_hw env) (hs_storage q)" "unat q < 2 ^ 12"
  shows "\<exists>log'. run_state (setup_qps env aw (Some xl) True q 1 depth) log = (Some xl, log') \<and>
    in_handshake (reg_value (hs_hw env []) log) q depth (reg_value (hs_hw env []) log') \<and>
    (\<forall>ofs. unat ofs < 0x100 \<longrightarrow> ofs \<notin> {0x38, 0x8C, 0x30, 0x28, 0x2C, 0x3C, 0} \<longrightarrow>
       reg_value (hs_hw env []) log' (qreg ofs q) = reg_value (hs_hw env []) log (qreg ofs q))"
  using storageD [OF assms(1)] adv_conf_not_qreg [OF assms(2)]
  by (simp add: setup_qps_def setup_qp_def reset_ptrs_def setup_qp_en_def hs_qregs in_handshake_def bit_simps)

lemma touches_option [touches_intros]:
  "touches m R \<Longrightarrow> (\<And>x. touches (f x) R) \<Longrightarrow> touches (case r of None \<Rightarrow> m | Some x \<Rightarrow> f x) R"
  by (cases r) simp_all

lemma touches_option_pair [touches_intros]:
  "touches m R \<Longrightarrow> (\<And>x y. touches (f x y) R) \<Longrightarrow> touches (case r of None \<Rightarrow> m | Some (x, y) \<Rightarrow> f x y) R"
  by (cases r) auto

lemma touches_mono: "touches m R \<Longrightarrow> R \<subseteq> S \<Longrightarrow> touches m S"
  unfolding touches_def by (meson subsetD)

lemma touches_setup_qp: "touches (setup_qp env aw en depth q x) (qp_window q)"
  unfolding setup_qp_def reset_ptrs_def setup_qp_en_def setup_qp_dis_def
  by (intro touches_intros) (auto simp: hs_qregs)

lemma touches_setup_qps: "touches (setup_qps env aw xlp en q 1 depth) (insert XRNIC_ADV_CONF (qp_window q))"
proof -
  have "touches (setup_loop env aw en depth q (unat (1::u32)) x) (insert XRNIC_ADV_CONF (qp_window q))" for x
    by (simp, intro touches_intros touches_mono [OF touches_setup_qp]) (auto intro: touches_return split: option.splits)
  then show ?thesis unfolding setup_qps_def by (intro touches_intros) auto
qed

lemma stage_qpctx_run:
  "\<exists>staged. run_state (stage_qpctx qc) log =
      ((), staged @ [IoW (hh_base + HH_REG_QPCTX_COMMIT) (qc_ctx_idx qc OR (if qc_rebind qc \<noteq> 0 then HH_QPCTX_REBIND else 0))]) \<and>
     (\<exists>new. staged = log @ new) \<and>
     (let regs = (\<lambda>r. reg_value init staged (hh_base + r)) in
      regs HH_REG_QP_NUM = qc_qp_num qc \<and> u64_of regs HH_REG_SQBASE_LO HH_REG_SQBASE_HI = qc_sq_base qc \<and>
      regs HH_REG_SQ_DEPTH = qpctx_depth qc \<and> u64_of regs HH_REG_REPLY_BUF_LO HH_REG_REPLY_BUF_HI = qc_reply_buf qc \<and>
      regs HH_REG_FLAGS = qc_flags qc \<and> regs HH_REG_REPLY_TO = qc_reply_to qc \<and>
      regs HH_REG_REPLY_SEQ_OFF = qc_reply_seq_off qc \<and> regs HH_REG_REPLY_RING = qc_reply_stride_log2 qc AND 0x3F)"
  by (simp add: stage_qpctx_def Let_def u64_of_def hh_reg_defs split_64)

lemma touches_stage_qpctx: "touches (stage_qpctx qc) hh_window"
  unfolding stage_qpctx_def by (intro touches_intros hh_reg_in_window) (simp_all add: hh_reg_defs)

text \<open>a context that is changed without a rebind writes registers of the engine only: the send queue of the
  RDMA core keeps its place, and the two producer indices stay in step.\<close>

theorem qpctx_config_only:
  assumes "qc_rebind qc = 0" "\<not> bit off 31"
  shows "reg_value init (snd (run_state (hw_hs_qpctx_commit env d xlp qc) log)) off = reg_value init log off"
proof -
  have "touches (hw_hs_qpctx_commit env d xlp qc) hh_window"
    unfolding hw_hs_qpctx_commit_def rebind_ernic_def using assms(1)
    by (simp, intro touches_intros touches_stage_qpctx conjI impI)
  moreover have "off \<notin> hh_window" using assms(2) by (simp add: hh_window_def)
  ultimately show ?thesis by (rule touches_keeps)
qed

lemma commit_run:
  assumes ok: "unat (qc_ctx_idx qc) < 8" "bit (qc_flags qc) 3 \<longrightarrow> reply_slot_spec qc"
    and rb: "qc_rebind qc \<noteq> 0" and hw: "readback (hs_hw env) (hs_storage (qc_qp_num qc))" "unat (qc_qp_num qc) < 2 ^ 12"
  shows "\<exists>staged rest log'. run_state (hw_hs_qpctx_commit env d (Some x) qc) log = (Some (0, set_ctx qc d, Some x), log') \<and>
    log' = staged @ IoW (hh_base + HH_REG_QPCTX_COMMIT) (qc_ctx_idx qc OR HH_QPCTX_REBIND) # rest \<and>
    (let st = (\<lambda>r. reg_value (hs_hw env []) staged (hh_base + r)); regs = reg_value (hs_hw env []) log' in
      st HH_REG_QP_NUM = qc_qp_num qc \<and> u64_of st HH_REG_SQBASE_LO HH_REG_SQBASE_HI = qc_sq_base qc \<and>
      st HH_REG_SQ_DEPTH = qpctx_depth qc \<and> u64_of st HH_REG_REPLY_BUF_LO HH_REG_REPLY_BUF_HI = qc_reply_buf qc \<and>
      st HH_REG_FLAGS = qc_flags qc \<and>
      (hh_addr_width d = 64 \<longrightarrow>
        u64_of regs (XRNIC_SNDQ_BUF_BASE_LSB (qc_qp_num qc)) (XRNIC_SNDQ_BUF_BASE_MSB (qc_qp_num qc)) = qc_sq_base qc) \<and>
      in_handshake (reg_value (hs_hw env []) log) (qc_qp_num qc) (qpctx_depth qc) regs)"
proof -
  let ?q = "qc_qp_num qc" and ?init = "hs_hw env []"
  have go: "\<not> of_nat HH_NUM_CTX \<le> qc_ctx_idx qc" "\<not> (qc_flags qc AND HH_FLAG_REPLY_POLL \<noteq> 0 \<and> \<not> reply_slot_ok qc)"
    using ok by (auto simp: HH_NUM_CTX_def word_le_nat_alt flag_reply_poll reply_slot_ok_iff)
  obtain staged log1 where st: "run_state (stage_qpctx qc) log = ((), log1)"
    "log1 = staged @ [IoW (hh_base + HH_REG_QPCTX_COMMIT) (qc_ctx_idx qc OR HH_QPCTX_REBIND)]"
    and f: "let regs = (\<lambda>r. reg_value ?init staged (hh_base + r)) in
      regs HH_REG_QP_NUM = qc_qp_num qc \<and> u64_of regs HH_REG_SQBASE_LO HH_REG_SQBASE_HI = qc_sq_base qc \<and>
      regs HH_REG_SQ_DEPTH = qpctx_depth qc \<and> u64_of regs HH_REG_REPLY_BUF_LO HH_REG_REPLY_BUF_HI = qc_reply_buf qc \<and>
      regs HH_REG_FLAGS = qc_flags qc"
    using stage_qpctx_run [of qc log ?init] rb by (auto simp: Let_def)
  let ?aw = "hh_addr_width d"
  define log2 where "log2 = log1 @ [IoW (XRNIC_SNDQ_BUF_BASE_LSB ?q) (ucast (qc_sq_base qc))] @
    (if ?aw = 64 then [IoW (XRNIC_SNDQ_BUF_BASE_MSB ?q) (ucast (drop_bit 32 (qc_sq_base qc)))] else [])"
  obtain log' where e: "run_state (setup_qps env ?aw (Some x) True ?q 1 (qpctx_depth qc)) log2 = (Some x, log')"
      "in_handshake (reg_value ?init log2) ?q (qpctx_depth qc) (reg_value ?init log')"
    and k: "\<And>ofs. unat ofs < 0x100 \<Longrightarrow> ofs \<notin> {0x38, 0x8C, 0x30, 0x28, 0x2C, 0x3C, 0} \<Longrightarrow>
       reg_value ?init log' (qreg ofs ?q) = reg_value ?init log2 (qreg ofs ?q)"
    using setup_qps_en [OF hw, of ?aw x "qpctx_depth qc" log2] by blast
  have run: "run_state (hw_hs_qpctx_commit env d (Some x) qc) log = (Some (0, set_ctx qc d, Some x), log')"
    unfolding hw_hs_qpctx_commit_def rebind_ernic_def
    using go rb st e(1) by (cases "?aw = 64") (simp_all add: log2_def)
  have same: "reg_value ?init log2 (qreg ofs ?q) = reg_value ?init log (qreg ofs ?q)"
    if "ofs \<in> {0x3C, 0}" for ofs
  proof -
    have "reg_value ?init log1 (qreg ofs ?q) = reg_value ?init log (qreg ofs ?q)"
      using touches_keeps [OF touches_stage_qpctx, of "qreg ofs ?q" ?init qc log] st(1)
        qreg_not_hh [OF hw(2), of ofs] that by auto
    then show ?thesis using that by (auto simp: log2_def hs_qregs)
  qed
  have hs: "in_handshake (reg_value ?init log) ?q (qpctx_depth qc) (reg_value ?init log')"
    using e(2) same by (simp add: in_handshake_def hs_qregs)
  have base: "?aw = 64 \<longrightarrow> u64_of (reg_value ?init log') (XRNIC_SNDQ_BUF_BASE_LSB ?q) (XRNIC_SNDQ_BUF_BASE_MSB ?q) = qc_sq_base qc"
    using k [of "0x10"] k [of "0xC8"] by (simp add: u64_of_def hs_qregs log2_def split_64)
  have "touches (setup_qps env ?aw (Some x) True ?q 1 (qpctx_depth qc)) (insert XRNIC_ADV_CONF (qp_window ?q))"
    by (rule touches_setup_qps)
  then obtain more where "log' = log2 @ more" using e(1) unfolding touches_def by (metis snd_conv)
  then have "\<exists>rest. log' = staged @ IoW (hh_base + HH_REG_QPCTX_COMMIT) (qc_ctx_idx qc OR HH_QPCTX_REBIND) # rest"
    by (simp add: log2_def st(2))
  then show ?thesis using run f hs base by (auto simp: Let_def)
qed


subsection \<open>Out of handshake mode\<close>

text \<open>A queue pair that was given back: pointers reset, the user's depth, and handshake mode disabled.\<close>

definition given_back :: "hs_env \<Rightarrow> u32 \<Rightarrow> (u32 \<Rightarrow> u32) \<Rightarrow> bool" where
  "given_back env q regs \<longleftrightarrow>
     regs (XRNIC_SQ_PROD_IDX q) = 0 \<and> regs (XRNIC_STAT_CUR_SQ_PTR q) = 0 \<and> regs (XRNIC_CQ_HEAD_PTR q) = 0 \<and>
     map_option (take_bit 16) (get_user_sq_depth env q) = Some (take_bit 16 (regs (XRNIC_QUEUE_DEPTH q))) \<and>
     bit (regs (XRNIC_QP_CONF q)) 4"

lemma given_back_cong:
  "given_back env q r \<Longrightarrow> (\<And>ofs. unat ofs < 0x100 \<Longrightarrow> s (qreg ofs q) = r (qreg ofs q)) \<Longrightarrow> given_back env q s"
  by (simp add: given_back_def hs_qregs)

text \<open>What it takes for a context to be given back: the queue pair exists, its doorbell word too, and the hardware
  keeps the registers that are read.\<close>

definition can_give_back :: "hs_env \<Rightarrow> nat \<Rightarrow> u32 \<Rightarrow> bool" where
  "can_give_back env n q \<longleftrightarrow> unat q < 2 ^ 12 \<and> unat q < n \<and> get_user_sq_depth env q \<noteq> None \<and> readback (hs_hw env) (hs_storage q)"

lemma low16_or: "take_bit 16 (((v::u32) AND NOT 0xFFFF) OR d) = take_bit 16 d"
proof -
  have "(0xFFFF::u32) = mask 16" by (simp add: mask_eq_exp_minus_1)
  then show ?thesis by (simp only:) (rule bit_word_eqI, auto simp: bit_simps)
qed

lemma bit_or_hsk: "bit ((v::u32) OR QP_HW_HSK_DIS) 4"
proof -
  have h: "QP_HW_HSK_DIS = push_bit 4 1" by (simp add: QP_HW_HSK_DIS_def)
  show ?thesis unfolding h by (simp only: bit_or_iff bit_push_bit_iff bit_1_iff) simp
qed

lemma setup_qps_dis:
  assumes "can_give_back env (length (qp1_sq_db x)) q"
  shows "\<exists>x' log'. run_state (setup_qps env aw (Some x) False q 1 depth) log = (Some x', log') \<and>
    length (qp1_sq_db x') = length (qp1_sq_db x) \<and> given_back env q (reg_value (hs_hw env []) log') \<and>
    (\<forall>n\<noteq>4. bit (reg_value (hs_hw env []) log' (XRNIC_QP_CONF q)) n = bit (reg_value (hs_hw env []) log (XRNIC_QP_CONF q)) n)"
proof -
  have q: "unat q < 2 ^ 12" "unat q < length (qp1_sq_db x)" "readback (hs_hw env) (hs_storage q)"
    using assms by (auto simp: can_give_back_def)
  obtain du where du: "get_user_sq_depth env q = Some du" using assms by (auto simp: can_give_back_def)
  obtain a x' where db: "xrnic_get_sq_db_addr x (unat q) = Some (a, x')" "length (qp1_sq_db x') = length (qp1_sq_db x)"
    using q(2) by (auto simp: xrnic_get_sq_db_addr_def)
  have h: "QP_HW_HSK_DIS = push_bit 4 1" by (simp add: QP_HW_HSK_DIS_def)
  have other: "bit ((v::u32) OR QP_HW_HSK_DIS) n = bit v n" if "n \<noteq> 4" for v n
    unfolding h using that by (auto simp only: bit_or_iff bit_push_bit_iff bit_1_iff)
  show ?thesis
    using storageD [OF q(3)] adv_conf_not_qreg [OF q(1)] du db
    by (simp add: setup_qps_def setup_qp_def reset_ptrs_def setup_qp_dis_def hs_qregs given_back_def low16_or bit_or_hsk other)
qed

lemma setup_qps_frame:
  assumes "unat q < 2 ^ 12" "unat q' < 2 ^ 12" "q \<noteq> q'" "unat ofs < 0x100"
  shows "reg_value init (snd (run_state (setup_qps env aw xlp en q 1 depth) log)) (qreg ofs q') = reg_value init log (qreg ofs q')"
proof (rule touches_keeps [OF touches_setup_qps])
  show "qreg ofs q' \<notin> insert XRNIC_ADV_CONF (qp_window q)"
    using qp_window_other [OF assms(1-3)] qp_windowI [OF assms(4), of q'] adv_conf_not_qreg [OF assms(2,4)] by auto
qed

lemma reset_ctxs_ok:
  assumes "\<forall>cx \<in> set cxs. cx_valid cx \<longrightarrow> can_give_back env (length (qp1_sq_db x)) (cx_qp_num cx)"
  shows "\<exists>x' log'. run_state (reset_ctxs env aw cxs (Some x)) log =
      (Some (map (\<lambda>cx. cx\<lparr>cx_valid := False\<rparr>) cxs, Some x', \<exists>cx \<in> set cxs. cx_valid cx), log') \<and>
    length (qp1_sq_db x') = length (qp1_sq_db x) \<and>
    (\<forall>q. unat q < 2 ^ 12 \<longrightarrow> given_back env q (reg_value (hs_hw env []) log) \<longrightarrow> given_back env q (reg_value (hs_hw env []) log')) \<and>
    (\<forall>cx \<in> set cxs. cx_valid cx \<longrightarrow> given_back env (cx_qp_num cx) (reg_value (hs_hw env []) log'))"
  using assms
proof (induction cxs arbitrary: x log)
  case (Cons cx cxs)
  show ?case
  proof (cases "cx_valid cx")
    case True
    let ?q = "cx_qp_num cx" and ?d = "if cx_sq_depth cx \<noteq> 0 then cx_sq_depth cx else 1"
    have q: "can_give_back env (length (qp1_sq_db x)) ?q" using Cons.prems True by simp
    then have q12: "unat ?q < 2 ^ 12" by (simp add: can_give_back_def)
    obtain x1 log1 where s: "run_state (setup_qps env aw (Some x) False ?q 1 ?d) log = (Some x1, log1)"
      "length (qp1_sq_db x1) = length (qp1_sq_db x)" "given_back env ?q (reg_value (hs_hw env []) log1)"
      using setup_qps_dis [OF q] by blast
    have keep: "given_back env q' (reg_value (hs_hw env []) log1)"
      if "unat q' < 2 ^ 12" "given_back env q' (reg_value (hs_hw env []) log)" for q'
    proof (cases "q' = ?q")
      case False
      show ?thesis
        using given_back_cong [OF that(2)] setup_qps_frame [OF q12 that(1) False [symmetric]] s(1) by (metis snd_conv)
    qed (use s(3) in simp)
    obtain x' log' where ih: "run_state (reset_ctxs env aw cxs (Some x1)) log1 =
        (Some (map (\<lambda>cx. cx\<lparr>cx_valid := False\<rparr>) cxs, Some x', \<exists>cx \<in> set cxs. cx_valid cx), log')"
      "length (qp1_sq_db x') = length (qp1_sq_db x)"
      "\<forall>q. unat q < 2 ^ 12 \<longrightarrow> given_back env q (reg_value (hs_hw env []) log1) \<longrightarrow> given_back env q (reg_value (hs_hw env []) log')"
      "\<forall>cx \<in> set cxs. cx_valid cx \<longrightarrow> given_back env (cx_qp_num cx) (reg_value (hs_hw env []) log')"
      using Cons.IH [of x1 log1] Cons.prems s(2) by auto
    then show ?thesis using True s keep q12 by auto
  next
    case False
    then have "cx\<lparr>cx_valid := False\<rparr> = cx" by (cases cx) simp
    then show ?thesis using Cons.IH [of x log] Cons.prems False by auto
  qed
qed simp

lemma run_read_all: "run_state (read_all hw rs) log = ((), log @ map IoR rs)"
  by (induction rs arbitrary: log) simp_all

lemma reg_value_reads: "fold io_effect (map IoR rs) r = r"
  by (induction rs) simp_all

lemma run_dump: "\<exists>rs. run_state (hh_dump_qp_stat env d xlp) log = ((), log @ map IoR rs)"
  unfolding hh_dump_qp_stat_def
  by (cases "xlp = None") (auto simp: run_read_all intro: exI [of _ "[]"])


text \<open>leaving handshake mode does not turn completion entries on again: a queue pair that was bound and given back
  ends with completion entries disabled, whatever its configuration was before.\<close>

theorem cqe_stays_off:
  assumes "can_give_back env (length (qp1_sq_db x)) q"
  shows "\<exists>x1 log1 x2 log2. run_state (setup_qps env aw (Some x) True q 1 depth) log = (Some x1, log1) \<and>
    run_state (setup_qps env aw (Some x1) False q 1 depth) log1 = (Some x2, log2) \<and>
    given_back env q (reg_value (hs_hw env []) log2) \<and> \<not> bit (reg_value (hs_hw env []) log2 (XRNIC_QP_CONF q)) 5"
proof -
  have "readback (hs_hw env) (hs_storage q)" "unat q < 2 ^ 12" using assms by (auto simp: can_give_back_def)
  from setup_qps_en [OF this, of aw x depth log] obtain log1 where
    e: "run_state (setup_qps env aw (Some x) True q 1 depth) log = (Some x, log1)"
      "reg_value (hs_hw env []) log1 (XRNIC_QP_CONF q) =
         reg_value (hs_hw env []) log (XRNIC_QP_CONF q) AND NOT QP_HW_HSK_DIS AND NOT QP_CQE_EN"
    by (auto simp: in_handshake_def)
  have h: "QP_CQE_EN = push_bit 5 1" by (simp add: QP_CQE_EN_def)
  have "\<not> bit (reg_value (hs_hw env []) log1 (XRNIC_QP_CONF q)) 5"
    unfolding e(2) h by (simp only: bit_and_iff bit_not_iff bit_push_bit_iff bit_1_iff) simp
  moreover obtain x2 log2 where "run_state (setup_qps env aw (Some x) False q 1 depth) log1 = (Some x2, log2)"
    "given_back env q (reg_value (hs_hw env []) log2)"
    "bit (reg_value (hs_hw env []) log2 (XRNIC_QP_CONF q)) 5 = bit (reg_value (hs_hw env []) log1 (XRNIC_QP_CONF q)) 5"
    using setup_qps_dis [OF assms, of aw depth log1] by auto
  ultimately show ?thesis using e(1) by blast
qed

lemma touches_commit:
  "touches (hw_hs_qpctx_commit env d xlp qc) (hh_window \<union> insert XRNIC_ADV_CONF (qp_window (qc_qp_num qc)))"
  unfolding hw_hs_qpctx_commit_def rebind_ernic_def
  by (intro touches_intros touches_mono [OF touches_stage_qpctx] touches_mono [OF touches_setup_qps]) (auto simp: hs_qregs)

lemma touches_reset_ctxs:
  "(\<And>cx. cx \<in> set cxs \<Longrightarrow> cx_valid cx \<Longrightarrow> insert XRNIC_ADV_CONF (qp_window (cx_qp_num cx)) \<subseteq> R) \<Longrightarrow>
     touches (reset_ctxs env aw cxs xlp) R"
proof (induction cxs arbitrary: xlp)
  case (Cons cx cxs)
  show ?case
    using Cons by (auto intro!: touches_intros touches_mono [OF touches_setup_qps])
qed (simp add: touches_return)

text \<open>binding a context to another queue pair forgets the first one: it stays in handshake mode, and the reset that
  ends the session does not take it out.\<close>

theorem rebind_forgets_old_qp:
  assumes c1: "qc_ctx_idx qc1 = i" "\<not> bit (qc_flags qc1) 3" "qc_rebind qc1 \<noteq> 0" "qc_qp_num qc1 = q1"
    and c2: "qc_ctx_idx qc2 = i" "\<not> bit (qc_flags qc2) 3" "qc_rebind qc2 \<noteq> 0" "qc_qp_num qc2 = q2"
    and q: "unat q1 < 2 ^ 12" "q1 \<noteq> q2" "readback (hs_hw env) (hs_storage q1)" "can_give_back env (length (qp1_sq_db x)) q2"
    and tab: "unat i < 8" "length (hh_ctx_tab d) = 8" "\<forall>cx \<in> set (hh_ctx_tab d). \<not> cx_valid cx"
  shows "\<exists>d1 log1 d2 log2 d3 x3 log3.
    run_state (hw_hs_qpctx_commit env d (Some x) qc1) log = (Some (0, d1, Some x), log1) \<and>
    run_state (hw_hs_qpctx_commit env d1 (Some x) qc2) log1 = (Some (0, d2, Some x), log2) \<and>
    run_state (hh_reset env d2 (Some x)) log2 = (Some (0, d3, Some x3), log3) \<and>
    (\<forall>cx \<in> set (hh_ctx_tab d3). \<not> cx_valid cx) \<and> \<not> bit (reg_value (hs_hw env []) log3 (XRNIC_QP_CONF q1)) 4"
proof -
  let ?init = "hs_hw env []" and ?conf = "XRNIC_QP_CONF q1"
  let ?d1 = "set_ctx qc1 d" let ?d2 = "set_ctx qc2 ?d1"
  have q2: "unat q2 < 2 ^ 12" "readback (hs_hw env) (hs_storage q2)" using q(4) by (auto simp: can_give_back_def)
  obtain log1 where r1: "run_state (hw_hs_qpctx_commit env d (Some x) qc1) log = (Some (0, ?d1, Some x), log1)"
    "reg_value ?init log1 ?conf = reg_value ?init log ?conf AND NOT QP_HW_HSK_DIS AND NOT QP_CQE_EN"
    using commit_run [of qc1 env d x log] c1 q(1,3) tab(1) by (auto simp: Let_def in_handshake_def)
  have off: "\<not> bit (reg_value ?init log1 ?conf) 4"
  proof -
    have h: "QP_HW_HSK_DIS = push_bit 4 1" by (simp add: QP_HW_HSK_DIS_def)
    show ?thesis unfolding r1(2) h by (simp only: bit_and_iff bit_not_iff bit_push_bit_iff bit_1_iff) simp
  qed
  obtain log2 where r2: "run_state (hw_hs_qpctx_commit env ?d1 (Some x) qc2) log1 = (Some (0, ?d2, Some x), log2)"
    using commit_run [of qc2 env ?d1 x log1] c2 q2 tab(1) by (auto simp: Let_def)
  define R where "R = hh_window \<union> insert XRNIC_ADV_CONF (qp_window q2)"
  have out: "?conf \<notin> R"
    using qp_window_other [OF q(1) q2(1) q(2)] qp_windowI [of 0 q1] qreg_not_hh [OF q(1), of 0] adv_conf_not_qreg [OF q(1), of 0]
    by (auto simp: R_def XRNIC_QP_CONF_def)
  have k2: "reg_value ?init log2 ?conf = reg_value ?init log1 ?conf"
    using touches_keeps [OF touches_commit [of env ?d1 "Some x" qc2]] out r2 c2(4) by (metis R_def snd_conv)
  have tab2: "hh_ctx_tab ?d2 = (hh_ctx_tab d)[unat i := \<lparr>cx_qp_num = q2, cx_sq_depth = qpctx_depth qc2, cx_valid = True\<rparr>]"
    using c1(1) c2(1,4) by (simp add: set_ctx_def)
  have valid: "cx_qp_num cx = q2" if "cx \<in> set (hh_ctx_tab ?d2)" "cx_valid cx" for cx
    using that tab(3) set_update_subset_insert [of "hh_ctx_tab d" "unat i"] unfolding tab2 by fastforce
  have ex: "\<exists>cx \<in> set (hh_ctx_tab ?d2). cx_valid cx"
    unfolding tab2 using tab(1,2) by (intro bexI [OF _ set_update_memI]) auto
  obtain rs where dump: "run_state (hh_dump_qp_stat env ?d2 (Some x)) log2 = ((), log2 @ map IoR rs)"
    using run_dump by blast
  let ?l = "(log2 @ map IoR rs) @ [IoW (hh_base + HH_REG_CTRL) HH_CTRL_SOFT_RESET]"
  have can: "\<forall>cx \<in> set (hh_ctx_tab ?d2). cx_valid cx \<longrightarrow> can_give_back env (length (qp1_sq_db x)) (cx_qp_num cx)"
    using valid q(4) by auto
  obtain x3 log3 where r3: "run_state (reset_ctxs env (hh_addr_width ?d2) (hh_ctx_tab ?d2) (Some x)) ?l =
      (Some (map (\<lambda>cx. cx\<lparr>cx_valid := False\<rparr>) (hh_ctx_tab ?d2), Some x3, True), log3)"
    using reset_ctxs_ok [OF can, of "hh_addr_width ?d2" ?l] ex by auto
  have "touches (reset_ctxs env (hh_addr_width ?d2) (hh_ctx_tab ?d2) (Some x)) R"
    by (rule touches_reset_ctxs) (auto simp: R_def dest: valid)
  then have "reg_value ?init log3 ?conf = reg_value ?init ?l ?conf" using touches_keeps out r3 by (metis snd_conv)
  also have "\<dots> = reg_value ?init log2 ?conf"
    using out hh_reg_in_window [of HH_REG_CTRL] by (auto simp: R_def reg_value_reads hh_reg_defs)
  finally have "\<not> bit (reg_value ?init log3 ?conf) 4" using off k2 by simp
  moreover have "run_state (hh_reset env ?d2 (Some x)) log2 =
      (Some (0, ?d2\<lparr>hh_ctx_tab := map (\<lambda>cx. cx\<lparr>cx_valid := False\<rparr>) (hh_ctx_tab ?d2)\<rparr>, Some x3), log3)"
    using dump r3 by (simp add: hh_reset_def)
  ultimately show ?thesis using r1(1) r2 by (intro exI conjI) auto
qed

subsection \<open>Sessions\<close>

text \<open>closing the device although no context was ever committed resets queue pair 1, which the session did not use:
  when that queue pair does not exist, the close faults.\<close>

theorem idle_close_faults:
  assumes "\<forall>cx \<in> set (hh_ctx_tab d). \<not> cx_valid cx" "rc_qp_num (hh_rcfg d) = 0" "get_user_sq_depth env 1 = None"
  shows "fst (run_state (hh_dev_close env d (Some x)) log) = None"
proof -
  obtain rs where dump: "run_state (hh_dump_qp_stat env d (Some x)) log = ((), log @ map IoR rs)"
    using run_dump by blast
  have none: "\<forall>cx \<in> set cxs. \<not> cx_valid cx \<Longrightarrow> run_state (reset_ctxs env aw cxs xlp) l = (Some (cxs, xlp, False), l)" for cxs aw xlp l
    by (induction cxs arbitrary: l) simp_all
  have f: "fst (run_state (setup_qps env aw (Some x) False 1 n depth) l) = None" if "unat n = Suc k" for aw n depth k l
    using that assms(3) by (simp add: setup_qps_def setup_qp_def reset_ptrs_def setup_qp_dis_def)
  have "\<exists>k. unat (if rc_qp_cnt (hh_rcfg d) \<noteq> 0 then rc_qp_cnt (hh_rcfg d) else 1) = Suc k"
    by (auto simp: word_unat_eq_iff intro: not0_implies_Suc)
  then obtain k where k: "unat (if rc_qp_cnt (hh_rcfg d) \<noteq> 0 then rc_qp_cnt (hh_rcfg d) else 1) = Suc k" by blast
  show ?thesis
    using f [OF k] dump assms(1,2) by (simp add: hh_dev_close_def hh_reset_def none Let_def case_prod_beta)
qed

text \<open>The driver as its callers see it: files are opened, used and closed in any order; \<open>n\<close> counts the open files.\<close>

type_synonym hs_state = "nat \<times> hw_hs_dev \<times> xrnic_local option \<times> io list"

inductive hs_step :: "hs_env \<Rightarrow> hs_state \<Rightarrow> hs_state \<Rightarrow> bool" for env where
  opened: "hh_dev_open d = (0, d') \<Longrightarrow> hs_step env (n, d, xlp, log) (Suc n, d', xlp, log)"
| busy: "hh_dev_open d = (e, d') \<Longrightarrow> e \<noteq> 0 \<Longrightarrow> hs_step env (n, d, xlp, log) (n, d', xlp, log)"
| ioctl: "0 < n \<Longrightarrow> run_state (hh_dev_ioctl env u d xlp cmd) log = (Some (ret, out, d', xlp'), log') \<Longrightarrow>
    hs_step env (n, d, xlp, log) (n, d', xlp', log')"
| closed: "run_state (hh_dev_close env d xlp) log = (Some (ret, d', xlp'), log') \<Longrightarrow>
    hs_step env (Suc n, d, xlp, log) (n, d', xlp', log')"

inductive_cases hs_stepE: "hs_step env s s'"

definition hs_inv :: "hs_state \<Rightarrow> bool" where
  "hs_inv s = (case s of (n, d, xlp, log) \<Rightarrow>
     n \<le> 1 \<and> (mutx_locked d \<longleftrightarrow> n = 1) \<and> length (hh_ctx_tab d) = 8 \<and>
     (n = 0 \<longrightarrow> (\<forall>cx \<in> set (hh_ctx_tab d). \<not> cx_valid cx)))"

lemma reset_ctxs_result:
  "run_state (reset_ctxs env aw cxs xlp) log = (Some (cxs', xlp', any), log') \<Longrightarrow> cxs' = map (\<lambda>cx. cx\<lparr>cx_valid := False\<rparr>) cxs"
proof (induction cxs arbitrary: xlp log cxs' xlp' any log')
  case (Cons cx cxs)
  show ?case
  proof (cases "cx_valid cx")
    case True
    then show ?thesis using Cons.prems Cons.IH by (auto split: prod.splits option.splits)
  next
    case False
    then have "cx\<lparr>cx_valid := False\<rparr> = cx" by (cases cx) simp
    then show ?thesis using False Cons.prems Cons.IH by (auto split: prod.splits)
  qed
qed simp

lemma hh_reset_result:
  "run_state (hh_reset env d xlp) log = (Some (ret, d', xlp'), log') \<Longrightarrow>
     d' = d\<lparr>hh_ctx_tab := map (\<lambda>cx. cx\<lparr>cx_valid := False\<rparr>) (hh_ctx_tab d)\<rparr>"
  by (auto simp: hh_reset_def Let_def dest!: reset_ctxs_result split: prod.splits option.splits if_splits)

lemma commit_result:
  "run_state (hw_hs_qpctx_commit env d xlp qc) log = (Some (ret, d', xlp'), log') \<Longrightarrow> d' = d \<or> d' = set_ctx qc d"
  unfolding hw_hs_qpctx_commit_def by (auto split: prod.splits if_splits)

lemma mr_rebase_result: "run_state (hw_hs_mr_rebase d xlp r) log = (Some (ret, d', xlp'), log') \<Longrightarrow> d' = d"
  unfolding hw_hs_mr_rebase_def Let_def by (cases "xlp = None") (auto split: prod.splits)

lemma config_result:
  "run_state (hw_hs_config env d xlp c) log = (Some (ret, d', xlp'), log') \<Longrightarrow>
     \<exists>b. (b = d \<or> b = set_ctx (ctx0_of c) d) \<and> (d' = b \<or> d' = b\<lparr>hh_rcfg := c\<rparr>)"
  unfolding hw_hs_config_def by (auto dest!: commit_result split: prod.splits option.splits if_splits)

text \<open>Commands keep the lock and the size of the table.\<close>

lemma ioctl_keeps:
  "run_state (hh_dev_ioctl env u d xlp cmd) log = (Some (ret, out, d', xlp'), log') \<Longrightarrow>
     mutx_locked d' = mutx_locked d \<and> length (hh_ctx_tab d') = length (hh_ctx_tab d)"
proof -
  assume "run_state (hh_dev_ioctl env u d xlp cmd) log = (Some (ret, out, d', xlp'), log')"
  then show ?thesis
    unfolding hh_dev_ioctl_def hh_switch_def from_user_def no_out_def ret_only_def with_dev_def with_out_def
      hh_set_pattern_def hh_set_wqe_idx_def
    by (auto dest!: hh_reset_result config_result commit_result mr_rebase_result simp: set_ctx_def
        split: if_splits option.splits prod.splits)
qed

lemma close_result:
  "run_state (hh_dev_close env d xlp) log = (Some (ret, d', xlp'), log') \<Longrightarrow>
     \<not> mutx_locked d' \<and> length (hh_ctx_tab d') = length (hh_ctx_tab d) \<and> (\<forall>cx \<in> set (hh_ctx_tab d'). \<not> cx_valid cx)"
  by (auto simp: hh_dev_close_def dest!: hh_reset_result split: prod.splits)

lemma hs_step_inv: "hs_step env s s' \<Longrightarrow> hs_inv s \<Longrightarrow> hs_inv s'"
  by (erule hs_stepE) (auto simp: hs_inv_def hh_dev_open_def dest!: ioctl_keeps close_result split: if_splits)

text \<open>C13: whatever is opened, used and closed in whatever order, at most one file is open, and between two sessions no
  queue-pair context is left in the table.\<close>

theorem hs_sessions_exclusive:
  assumes "(hs_step env)\<^sup>*\<^sup>* (0, fresh_hs_dev base aw, xlp, log) (n, d, xlp', log')"
  shows "n \<le> 1 \<and> (mutx_locked d \<longleftrightarrow> n = 1) \<and> length (hh_ctx_tab d) = 8 \<and>
    (n = 0 \<longrightarrow> (\<forall>cx \<in> set (hh_ctx_tab d). \<not> cx_valid cx))"
proof -
  have "hs_inv (0, fresh_hs_dev base aw, xlp, log)"
    by (simp add: hs_inv_def fresh_hs_dev_def HH_NUM_CTX_def)
  with assms have "hs_inv (n, d, xlp', log')"
    by (induction rule: rtranclp_induct) (auto intro: hs_step_inv)
  then show ?thesis by (simp add: hs_inv_def)
qed

subsection \<open>Loading, unloading and mapping\<close>

text \<open>loading the driver either holds everything that unloading gives back, with an idle device, or fails; when it
  fails it holds nothing, except the character device if adding it failed.  An error pointer for the
  device node is taken for success.\<close>

theorem hh_dev_init_resources:
  assumes "hh_dev_init e = (ret, dev, held)"
  shows "(ret = 0 \<longleftrightarrow> dev \<noteq> None) \<and> (ret = 0 \<longrightarrow> hh_dev_exit held = [] \<and> {R_dev, R_map, R_chrdev, R_cdev} \<subseteq> set held) \<and>
    (ret \<noteq> 0 \<longrightarrow> held = (if ret = - EFAULT \<and> R_cdev \<in> set held then [R_cdev] else [])) \<and>
    (ret \<noteq> 0 \<and> held \<noteq> [] \<longrightarrow> ie_cdev_alloc e \<and> \<not> ie_cdev_add e) \<and>
    (ret = 0 \<and> ie_device e = KErr \<longrightarrow> R_device \<notin> set held)"
  using assms unfolding hh_dev_init_def by (auto simp: hh_dev_exit_def split: if_splits option.splits)

lemma hh_dev_mmap_bounds:
  "hh_dev_mmap dp vm_start vm_end off = Inr (pfn, sz) \<Longrightarrow>
     unat sz \<le> 4096 \<and> off = 0 \<and> vm_end = vm_start + sz \<and> (\<exists>d. dp = Some d \<and> pfn = drop_bit 12 (hh_cfg_base d))"
  by (auto simp: hh_dev_mmap_def HH_REG_WIN_SIZE_def Let_def word_less_nat_alt split: option.splits if_splits)

subsection \<open>Examples\<close>

definition demo_hs_env :: "xib_qp option list \<Rightarrow> hs_env" where
  "demo_hs_env qps = \<lparr>hs_hw = reg_value (\<lambda>_. 0x30), hs_shr32 = (\<lambda>_. 0), hs_qp_list = qps\<rparr>"

definition demo_hs_xl :: xrnic_local where
  "demo_hs_xl = \<lparr>xl_irq = 0, qp1_sq_db_p = 0x1000, qp1_sq_db = replicate 8 7, qp1_rq_db_p = 0x2000, qp1_rq_db = [], qps_enabled = 8,
     udp_sport = 0, db_pa = 0, db_size = 0, in_pkt_err = [], in_pkt_err_db_local = 0, num_intr_banks = 1, cq_rq_db_size = 0\<rparr>"

definition demo_hs_dev :: hw_hs_dev where
  "demo_hs_dev = fresh_hs_dev 0xA4000000 64"

definition demo_qc :: "u32 \<Rightarrow> u32 \<Rightarrow> u32 \<Rightarrow> hh_qpctx_cfg" where
  "demo_qc i q rebind = \<lparr>qc_ctx_idx = i, qc_qp_num = q, qc_sq_base = 0x812345000, qc_sq_depth = 16, qc_reply_buf = 0x70000,
     qc_flags = 1, qc_reply_to = 0, qc_reply_seq_off = 60, qc_reply_stride_log2 = 6, qc_rebind = rebind\<rparr>"

lemma demo_hs_sel [simp]:
  "hs_hw (demo_hs_env qps) = reg_value (\<lambda>_. 0x30)" "hs_qp_list (demo_hs_env qps) = qps"
  "length (qp1_sq_db demo_hs_xl) = 8" "hh_addr_width demo_hs_dev = 64"
  "qc_ctx_idx (demo_qc i q r) = i" "qc_qp_num (demo_qc i q r) = q" "qc_flags (demo_qc i q r) = 1" "qc_rebind (demo_qc i q r) = r"
  by (simp_all add: demo_hs_env_def demo_hs_xl_def demo_hs_dev_def fresh_hs_dev_def demo_qc_def)

lemma demo_can: "unat q < 8 \<Longrightarrow> can_give_back (demo_hs_env (replicate 8 (Some demo_qp))) 8 q"
  by (simp add: can_give_back_def get_user_sq_depth_def readback_mem)

theorem qpctx_commit_accepts_witness:
  "(\<exists>ret d' x' log'. run_state (hw_hs_qpctx_commit (demo_hs_env []) demo_hs_dev None (demo_qc 9 1 1)) [] = (Some (ret, d', x'), log') \<and>
     ret = - EINVAL \<and> d' = demo_hs_dev \<and> x' = None \<and> log' = [])"
proof -
  have run: "run_state (hw_hs_qpctx_commit (demo_hs_env []) demo_hs_dev None (demo_qc 9 1 1)) [] = (Some (- EINVAL, demo_hs_dev, None), [])"
    by (simp add: hw_hs_qpctx_commit_def HH_NUM_CTX_def)
  from qpctx_commit_accepts [OF run] run show ?thesis by auto
qed

definition demo_dc :: hh_demo_cfg where
  "demo_dc = \<lparr>dc_freq_num = 0x100000020, dc_cmd_cnt = 100, dc_syn_depth = 4096, dc_freq_span = 7, dc_lfsr_seed = 1\<rparr>"

theorem demo_configure_accepts_witness:
  "fst (run_state (hh_demo_configure demo_dc) []) = 0 \<and>
   run_state (hh_demo_configure (demo_dc\<lparr>dc_freq_span := 6\<rparr>)) [] = (- EINVAL, [])"
proof -
  have "\<exists>n\<le>32. (7::nat) = 2 ^ n - 1" by (intro exI [of _ 3]) simp
  then have "fst (run_state (hh_demo_configure demo_dc) []) = 0"
    using demo_configure_accepts [of demo_dc "[]"] by (simp add: demo_dc_def)
  moreover have "demo_refused (demo_dc\<lparr>dc_freq_span := 6\<rparr>)" by (simp add: demo_refused_def demo_dc_def)
  ultimately show ?thesis using demo_configure_accepts [of "demo_dc\<lparr>dc_freq_span := 6\<rparr>" "[]"] by blast
qed

theorem demo_status_roundtrip_witness:
  "\<exists>log' st. run_state (hh_demo_configure demo_dc) [] = (0, log') \<and>
     fst (run_state (hh_demo_status_rd (reg_value (\<lambda>_. 0)) True) log') = (0, st) \<and> ds_freq_num st = 0x100000020"
proof -
  obtain log' where run: "run_state (hh_demo_configure demo_dc) [] = (0, log')"
    by (simp add: hh_demo_configure_def demo_refused_def demo_dc_def)
  from demo_status_roundtrip [OF readback_mem run] run show ?thesis by (fastforce simp: demo_dc_def)
qed

definition demo_wqe_cfg :: hh_wqe_cfg where
  "demo_wqe_cfg = \<lparr>wq_idx = 3, wq_opcode = 2, wq_xfer_len = 64, wq_rkey = 0x105, wq_va_lsb = 0x1000, wq_va_msb = 0,
     wq_local_offset = 0x900000040, wq_wrid = 0xBEEF, wq_qp_ref = 1, wq_ring_en = 1, wq_ring_len = 128,
     wq_stride_local_log2 = 6, wq_stride_remote_log2 = 12\<rparr>"

theorem wqe_commit_stages_witness:
  "\<exists>staged. run_state (hw_hs_wqe_commit demo_wqe_cfg) [] = (0, staged @ [IoW (hh_base + HH_REG_WQE_COMMIT) 3]) \<and>
     drop_bit 16 (reg_value (\<lambda>_. 0) staged (hh_base + HH_REG_WQE_RING_CFG)) AND 0x3F = 12"
  using wqe_commit_stages [of demo_wqe_cfg "[]" "\<lambda>_. 0"] by (simp add: demo_wqe_cfg_def Let_def) blast

theorem qpctx_config_only_witness:
  "reg_value (\<lambda>_. 0x30) (snd (run_state (hw_hs_qpctx_commit (demo_hs_env []) demo_hs_dev (Some demo_hs_xl) (demo_qc 2 5 0)) []))
     (XRNIC_QP_CONF 5) = 0x30"
  using qpctx_config_only [of "demo_qc 2 5 0" "XRNIC_QP_CONF 5" "\<lambda>_. 0x30" "demo_hs_env []" demo_hs_dev "Some demo_hs_xl" "[]"]
  by (simp add: XRNIC_QP_CONF_def qreg_def XRNIC_PER_QP_OFFSET_def)


definition demo_bound_dev :: hw_hs_dev where
  "demo_bound_dev = set_ctx (demo_qc 2 5 1) demo_hs_dev"

lemma demo_bound_tab:
  "hh_ctx_tab demo_bound_dev = (replicate 8 \<lparr>cx_qp_num = 0, cx_sq_depth = 0, cx_valid = False\<rparr>)
     [2 := \<lparr>cx_qp_num = 5, cx_sq_depth = 16, cx_valid = True\<rparr>]"
  by (simp add: demo_bound_dev_def set_ctx_def demo_qc_def qpctx_depth_def demo_hs_dev_def fresh_hs_dev_def HH_NUM_CTX_def)

lemma demo_bound_set:
  "set (hh_ctx_tab demo_bound_dev) =
     {\<lparr>cx_qp_num = 0, cx_sq_depth = 0, cx_valid = False\<rparr>, \<lparr>cx_qp_num = 5, cx_sq_depth = 16, cx_valid = True\<rparr>}"
  by (auto simp: demo_bound_tab eval_nat_numeral)


theorem cqe_stays_off_witness:
  "\<exists>x1 log1 x2 log2. run_state (setup_qps (demo_hs_env (replicate 8 (Some demo_qp))) 64 (Some demo_hs_xl) True 5 1 16) [] = (Some x1, log1) \<and>
     run_state (setup_qps (demo_hs_env (replicate 8 (Some demo_qp))) 64 (Some x1) False 5 1 16) log1 = (Some x2, log2) \<and>
     bit (0x30 :: u32) 5 \<and> \<not> bit (reg_value (\<lambda>_. 0x30) log2 (XRNIC_QP_CONF 5)) 5"
  using cqe_stays_off [of "demo_hs_env (replicate 8 (Some demo_qp))" demo_hs_xl 5 64 16 "[]"] demo_can [of 5]
  by (auto simp: bit_numeral_rec)

theorem rebind_forgets_old_qp_witness:
  "\<exists>d1 log1 d2 log2 d3 x3 log3.
    run_state (hw_hs_qpctx_commit (demo_hs_env (replicate 8 (Some demo_qp))) demo_hs_dev (Some demo_hs_xl) (demo_qc 0 3 1)) [] = (Some (0, d1, Some demo_hs_xl), log1) \<and>
    run_state (hw_hs_qpctx_commit (demo_hs_env (replicate 8 (Some demo_qp))) d1 (Some demo_hs_xl) (demo_qc 0 5 1)) log1 = (Some (0, d2, Some demo_hs_xl), log2) \<and>
    run_state (hh_reset (demo_hs_env (replicate 8 (Some demo_qp))) d2 (Some demo_hs_xl)) log2 = (Some (0, d3, Some x3), log3) \<and>
    \<not> bit (reg_value (\<lambda>_. 0x30) log3 (XRNIC_QP_CONF 3)) 4"
proof -
  have "length (hh_ctx_tab demo_hs_dev) = 8" "\<forall>cx \<in> set (hh_ctx_tab demo_hs_dev). \<not> cx_valid cx"
    by (simp_all add: demo_hs_dev_def fresh_hs_dev_def HH_NUM_CTX_def)
  then show ?thesis
    using rebind_forgets_old_qp [of "demo_qc 0 3 1" 0 3 "demo_qc 0 5 1" 5 "demo_hs_env (replicate 8 (Some demo_qp))"
        demo_hs_xl demo_hs_dev "[]"] demo_can [of 5] by (auto simp: readback_mem bit_1_iff)
qed

theorem idle_close_faults_witness:
  "fst (run_state (hh_dev_close (demo_hs_env []) demo_hs_dev (Some demo_hs_xl)) []) = None"
  by (rule idle_close_faults) (simp_all add: demo_hs_dev_def fresh_hs_dev_def zero_rcfg_def get_user_sq_depth_def)

theorem hs_sessions_exclusive_witness:
  "(hs_step (demo_hs_env []))\<^sup>*\<^sup>* (0, demo_hs_dev, None, []) (1, demo_hs_dev\<lparr>mutx_locked := True\<rparr>, None, []) \<and>
     mutx_locked (demo_hs_dev\<lparr>mutx_locked := True\<rparr>)"
proof -
  have "hs_step (demo_hs_env []) (0, demo_hs_dev, None, []) (Suc 0, demo_hs_dev\<lparr>mutx_locked := True\<rparr>, None, [])"
    by (rule opened) (simp add: hh_dev_open_def demo_hs_dev_def fresh_hs_dev_def)
  then have run: "(hs_step (demo_hs_env []))\<^sup>*\<^sup>* (0, demo_hs_dev, None, []) (1, demo_hs_dev\<lparr>mutx_locked := True\<rparr>, None, [])"
    by simp
  from hs_sessions_exclusive [OF this [unfolded demo_hs_dev_def]] run show ?thesis by simp
qed

definition demo_init_env :: init_env where
  "demo_init_env = \<lparr>ie_rnic_node = True, ie_hh_node = True, ie_kmalloc = True, ie_addr_width = Some 64, ie_resource = Some 0xA4000000,
     ie_num_qp = Some 8, ie_ioremap = True, ie_chrdev = True, ie_cdev_alloc = True, ie_cdev_add = True, ie_class = KOk, ie_device = KErr\<rparr>"

theorem hh_dev_init_resources_witness:
  "\<exists>dev held. hh_dev_init demo_init_env = (0, dev, held) \<and> hh_dev_exit held = [] \<and> R_device \<notin> set held"
proof -
  obtain dev held where run: "hh_dev_init demo_init_env = (0, dev, held)"
    by (simp add: hh_dev_init_def demo_init_env_def)
  from hh_dev_init_resources [OF run] run show ?thesis by (auto simp: demo_init_env_def)
qed
end
