(* ===== verification/Hs_Server.thy ===== *)
theory Hs_Server
  imports Umm Hw_Hs_Session Xib_Irq
begin

text \<open>
  The handshake server, \<open>recipes-apps/xhw-hs-server/files/xhw_hs_server.c\<close>: its parameters, the set-up of the engine
  and of a queue pair with memory of \<open>umm.c\<close>, and the three threads that take connections, prepare them and
  exchange the contexts.  A thread holds the list's lock while it walks over the list, so a walk is one step and the
  threads interleave between steps.  Verbs and connection manager are arguments; so is the driver behind the file, of
  any state \<open>'d\<close>, and the last section puts the driver of this repository there.
\<close>

unbundle bit_operations_syntax

subsection \<open>Numbers on the command line\<close>

fun skip_space :: "string \<Rightarrow> string" where
  "skip_space [] = []"
| "skip_space (c # cs) = (if c \<in> {CHR '' '', CHR 0x09, CHR 0x0A, CHR 0x0B, CHR 0x0C, CHR 0x0D} then skip_space cs else c # cs)"

fun sign_of :: "string \<Rightarrow> int \<times> string" where
  "sign_of [] = (1, [])"
| "sign_of (c # cs) = (if c = CHR ''-'' then (- 1, cs) else if c = CHR ''+'' then (1, cs) else (1, c # cs))"

fun digit_of :: "char \<Rightarrow> nat option" where
  "digit_of c = (let n = of_char c :: nat in
     if 48 \<le> n \<and> n \<le> 57 then Some (n - 48) else if 97 \<le> n \<and> n \<le> 102 then Some (n - 87) else if 65 \<le> n \<and> n \<le> 70 then Some (n - 55) else None)"

fun digits_in :: "nat \<Rightarrow> nat \<Rightarrow> string \<Rightarrow> nat" where
  "digits_in base acc [] = acc"
| "digits_in base acc (c # cs) =
     (case digit_of c of None \<Rightarrow> acc | Some d \<Rightarrow> if d < base then digits_in base (base * acc + d) cs else acc)"

text \<open>\<open>atoi\<close>: \<open>strtol\<close>, which stops at the ends of a \<open>long\<close>, and the conversion to \<open>int\<close>.\<close>

definition atoi :: "string \<Rightarrow> u32" where
  "atoi s = (case sign_of (skip_space s) of (sg, ds) \<Rightarrow>
     word_of_int (max (- (2 ^ 63)) (min (2 ^ 63 - 1) (sg * int (digits_in 10 0 ds)))))"

definition strtoul16 :: "string \<Rightarrow> u64" where
  "strtoul16 s = (case sign_of (skip_space s) of (sg, ds) \<Rightarrow>
     let ds' = (if take 2 ds \<in> {''0x'', ''0X''} \<and> digit_of (hd (drop 2 ds @ ''g'')) \<noteq> None then drop 2 ds else ds);
         n = digits_in 16 0 ds'
     in if 2 ^ 64 \<le> n then - 1 else word_of_int (sg * int n))"

subsection \<open>Parameters\<close>

record rdma_param =
  rp_help :: u8
  rp_data_pattern_en :: u8
  rp_sq_mem_type :: u8
  rp_rdma_buf_mem_type :: u8
  rp_wqe_opcode :: u8
  rp_burst_mode :: u8
  rp_data_pattern :: u32
  rp_data_size_kb :: u32
  rp_qp_cnt :: u32
  rp_queue_depth :: u32
  rp_db_burst_cnt :: u32
  rp_qp_wqe_cnt :: u32
  rp_cpu_clk :: u32
  rp_port :: u32
  rp_reuse :: bool

definition init_app_defaults :: rdma_param where
  "init_app_defaults = \<lparr>rp_help = 0, rp_data_pattern_en = 0, rp_sq_mem_type = 0, rp_rdma_buf_mem_type = 0, rp_wqe_opcode = 0, rp_burst_mode = 1,
     rp_data_pattern = 0xFEADEAF, rp_data_size_kb = 4, rp_qp_cnt = 1, rp_queue_depth = 16, rp_db_burst_cnt = 15, rp_qp_wqe_cnt = 100,
     rp_cpu_clk = 200, rp_port = 0x061C, rp_reuse = False\<rparr>"

text \<open>The options as \<open>getopt_long\<close> returns them, a character and its argument; \<open>0\<close> is a flag that
  was set, with its name as the argument.  The flag of \<open>help\<close> is written as an \<open>int\<close>, over the three bytes after it.  \<open>addr\<close> is what
  \<open>get_addr\<close> returns.  Comparisons of unsigned fields with zero that are never true are left out.\<close>

datatype opt_result = OptRet int | OptOn int rdma_param

definition opcode_opt :: "string \<Rightarrow> u8 option" where
  "opcode_opt s = (if strcaseeq ''rd'' s then Some 1 else if strcaseeq ''wr'' s then Some 0 else if strcaseeq ''send'' s then Some 2 else None)"

definition mode_opt :: "string \<Rightarrow> u8 option" where
  "mode_opt s = (if strcaseeq ''burst'' s then Some 1 else if strcaseeq ''inline'' s then Some 0 else None)"

definition burst_opt :: "u32 \<Rightarrow> u32" where
  "burst_opt n = (if 16 \<le> n then 15 else n)"

definition parse_opt :: "(string \<Rightarrow> int) \<Rightarrow> char \<times> string \<Rightarrow> int \<Rightarrow> rdma_param \<Rightarrow> opt_result" where
  "parse_opt addr o_arg ret p = (case o_arg of (c, arg) \<Rightarrow>
     if c = CHR ''c'' then OptOn ret (p\<lparr>rp_reuse := True\<rparr>)
     else if c = CHR ''Z'' then OptOn ret (p\<lparr>rp_data_pattern := ucast (strtoul16 arg), rp_data_pattern_en := 1\<rparr>)
     else if c = CHR ''o'' then (case opcode_opt arg of Some v \<Rightarrow> OptOn ret (p\<lparr>rp_wqe_opcode := v\<rparr>) | None \<Rightarrow> OptRet (- EINVAL))
     else if c = CHR ''K'' then OptOn ret (p\<lparr>rp_data_size_kb := atoi arg\<rparr>)
     else if c = CHR ''M'' then (case mode_opt arg of Some v \<Rightarrow> OptOn ret (p\<lparr>rp_burst_mode := v\<rparr>) | None \<Rightarrow> OptRet (- EINVAL))
     else if c = CHR ''Q'' then (if atoi arg = 0 then OptRet (- EINVAL) else OptOn ret (p\<lparr>rp_qp_cnt := atoi arg\<rparr>))
     else if c = CHR ''D'' then OptOn ret (p\<lparr>rp_queue_depth := atoi arg\<rparr>)
     else if c = CHR ''N'' then OptOn ret (p\<lparr>rp_db_burst_cnt := burst_opt (atoi arg)\<rparr>)
     else if c = CHR ''W'' then OptOn ret (p\<lparr>rp_qp_wqe_cnt := atoi arg\<rparr>)
     else if c = CHR ''a'' then OptOn (addr arg) p
     else if c = CHR ''I'' then OptOn (addr arg) p
     else if c = CHR ''P'' then OptOn ret (p\<lparr>rp_cpu_clk := atoi arg\<rparr>)
     else if c = CHR ''p'' then OptOn ret (p\<lparr>rp_port := ucast (bswap16 (ucast (atoi arg)))\<rparr>)
     else if c = CHR ''R'' then (let t = xib_mem_str_to_mem_type (Some arg) in if t < 0 then OptRet t else OptOn 0 (p\<lparr>rp_rdma_buf_mem_type := of_int t\<rparr>))
     else if c = CHR ''S'' then (let t = xib_mem_str_to_mem_type (Some arg) in if t < 0 then OptRet t else OptOn 0 (p\<lparr>rp_sq_mem_type := of_int t\<rparr>))
     else if c = CHR 0x00 then OptOn ret (if arg = ''help'' then p\<lparr>rp_help := 1, rp_data_pattern_en := 0, rp_sq_mem_type := 0, rp_rdma_buf_mem_type := 0\<rparr> else p)
     else OptOn EINVAL p)"

fun parse_opts :: "(string \<Rightarrow> int) \<Rightarrow> (char \<times> string) list \<Rightarrow> int \<Rightarrow> rdma_param \<Rightarrow> int \<times> rdma_param" where
  "parse_opts addr [] ret p = (ret, p)"
| "parse_opts addr (x # xs) ret p = (case parse_opt addr x ret p of OptRet r \<Rightarrow> (r, p) | OptOn r p' \<Rightarrow> parse_opts addr xs r p')"

definition parser :: "(string \<Rightarrow> int) \<Rightarrow> (char \<times> string) list \<Rightarrow> rdma_param \<Rightarrow> int \<times> rdma_param" where
  "parser addr opts p = parse_opts addr opts 0 (p\<lparr>rp_rdma_buf_mem_type := ucast XMEM_PL_DDR, rp_sq_mem_type := ucast XMEM_PL_DDR\<rparr>)"

text \<open>\<open>fd\<close> is what \<open>open\<close> returns.\<close>

definition init_xperf_app :: "(string \<Rightarrow> int) \<Rightarrow> (char \<times> string) list \<Rightarrow> int \<Rightarrow> int \<times> rdma_param" where
  "init_xperf_app addr opts fd =
     (case parser addr opts init_app_defaults of (ret, p) \<Rightarrow>
        if ret \<noteq> 0 then (- EFAULT, p)
        else if rp_qp_cnt p = 0 then (- 1, p)
        else if rp_queue_depth p \<le> 1 then (- 1, p)
        else if rp_queue_depth p \<le> rp_db_burst_cnt p then (- 1, p)
        else if fd < 0 then (- EFAULT, p)
        else (0, p))"

subsection \<open>Commands\<close>

text \<open>The numbers of \<open>xhw_hs_server.h\<close>; the sizes are those of the 64-bit ABI.\<close>

definition HH_WRITE_CMN_CFG :: u32 where "HH_WRITE_CMN_CFG = IOC 1 0 16"
definition HH_WRITE_QP_CFG :: u32 where "HH_WRITE_QP_CFG = IOC 1 1 48"
definition HH_EN_OP :: u32 where "HH_EN_OP = IOC 0 2 0"
definition HH_RESET_OP :: u32 where "HH_RESET_OP = IOC 0 3 0"
definition PERF_READ_OP :: u32 where "PERF_READ_OP = IOC 3 4 16"
definition TEST_DONE_READ_OP :: u32 where "TEST_DONE_READ_OP = IOC 2 5 4"

record hw_hsk_ctrl_cfg =
  cc_hw_hs_en :: u8
  cc_burst_mode :: u8
  cc_db_burst_cnt :: u8
  cc_qp_cnt :: u32
  cc_data_pattern_en :: u8
  cc_queue_depth :: u16
  cc_qp_wqe_cnt :: u32

record per_qp_reg_info =
  pq_qp_num :: u32
  pq_data_pattern :: u32
  pq_rkey :: u32
  pq_va_lsb :: u32
  pq_va_msb :: u32
  pq_data_addr :: u64
  pq_sq_addr :: u64
  pq_data_size_kb :: u16
  pq_wqe_opcode :: u16

datatype srv_arg = ArgCtrl hw_hsk_ctrl_cfg | ArgQp per_qp_reg_info | ArgNone | ArgPerf u32 | ArgStat

text \<open>What a command returns to the process: 0 or \<open>-1\<close>, and the words it stores (count of completions and clock).\<close>

type_synonym 'd srv_ioctl = "u32 \<Rightarrow> srv_arg \<Rightarrow> 'd \<Rightarrow> int \<times> (u32 \<times> u64) \<times> 'd"

definition ctrl_cfg :: "rdma_param \<Rightarrow> hw_hsk_ctrl_cfg option" where
  "ctrl_cfg p =
     (let burst = ucast (rp_db_burst_cnt p) :: u8; n = rp_qp_wqe_cnt p in
      if burst = 0 then None
      else Some \<lparr>cc_hw_hs_en = 0, cc_burst_mode = rp_burst_mode p, cc_db_burst_cnt = burst, cc_qp_cnt = rp_qp_cnt p,
        cc_data_pattern_en = rp_data_pattern_en p, cc_queue_depth = ucast (rp_queue_depth p), cc_qp_wqe_cnt = n - n mod ucast burst\<rparr>)"

text \<open>\<open>None\<close> is the division by zero.\<close>

definition fill_hh_ctrl_cfg :: "'d srv_ioctl \<Rightarrow> rdma_param \<Rightarrow> 'd \<Rightarrow> (int \<times> 'd) option" where
  "fill_hh_ctrl_cfg ioctl p d = map_option (\<lambda>c. case ioctl HH_WRITE_CMN_CFG (ArgCtrl c) d of (r, w, d') \<Rightarrow> (r, d')) (ctrl_cfg p)"

definition enable_hw_hs :: "'d srv_ioctl \<Rightarrow> 'd \<Rightarrow> int \<times> 'd" where
  "enable_hw_hs ioctl d = (case ioctl HH_EN_OP ArgNone d of (r, w, d') \<Rightarrow> (r, d'))"

definition reset_hw_hsk :: "'d srv_ioctl \<Rightarrow> 'd \<Rightarrow> int \<times> 'd" where
  "reset_hw_hsk ioctl d = (case ioctl HH_RESET_OP ArgNone d of (r, w, d') \<Rightarrow> (r, d'))"

definition hh_perf_read :: "'d srv_ioctl \<Rightarrow> u32 \<Rightarrow> 'd \<Rightarrow> int \<times> (u32 \<times> u64) \<times> 'd" where
  "hh_perf_read ioctl q d = ioctl PERF_READ_OP (ArgPerf q) d"

text \<open>The loop that waits for the engine; \<open>None\<close> when it never reports the end.\<close>

partial_function (option) test_hw_handshake :: "'d srv_ioctl \<Rightarrow> 'd \<Rightarrow> (int \<times> 'd) option" where
  "test_hw_handshake ioctl d =
     (case ioctl TEST_DONE_READ_OP ArgStat d of (r, (w, c), d') \<Rightarrow>
        if r \<noteq> 0 then Some (r, d') else if w AND 1 = 0 then test_hw_handshake ioctl d' else Some (r, d'))"

subsection \<open>Memory of a connection\<close>

record app_context =
  ac_qp_num :: u32
  ac_remote_rkey :: u32
  ac_remote_addr :: u64
  ac_remote_len :: u32
  ac_rdma_buf_chunk_id :: int
  ac_send_buf_chunk_id :: int
  ac_sq_mem_chunk_id :: int
  ac_rdma_buf_addr :: u64
  ac_send_buf :: u64
  ac_sq_addr :: u64
  ac_rq_depth :: u32
  ac_rx_compl :: u32
  ac_rx_posted :: u32

text \<open>The library's context and the kernel manager behind it.  \<open>None\<close> stands for a fault or a deadlock in the library.\<close>

record srv_mem =
  sm_umm :: umm_proc_ctx
  sm_kmm :: kmm

type_synonym call_env = "ioctl_env \<times> table_env"

definition mem_alloc_chunk :: "call_env \<Rightarrow> u32 \<Rightarrow> u64 \<Rightarrow> bool \<Rightarrow> srv_mem \<Rightarrow> (int \<times> srv_mem) option" where
  "mem_alloc_chunk e ty sz proc m = do {
     (cid, c, k) \<leftarrow> xib_umem_alloc_chunk (fst e) (snd e) (Some (sm_umm m)) (sm_kmm m) ty sz sz proc;
     u \<leftarrow> c;
     Some (cid, \<lparr>sm_umm = u, sm_kmm = k\<rparr>)}"

definition mem_free_chunk :: "call_env \<Rightarrow> int \<Rightarrow> srv_mem \<Rightarrow> (int \<times> srv_mem) option" where
  "mem_free_chunk e cid m = do {
     (r, u, k) \<leftarrow> xib_umem_free_chunk (fst e) (sm_umm m) (sm_kmm m) (of_int cid);
     Some (r, \<lparr>sm_umm = u, sm_kmm = k\<rparr>)}"

definition blk_alloc :: "int \<Rightarrow> u64 \<Rightarrow> srv_mem \<Rightarrow> (u64 \<times> srv_mem) option" where
  "blk_alloc cid sz m = map_option (\<lambda>(va, u). (va, m\<lparr>sm_umm := u\<rparr>)) (xib_umem_alloc_mem (sm_umm m) (of_int cid) sz)"

definition blk_free :: "int \<Rightarrow> u64 \<Rightarrow> u64 \<Rightarrow> srv_mem \<Rightarrow> (int \<times> srv_mem) option" where
  "blk_free cid va sz m = map_option (\<lambda>(r, u). (r, m\<lparr>sm_umm := u\<rparr>)) (xib_umem_free_mem (sm_umm m) (of_int cid) va sz)"

definition blk_phys :: "int \<Rightarrow> u64 \<Rightarrow> srv_mem \<Rightarrow> (int \<times> u64 option \<times> srv_mem) option" where
  "blk_phys cid va m = map_option (\<lambda>(r, pa, u). (r, pa, m\<lparr>sm_umm := u\<rparr>)) (xib_umem_get_phy_addr (sm_umm m) (of_int cid) va)"

text \<open>The buffer for messages; a \<open>struct rping_rdma_info\<close> has 24 bytes.\<close>

definition rping_setup_wr :: "call_env \<Rightarrow> app_context \<Rightarrow> srv_mem \<Rightarrow> (int \<times> app_context \<times> srv_mem) option" where
  "rping_setup_wr e cb m = do {
     (cid, m1) \<leftarrow> mem_alloc_chunk e XMEM_PL_DDR 24 True m;
     if cid < 0 then Some (- EFAULT, cb, m1)
     else do {
       (va, m2) \<leftarrow> blk_alloc cid 24 m1;
       if va = 0 then do {
         (r, m3) \<leftarrow> mem_free_chunk e cid m2;
         Some (- EFAULT, cb\<lparr>ac_send_buf_chunk_id := - EINVAL\<rparr>, m3)}
       else Some (0, cb\<lparr>ac_send_buf_chunk_id := cid, ac_send_buf := va\<rparr>, m2)}}"

text \<open>The value of \<open>rping_setup_wr\<close> is not looked at.\<close>

definition rping_setup_buffers :: "call_env \<Rightarrow> app_context \<Rightarrow> srv_mem \<Rightarrow> (int \<times> app_context \<times> srv_mem) option" where
  "rping_setup_buffers e cb m = map_option (\<lambda>(r, cb', m'). (0, cb', m')) (rping_setup_wr e cb m)"

text \<open>The variables of \<open>hw_hs_qp_cfg\<close> that keep their values between calls.\<close>

record qp_statics =
  st_chunk_id :: int
  st_pa :: u64

definition init_statics :: qp_statics where "init_statics = \<lparr>st_chunk_id = - EINVAL, st_pa = 0\<rparr>"

definition data_bytes :: "rdma_param \<Rightarrow> u64" where "data_bytes p = ucast (rp_data_size_kb p * 1024)"

definition sq_bytes_of :: "rdma_param \<Rightarrow> u64" where "sq_bytes_of p = ucast (rp_queue_depth p * 64)"

type_synonym cfg_result = "(int \<times> app_context \<times> qp_statics \<times> srv_mem) + (app_context \<times> qp_statics \<times> srv_mem)"

definition cfg_data_buf :: "call_env \<Rightarrow> rdma_param \<Rightarrow> app_context \<Rightarrow> qp_statics \<Rightarrow> srv_mem \<Rightarrow> cfg_result option" where
  "cfg_data_buf e p cb st m =
     (if rp_reuse p \<and> st_chunk_id st > 0 then Some (Inr (cb\<lparr>ac_rdma_buf_chunk_id := - EINVAL\<rparr>, st, m))
      else do {
        (cid, m1) \<leftarrow> mem_alloc_chunk e (ucast (rp_rdma_buf_mem_type p)) (data_bytes p) False m;
        let st1 = st\<lparr>st_chunk_id := cid\<rparr>;
        if cid < 0 then Some (Inl (- EFAULT, cb\<lparr>ac_rdma_buf_chunk_id := - EINVAL\<rparr>, st1, m1))
        else do {
          (va, m2) \<leftarrow> blk_alloc cid (data_bytes p) m1;
          if va = 0 then do {
            (r, m3) \<leftarrow> mem_free_chunk e cid m2;
            Some (Inl (- EFAULT, cb\<lparr>ac_rdma_buf_chunk_id := - EINVAL\<rparr>, st1, m3))}
          else do {
            (r, pa, m3) \<leftarrow> blk_phys cid va m2;
            let cb1 = cb\<lparr>ac_rdma_buf_chunk_id := cid, ac_rdma_buf_addr := va\<rparr>;
            Some (if r < 0 then Inl (r, cb1, st1, m3)
                  else Inr (cb1, (case pa of None \<Rightarrow> st1 | Some a \<Rightarrow> st1\<lparr>st_pa := a\<rparr>), m3))}}})"

text \<open>The clean-up labels.\<close>

definition undo_data_buf :: "call_env \<Rightarrow> rdma_param \<Rightarrow> app_context \<Rightarrow> srv_mem \<Rightarrow> (app_context \<times> srv_mem) option" where
  "undo_data_buf e p cb m =
     (if ac_rdma_buf_chunk_id cb > 0 then do {
        (r, m1) \<leftarrow> blk_free (ac_rdma_buf_chunk_id cb) (ac_rdma_buf_addr cb) (data_bytes p) m;
        (r', m2) \<leftarrow> mem_free_chunk e (ac_rdma_buf_chunk_id cb) m1;
        Some (cb\<lparr>ac_rdma_buf_chunk_id := - EINVAL\<rparr>, m2)}
      else Some (cb, m))"

definition undo_sq :: "call_env \<Rightarrow> rdma_param \<Rightarrow> int \<Rightarrow> app_context \<Rightarrow> qp_statics \<Rightarrow> srv_mem \<Rightarrow> (app_context \<times> qp_statics \<times> srv_mem \<times> u64) option" where
  "undo_sq e p cid cb st m = do {
     (r, m1) \<leftarrow> mem_free_chunk e cid m;
     (cb1, m2) \<leftarrow> undo_data_buf e p (cb\<lparr>ac_sq_mem_chunk_id := - EINVAL\<rparr>) m1;
     Some (cb1, st, m2, 0)}"

text \<open>The send queue; the last component is its physical address, 0 after a failure.\<close>

definition cfg_sq :: "call_env \<Rightarrow> rdma_param \<Rightarrow> app_context \<Rightarrow> qp_statics \<Rightarrow> srv_mem \<Rightarrow> (bool \<times> app_context \<times> qp_statics \<times> srv_mem \<times> u64) option" where
  "cfg_sq e p cb st m = do {
     (cid, m1) \<leftarrow> mem_alloc_chunk e (ucast (rp_sq_mem_type p)) (sq_bytes_of p) False m;
     let st1 = st\<lparr>st_chunk_id := cid\<rparr>;
     if cid < 0 then map_option (\<lambda>(cb', m'). (False, cb', st1, m', 0)) (undo_data_buf e p (cb\<lparr>ac_sq_mem_chunk_id := - EINVAL\<rparr>) m1)
     else do {
       (va, m2) \<leftarrow> blk_alloc cid (sq_bytes_of p) m1;
       if va = 0 then map_option (Pair False) (undo_sq e p cid cb st1 m2)
       else do {
         (r, pa, m3) \<leftarrow> blk_phys cid va m2;
         let cb1 = cb\<lparr>ac_sq_mem_chunk_id := cid, ac_sq_addr := va\<rparr>;
         if r < 0 then do {
           (r', m4) \<leftarrow> blk_free cid va (sq_bytes_of p) m3;
           map_option (Pair False) (undo_sq e p cid cb1 st1 m4)}
         else Some (True, cb1, st1, m3, case pa of None \<Rightarrow> 0 | Some a \<Rightarrow> a)}}}"

definition qp_reg_info :: "rdma_param \<Rightarrow> app_context \<Rightarrow> u64 \<Rightarrow> u64 \<Rightarrow> per_qp_reg_info" where
  "qp_reg_info p cb pa sqa = \<lparr>pq_qp_num = ac_qp_num cb, pq_data_pattern = 0xFEADDEAF, pq_rkey = ac_remote_rkey cb,
     pq_va_lsb = ucast (ac_remote_addr cb), pq_va_msb = ucast (drop_bit 32 (ac_remote_addr cb)), pq_data_addr = pa, pq_sq_addr = sqa,
     pq_data_size_kb = ucast (rp_data_size_kb p), pq_wqe_opcode = ucast (rp_wqe_opcode p)\<rparr>"

text \<open>\<open>e\<close> and \<open>e'\<close> are the environments of the two allocations.\<close>

definition hw_hs_qp_cfg ::
  "'d srv_ioctl \<Rightarrow> call_env \<Rightarrow> call_env \<Rightarrow> rdma_param \<Rightarrow> app_context \<Rightarrow> qp_statics \<Rightarrow> srv_mem \<Rightarrow> 'd \<Rightarrow>
    (int \<times> app_context \<times> qp_statics \<times> srv_mem \<times> 'd) option" where
  "hw_hs_qp_cfg ioctl e e' p cb st m d = do {
     r \<leftarrow> cfg_data_buf e p cb st m;
     (case r of
        Inl (err, cb1, st1, m1) \<Rightarrow> Some (err, cb1, st1, m1, d)
      | Inr (cb1, st1, m1) \<Rightarrow> do {
          (ok, cb2, st2, m2, sqa) \<leftarrow> cfg_sq e' p cb1 st1 m1;
          Some (if ok then (case ioctl HH_WRITE_QP_CFG (ArgQp (qp_reg_info p cb2 (st_pa st1) sqa)) d of (err, w, d') \<Rightarrow> (err, cb2, st2, m2, d'))
                else (- ENOMEM, cb2, st2, m2, d))})}"

subsection \<open>The exchange of contexts\<close>

text \<open>Network order.\<close>

fun be_value :: "u64 \<Rightarrow> u8 list \<Rightarrow> u64" where
  "be_value acc [] = acc"
| "be_value acc (b # bs) = be_value (256 * acc + ucast b) bs"

record peer_info =
  pi_buf :: u64
  pi_rkey :: u32
  pi_size :: u32

definition rx_info :: "u8 list \<Rightarrow> peer_info" where
  "rx_info bs = \<lparr>pi_buf = be_value 0 (take 8 bs), pi_rkey = ucast (be_value 0 (take 4 (drop 8 bs))),
     pi_size = ucast (be_value 0 (take 4 (drop 12 bs)))\<rparr>"

text \<open>\<open>wc n\<close> is the answer of the \<open>n\<close>-th poll: nothing, or whether it succeeded and its identifier.  The result is the
  number of polls; a failed completion also ends the wait.\<close>

partial_function (option) rdmatest_poll_cq :: "(nat \<Rightarrow> (bool \<times> u64) option) \<Rightarrow> u64 \<Rightarrow> nat \<Rightarrow> nat option" where
  "rdmatest_poll_cq wc i n =
     (case wc n of None \<Rightarrow> rdmatest_poll_cq wc i (Suc n)
      | Some (ok, wr) \<Rightarrow> if \<not> ok \<or> wr = i then Some (Suc n) else rdmatest_poll_cq wc i (Suc n))"

record xchg_env =
  xe_post_recv :: int
  xe_post_send :: int
  xe_rand :: u64
  xe_wc :: "nat \<Rightarrow> (bool \<times> u64) option"
  xe_rx :: "u8 list"
  xe_mem :: call_env
  xe_mem_sq :: call_env

text \<open>The message is written through the pointer to the buffer; \<open>None\<close> when it is null.\<close>

definition test_server_rping ::
  "'d srv_ioctl \<Rightarrow> xchg_env \<Rightarrow> rdma_param \<Rightarrow> app_context \<Rightarrow> qp_statics \<Rightarrow> srv_mem \<Rightarrow> 'd \<Rightarrow> (int \<times> app_context \<times> qp_statics \<times> srv_mem \<times> 'd) option" where
  "test_server_rping ioctl x p cb st m d =
     (if xe_post_recv x < 0 then Some (- 1, cb, st, m, d)
      else if ac_send_buf cb = 0 then None
      else if xe_post_send x < 0 then Some (xe_post_send x, cb, st, m, d)
      else do {
        n \<leftarrow> rdmatest_poll_cq (xe_wc x) (xe_rand x) 0;
        let i = rx_info (xe_rx x);
        hw_hs_qp_cfg ioctl (xe_mem x) (xe_mem_sq x) p (cb\<lparr>ac_remote_rkey := pi_rkey i, ac_remote_addr := pi_buf i, ac_remote_len := pi_size i\<rparr>) st m d})"

text \<open>Receive requests; \<open>post\<close> is what the library returns for each.  The number posted.\<close>

fun post_rx :: "(u32 \<Rightarrow> int) \<Rightarrow> u32 \<Rightarrow> nat \<Rightarrow> nat" where
  "post_rx post r 0 = 0"
| "post_rx post r (Suc n) = (if post r < 0 then 0 else Suc (post_rx post (r + 1) n))"

definition hh_post_rx_wqes :: "(u32 \<Rightarrow> int) \<Rightarrow> u32 \<Rightarrow> app_context \<Rightarrow> nat \<times> app_context" where
  "hh_post_rx_wqes post cnt cb =
     (let free_wqe = ac_rq_depth cb - ac_rx_posted cb + ac_rx_compl cb;
          c = (if free_wqe < cnt then free_wqe else cnt);
          n = post_rx post (ac_rx_posted cb) (if sint c \<le> 0 then 0 else unat c)
      in (n, cb\<lparr>ac_rx_posted := ac_rx_posted cb + of_nat n\<rparr>))"

subsection \<open>Connections\<close>

datatype rping_cm_states = CONNECT_REQ | CONNECT_REQ_PROC | ESTABLISHED | READY_FOR_DATA_TRANSFER | QP_CFG_DONE | INVALID_STATE

datatype cm_event = EvConnectRequest | EvEstablished | EvAddrResolved | EvRouteResolved | EvDisconnected | EvOther

record ctx_entry =
  ce_ctx :: app_context
  client_cm_id :: nat
  ce_state :: rping_cm_states

text \<open>The list from \<open>head\<close> to \<open>prev\<close>; \<open>cm_qp_cnt\<close> is the static counter of \<open>set_ctx_to_rx_connect_req\<close>.\<close>

record rping_test =
  rt_list :: "ctx_entry list"
  connections :: u32
  disconnects :: u32
  rx_test_qp_cnt :: u32
  cm_qp_cnt :: u32
  qp_cfg_cnt :: u32

datatype 'a outcome = Go 'a | Exit int | Fault

fun find_ctx :: "ctx_entry list \<Rightarrow> nat \<Rightarrow> nat option" where
  "find_ctx [] i = None"
| "find_ctx (e # es) i = (if client_cm_id e = i then Some 0 else map_option Suc (find_ctx es i))"

definition set_entry_state :: "nat \<Rightarrow> rping_cm_states \<Rightarrow> rping_test \<Rightarrow> rping_test" where
  "set_entry_state k st t = t\<lparr>rt_list := (rt_list t)[k := (rt_list t ! k)\<lparr>ce_state := st\<rparr>]\<rparr>"

definition update_ctx_entry :: "rping_test \<Rightarrow> nat \<Rightarrow> cm_event \<Rightarrow> nat option \<times> rping_test" where
  "update_ctx_entry t i ev =
     (case find_ctx (rt_list t) i of
        None \<Rightarrow> (None, t)
      | Some k \<Rightarrow> (Some k, set_entry_state k (if ev = EvEstablished then ESTABLISHED else INVALID_STATE) t))"

text \<open>\<open>raw\<close> is the memory \<open>malloc\<close> returns, if any: \<open>memset\<close> clears as many bytes as a pointer has, which is the
  first pointer of the context.\<close>

definition set_ctx_to_rx_connect_req :: "app_context option \<Rightarrow> rping_test \<Rightarrow> nat \<Rightarrow> cm_event \<Rightarrow> (int \<times> rping_test) outcome" where
  "set_ctx_to_rx_connect_req raw t i ev =
     (case ev of
        EvConnectRequest \<Rightarrow>
          (case raw of None \<Rightarrow> Go (- ENOMEM, t)
           | Some cb \<Rightarrow> Go (0, t\<lparr>rt_list := rt_list t @ [\<lparr>ce_ctx = cb\<lparr>ac_qp_num := cm_qp_cnt t\<rparr>, client_cm_id = i, ce_state = CONNECT_REQ\<rparr>],
               cm_qp_cnt := cm_qp_cnt t + 1\<rparr>))
      | EvEstablished \<Rightarrow> (case update_ctx_entry t i ev of (None, t') \<Rightarrow> Go (- EINVAL, t') | (Some k, t') \<Rightarrow> Go (0, t'))
      | EvAddrResolved \<Rightarrow> Go (0, t)
      | EvRouteResolved \<Rightarrow> Go (0, t)
      | EvDisconnected \<Rightarrow>
          (let t' = t\<lparr>disconnects := disconnects t + 1\<rparr> in if disconnects t' \<ge> rx_test_qp_cnt t' then Exit 0 else Go (0, t'))
      | EvOther \<Rightarrow> Go (- 1, t))"

subsection \<open>The thread that prepares connections\<close>

record est_env =
  ee_pd :: bool
  ee_cq :: bool
  ee_notify :: int
  ee_create_qp :: int
  ee_mem :: call_env

text \<open>\<open>error_handler\<close> ends the process: \<open>None\<close>.\<close>

definition app_req_regions :: "est_env \<Rightarrow> app_context \<Rightarrow> app_context option" where
  "app_req_regions e cb =
     (if \<not> ee_pd e then None else if \<not> ee_cq e then None else if ee_notify e \<noteq> 0 then None else Some (cb\<lparr>ac_rq_depth := 8224\<rparr>))"

definition est_node :: "est_env \<Rightarrow> ctx_entry \<Rightarrow> srv_mem \<Rightarrow> (ctx_entry \<times> bool \<times> srv_mem) outcome" where
  "est_node e n m =
     (if ce_state n = CONNECT_REQ then
        (case app_req_regions e (ce_ctx n) of
           None \<Rightarrow> Exit 1
         | Some cb \<Rightarrow> if ee_create_qp e \<noteq> 0 then Exit 1 else Go (n\<lparr>ce_ctx := cb, ce_state := CONNECT_REQ_PROC\<rparr>, False, m))
      else if ce_state n = ESTABLISHED then
        (case rping_setup_buffers (ee_mem e) (ce_ctx n) m of
           None \<Rightarrow> Fault
         | Some (r, cb, m') \<Rightarrow> Go (n\<lparr>ce_ctx := cb, ce_state := READY_FOR_DATA_TRANSFER\<rparr>, True, m'))
      else Go (n, False, m))"

text \<open>At most three entries from \<open>k\<close> on.\<close>

fun est_nodes :: "(nat \<Rightarrow> est_env) \<Rightarrow> nat \<Rightarrow> nat \<Rightarrow> rping_test \<Rightarrow> srv_mem \<Rightarrow> (nat \<times> rping_test \<times> srv_mem) outcome" where
  "est_nodes env 0 k t m = Go (k, t, m)"
| "est_nodes env (Suc b) k t m =
     (if k < length (rt_list t) then
        (case est_node (env k) (rt_list t ! k) m of
           Go (n, conn, m') \<Rightarrow>
             est_nodes env b (Suc k) (t\<lparr>rt_list := (rt_list t)[k := n], connections := (if conn then connections t + 1 else connections t)\<rparr>) m'
         | Exit c \<Rightarrow> Exit c
         | Fault \<Rightarrow> Fault)
      else Go (k, t, m))"

text \<open>One turn with the lock: where the next one begins, and whether the thread ends.\<close>

definition est_round :: "(nat \<Rightarrow> est_env) \<Rightarrow> nat option \<Rightarrow> rping_test \<Rightarrow> srv_mem \<Rightarrow> (bool \<times> nat option \<times> rping_test \<times> srv_mem) outcome" where
  "est_round env temp t m =
     (case est_nodes env 3 (case temp of None \<Rightarrow> 0 | Some k \<Rightarrow> k) t m of
        Go (k, t', m') \<Rightarrow> Go (connections t' \<ge> rx_test_qp_cnt t', if k < length (rt_list t') then Some k else None, t', m')
      | Exit c \<Rightarrow> Exit c
      | Fault \<Rightarrow> Fault)"

subsection \<open>The thread that configures\<close>

record 'd srv =
  sv_test :: rping_test
  sv_temp :: "nat option"
  sv_est_done :: bool
  sv_mem :: srv_mem
  sv_st :: qp_statics
  sv_drv :: 'd
  sv_ret :: "int option"

definition set_entry_ctx :: "nat \<Rightarrow> app_context \<Rightarrow> rping_test \<Rightarrow> rping_test" where
  "set_entry_ctx k cb t = t\<lparr>rt_list := (rt_list t)[k := (rt_list t ! k)\<lparr>ce_ctx := cb\<rparr>]\<rparr>"

fun serve_nodes :: "'d srv_ioctl \<Rightarrow> (nat \<Rightarrow> xchg_env) \<Rightarrow> rdma_param \<Rightarrow> nat list \<Rightarrow> 'd srv \<Rightarrow> 'd srv option" where
  "serve_nodes ioctl x p [] s = Some s"
| "serve_nodes ioctl x p (k # ks) s =
     (if ce_state (rt_list (sv_test s) ! k) \<noteq> READY_FOR_DATA_TRANSFER then serve_nodes ioctl x p ks s
      else do {
        (err, cb, st, m, d) \<leftarrow> test_server_rping ioctl (x k) p (ce_ctx (rt_list (sv_test s) ! k)) (sv_st s) (sv_mem s) (sv_drv s);
        let t1 = set_entry_ctx k cb (sv_test s);
        let s1 = s\<lparr>sv_test := t1, sv_st := st, sv_mem := m, sv_drv := d\<rparr>;
        if err \<noteq> 0 then Some (s1\<lparr>sv_ret := Some (- EFAULT)\<rparr>)
        else let t2 = (set_entry_state k QP_CFG_DONE t1)\<lparr>qp_cfg_cnt := qp_cfg_cnt t1 + 1\<rparr> in
          if qp_cfg_cnt t2 \<ge> rp_qp_cnt p then Some (s1\<lparr>sv_test := t2, sv_ret := Some 0\<rparr>)
          else serve_nodes ioctl x p ks (s1\<lparr>sv_test := set_entry_state k INVALID_STATE t2\<rparr>)})"

text \<open>One turn of the loop of \<open>run_server\<close> with the lock.\<close>

definition run_server_turn :: "'d srv_ioctl \<Rightarrow> (nat \<Rightarrow> xchg_env) \<Rightarrow> rdma_param \<Rightarrow> 'd srv \<Rightarrow> 'd srv option" where
  "run_server_turn ioctl x p s = serve_nodes ioctl x p [0..<length (rt_list (sv_test s))] s"

subsection \<open>Start and end\<close>

text \<open>Up to the creation of the threads: the value the process returns, or where the server starts.\<close>

definition server_start ::
  "'d srv_ioctl \<Rightarrow> nat \<Rightarrow> (string \<Rightarrow> int) \<Rightarrow> (char \<times> string) list \<Rightarrow> int \<Rightarrow> srv_mem \<Rightarrow> 'd \<Rightarrow> (int \<times> 'd + rdma_param \<times> 'd srv) option" where
  "server_start ioctl argc addr opts fd m d =
     (if argc = 1 then Some (Inl (0, d))
      else case init_xperf_app addr opts fd of (ret, p) \<Rightarrow>
        if ret \<noteq> 0 then Some (Inl (- EFAULT, d))
        else if rp_help p \<noteq> 0 then Some (Inl (0, d))
        else map_option (\<lambda>(err, d').
            if err \<noteq> 0 then Inl (err, d')
            else Inr (p, \<lparr>sv_test = \<lparr>rt_list = [], connections = 0, disconnects = 0, rx_test_qp_cnt = rp_qp_cnt p, cm_qp_cnt = 0, qp_cfg_cnt = 0\<rparr>,
              sv_temp = None, sv_est_done = False, sv_mem = m, sv_st = init_statics, sv_drv = d', sv_ret = None\<rparr>))
          (fill_hh_ctrl_cfg ioctl p d))"

fun perf_reads :: "'d srv_ioctl \<Rightarrow> u32 list \<Rightarrow> 'd \<Rightarrow> nat \<times> (u32 \<times> u64) list \<times> 'd" where
  "perf_reads ioctl [] d = (0, [], d)"
| "perf_reads ioctl (q # qs) d =
     (case hh_perf_read ioctl q d of (r, w, d1) \<Rightarrow>
        case perf_reads ioctl qs d1 of (e, ws, d2) \<Rightarrow> if r \<noteq> 0 then (Suc e, ws, d2) else (e, w # ws, d2))"

definition free_part :: "call_env \<Rightarrow> int \<Rightarrow> u64 \<Rightarrow> u64 \<Rightarrow> srv_mem \<Rightarrow> srv_mem option" where
  "free_part e cid va sz m =
     (if cid > 0 then do {
        m1 \<leftarrow> (if va > 0 then map_option snd (blk_free cid va sz m) else Some m);
        map_option snd (mem_free_chunk e cid m1)}
      else Some m)"

definition free_entry :: "call_env \<Rightarrow> rdma_param \<Rightarrow> app_context \<Rightarrow> srv_mem \<Rightarrow> srv_mem option" where
  "free_entry e p cb m = do {
     m1 \<leftarrow> free_part e (ac_send_buf_chunk_id cb) (ac_send_buf cb) 24 m;
     m2 \<leftarrow> free_part e (ac_sq_mem_chunk_id cb) (ac_sq_addr cb) (sq_bytes_of p) m1;
     free_part e (ac_rdma_buf_chunk_id cb) (ac_rdma_buf_addr cb) (data_bytes p) m2}"

fun free_entries :: "call_env \<Rightarrow> rdma_param \<Rightarrow> ctx_entry list \<Rightarrow> srv_mem \<Rightarrow> srv_mem option" where
  "free_entries e p [] m = Some m"
| "free_entries e p (n # ns) m = do {m' \<leftarrow> free_entry e p (ce_ctx n) m; free_entries e p ns m'}"

text \<open>After \<open>run_server\<close> returned 0: the value returned, the counters read, the memory and the driver.  \<open>None\<close> also when
  the engine never finishes.\<close>

definition server_finish :: "'d srv_ioctl \<Rightarrow> call_env \<Rightarrow> rdma_param \<Rightarrow> 'd srv \<Rightarrow> (int \<times> nat \<times> (u32 \<times> u64) list \<times> srv_mem \<times> 'd) option" where
  "server_finish ioctl e p s =
     (case enable_hw_hs ioctl (sv_drv s) of (r1, d1) \<Rightarrow>
        if r1 \<noteq> 0 then Some (r1, 0, [], sv_mem s, d1)
        else do {
          (r2, d2) \<leftarrow> test_hw_handshake ioctl d1;
          if r2 \<noteq> 0 then Some (r2, 0, [], sv_mem s, d2)
          else let (errs, perf, d3) = perf_reads ioctl (map of_nat [0..<unat (rp_qp_cnt p)]) d2;
                   (r4, d4) = reset_hw_hsk ioctl d3
               in do {
                 m \<leftarrow> free_entries e p (take (unat (rp_qp_cnt p)) (rt_list (sv_test s))) (sv_mem s);
                 Some (0, errs, perf, m, d4)}})"

subsection \<open>Accepted parameters\<close>

lemma parse_opts_burst:
  "rp_db_burst_cnt p \<le> 15 \<Longrightarrow> parse_opts addr opts ret p = (r, p') \<Longrightarrow> rp_db_burst_cnt p' \<le> 15"
proof (induction opts arbitrary: ret p)
  case (Cons x xs)
  obtain c arg where x: "x = (c, arg)" by fastforce
  have b: "burst_opt n \<le> 15" for n by (auto simp: burst_opt_def not_le word_le_nat_alt word_less_nat_alt)
  have "rp_db_burst_cnt q \<le> 15" if "parse_opt addr x ret p = OptOn r' q" for r' q
    using that Cons.prems(1) b by (auto simp: parse_opt_def x Let_def split: if_splits option.splits)
  then show ?case using Cons by (auto split: opt_result.splits)
qed simp

lemma init_accepts:
  assumes "init_xperf_app addr opts fd = (0, p)"
  shows "0 < rp_qp_cnt p" "1 < rp_queue_depth p" "rp_db_burst_cnt p < rp_queue_depth p" "rp_db_burst_cnt p \<le> 15"
proof -
  obtain r where q: "parser addr opts init_app_defaults = (r, p)"
    using assms by (auto simp: init_xperf_app_def split: prod.splits if_splits)
  show "0 < rp_qp_cnt p" "1 < rp_queue_depth p" "rp_db_burst_cnt p < rp_queue_depth p"
    using assms q by (auto simp: init_xperf_app_def word_neq_0_conv not_le split: if_splits)
  show "rp_db_burst_cnt p \<le> 15" using parse_opts_burst [OF _ q [unfolded parser_def]] by (simp add: init_app_defaults_def)
qed

lemma burst_u8: "n \<le> 15 \<Longrightarrow> unat (ucast n :: u8) = unat n" for n :: u32
  by (simp add: word_le_nat_alt unsigned_ucast_eq unsigned_take_bit_eq take_bit_nat_eq_self_iff)

lemma ctrl_cfg_None: "rp_db_burst_cnt p \<le> 15 \<Longrightarrow> ctrl_cfg p = None \<longleftrightarrow> rp_db_burst_cnt p = 0"
  using burst_u8 [of "rp_db_burst_cnt p"] by (auto simp: ctrl_cfg_def Let_def) (metis unat_eq_zero unat_0)

text \<open>a connection whose message buffer could not be allocated is still taken for ready, and the exchange then writes
  through its null pointer.\<close>

theorem setup_failure_faults:
  assumes "rping_setup_wr e cb m = Some (- EFAULT, cb', m')" "ac_send_buf cb = 0" "0 \<le> xe_post_recv x"
  shows "rping_setup_buffers e cb m = Some (0, cb', m') \<and> test_server_rping ioctl x p cb' st m2 d = None"
proof -
  have "ac_send_buf cb' = 0" using assms(1,2) by (auto simp: rping_setup_wr_def split: Option.bind_split_asm if_splits)
  then show ?thesis using assms(1,3) by (simp add: rping_setup_buffers_def test_server_rping_def)
qed

text \<open>C33: from parameters that the server accepts, it computes a configuration exactly when the burst count is not 0; the number
  of work requests it then gives the engine is a multiple of the burst count, not more than asked for and less
  than one burst short of it.\<close>

theorem ctrl_cfg_whole_bursts:
  assumes "init_xperf_app addr opts fd = (0, p)"
  shows "case ctrl_cfg p of
      None \<Rightarrow> rp_db_burst_cnt p = 0
    | Some c \<Rightarrow> unat (cc_db_burst_cnt c) = unat (rp_db_burst_cnt p) \<and> unat (cc_db_burst_cnt c) dvd unat (cc_qp_wqe_cnt c) \<and>
        unat (cc_qp_wqe_cnt c) \<le> unat (rp_qp_wqe_cnt p) \<and> unat (rp_qp_wqe_cnt p) < unat (cc_qp_wqe_cnt c) + unat (rp_db_burst_cnt p)"
proof -
  let ?b = "rp_db_burst_cnt p" and ?n = "rp_qp_wqe_cnt p"
  have le: "unat ?b \<le> 15" using init_accepts(4) [OF assms] by (simp add: word_le_nat_alt)
  have ub: "unat (ucast ?b :: u8) = unat ?b" by (rule burst_u8 [OF init_accepts(4) [OF assms]])
  then have uu: "(ucast (ucast ?b :: u8) :: u32) = ?b" using le by (simp add: word_unat_eq_iff unsigned_ucast_eq unsigned_take_bit_eq take_bit_nat_eq_self_iff)
  show ?thesis
  proof (cases "?b = 0")
    case True
    then show ?thesis by (simp add: ctrl_cfg_def)
  next
    case False
    then have pos: "0 < unat ?b" by (simp add: unat_gt_0)
    then have nz: "(ucast ?b :: u8) \<noteq> 0" using ub by (metis unat_0 less_numeral_extra(3))
    have m: "unat (?n mod ?b) = unat ?n mod unat ?b" by (simp add: unat_mod)
    then have "unat (?n - ?n mod ?b) = unat ?n - unat ?n mod unat ?b"
      by (metis mod_less_eq_dividend unat_sub_le word_le_nat_alt)
    moreover have "unat ?n mod unat ?b < unat ?b" "unat ?n mod unat ?b \<le> unat ?n" using pos by simp_all
    moreover have "unat ?b dvd unat ?n - unat ?n mod unat ?b" by (rule dvd_minus_mod)
    ultimately show ?thesis using nz ub uu by (simp add: ctrl_cfg_def Let_def)
  qed
qed

subsection \<open>The threads together\<close>

text \<open>What the connection manager promises: a request comes with a new identifier, and a connection is established once, after
  it was accepted.\<close>

definition cm_allowed :: "rping_test \<Rightarrow> nat \<Rightarrow> cm_event \<Rightarrow> bool" where
  "cm_allowed t i ev =
     (case ev of
        EvConnectRequest \<Rightarrow> find_ctx (rt_list t) i = None
      | EvEstablished \<Rightarrow> (case find_ctx (rt_list t) i of Some k \<Rightarrow> ce_state (rt_list t ! k) = CONNECT_REQ_PROC | None \<Rightarrow> False)
      | _ \<Rightarrow> True)"

inductive srv_reach :: "'d srv_ioctl \<Rightarrow> rdma_param \<Rightarrow> 'd srv \<Rightarrow> 'd srv \<Rightarrow> bool" for ioctl p s0 where
  start: "srv_reach ioctl p s0 s0"
| cm: "srv_reach ioctl p s0 s \<Longrightarrow> cm_allowed (sv_test s) i ev \<Longrightarrow> set_ctx_to_rx_connect_req raw (sv_test s) i ev = Go (r, t) \<Longrightarrow>
    srv_reach ioctl p s0 (s\<lparr>sv_test := t\<rparr>)"
| est: "srv_reach ioctl p s0 s \<Longrightarrow> \<not> sv_est_done s \<Longrightarrow> est_round env (sv_temp s) (sv_test s) (sv_mem s) = Go (fin, temp, t, m) \<Longrightarrow>
    srv_reach ioctl p s0 (s\<lparr>sv_est_done := fin, sv_temp := temp, sv_test := t, sv_mem := m\<rparr>)"
| serve: "srv_reach ioctl p s0 s \<Longrightarrow> sv_ret s = None \<Longrightarrow> run_server_turn ioctl x p s = Some s' \<Longrightarrow> srv_reach ioctl p s0 s'"

text \<open>A driver that keeps the numbers of the queue pairs it was told successfully.\<close>

definition recording :: "'e srv_ioctl \<Rightarrow> ('e \<times> u32 list) srv_ioctl" where
  "recording io cmd arg dl =
     (case io cmd arg (fst dl) of (r, w, d) \<Rightarrow>
        (r, w, d, case arg of ArgQp q \<Rightarrow> if r = 0 then snd dl @ [pq_qp_num q] else snd dl | _ \<Rightarrow> snd dl))"

definition is_ready :: "ctx_entry \<Rightarrow> bool" where
  "is_ready n \<longleftrightarrow> ce_state n \<in> {READY_FOR_DATA_TRANSFER, QP_CFG_DONE, INVALID_STATE}"

definition is_configured :: "ctx_entry \<Rightarrow> bool" where
  "is_configured n \<longleftrightarrow> ce_state n \<in> {QP_CFG_DONE, INVALID_STATE}"

definition how_many :: "('a \<Rightarrow> bool) \<Rightarrow> 'a list \<Rightarrow> nat" where
  "how_many P xs = length (filter P xs)"

lemma how_many_simps [simp]: "how_many P [] = 0" "how_many P (xs @ [x]) = how_many P xs + (if P x then 1 else 0)"
  by (simp_all add: how_many_def)

lemma how_many_update:
  assumes "k < length xs"
  shows "how_many P (xs[k := x]) + (if P (xs ! k) then 1 else 0) = how_many P xs + (if P x then 1 else 0)"
proof -
  have "how_many P xs = how_many P (take k xs @ xs ! k # drop (Suc k) xs)" using assms by (simp only: id_take_nth_drop [symmetric])
  then show ?thesis using assms by (simp add: upd_conv_take_nth_drop how_many_def)
qed

definition test_inv :: "rping_test \<Rightarrow> u32 list \<Rightarrow> bool" where
  "test_inv t log \<longleftrightarrow>
     (\<forall>k < length (rt_list t). ac_qp_num (ce_ctx (rt_list t ! k)) = of_nat k) \<and> cm_qp_cnt t = of_nat (length (rt_list t)) \<and>
     connections t = of_nat (how_many is_ready (rt_list t)) \<and> qp_cfg_cnt t = of_nat (how_many is_configured (rt_list t)) \<and>
     distinct log \<and> set log = of_nat ` {k. k < length (rt_list t) \<and> is_configured (rt_list t ! k)}"

lemma find_ctx_Some: "find_ctx es i = Some k \<Longrightarrow> k < length es"
  by (induction es arbitrary: k) (auto split: if_splits)

text \<open>A change of one entry that keeps its number, and whether it is configured.\<close>

lemma test_inv_update:
  assumes "test_inv t log" "k < length (rt_list t)" "ac_qp_num (ce_ctx n) = ac_qp_num (ce_ctx (rt_list t ! k))"
    and "is_configured n = is_configured (rt_list t ! k)"
    and "c = connections t + (if is_ready n \<and> \<not> is_ready (rt_list t ! k) then 1 else 0)" "is_ready (rt_list t ! k) \<longrightarrow> is_ready n"
  shows "test_inv (t\<lparr>rt_list := (rt_list t)[k := n], connections := c\<rparr>) log"
proof -
  let ?l = "rt_list t" let ?l' = "?l[k := n]"
  have nums: "\<forall>j < length ?l'. ac_qp_num (ce_ctx (?l' ! j)) = of_nat j"
    using assms(1-3) by (auto simp: test_inv_def nth_list_update)
  have cfg: "how_many is_configured ?l' = how_many is_configured ?l"
    using how_many_update [OF assms(2), of is_configured n] assms(4) by (auto split: if_splits)
  have rdy: "how_many is_ready ?l' = how_many is_ready ?l + (if is_ready n \<and> \<not> is_ready (?l ! k) then 1 else 0)"
    using how_many_update [OF assms(2), of is_ready n] assms(6) by (auto split: if_splits)
  have "{j. j < length ?l' \<and> is_configured (?l' ! j)} = {j. j < length ?l \<and> is_configured (?l ! j)}"
    using assms(2,4) by (auto simp: nth_list_update)
  then show ?thesis using assms(1,5) nums cfg rdy by (auto simp: test_inv_def)
qed

lemma test_inv_configure:
  assumes "test_inv t log" "k < length (rt_list t)" "length (rt_list t) < 2 ^ 32" "ce_state (rt_list t ! k) = READY_FOR_DATA_TRANSFER"
    and "ac_qp_num (ce_ctx n) = ac_qp_num (ce_ctx (rt_list t ! k))" "is_configured n"
  shows "test_inv (t\<lparr>rt_list := (rt_list t)[k := n], qp_cfg_cnt := qp_cfg_cnt t + 1\<rparr>) (log @ [ac_qp_num (ce_ctx (rt_list t ! k))])"
proof -
  let ?l = "rt_list t" let ?l' = "?l[k := n]"
  have old: "is_ready (?l ! k)" "\<not> is_configured (?l ! k)" and new: "is_ready n"
    using assms(4,6) by (auto simp: is_ready_def is_configured_def)
  have num: "ac_qp_num (ce_ctx (?l ! k)) = of_nat k" using assms(1,2) by (simp add: test_inv_def)
  have nums: "\<forall>j < length ?l'. ac_qp_num (ce_ctx (?l' ! j)) = of_nat j"
    using assms(1,2,5) by (auto simp: test_inv_def nth_list_update)
  have cfg: "how_many is_configured ?l' = Suc (how_many is_configured ?l)"
    using how_many_update [OF assms(2), of is_configured n] old assms(6) by simp
  have rdy: "how_many is_ready ?l' = how_many is_ready ?l"
    using how_many_update [OF assms(2), of is_ready n] old new by simp
  have upd: "{j. j < length ?l' \<and> is_configured (?l' ! j)} = insert k {j. j < length ?l \<and> is_configured (?l ! j)}"
    using assms(2,6) by (auto simp: nth_list_update)
  have "(of_nat k :: u32) \<notin> of_nat ` {j. j < length ?l \<and> is_configured (?l ! j)}"
  proof
    assume "(of_nat k :: u32) \<in> of_nat ` {j. j < length ?l \<and> is_configured (?l ! j)}"
    then obtain j where j: "j < length ?l" "is_configured (?l ! j)" "(of_nat k :: u32) = of_nat j" by blast
    have "take_bit 32 k = k" "take_bit 32 j = j" using assms(2,3) j(1) by (simp_all add: take_bit_nat_eq_self_iff)
    then have "k = j" using j(3) by (simp add: word_of_nat_eq_iff)
    then show False using j(2) old(2) by simp
  qed
  then show ?thesis using assms(1) nums cfg rdy upd num by (auto simp: test_inv_def)
qed

lemma setup_buffers_keeps: "rping_setup_buffers e cb m = Some (r, cb', m') \<Longrightarrow> ac_qp_num cb' = ac_qp_num cb"
  by (auto simp: rping_setup_buffers_def rping_setup_wr_def split: Option.bind_split_asm if_splits)

lemma est_node_keeps:
  assumes "est_node e n m = Go (n', conn, m')"
  shows "ac_qp_num (ce_ctx n') = ac_qp_num (ce_ctx n)" "is_configured n' = is_configured n" "is_ready n \<longrightarrow> is_ready n'"
    "conn = (is_ready n' \<and> \<not> is_ready n)"
proof -
  have "ac_qp_num (ce_ctx n') = ac_qp_num (ce_ctx n) \<and> is_configured n' = is_configured n \<and> (is_ready n \<longrightarrow> is_ready n') \<and>
      conn = (is_ready n' \<and> \<not> is_ready n)"
  proof (cases "ce_state n = CONNECT_REQ")
    case True
    then have "n' = n\<lparr>ce_ctx := (ce_ctx n)\<lparr>ac_rq_depth := 8224\<rparr>, ce_state := CONNECT_REQ_PROC\<rparr> \<and> \<not> conn"
      using assms by (simp add: est_node_def app_req_regions_def split: if_splits)
    then show ?thesis using True by (simp add: is_ready_def is_configured_def)
  next
    case False
    note not_req = False
    show ?thesis
    proof (cases "ce_state n = ESTABLISHED")
      case True
      then obtain a where "rping_setup_buffers (ee_mem e) (ce_ctx n) m = Some a"
        using assms by (cases "rping_setup_buffers (ee_mem e) (ce_ctx n) m") (simp_all add: est_node_def)
      then obtain r cb m1 where s: "rping_setup_buffers (ee_mem e) (ce_ctx n) m = Some (r, cb, m1)" by (metis prod_cases3)
      then have "n' = n\<lparr>ce_ctx := cb, ce_state := READY_FOR_DATA_TRANSFER\<rparr> \<and> conn"
        using assms True by (simp add: est_node_def)
      then show ?thesis using True setup_buffers_keeps [OF s] by (simp add: is_ready_def is_configured_def)
    next
      case False
      then show ?thesis using assms not_req by (simp add: est_node_def)
    qed
  qed
  then show "ac_qp_num (ce_ctx n') = ac_qp_num (ce_ctx n)" "is_configured n' = is_configured n" "is_ready n \<longrightarrow> is_ready n'"
    "conn = (is_ready n' \<and> \<not> is_ready n)" by simp_all
qed

lemma est_nodes_inv:
  "test_inv t log \<Longrightarrow> est_nodes env b k t m = Go (k', t', m') \<Longrightarrow>
     test_inv t' log \<and> length (rt_list t') = length (rt_list t) \<and> qp_cfg_cnt t' = qp_cfg_cnt t"
proof (induction b arbitrary: k t m)
  case (Suc b)
  show ?case
  proof (cases "k < length (rt_list t)")
    case True
    obtain n conn m1 where n: "est_node (env k) (rt_list t ! k) m = Go (n, conn, m1)"
      and r: "est_nodes env b (Suc k) (t\<lparr>rt_list := (rt_list t)[k := n], connections := (if conn then connections t + 1 else connections t)\<rparr>) m1 = Go (k', t', m')"
      using Suc.prems(2) True by (auto split: outcome.splits prod.splits)
    note e = est_node_keeps [OF n]
    show ?thesis using Suc.IH [OF test_inv_update [OF Suc.prems(1) True e(1,2) _ e(3)] r] e(4) by simp
  next
    case False
    then show ?thesis using Suc.prems by simp
  qed
qed simp

text \<open>What identifies a context to the engine.\<close>

definition peer_of :: "app_context \<Rightarrow> u32 \<times> u32 \<times> u64" where
  "peer_of c = (ac_qp_num c, ac_remote_rkey c, ac_remote_addr c)"

lemma undo_keeps: "undo_data_buf e p c m = Some (c', m') \<Longrightarrow> peer_of c' = peer_of c"
  by (auto simp: undo_data_buf_def peer_of_def split: Option.bind_split_asm if_splits)

lemma cfg_sq_keeps: "cfg_sq e p c st m = Some (ok, c', r) \<Longrightarrow> peer_of c' = peer_of c"
  by (auto simp: cfg_sq_def undo_sq_def Let_def peer_of_def dest!: undo_keeps split: Option.bind_split_asm if_splits)

lemma cfg_data_buf_keeps:
  "cfg_data_buf e p c st m = Some r \<Longrightarrow>
     (case r of Inl (err, c', q) \<Rightarrow> peer_of c' = peer_of c \<and> err \<noteq> 0 | Inr (c', q) \<Rightarrow> peer_of c' = peer_of c)"
  by (auto simp: cfg_data_buf_def Let_def peer_of_def split: Option.bind_split_asm if_splits)

text \<open>The configuration of a queue pair either fails before the driver is called or returns what the driver returns.\<close>

lemma qp_cfg_calls:
  assumes "hw_hs_qp_cfg ioctl e e' p cb st m d = Some (err, cb', st', m', d')"
  shows "peer_of cb' = peer_of cb \<and> (err \<noteq> 0 \<and> d' = d \<or>
    (\<exists>pa sqa w. ioctl HH_WRITE_QP_CFG (ArgQp (qp_reg_info p cb' pa sqa)) d = (err, w, d')))"
proof -
  obtain r where r: "cfg_data_buf e p cb st m = Some r" using assms by (auto simp: hw_hs_qp_cfg_def bind_eq_Some_conv)
  show ?thesis
  proof (cases r)
    case (Inl q)
    then show ?thesis using assms r cfg_data_buf_keeps [OF r] by (auto simp: hw_hs_qp_cfg_def split: prod.splits)
  next
    case (Inr q)
    obtain c1 st1 m1 where q: "q = (c1, st1, m1)" by (metis prod_cases3)
    obtain ok c2 st2 m2 a where c2: "cfg_sq e' p c1 st1 m1 = Some (ok, c2, st2, m2, a)"
      using assms r Inr q by (auto simp: hw_hs_qp_cfg_def bind_eq_Some_conv)
    have "peer_of c2 = peer_of cb" using cfg_data_buf_keeps [OF r] Inr q cfg_sq_keeps [OF c2] by simp
    then show ?thesis using assms r Inr q c2 by (cases ok) (auto simp: hw_hs_qp_cfg_def split: prod.splits)
  qed
qed

lemma exchange_calls:
  assumes "test_server_rping ioctl x p cb st m d = Some (err, cb', st', m', d')"
  shows "ac_qp_num cb' = ac_qp_num cb \<and> (err \<noteq> 0 \<and> d' = d \<or>
    (\<exists>pa sqa w. ac_remote_rkey cb' = pi_rkey (rx_info (xe_rx x)) \<and> ac_remote_addr cb' = pi_buf (rx_info (xe_rx x)) \<and>
      ioctl HH_WRITE_QP_CFG (ArgQp (qp_reg_info p cb' pa sqa)) d = (err, w, d')))"
proof (cases "xe_post_recv x < 0 \<or> xe_post_send x < 0")
  case True
  then show ?thesis using assms by (auto simp: test_server_rping_def split: if_splits)
next
  case False
  then have "hw_hs_qp_cfg ioctl (xe_mem x) (xe_mem_sq x) p (cb\<lparr>ac_remote_rkey := pi_rkey (rx_info (xe_rx x)),
      ac_remote_addr := pi_buf (rx_info (xe_rx x)), ac_remote_len := pi_size (rx_info (xe_rx x))\<rparr>) st m d = Some (err, cb', st', m', d')"
    using assms by (auto simp: test_server_rping_def Let_def bind_eq_Some_conv split: if_splits)
  from qp_cfg_calls [OF this] show ?thesis by (auto simp: peer_of_def)
qed

lemma recording_qp:
  "recording io cmd (ArgQp c) d = (err, w, d') \<Longrightarrow> snd d' = (if err = 0 then snd d @ [pq_qp_num c] else snd d)"
  by (auto simp: recording_def split: prod.splits)

lemma serve_recorded:
  assumes "test_server_rping (recording io) x p cb st m d = Some (err, cb', st', m', d')"
  shows "ac_qp_num cb' = ac_qp_num cb" "snd d' = (if err = 0 then snd d @ [ac_qp_num cb] else snd d)"
  using exchange_calls [OF assms] by (auto dest!: recording_qp simp: qp_reg_info_def)

lemma set_entry_lists [simp]:
  "length (rt_list (set_entry_ctx k cb t)) = length (rt_list t)" "length (rt_list (set_entry_state k st t)) = length (rt_list t)"
  by (simp_all add: set_entry_ctx_def set_entry_state_def)

text \<open>One queue pair: refused, or configured and its number recorded.\<close>

lemma set_ctx_inv:
  assumes "test_inv t log" "k < length (rt_list t)" "ac_qp_num cb = ac_qp_num (ce_ctx (rt_list t ! k))"
  shows "test_inv (set_entry_ctx k cb t) log"
proof -
  have "test_inv (t\<lparr>rt_list := (rt_list t)[k := (rt_list t ! k)\<lparr>ce_ctx := cb\<rparr>], connections := connections t\<rparr>) log"
    by (rule test_inv_update [OF assms(1,2)]) (auto simp: assms(3) is_configured_def is_ready_def)
  then show ?thesis by (simp add: set_entry_ctx_def)
qed

lemma configure_inv:
  assumes "test_inv t log" "k < length (rt_list t)" "length (rt_list t) < 2 ^ 32" "ce_state (rt_list t ! k) = READY_FOR_DATA_TRANSFER"
    and "ac_qp_num cb = ac_qp_num (ce_ctx (rt_list t ! k))" "st \<in> {QP_CFG_DONE, INVALID_STATE}"
  shows "test_inv ((set_entry_state k st (set_entry_ctx k cb t))\<lparr>qp_cfg_cnt := qp_cfg_cnt t + 1\<rparr>) (log @ [ac_qp_num (ce_ctx (rt_list t ! k))])"
proof -
  have "test_inv (t\<lparr>rt_list := (rt_list t)[k := (rt_list t ! k)\<lparr>ce_ctx := cb, ce_state := st\<rparr>], qp_cfg_cnt := qp_cfg_cnt t + 1\<rparr>)
      (log @ [ac_qp_num (ce_ctx (rt_list t ! k))])"
    by (rule test_inv_configure [OF assms(1-4)]) (use assms(5,6) in \<open>auto simp: is_configured_def\<close>)
  then show ?thesis using assms(2) by (simp add: set_entry_ctx_def set_entry_state_def)
qed

definition served :: "rdma_param \<Rightarrow> ('e \<times> u32 list) srv \<Rightarrow> bool" where
  "served p s \<longleftrightarrow> test_inv (sv_test s) (snd (sv_drv s)) \<and> (sv_ret s = Some 0 \<longrightarrow> rp_qp_cnt p \<le> qp_cfg_cnt (sv_test s))"

lemma serve_nodes_length: "serve_nodes io x p ks s = Some s' \<Longrightarrow> length (rt_list (sv_test s')) = length (rt_list (sv_test s))"
proof (induction ks arbitrary: s)
  case (Cons k ks)
  then show ?case by (auto simp: Let_def split: if_splits Option.bind_split_asm)
qed simp

lemma serve_node_step:
  assumes "served p s" "length (rt_list (sv_test s)) < 2 ^ 32" "k < length (rt_list (sv_test s))"
    and ready: "ce_state (rt_list (sv_test s) ! k) = READY_FOR_DATA_TRANSFER"
    and none: "sv_ret s = None" and run: "serve_nodes (recording io) x p (k # ks) s = Some s'"
  shows "served p s' \<or> (\<exists>s2. served p s2 \<and> sv_ret s2 = sv_ret s \<and> length (rt_list (sv_test s2)) = length (rt_list (sv_test s)) \<and>
    serve_nodes (recording io) x p ks s2 = Some s')"
proof -
  let ?n = "rt_list (sv_test s) ! k"
  have inv: "test_inv (sv_test s) (snd (sv_drv s))" using assms(1) by (simp add: served_def)
  obtain err cb st m d where r: "test_server_rping (recording io) (x k) p (ce_ctx ?n) (sv_st s) (sv_mem s) (sv_drv s) = Some (err, cb, st, m, d)"
    using run ready by (auto split: Option.bind_split_asm)
  note keep = serve_recorded [OF r]
  let ?t1 = "set_entry_ctx k cb (sv_test s)"
  let ?s1 = "s\<lparr>sv_test := ?t1, sv_st := st, sv_mem := m, sv_drv := d\<rparr>"
  let ?t2 = "(set_entry_state k QP_CFG_DONE ?t1)\<lparr>qp_cfg_cnt := qp_cfg_cnt ?t1 + 1\<rparr>"
  let ?t3 = "set_entry_state k INVALID_STATE ?t2"
  show ?thesis
  proof (cases "err = 0")
    case False
    then have "s' = ?s1\<lparr>sv_ret := Some (- EFAULT)\<rparr>" using run ready r by (simp add: Let_def)
    then show ?thesis using set_ctx_inv [OF inv assms(3) keep(1)] keep(2) False by (simp add: served_def)
  next
    case ok: True
    have cnt: "qp_cfg_cnt ?t1 = qp_cfg_cnt (sv_test s)" by (simp add: set_entry_ctx_def)
    note conf = configure_inv [OF inv assms(3,2) ready keep(1)]
    have t2: "test_inv ?t2 (snd d)" using conf [of QP_CFG_DONE] keep(2) ok cnt by simp
    have "?t3 = (set_entry_state k INVALID_STATE ?t1)\<lparr>qp_cfg_cnt := qp_cfg_cnt ?t1 + 1\<rparr>"
      using assms(3) by (simp add: set_entry_ctx_def set_entry_state_def)
    then have t3: "test_inv ?t3 (snd d)" using conf [of INVALID_STATE] keep(2) ok cnt by simp
    show ?thesis
    proof (cases "rp_qp_cnt p \<le> qp_cfg_cnt ?t2")
      case True
      then have "s' = ?s1\<lparr>sv_test := ?t2, sv_ret := Some 0\<rparr>" using run ready r ok by (simp add: Let_def)
      then show ?thesis using t2 True by (simp add: served_def)
    next
      case False
      then have "serve_nodes (recording io) x p ks (?s1\<lparr>sv_test := ?t3\<rparr>) = Some s'" using run ready r ok by (simp add: Let_def)
      moreover have "served p (?s1\<lparr>sv_test := ?t3\<rparr>)" using t3 none by (simp add: served_def)
      ultimately show ?thesis by (intro disjI2 exI [of _ "?s1\<lparr>sv_test := ?t3\<rparr>"]) simp
    qed
  qed
qed

lemma serve_nodes_inv:
  assumes "served p s" "sv_ret s = None" "length (rt_list (sv_test s)) < 2 ^ 32" "set ks \<subseteq> {..<length (rt_list (sv_test s))}"
    and "serve_nodes (recording io) x p ks s = Some s'"
  shows "served p s'"
  using assms
proof (induction ks arbitrary: s)
  case (Cons k ks)
  show ?case
  proof (cases "ce_state (rt_list (sv_test s) ! k) = READY_FOR_DATA_TRANSFER")
    case False
    then show ?thesis using Cons.prems Cons.IH [of s] by simp
  next
    case True
    have "k < length (rt_list (sv_test s))" using Cons.prems(4) by simp
    from serve_node_step [OF Cons.prems(1,3) this True Cons.prems(2,5)] show ?thesis
    proof (elim disjE exE conjE)
      fix s2
      assume "served p s2" "sv_ret s2 = sv_ret s" "length (rt_list (sv_test s2)) = length (rt_list (sv_test s))"
        "serve_nodes (recording io) x p ks s2 = Some s'"
      then show ?thesis using Cons.IH [of s2] Cons.prems(2-4) by simp
    qed simp
  qed
qed simp

lemma est_round_inv:
  assumes "test_inv t log" "est_round env temp t m = Go (fin, temp', t', m')"
  shows "test_inv t' log" "length (rt_list t') = length (rt_list t)" "qp_cfg_cnt t' = qp_cfg_cnt t"
proof -
  obtain k where "est_nodes env 3 (case temp of None \<Rightarrow> 0 | Some k \<Rightarrow> k) t m = Go (k, t', m')"
    using assms(2) by (simp add: est_round_def split: outcome.splits prod.splits)
  from est_nodes_inv [OF assms(1) this] show "test_inv t' log" "length (rt_list t') = length (rt_list t)" "qp_cfg_cnt t' = qp_cfg_cnt t"
    by simp_all
qed

lemma test_inv_connect:
  assumes "test_inv t log" "ac_qp_num cb = cm_qp_cnt t"
  shows "test_inv (t\<lparr>rt_list := rt_list t @ [\<lparr>ce_ctx = cb, client_cm_id = i, ce_state = CONNECT_REQ\<rparr>], cm_qp_cnt := cm_qp_cnt t + 1\<rparr>) log"
proof -
  let ?n = "\<lparr>ce_ctx = cb, client_cm_id = i, ce_state = CONNECT_REQ\<rparr>"
  have "{k. k < Suc (length (rt_list t)) \<and> is_configured ((rt_list t @ [?n]) ! k)} = {k. k < length (rt_list t) \<and> is_configured (rt_list t ! k)}"
    by (auto simp: nth_append less_Suc_eq is_configured_def)
  then show ?thesis using assms by (auto simp: test_inv_def nth_append less_Suc_eq is_ready_def is_configured_def)
qed

lemma cm_step_inv:
  assumes "test_inv t log" "cm_allowed t i ev" "set_ctx_to_rx_connect_req raw t i ev = Go (r, t')"
  shows "test_inv t' log \<and> length (rt_list t) \<le> length (rt_list t') \<and> qp_cfg_cnt t' = qp_cfg_cnt t"
proof (cases ev)
  case EvConnectRequest
  then show ?thesis using assms
    by (cases raw) (auto simp: set_ctx_to_rx_connect_req_def intro!: test_inv_connect)
next
  case EvEstablished
  then obtain k where k: "find_ctx (rt_list t) i = Some k" "ce_state (rt_list t ! k) = CONNECT_REQ_PROC"
    using assms(2) by (auto simp: cm_allowed_def split: option.splits)
  have "test_inv (t\<lparr>rt_list := (rt_list t)[k := (rt_list t ! k)\<lparr>ce_state := ESTABLISHED\<rparr>], connections := connections t\<rparr>) log"
    by (rule test_inv_update [OF assms(1) find_ctx_Some [OF k(1)]]) (auto simp: k is_configured_def is_ready_def)
  moreover have "t' = t\<lparr>rt_list := (rt_list t)[k := (rt_list t ! k)\<lparr>ce_state := ESTABLISHED\<rparr>]\<rparr>"
    using assms(3) EvEstablished k(1) by (simp add: set_ctx_to_rx_connect_req_def update_ctx_entry_def set_entry_state_def)
  ultimately show ?thesis by simp
qed (use assms in \<open>auto simp: set_ctx_to_rx_connect_req_def Let_def test_inv_def split: if_splits\<close>)

lemma est_nodes_length: "est_nodes env b k t m = Go (k', t', m') \<Longrightarrow> length (rt_list t') = length (rt_list t)"
proof (induction b arbitrary: k t m)
  case (Suc b)
  then show ?case by (auto split: if_splits outcome.splits)
qed simp

lemma srv_lengths:
  "set_ctx_to_rx_connect_req raw t i ev = Go (r, t') \<Longrightarrow> length (rt_list t) \<le> length (rt_list t')"
  "est_round env temp t m = Go (fin, temp', t', m') \<Longrightarrow> length (rt_list t') = length (rt_list t)"
proof -
  show "set_ctx_to_rx_connect_req raw t i ev = Go (r, t') \<Longrightarrow> length (rt_list t) \<le> length (rt_list t')"
    by (cases ev) (auto simp: set_ctx_to_rx_connect_req_def update_ctx_entry_def Let_def split: option.splits if_splits)
  show "est_round env temp t m = Go (fin, temp', t', m') \<Longrightarrow> length (rt_list t') = length (rt_list t)"
    by (auto simp: est_round_def dest: est_nodes_length split: outcome.splits)
qed

lemma srv_reach_inv:
  assumes "srv_reach (recording io) p s0 s" "served p s0" "length (rt_list (sv_test s)) < 2 ^ 32"
  shows "served p s"
  using assms
proof (induction rule: srv_reach.induct)
  case (cm s i ev raw r t)
  then have "served p s" using srv_lengths(1) [OF cm.hyps(3)] by simp
  then show ?case using cm_step_inv [OF _ cm.hyps(2,3), of "snd (sv_drv s)"] by (auto simp: served_def)
next
  case (est s env fin temp t m)
  then have "served p s" using srv_lengths(2) [OF est.hyps(3)] by simp
  then show ?case using est_round_inv [OF _ est.hyps(3), of "snd (sv_drv s)"] by (auto simp: served_def)
next
  case (serve s x s')
  note run = serve.hyps(3) [unfolded run_server_turn_def]
  have len: "length (rt_list (sv_test s)) < 2 ^ 32" using serve.prems(2) serve_nodes_length [OF run] by simp
  then have "served p s" using serve.IH serve.prems(1) by simp
  then show ?case by (rule serve_nodes_inv [OF _ serve.hyps(2) len _ run]) auto
qed

lemma fill_recorded: "fill_hh_ctrl_cfg (recording io) p dl = Some (err, dl') \<Longrightarrow> snd dl' = snd dl"
  by (auto simp: fill_hh_ctrl_cfg_def recording_def split: prod.splits)

lemma server_start_served:
  assumes "server_start (recording io) argc addr opts fd m (d, []) = Some (Inr (p, s0))"
  shows "served p s0"
proof -
  have "\<exists>err. fill_hh_ctrl_cfg (recording io) p (d, []) = Some (err, sv_drv s0)"
    and t: "sv_test s0 = \<lparr>rt_list = [], connections = 0, disconnects = 0, rx_test_qp_cnt = rp_qp_cnt p, cm_qp_cnt = 0, qp_cfg_cnt = 0\<rparr>"
    and r: "sv_ret s0 = None"
    using assms by (auto simp: server_start_def split: prod.splits if_splits)
  then have "snd (sv_drv s0) = []" by (auto dest: fill_recorded)
  then show ?thesis using t r by (simp add: served_def test_inv_def)
qed

subsection \<open>Properties\<close>

text \<open>C4: however the threads interleave and whatever fails, contexts have the numbers of their places, the server counts
  exactly the prepared and the configured ones, the driver was told successfully the numbers of the
  configured contexts and each once, and when the server ends with success at least the requested number of them
  is configured.\<close>

theorem server_configures_each_once:
  assumes "server_start (recording io) argc addr opts fd m (d, []) = Some (Inr (p, s0))" "srv_reach (recording io) p s0 s"
    and "length (rt_list (sv_test s)) < 2 ^ 32"
  shows "(\<forall>k < length (rt_list (sv_test s)). ac_qp_num (ce_ctx (rt_list (sv_test s) ! k)) = of_nat k) \<and>
    connections (sv_test s) = of_nat (how_many is_ready (rt_list (sv_test s))) \<and>
    qp_cfg_cnt (sv_test s) = of_nat (how_many is_configured (rt_list (sv_test s))) \<and>
    distinct (snd (sv_drv s)) \<and>
    set (snd (sv_drv s)) = of_nat ` {k. k < length (rt_list (sv_test s)) \<and> is_configured (rt_list (sv_test s) ! k)} \<and>
    (sv_ret s = Some 0 \<longrightarrow> rp_qp_cnt p \<le> qp_cfg_cnt (sv_test s))"
  using srv_reach_inv [OF assms(2) server_start_served [OF assms(1)] assms(3)]
  unfolding served_def test_inv_def by metis

text \<open>The driver of this repository behind the file.  Its state is \<open>None\<close> after a fault in the kernel; \<open>u\<close> is the memory behind the
  argument as the driver reads it.  What a command stores for the process is left out: the two commands of
  the server that would need it are refused.\<close>

definition shipped_ioctl :: "hs_env \<Rightarrow> (srv_arg \<Rightarrow> hh_user) \<Rightarrow> (hw_hs_dev \<times> xrnic_local option \<times> io list) option srv_ioctl" where
  "shipped_ioctl env u cmd arg s =
     (case s of
        None \<Rightarrow> (- 1, (0, 0), None)
      | Some (dv, xlp, l) \<Rightarrow>
          (case run_state (hh_dev_ioctl env (u arg) dv xlp cmd) l of
             (None, l') \<Rightarrow> (- 1, (0, 0), None)
           | (Some (r, out, dv', xlp'), l') \<Rightarrow> (if r < 0 then - 1 else r, (0, 0), Some (dv', xlp', l'))))"

lemmas server_commands = HH_WRITE_CMN_CFG_def HH_WRITE_QP_CFG_def PERF_READ_OP_def TEST_DONE_READ_OP_def HH_EN_OP_def HH_RESET_OP_def

lemmas driver_commands = HH_CONFIG_def HH_WQE_COMMIT_def HH_START_def HH_ABORT_def HH_RESET_def HH_READ_STATUS_def HH_SET_PATTERN_def
  HH_SET_WQE_IDX_def HH_QPCTX_COMMIT_def HH_MR_REBASE_def HH_DEMO_CFG_def HH_DEMO_START_RUN_def HH_DEMO_STOP_RUN_def HH_DEMO_STATUS_def
  HH_TRACE_ARM_def HH_TRACE_STATUS_def

lemma hh_switch_refuses:
  assumes "cmd \<in> {HH_WRITE_CMN_CFG, HH_WRITE_QP_CFG, PERF_READ_OP, TEST_DONE_READ_OP}"
  shows "hh_switch env u dv xlp cmd = State_Monad.return (Some (- ENOTTY, OutNone, dv, xlp))"
  using assms by (auto simp: hh_switch_def server_commands driver_commands IOC_def)

lemma shipped_refuses:
  assumes "cmd \<in> {HH_WRITE_CMN_CFG, HH_WRITE_QP_CFG, PERF_READ_OP, TEST_DONE_READ_OP}"
  shows "shipped_ioctl env u cmd arg s = (- 1, (0, 0), s)"
  by (auto simp: shipped_ioctl_def hh_dev_ioctl_def hh_switch_refuses [OF assms] split: option.splits)

text \<open>C30: with the driver of this repository the server never takes a connection: unless it only prints its help it stops with an error,
  or at the division by the burst count, before it makes its threads, and leaves the driver as it was.\<close>

theorem server_stops_with_driver:
  "server_start (shipped_ioctl env u) argc addr opts fd m (Some (dv, xlp, l)) =
     (let (ret, p) = init_xperf_app addr opts fd in
      if argc = 1 \<or> ret = 0 \<and> rp_help p \<noteq> 0 then Some (Inl (0, Some (dv, xlp, l)))
      else if ret \<noteq> 0 then Some (Inl (- EFAULT, Some (dv, xlp, l)))
      else if rp_db_burst_cnt p = 0 then None
      else Some (Inl (- 1, Some (dv, xlp, l))))"
proof -
  obtain ret p where i: "init_xperf_app addr opts fd = (ret, p)" by fastforce
  then have "ret = 0 \<Longrightarrow> (ctrl_cfg p = None) = (rp_db_burst_cnt p = 0)" using init_accepts(4) ctrl_cfg_None by blast
  then show ?thesis using i by (cases "ctrl_cfg p") (auto simp: server_start_def fill_hh_ctrl_cfg_def shipped_refuses)
qed

subsection \<open>Witnesses\<close>

declare rdmatest_poll_cq.simps [code] delete_walk.simps [code] chunk_walk.simps [code]

text \<open>Steps that can be run.\<close>

datatype srv_step = StCm nat cm_event "app_context option" | StEst "nat \<Rightarrow> est_env" | StServe "nat \<Rightarrow> xchg_env"

fun srv_do :: "'d srv_ioctl \<Rightarrow> rdma_param \<Rightarrow> srv_step \<Rightarrow> 'd srv \<Rightarrow> 'd srv option" where
  "srv_do ioctl p (StCm i ev raw) s =
     (if cm_allowed (sv_test s) i ev then
        (case set_ctx_to_rx_connect_req raw (sv_test s) i ev of Go (r, t) \<Rightarrow> Some (s\<lparr>sv_test := t\<rparr>) | _ \<Rightarrow> None)
      else None)"
| "srv_do ioctl p (StEst env) s =
     (if sv_est_done s then None
      else (case est_round env (sv_temp s) (sv_test s) (sv_mem s) of
              Go (fin, temp, t, m) \<Rightarrow> Some (s\<lparr>sv_est_done := fin, sv_temp := temp, sv_test := t, sv_mem := m\<rparr>) | _ \<Rightarrow> None))"
| "srv_do ioctl p (StServe x) s = (if sv_ret s = None then run_server_turn ioctl x p s else None)"

fun srv_run :: "'d srv_ioctl \<Rightarrow> rdma_param \<Rightarrow> srv_step list \<Rightarrow> 'd srv \<Rightarrow> 'd srv option" where
  "srv_run ioctl p [] s = Some s"
| "srv_run ioctl p (a # as) s = do {s' \<leftarrow> srv_do ioctl p a s; srv_run ioctl p as s'}"

lemma srv_do_reach: "srv_reach ioctl p s0 s \<Longrightarrow> srv_do ioctl p a s = Some s' \<Longrightarrow> srv_reach ioctl p s0 s'"
  by (cases a) (auto intro: srv_reach.intros split: if_splits outcome.splits)

lemma srv_run_reach: "srv_reach ioctl p s0 s \<Longrightarrow> srv_run ioctl p as s = Some s' \<Longrightarrow> srv_reach ioctl p s0 s'"
proof (induction as arbitrary: s)
  case (Cons a as)
  then show ?case by (auto intro: srv_do_reach split: Option.bind_split_asm)
qed simp

definition demo_call :: "ptr \<Rightarrow> u64 \<Rightarrow> call_env" where
  "demo_call ptr va = (\<lparr>access_ok = True, env_kmalloc_ok = True, copy_to_user = 0\<rparr>, \<lparr>calloc_chunk = Some ptr, calloc_bmap_ok = True, mmap_va = Some va\<rparr>)"

definition demo_srv_mem :: srv_mem where
  "demo_srv_mem = \<lparr>sm_umm = demo_umm, sm_kmm = demo_kmm1\<rparr>"

definition demo_raw :: app_context where
  "demo_raw = \<lparr>ac_qp_num = 0, ac_remote_rkey = 0, ac_remote_addr = 0, ac_remote_len = 0, ac_rdma_buf_chunk_id = 0, ac_send_buf_chunk_id = 0,
     ac_sq_mem_chunk_id = 0, ac_rdma_buf_addr = 0, ac_send_buf = 0, ac_sq_addr = 0, ac_rq_depth = 0, ac_rx_compl = 0, ac_rx_posted = 0\<rparr>"

definition demo_est :: "nat \<Rightarrow> est_env" where
  "demo_est k = \<lparr>ee_pd = True, ee_cq = True, ee_notify = 0, ee_create_qp = 0, ee_mem = demo_call (20 + k) (0x50000000 + 0x1000000 * of_nat k)\<rparr>"

definition demo_xchg :: "nat \<Rightarrow> xchg_env" where
  "demo_xchg k = \<lparr>xe_post_recv = 0, xe_post_send = 0, xe_rand = 9, xe_wc = (\<lambda>n. if n = 2 then Some (True, 9) else None),
     xe_rx = replicate 24 1, xe_mem = demo_call (30 + k) (0x60000000 + 0x1000000 * of_nat k),
     xe_mem_sq = demo_call (40 + k) (0x70000000 + 0x1000000 * of_nat k)\<rparr>"

definition demo_steps :: "srv_step list" where
  "demo_steps = [StCm 5 EvConnectRequest (Some demo_raw), StCm 8 EvConnectRequest (Some demo_raw), StEst demo_est, StCm 5 EvEstablished None,
     StEst demo_est, StServe demo_xchg]"

definition demo_io :: "u32 srv_ioctl" where
  "demo_io cmd arg d = (0, (1, 7), cmd)"

definition demo_srv :: "rdma_param \<times> (u32 \<times> u32 list) srv" where
  "demo_srv = (case server_start (recording demo_io) 5 (\<lambda>s. 0) [(CHR ''Q'', ''1''), (CHR ''N'', ''3'')] 4 demo_srv_mem (0, []) of
     Some (Inr q) \<Rightarrow> q | _ \<Rightarrow> undefined)"

lemma demo_srv_starts:
  "server_start (recording demo_io) 5 (\<lambda>s. 0) [(CHR ''Q'', ''1''), (CHR ''N'', ''3'')] 4 demo_srv_mem (0, []) = Some (Inr (fst demo_srv, snd demo_srv))"
proof -
  have "case server_start (recording demo_io) 5 (\<lambda>s. 0) [(CHR ''Q'', ''1''), (CHR ''N'', ''3'')] 4 demo_srv_mem (0, []) of Some (Inr q) \<Rightarrow> True | _ \<Rightarrow> False"
    by code_simp
  then show ?thesis by (auto simp: demo_srv_def split: option.splits sum.splits)
qed

lemma demo_srv_runs:
  obtains s where "srv_run (recording demo_io) (fst demo_srv) demo_steps (snd demo_srv) = Some s"
    "sv_ret s = Some 0" "snd (sv_drv s) = [0]" "length (rt_list (sv_test s)) = 2"
proof -
  have "map_option (\<lambda>s. (sv_ret s, snd (sv_drv s), length (rt_list (sv_test s)))) (srv_run (recording demo_io) (fst demo_srv) demo_steps (snd demo_srv))
      = Some (Some 0, [0], 2)" by code_simp
  then show thesis using that by auto
qed

theorem server_configures_each_once_witness:
  "\<exists>s. srv_reach (recording demo_io) (fst demo_srv) (snd demo_srv) s \<and> sv_ret s = Some 0 \<and> snd (sv_drv s) = [0] \<and>
    {0::u32} = of_nat ` {k. k < 2 \<and> is_configured (rt_list (sv_test s) ! k)} \<and> rp_qp_cnt (fst demo_srv) \<le> qp_cfg_cnt (sv_test s)"
proof -
  obtain s where s: "srv_run (recording demo_io) (fst demo_srv) demo_steps (snd demo_srv) = Some s"
    "sv_ret s = Some 0" "snd (sv_drv s) = [0]" "length (rt_list (sv_test s)) = 2" by (rule demo_srv_runs)
  have r: "srv_reach (recording demo_io) (fst demo_srv) (snd demo_srv) s" by (rule srv_run_reach [OF srv_reach.start s(1)])
  have "length (rt_list (sv_test s)) < 2 ^ 32" using s(4) by simp
  from server_configures_each_once [OF demo_srv_starts r this] r s(2-4) show ?thesis by auto
qed

definition demo_param :: rdma_param where
  "demo_param = snd (init_xperf_app (\<lambda>s. 0) [(CHR ''N'', ''7'')] 4)"

theorem ctrl_cfg_whole_bursts_witness:
  "\<exists>c. ctrl_cfg demo_param = Some c \<and> unat (cc_db_burst_cnt c) = 7 \<and> unat (cc_qp_wqe_cnt c) = 98 \<and> 7 dvd unat (cc_qp_wqe_cnt c)"
proof -
  have i: "init_xperf_app (\<lambda>s. 0) [(CHR ''N'', ''7'')] 4 = (0, demo_param)" unfolding demo_param_def by code_simp
  have c: "map_option (\<lambda>c. cc_qp_wqe_cnt c) (ctrl_cfg demo_param) = Some 98" "rp_db_burst_cnt demo_param = 7" by code_simp+
  from ctrl_cfg_whole_bursts [OF i] c show ?thesis by (auto split: option.splits)
qed

end
