(* ===== verification/Hw_Hs_Old.thy ===== *)
theory Hw_Hs_Old
  imports Hs_Server
begin

text \<open>
  The former handshake driver, \<open>recipes-modules/hw-hs/files/hw_hs_old.c\<close> with \<open>hw_hs_old.h\<close> and
  \<open>hw_hs_ioctl_old.h\<close>.  It is the driver that the handshake server's commands belong to; the module's \<open>Makefile\<close> does
  not build it any more.  It configures an engine that writes the work requests of all its queue pairs
  itself, with one window of registers per queue pair.  Accesses are logged as in \<open>Hw_Hs\<close>; the window of the queue
  pairs starts at offset \<open>0x20000\<close> of the engine's.  \<open>setup_qps\<close> is that of \<open>Hw_Hs\<close> from queue pair 1 on.
\<close>

unbundle bit_operations_syntax

subsection \<open>Registers\<close>

definition qp_cfg_base :: u32 where "qp_cfg_base = hh_base + 0x20000"

definition HW_HS_CFG_REG_OFS :: u32 where "HW_HS_CFG_REG_OFS = 0"
definition HW_HS_TEST_STAT_OFS :: u32 where "HW_HS_TEST_STAT_OFS = 4"
definition HW_HS_Q_DEPTH_OFS :: u32 where "HW_HS_Q_DEPTH_OFS = 12"
definition HW_HS_WQE_CNT_OFS :: u32 where "HW_HS_WQE_CNT_OFS = 16"

definition HW_HS_DATA_PTRN_OFS :: "u32 \<Rightarrow> u32" where "HW_HS_DATA_PTRN_OFS q = q * 64"
definition HW_HS_DATA_BA_OFS_LSB :: "u32 \<Rightarrow> u32" where "HW_HS_DATA_BA_OFS_LSB q = q * 64 + 4"
definition HW_HS_DATA_BA_OFS_MSB :: "u32 \<Rightarrow> u32" where "HW_HS_DATA_BA_OFS_MSB q = q * 64 + 8"
definition HW_HS_QP_RKEY :: "u32 \<Rightarrow> u32" where "HW_HS_QP_RKEY q = q * 64 + 12"
definition HW_HS_QP_VA_LSB :: "u32 \<Rightarrow> u32" where "HW_HS_QP_VA_LSB q = q * 64 + 16"
definition HW_HS_QP_VA_MSB :: "u32 \<Rightarrow> u32" where "HW_HS_QP_VA_MSB q = q * 64 + 20"
definition HW_HS_QP_PERF_CNT_LSB :: "u32 \<Rightarrow> u32" where "HW_HS_QP_PERF_CNT_LSB q = q * 64 + 24"
definition HW_HS_QP_PERF_CNT_MSB :: "u32 \<Rightarrow> u32" where "HW_HS_QP_PERF_CNT_MSB q = q * 64 + 28"
definition HW_HS_QP_PERF_BW :: "u32 \<Rightarrow> u32" where "HW_HS_QP_PERF_BW q = q * 64 + 32"
definition HW_HS_QP_WQE_BA_LSB :: "u32 \<Rightarrow> u32" where "HW_HS_QP_WQE_BA_LSB q = q * 64 + 36"
definition HW_HS_QP_WQE_BA_MSB :: "u32 \<Rightarrow> u32" where "HW_HS_QP_WQE_BA_MSB q = q * 64 + 40"
definition HW_HS_WQE_OPCODE_OFS :: "u32 \<Rightarrow> u32" where "HW_HS_WQE_OPCODE_OFS q = q * 64 + 44"

lemmas old_qp_offsets = HW_HS_DATA_PTRN_OFS_def HW_HS_DATA_BA_OFS_LSB_def HW_HS_DATA_BA_OFS_MSB_def HW_HS_QP_RKEY_def HW_HS_QP_VA_LSB_def
  HW_HS_QP_VA_MSB_def HW_HS_QP_PERF_CNT_LSB_def HW_HS_QP_PERF_CNT_MSB_def HW_HS_QP_PERF_BW_def HW_HS_QP_WQE_BA_LSB_def HW_HS_QP_WQE_BA_MSB_def
  HW_HS_WQE_OPCODE_OFS_def

subsection \<open>State\<close>

text \<open>The table of send-queue addresses: no table, one with an entry per queue pair, or one that was freed.\<close>

datatype qp_info = NoTable | Table "u64 list" | FreedTable

record old_hs_dev =
  od_ctrl_cfg :: hw_hsk_ctrl_cfg
  od_qp_info :: qp_info
  od_mutx :: bool
  od_addr_width :: u32
  od_num_qp :: u32
  config_qp_cnt :: u32

text \<open>Value, driver and data of the core; \<open>None\<close> is a fault: a null pointer, or an access outside a live table.\<close>

type_synonym old_result = "(int \<times> old_hs_dev \<times> xrnic_local option) option"

subsection \<open>Configuration\<close>

definition fix_depth :: "hw_hsk_ctrl_cfg \<Rightarrow> hw_hsk_ctrl_cfg" where
  "fix_depth c = (if cc_queue_depth c = 0 then c\<lparr>cc_queue_depth := 1\<rparr> else c)"

definition fix_counts :: "hw_hsk_ctrl_cfg \<Rightarrow> hw_hsk_ctrl_cfg" where
  "fix_counts c =
     (let n = (if cc_qp_cnt c = 0 then 1 else cc_qp_cnt c);
          b = (if cc_db_burst_cnt c = 0 then 1 else cc_db_burst_cnt c);
          b' = (if 16 \<le> b then 15 else b)
      in c\<lparr>cc_qp_cnt := n AND 0x7FF, cc_db_burst_cnt := b' AND 0xF\<rparr>)"

definition cfg_word :: "hw_hsk_ctrl_cfg \<Rightarrow> u32" where
  "cfg_word c = (if cc_burst_mode c = 0 then 2 else 0) OR (if cc_data_pattern_en c \<noteq> 0 then push_bit 14 1 else 0)
     OR push_bit 6 (cc_qp_cnt c) OR push_bit 2 (ucast (cc_db_burst_cnt c))"

text \<open>\<open>table\<close> is what \<open>kmalloc\<close> returns for a number of entries, if anything.  The configuration is changed in place.\<close>

definition hw_hs_cmn_cfg :: "(nat \<Rightarrow> u64 list option) \<Rightarrow> old_hs_dev \<Rightarrow> (int \<times> old_hs_dev) dev" where
  "hw_hs_cmn_cfg table d = (let c = fix_depth (od_ctrl_cfg d) in do {
     xib_iow32 hh_base HW_HS_Q_DEPTH_OFS (ucast (cc_queue_depth c));
     xib_iow32 hh_base HW_HS_WQE_CNT_OFS (cc_qp_wqe_cnt c);
     (if cc_qp_cnt c \<noteq> 0 \<and> od_num_qp d - 2 < cc_qp_cnt c then State_Monad.return (- EINVAL, d\<lparr>od_ctrl_cfg := c\<rparr>)
      else let c' = fix_counts c in do {
        xib_iow32 hh_base HW_HS_CFG_REG_OFS (cfg_word c');
        State_Monad.return (case table (unat (cc_qp_cnt c')) of
          None \<Rightarrow> (- ENOMEM, d\<lparr>od_ctrl_cfg := c', od_qp_info := NoTable\<rparr>)
        | Some t \<Rightarrow> (0, d\<lparr>od_ctrl_cfg := c', od_qp_info := Table t\<rparr>))})})"

text \<open>\<open>junk\<close> is the value of the variable \<open>addr\<close>, which is never assigned.\<close>

definition store_sq_ba :: "u64 \<Rightarrow> u32 \<Rightarrow> qp_info \<Rightarrow> qp_info option" where
  "store_sq_ba junk q i = (case i of Table t \<Rightarrow> if unat q < length t then Some (Table (t[unat q := junk])) else None | _ \<Rightarrow> None)"

definition hh_alloc_mem :: "u64 \<Rightarrow> old_hs_dev \<Rightarrow> xrnic_local option \<Rightarrow> u32 \<Rightarrow> u64 \<Rightarrow> u64 \<Rightarrow> old_result dev" where
  "hh_alloc_mem junk d xlp q data_addr sq_addr = do {
     xib_iow32 qp_cfg_base (HW_HS_DATA_BA_OFS_LSB q) (ucast data_addr);
     (if od_addr_width d = 64 then xib_iow32 qp_cfg_base (HW_HS_DATA_BA_OFS_MSB q) (ucast (drop_bit 32 data_addr)) else State_Monad.return ());
     (case xlp of
        None \<Rightarrow> State_Monad.return None
      | Some x \<Rightarrow> do {
          xib_iow32 ernic_base (XRNIC_SNDQ_BUF_BASE_LSB (q + 1)) (ucast sq_addr);
          (if od_addr_width d = 64 then xib_iow32 ernic_base (XRNIC_SNDQ_BUF_BASE_MSB (q + 1)) (ucast (drop_bit 32 sq_addr)) else State_Monad.return ());
          (case store_sq_ba junk q (od_qp_info d) of
             None \<Rightarrow> State_Monad.return None
           | Some i \<Rightarrow> do {
               xib_iow32 qp_cfg_base (HW_HS_QP_WQE_BA_LSB q) (ucast sq_addr);
               (if od_addr_width d = 64 then xib_iow32 qp_cfg_base (HW_HS_QP_WQE_BA_MSB q) (ucast (drop_bit 32 sq_addr)) else State_Monad.return ());
               State_Monad.return (Some (0, d\<lparr>od_qp_info := i, config_qp_cnt := config_qp_cnt d + 1\<rparr>, xlp))})})}"

definition data_size_code :: "u16 \<Rightarrow> u32" where
  "data_size_code kb =
     (if kb = 8 then 1 else if kb = 16 then 2 else if kb = 64 then 3 else if kb = 256 then 4 else if kb = 512 then 5
      else if kb = 1024 then 6 else if kb = 2048 then 7 else if kb = 4096 then 8 else if kb = 8192 then 9 else 0)"

definition opcode_word :: "per_qp_reg_info \<Rightarrow> u32" where
  "opcode_word c = push_bit 4 (ucast (pq_wqe_opcode c) AND 3) OR (data_size_code (pq_data_size_kb c) AND 0xF)"

definition old_hw_hs_qp_cfg :: "u64 \<Rightarrow> old_hs_dev \<Rightarrow> xrnic_local option \<Rightarrow> per_qp_reg_info \<Rightarrow> old_result dev" where
  "old_hw_hs_qp_cfg junk d xlp c = (let q = pq_qp_num c in do {
     xib_iow32 qp_cfg_base (HW_HS_WQE_OPCODE_OFS q) (opcode_word c);
     xib_iow32 qp_cfg_base (HW_HS_DATA_PTRN_OFS q) (pq_data_pattern c);
     xib_iow32 qp_cfg_base (HW_HS_QP_VA_LSB q) (pq_va_lsb c);
     xib_iow32 qp_cfg_base (HW_HS_QP_VA_MSB q) (pq_va_msb c);
     xib_iow32 qp_cfg_base (HW_HS_QP_RKEY q) (pq_rkey c);
     hh_alloc_mem junk d xlp q (pq_data_addr c) (pq_sq_addr c)})"

subsection \<open>Start, reset and counters\<close>

definition old_setup_qps :: "hs_env \<Rightarrow> u32 \<Rightarrow> xrnic_local option \<Rightarrow> bool \<Rightarrow> u32 \<Rightarrow> u32 \<Rightarrow> xrnic_local option dev" where
  "old_setup_qps env aw xlp en qp_cnt q_depth = setup_qps env aw xlp en 1 qp_cnt q_depth"

definition enable_hw_hsk :: "hs_env \<Rightarrow> old_hs_dev \<Rightarrow> xrnic_local option \<Rightarrow> old_result dev" where
  "enable_hw_hsk env d xlp = do {
     r \<leftarrow> old_setup_qps env (od_addr_width d) xlp True (cc_qp_cnt (od_ctrl_cfg d)) (ucast (cc_queue_depth (od_ctrl_cfg d)));
     (case r of
        None \<Rightarrow> State_Monad.return None
      | Some x \<Rightarrow> do {
          val \<leftarrow> xib_ior32 (hs_hw env) hh_base HW_HS_CFG_REG_OFS;
          xib_iow32 hh_base HW_HS_CFG_REG_OFS (val OR 1);
          State_Monad.return (Some (0, d, Some x))})}"

definition old_reset_hw_hsk :: "hs_env \<Rightarrow> old_hs_dev \<Rightarrow> xrnic_local option \<Rightarrow> old_result dev" where
  "old_reset_hw_hsk env d xlp = do {
     r \<leftarrow> old_setup_qps env (od_addr_width d) xlp False (config_qp_cnt d) (ucast (cc_queue_depth (od_ctrl_cfg d)));
     (case r of
        None \<Rightarrow> State_Monad.return None
      | Some x \<Rightarrow> do {
          xib_iow32 hh_base HW_HS_TEST_STAT_OFS 1;
          State_Monad.return (Some (0, d\<lparr>config_qp_cnt := 0\<rparr>, Some x))})}"

text \<open>The caller's memory: access, the structures copied in (with whether the copy was complete), the number of the queue
  pair as it is copied and then as each of the three direct reads finds it, and the bytes each copy out leaves.\<close>

record old_user =
  ou_access_ok :: bool
  ou_ctrl :: "hw_hsk_ctrl_cfg \<times> bool"
  ou_qp :: "per_qp_reg_info option"
  ou_qp_num :: "u32 option"
  ou_direct :: "nat \<Rightarrow> u32"
  ou_left :: "nat \<Rightarrow> nat"

datatype old_out = OldNone | OldPerf u32 u64 | OldStat u32

definition read_perf_counters :: "hardware \<Rightarrow> old_user \<Rightarrow> (int \<times> old_out) dev" where
  "read_perf_counters hw u = do {
     lo \<leftarrow> xib_ior32 hw qp_cfg_base (HW_HS_QP_PERF_CNT_LSB (ou_direct u 0));
     hi \<leftarrow> xib_ior32 hw qp_cfg_base (HW_HS_QP_PERF_CNT_MSB (ou_direct u 1));
     n \<leftarrow> xib_ior32 hw qp_cfg_base (HW_HS_QP_PERF_BW (ou_direct u 2));
     State_Monad.return (if ou_left u 0 \<noteq> 0 \<or> ou_left u 1 \<noteq> 0 then (- EFAULT, OldNone)
       else (0, OldPerf n (push_bit 32 (ucast hi) OR ucast lo)))}"

definition read_hw_hsk_stat :: "hardware \<Rightarrow> old_user \<Rightarrow> (int \<times> old_out) dev" where
  "read_hw_hsk_stat hw u = do {
     stat \<leftarrow> xib_ior32 hw hh_base HW_HS_TEST_STAT_OFS;
     r0 \<leftarrow> xib_ior32 hw hh_base 0;
     r1 \<leftarrow> xib_ior32 hw hh_base 0x1C;
     r2 \<leftarrow> xib_ior32 hw hh_base 0x20;
     r3 \<leftarrow> xib_ior32 hw hh_base 0x24;
     State_Monad.return (int (ou_left u 0), if ou_left u 0 = 0 then OldStat stat else OldNone)}"

subsection \<open>File operations\<close>

type_synonym old_reply = "(int \<times> old_out \<times> old_hs_dev \<times> xrnic_local option) option"

definition old_quiet :: "old_result dev \<Rightarrow> old_reply dev" where
  "old_quiet m = do {r \<leftarrow> m; State_Monad.return (map_option (\<lambda>(ret, d, xlp). (ret, OldNone, d, xlp)) r)}"

definition old_out_only :: "old_hs_dev \<Rightarrow> xrnic_local option \<Rightarrow> (int \<times> old_out) dev \<Rightarrow> old_reply dev" where
  "old_out_only d xlp m = do {r \<leftarrow> m; State_Monad.return (Some (fst r, snd r, d, xlp))}"

definition old_refuse :: "old_hs_dev \<Rightarrow> xrnic_local option \<Rightarrow> int \<Rightarrow> old_reply dev" where
  "old_refuse d xlp e = State_Monad.return (Some (e, OldNone, d, xlp))"

definition old_switch ::
  "hs_env \<Rightarrow> (nat \<Rightarrow> u64 list option) \<Rightarrow> u64 \<Rightarrow> old_user \<Rightarrow> old_hs_dev \<Rightarrow> xrnic_local option \<Rightarrow> u32 \<Rightarrow> old_reply dev" where
  "old_switch env table junk u d xlp cmd =
     (if cmd = HH_WRITE_CMN_CFG then
        (let d1 = d\<lparr>od_ctrl_cfg := fst (ou_ctrl u)\<rparr> in
         if \<not> snd (ou_ctrl u) then old_refuse d1 xlp (- EFAULT)
         else do {r \<leftarrow> hw_hs_cmn_cfg table d1; State_Monad.return (Some (fst r, OldNone, snd r, xlp))})
      else if cmd = HH_WRITE_QP_CFG then
        (case ou_qp u of
           None \<Rightarrow> old_refuse d xlp (- EFAULT)
         | Some c \<Rightarrow>
             if cc_qp_cnt (od_ctrl_cfg d) < pq_qp_num c then old_refuse d xlp (- EFAULT)
             else if od_qp_info d = NoTable then old_refuse d xlp (- EFAULT)
             else old_quiet (old_hw_hs_qp_cfg junk d xlp c))
      else if cmd = HH_EN_OP then old_quiet (enable_hw_hsk env d xlp)
      else if cmd = HH_RESET_OP then old_quiet (old_reset_hw_hsk env d xlp)
      else if cmd = PERF_READ_OP then
        (case ou_qp_num u of
           None \<Rightarrow> old_refuse d xlp (- EFAULT)
         | Some q \<Rightarrow>
             if cc_qp_cnt (od_ctrl_cfg d) < q then old_refuse d xlp (- EFAULT)
             else old_out_only d xlp (read_perf_counters (hs_hw env) u))
      else if cmd = TEST_DONE_READ_OP then old_out_only d xlp (read_hw_hsk_stat (hs_hw env) u)
      else old_refuse d xlp 0)"

definition old_hh_dev_ioctl ::
  "hs_env \<Rightarrow> (nat \<Rightarrow> u64 list option) \<Rightarrow> u64 \<Rightarrow> old_user \<Rightarrow> old_hs_dev \<Rightarrow> xrnic_local option \<Rightarrow> u32 \<Rightarrow> old_reply dev" where
  "old_hh_dev_ioctl env table junk u d xlp cmd =
     (if IOC_TYPE cmd \<noteq> HH_MAGIC_NUM then old_refuse d xlp (- ENOTTY)
      else if 6 < IOC_NR cmd then old_refuse d xlp (- ENOTTY)
      else if IOC_DIR cmd AND 3 \<noteq> 0 \<and> \<not> ou_access_ok u then old_refuse d xlp (- EFAULT)
      else old_switch env table junk u d xlp cmd)"

definition old_hh_dev_open :: "old_hs_dev \<Rightarrow> int \<times> old_hs_dev" where
  "old_hh_dev_open d = (if od_mutx d then (- 16, d) else (0, d\<lparr>od_mutx := True, config_qp_cnt := 0\<rparr>))"

text \<open>The table is freed and its pointer kept.\<close>

definition old_hh_dev_close :: "hs_env \<Rightarrow> old_hs_dev \<Rightarrow> xrnic_local option \<Rightarrow> old_result dev" where
  "old_hh_dev_close env d xlp = do {
     r \<leftarrow> old_reset_hw_hsk env d xlp;
     State_Monad.return (Option.bind r (\<lambda>(err, d', xlp').
       case od_qp_info d' of
         NoTable \<Rightarrow> Some (err, d'\<lparr>od_mutx := False\<rparr>, xlp')
       | Table t \<Rightarrow> Some (err, d'\<lparr>od_mutx := False, od_qp_info := FreedTable\<rparr>, xlp')
       | FreedTable \<Rightarrow> None))}"

subsection \<open>Loading and unloading\<close>

definition zero_ctrl :: hw_hsk_ctrl_cfg where
  "zero_ctrl = \<lparr>cc_hw_hs_en = 0, cc_burst_mode = 0, cc_db_burst_cnt = 0, cc_qp_cnt = 0, cc_data_pattern_en = 0, cc_queue_depth = 0, cc_qp_wqe_cnt = 0\<rparr>"

definition fresh_old_dev :: "u32 \<Rightarrow> u32 \<Rightarrow> old_hs_dev" where
  "fresh_old_dev aw nqp = \<lparr>od_ctrl_cfg = zero_ctrl, od_qp_info = NoTable, od_mutx = False, od_addr_width = aw, od_num_qp = nqp, config_qp_cnt = 0\<rparr>"

text \<open>The resources held are those of \<open>Hw_Hs\<close>, with \<open>R_map\<close> once for each of the two windows; \<open>cmn\<close> and \<open>qps\<close> tell
  whether the windows can be mapped.  When the device cannot be created everything before it is released and
  loading still succeeds.\<close>

definition old_hh_dev_init :: "init_env \<Rightarrow> bool \<Rightarrow> bool \<Rightarrow> int \<times> old_hs_dev option \<times> hs_res list" where
  "old_hh_dev_init e cmn qps =
     (if \<not> ie_rnic_node e then (- EFAULT, None, [])
      else if \<not> ie_hh_node e then (- EFAULT, None, [])
      else if \<not> ie_kmalloc e then (- ENOMEM, None, [])
      else case ie_addr_width e of
        None \<Rightarrow> (- EFAULT, None, [])
      | Some aw \<Rightarrow>
          if \<not> (aw = 32 \<or> aw = 64) then (- EFAULT, None, [])
          else if ie_resource e = None then (- EFAULT, None, [])
          else case ie_num_qp e of
            None \<Rightarrow> (- EFAULT, None, [])
          | Some nqp \<Rightarrow>
              if \<not> cmn then (- EFAULT, None, [])
              else if \<not> qps then (- EFAULT, None, [])
              else if \<not> ie_chrdev e then (- EFAULT, None, [R_map])
              else if \<not> ie_cdev_alloc e then (- EFAULT, None, [])
              else if \<not> ie_cdev_add e then (- EFAULT, None, [R_cdev])
              else if ie_class e = KNull then (- EFAULT, None, [])
              else if ie_device e = KNull then (0, Some (fresh_old_dev aw nqp), [R_dev, R_map, R_map])
              else (0, Some (fresh_old_dev aw nqp), [R_dev, R_map, R_map, R_chrdev, R_cdev] @
                     (if ie_class e = KOk then [R_class] else []) @ (if ie_device e = KOk then [R_device] else [])))"

text \<open>Unloading deletes the character device and its class through the pointers it kept: \<open>None\<close> when they were deleted
  already.\<close>

definition old_hh_dev_exit :: "hs_res list \<Rightarrow> hs_res list option" where
  "old_hh_dev_exit held =
     (if R_cdev \<notin> set held then None
      else Some (removeAll R_dev (removeAll R_chrdev (removeAll R_cdev (removeAll R_class (removeAll R_device held))))))"

subsection \<open>Registers of a queue pair\<close>

text \<open>Register \<open>k\<close> of the window of queue pair \<open>q\<close>.\<close>

definition old_qp_reg :: "u32 \<Rightarrow> u32 \<Rightarrow> u32" where
  "old_qp_reg q k = qp_cfg_base + (q * 64 + k)"

lemma old_regs:
  "qp_cfg_base + HW_HS_DATA_PTRN_OFS q = old_qp_reg q 0" "qp_cfg_base + HW_HS_DATA_BA_OFS_LSB q = old_qp_reg q 4"
  "qp_cfg_base + HW_HS_DATA_BA_OFS_MSB q = old_qp_reg q 8" "qp_cfg_base + HW_HS_QP_RKEY q = old_qp_reg q 12"
  "qp_cfg_base + HW_HS_QP_VA_LSB q = old_qp_reg q 16" "qp_cfg_base + HW_HS_QP_VA_MSB q = old_qp_reg q 20"
  "qp_cfg_base + HW_HS_QP_WQE_BA_LSB q = old_qp_reg q 36" "qp_cfg_base + HW_HS_QP_WQE_BA_MSB q = old_qp_reg q 40"
  "qp_cfg_base + HW_HS_WQE_OPCODE_OFS q = old_qp_reg q 44"
  by (simp_all add: old_qp_reg_def old_qp_offsets)

lemma unat_old_ofs:
  fixes q k :: u32
  assumes "unat q < 2 ^ 12" "unat k < 64"
  shows "unat (q * 64 + k) = 64 * unat q + unat k"
proof -
  have "unat (q * 64) = unat q * unat (64 :: u32)" using assms(1) by (intro unat_mult_lem [THEN iffD1]) simp
  then show ?thesis using assms by (subst unat_add_lem [THEN iffD1]) simp_all
qed

lemma old_qp_reg_eq [simp]:
  assumes "unat q < 2 ^ 12" "unat q' < 2 ^ 12" "unat k < 64" "unat k' < 64"
  shows "old_qp_reg q k = old_qp_reg q' k' \<longleftrightarrow> q = q' \<and> k = k'"
proof
  assume "old_qp_reg q k = old_qp_reg q' k'"
  then have "unat (q * 64 + k) = unat (q' * 64 + k')" by (simp add: old_qp_reg_def)
  then have e: "64 * unat q + unat k = 64 * unat q' + unat k'" using assms by (simp only: unat_old_ofs)
  have "unat q = unat q'" using arg_cong [OF e, of "\<lambda>n. n div 64"] assms(3,4) by simp
  then have "unat q = unat q' \<and> unat k = unat k'" using e by simp
  then show "q = q' \<and> k = k'" by (simp add: word_unat_eq_iff)
qed simp

lemma unat_old_qp_reg:
  assumes "unat q < 2 ^ 12" "unat k < 64"
  shows "unat (old_qp_reg q k) = 0x80020000 + 64 * unat q + unat k"
proof -
  have "unat (0x80020000 + (q * 64 + k)) = unat (0x80020000 :: u32) + unat (q * 64 + k)"
    using assms by (intro unat_add_lem [THEN iffD1]) (simp add: unat_old_ofs)
  then show ?thesis using assms by (simp add: old_qp_reg_def qp_cfg_base_def hh_base_def unat_old_ofs)
qed

lemma old_not_core:
  assumes "unat q < 2 ^ 12" "unat k < 64" "unat q' < 2 ^ 12" "unat ofs < 0x100"
  shows "old_qp_reg q k \<noteq> qreg ofs q'" "qreg ofs q' \<noteq> old_qp_reg q k"
proof -
  have "unat (qreg ofs q') < 2 ^ 31" "2 ^ 31 \<le> unat (old_qp_reg q k)" using assms by (simp_all add: unat_qreg unat_old_qp_reg)
  then show "old_qp_reg q k \<noteq> qreg ofs q'" "qreg ofs q' \<noteq> old_qp_reg q k" by auto
qed

lemma old_not_common:
  assumes "unat q < 2 ^ 12" "unat k < 64" "unat ofs < 0x100"
  shows "old_qp_reg q k \<noteq> hh_base + ofs" "hh_base + ofs \<noteq> old_qp_reg q k"
proof -
  have "unat (hh_base + ofs) = 0x80000000 + unat ofs" using assms(3) unfolding hh_base_def by (subst unat_add_no_wrap) auto
  then have "unat (hh_base + ofs) < unat (old_qp_reg q k)" using assms by (simp add: unat_old_qp_reg)
  then show "old_qp_reg q k \<noteq> hh_base + ofs" "hh_base + ofs \<noteq> old_qp_reg q k" by auto
qed

lemma common_not_core:
  assumes "unat q < 2 ^ 12" "unat ofs < 0x100" "unat k < 0x100"
  shows "hh_base + k \<noteq> qreg ofs q"
proof -
  have "hh_base + k \<in> hh_window" by (rule hh_reg_in_window) (use assms(3) in \<open>simp add: word_less_nat_alt\<close>)
  then show ?thesis using qreg_not_hh [OF assms(1,2)] by auto
qed

subsection \<open>Configuring a queue pair\<close>

text \<open>What the window of a queue pair holds after it was configured.\<close>

definition old_programmed :: "per_qp_reg_info \<Rightarrow> (u32 \<Rightarrow> u32) \<Rightarrow> bool" where
  "old_programmed c regs \<longleftrightarrow>
     (let q = pq_qp_num c; r = (\<lambda>ofs. regs (qp_cfg_base + ofs)) in
      r (HW_HS_DATA_PTRN_OFS q) = pq_data_pattern c \<and> r (HW_HS_QP_RKEY q) = pq_rkey c \<and>
      r (HW_HS_QP_VA_LSB q) = pq_va_lsb c \<and> r (HW_HS_QP_VA_MSB q) = pq_va_msb c \<and> r (HW_HS_WQE_OPCODE_OFS q) = opcode_word c \<and>
      u64_of r (HW_HS_DATA_BA_OFS_LSB q) (HW_HS_DATA_BA_OFS_MSB q) = pq_data_addr c \<and>
      u64_of r (HW_HS_QP_WQE_BA_LSB q) (HW_HS_QP_WQE_BA_MSB q) = pq_sq_addr c)"

lemma qp_num_next: "unat q < 2 ^ 12 - 1 \<Longrightarrow> unat (q + 1) < 2 ^ 12" for q :: u32
  by (subst unat_add_no_wrap) simp_all

lemma old_qp_cfg_run:
  assumes "od_qp_info d = Table t" "unat (pq_qp_num c) < length t" "unat (pq_qp_num c) < 2 ^ 12 - 1" "od_addr_width d = 64"
  shows "\<exists>log'. run_state (old_hw_hs_qp_cfg junk d (Some x) c) log =
      (Some (0, d\<lparr>od_qp_info := Table (t[unat (pq_qp_num c) := junk]), config_qp_cnt := config_qp_cnt d + 1\<rparr>, Some x), log') \<and>
    old_programmed c (reg_value init log') \<and>
    u64_of (reg_value init log') (XRNIC_SNDQ_BUF_BASE_LSB (pq_qp_num c + 1)) (XRNIC_SNDQ_BUF_BASE_MSB (pq_qp_num c + 1)) = pq_sq_addr c \<and>
    (\<forall>q k. unat q < 2 ^ 12 \<longrightarrow> unat k < 64 \<longrightarrow> q \<noteq> pq_qp_num c \<longrightarrow>
       reg_value init log' (old_qp_reg q k) = reg_value init log (old_qp_reg q k)) \<and>
    (\<forall>k. unat k < 0x100 \<longrightarrow> reg_value init log' (hh_base + k) = reg_value init log (hh_base + k))"
proof -
  let ?q = "pq_qp_num c"
  have q: "unat ?q < 2 ^ 12" "unat (?q + 1) < 2 ^ 12" using assms(3) qp_num_next by simp_all
  show ?thesis
    using assms(1,2,4) q old_not_core [OF q(1) _ q(2)] old_not_core [OF _ _ q(2)] old_not_common common_not_core [OF q(2)]
    by (simp add: old_hw_hs_qp_cfg_def hh_alloc_mem_def Let_def store_sq_ba_def old_programmed_def old_regs xib_iow32_def ernic_base_def
        XRNIC_SNDQ_BUF_BASE_LSB_def XRNIC_SNDQ_BUF_BASE_MSB_def u64_of_def split_64)
qed

lemma old_ioctl_switch:
  assumes "cmd \<in> {HH_WRITE_CMN_CFG, HH_WRITE_QP_CFG, HH_EN_OP, HH_RESET_OP, PERF_READ_OP, TEST_DONE_READ_OP}" "ou_access_ok u"
  shows "old_hh_dev_ioctl env table junk u d xlp cmd = old_switch env table junk u d xlp cmd"
  using assms by (auto simp: old_hh_dev_ioctl_def server_commands IOC_def IOC_TYPE_def IOC_NR_def HH_MAGIC_NUM_def)

lemma qp_cfg_not_cmn_cfg: "HH_WRITE_QP_CFG \<noteq> HH_WRITE_CMN_CFG"
  by (simp add: server_commands IOC_def)

lemma old_qp_cfg_ioctl:
  assumes "ou_access_ok u" "ou_qp u = Some c" "pq_qp_num c \<le> cc_qp_cnt (od_ctrl_cfg d)" "od_qp_info d \<noteq> NoTable"
  shows "old_hh_dev_ioctl env table junk u d xlp HH_WRITE_QP_CFG = old_quiet (old_hw_hs_qp_cfg junk d xlp c)"
  using assms by (auto simp: old_ioctl_switch old_switch_def qp_cfg_not_cmn_cfg)

lemma old_cmn_cfg_ioctl:
  assumes "ou_access_ok u" "ou_ctrl u = (c, True)"
  shows "old_hh_dev_ioctl env table junk u d xlp HH_WRITE_CMN_CFG =
    do {r \<leftarrow> hw_hs_cmn_cfg table (d\<lparr>od_ctrl_cfg := c\<rparr>); State_Monad.return (Some (fst r, OldNone, snd r, xlp))}"
  using assms by (simp add: old_ioctl_switch old_switch_def)

text \<open>Outside a live table the configuration of a queue pair faults.\<close>

lemma old_qp_cfg_faults:
  assumes "\<And>t. od_qp_info d = Table t \<Longrightarrow> length t \<le> unat (pq_qp_num c)"
  shows "fst (run_state (old_hw_hs_qp_cfg junk d xlp c) log) = None"
proof -
  have "store_sq_ba junk (pq_qp_num c) (od_qp_info d) = None"
    using assms by (cases "od_qp_info d") (auto simp: store_sq_ba_def)
  then show ?thesis by (cases xlp) (simp_all add: old_hw_hs_qp_cfg_def hh_alloc_mem_def Let_def)
qed

lemma old_quiet_None: "fst (run_state m log) = None \<Longrightarrow> fst (run_state (old_quiet m) log) = None"
  by (simp add: old_quiet_def prod.case_eq_if)

subsection \<open>Properties of the driver\<close>

text \<open>C17: an accepted configuration of a queue pair returns 0 and stores every field in the window of that queue pair and its send
  queue's address in the core; the windows of the other queue pairs and the common registers keep their values.\<close>

theorem old_qp_cfg_programs:
  assumes "ou_access_ok u" "ou_qp u = Some c" "pq_qp_num c \<le> cc_qp_cnt (od_ctrl_cfg d)" "od_qp_info d = Table t"
    and "unat (pq_qp_num c) < length t" "unat (pq_qp_num c) < 2 ^ 12 - 1" "od_addr_width d = 64"
  shows "\<exists>d' log'. run_state (old_hh_dev_ioctl env table junk u d (Some x) HH_WRITE_QP_CFG) log = (Some (0, OldNone, d', Some x), log') \<and>
    config_qp_cnt d' = config_qp_cnt d + 1 \<and> old_programmed c (reg_value init log') \<and>
    u64_of (reg_value init log') (XRNIC_SNDQ_BUF_BASE_LSB (pq_qp_num c + 1)) (XRNIC_SNDQ_BUF_BASE_MSB (pq_qp_num c + 1)) = pq_sq_addr c \<and>
    (\<forall>q k. unat q < 2 ^ 12 \<longrightarrow> unat k < 64 \<longrightarrow> q \<noteq> pq_qp_num c \<longrightarrow>
       reg_value init log' (old_qp_reg q k) = reg_value init log (old_qp_reg q k)) \<and>
    (\<forall>k. unat k < 0x100 \<longrightarrow> reg_value init log' (hh_base + k) = reg_value init log (hh_base + k))"
  using old_qp_cfg_run [OF assms(4-7), of junk x log init] assms(4) by (auto simp: old_qp_cfg_ioctl [OF assms(1-3)] old_quiet_def)

text \<open>the number equal to the configured count is accepted although the table ends before it, and the command writes
  outside the table.\<close>

theorem old_count_overruns:
  assumes "ou_access_ok u" "ou_qp u = Some c" "pq_qp_num c = cc_qp_cnt (od_ctrl_cfg d)" "od_qp_info d = Table t"
    and "length t = unat (cc_qp_cnt (od_ctrl_cfg d))"
  shows "fst (run_state (old_hh_dev_ioctl env table junk u d xlp HH_WRITE_QP_CFG) log) = None"
  using old_qp_cfg_faults [of d c junk xlp log] assms by (simp add: old_qp_cfg_ioctl old_quiet_None)

text \<open>a configuration that is refused for its number of queue pairs stays in force: the next commands are checked against the
  refused number, with the table of the configuration before.\<close>

theorem old_refused_count_stays:
  assumes "ou_access_ok u" "ou_ctrl u = (c, True)" "cc_qp_cnt c \<noteq> 0" "od_num_qp d - 2 < cc_qp_cnt c" "od_qp_info d = Table t"
    and "ou_access_ok v" "ou_qp v = Some q" "pq_qp_num q \<le> cc_qp_cnt c" "length t \<le> unat (pq_qp_num q)"
  shows "\<exists>d' log'. run_state (old_hh_dev_ioctl env table junk u d xlp HH_WRITE_CMN_CFG) log = (Some (- EINVAL, OldNone, d', xlp), log') \<and>
    cc_qp_cnt (od_ctrl_cfg d') = cc_qp_cnt c \<and> od_qp_info d' = Table t \<and>
    fst (run_state (old_hh_dev_ioctl env table junk v d' xlp HH_WRITE_QP_CFG) log') = None"
proof -
  let ?d = "d\<lparr>od_ctrl_cfg := fix_depth c\<rparr>"
  have cnt: "cc_qp_cnt (fix_depth c) = cc_qp_cnt c" by (simp add: fix_depth_def)
  then obtain log' where run: "run_state (old_hh_dev_ioctl env table junk u d xlp HH_WRITE_CMN_CFG) log = (Some (- EINVAL, OldNone, ?d, xlp), log')"
    using assms(1-4) by (auto simp: old_cmn_cfg_ioctl hw_hs_cmn_cfg_def Let_def)
  have "fst (run_state (old_hh_dev_ioctl env table junk v ?d xlp HH_WRITE_QP_CFG) log') = None"
    using assms(5-9) cnt old_qp_cfg_faults [of ?d q junk xlp log'] by (simp add: old_qp_cfg_ioctl old_quiet_None)
  then show ?thesis using run cnt assms(5) by auto
qed

text \<open>closing the file frees the table and keeps the pointer: until a new configuration the next session writes through it, and
  closing again frees it twice.\<close>

theorem old_close_leaves_freed:
  assumes "run_state (old_hh_dev_close env d xlp) log = (Some (err, d', xlp'), log')" "od_qp_info d = Table t"
    and "ou_access_ok u" "ou_qp u = Some c" "pq_qp_num c \<le> cc_qp_cnt (od_ctrl_cfg d)"
  shows "fst (old_hh_dev_open d') = 0 \<and>
    fst (run_state (old_hh_dev_ioctl env table junk u (snd (old_hh_dev_open d')) xlp' HH_WRITE_QP_CFG) log') = None \<and>
    fst (run_state (old_hh_dev_close env (snd (old_hh_dev_open d')) xlp') log') = None"
proof -
  have d': "d' = d\<lparr>config_qp_cnt := 0, od_mutx := False, od_qp_info := FreedTable\<rparr>"
    using assms(1,2) by (auto simp: old_hh_dev_close_def old_reset_hw_hsk_def prod.case_eq_if split: Option.bind_split_asm option.splits)
  let ?d = "snd (old_hh_dev_open d')"
  have o: "fst (old_hh_dev_open d') = 0" "od_qp_info ?d = FreedTable" "od_ctrl_cfg ?d = od_ctrl_cfg d"
    by (simp_all add: old_hh_dev_open_def d')
  have "fst (run_state (old_hh_dev_close env ?d xlp') log') = None"
    using o(2) by (auto simp: old_hh_dev_close_def old_reset_hw_hsk_def prod.case_eq_if split: option.splits)
  then show ?thesis using o assms(3-5) old_qp_cfg_faults [of ?d c junk xlp' log'] by (simp add: old_qp_cfg_ioctl old_quiet_None)
qed

lemma bit_cfg_word:
  "bit (cfg_word c) n \<longleftrightarrow> n = 1 \<and> cc_burst_mode c = 0 \<or> n = 14 \<and> cc_data_pattern_en c \<noteq> 0 \<or>
     n < 32 \<and> 6 \<le> n \<and> bit (cc_qp_cnt c) (n - 6) \<or> n < 32 \<and> 2 \<le> n \<and> bit (cc_db_burst_cnt c) (n - 2)"
proof -
  have two: "(2::u32) = push_bit 1 1" by simp
  have p: "bit (push_bit k (1::u32)) n \<longleftrightarrow> n = k" if "k < 32" for k using that by (auto simp only: bit_push_bit_iff bit_1_iff) simp
  have "bit (2::u32) n \<longleftrightarrow> n = 1" by (subst two, rule p) simp
  then have m: "bit (if cc_burst_mode c = 0 then 2 else 0 :: u32) n \<longleftrightarrow> n = 1 \<and> cc_burst_mode c = 0" by (cases "cc_burst_mode c = 0") simp_all
  have d: "bit (if cc_data_pattern_en c \<noteq> 0 then push_bit 14 1 else 0 :: u32) n \<longleftrightarrow> n = 14 \<and> cc_data_pattern_en c \<noteq> 0"
    using p [of 14] by (cases "cc_data_pattern_en c = 0") simp_all
  show ?thesis unfolding cfg_word_def bit_or_iff m d by (auto simp: bit_push_bit_iff bit_ucast_iff)
qed

lemma small_burst: "b AND 0xF = take_bit 4 b" for b :: u8
  by (simp add: take_bit_eq_mask mask_eq_exp_minus_1)

lemma cfg_word_fields:
  assumes "take_bit 4 (cc_db_burst_cnt c) = cc_db_burst_cnt c"
  shows "\<not> bit (cfg_word c) 0" "bit (cfg_word c) 1 \<longleftrightarrow> cc_burst_mode c = 0"
    "take_bit 4 (drop_bit 2 (cfg_word c)) = ucast (cc_db_burst_cnt c)"
    "take_bit 8 (drop_bit 6 (cfg_word c)) = take_bit 8 (cc_qp_cnt c)"
    "bit (cfg_word c) 14 \<longleftrightarrow> cc_data_pattern_en c \<noteq> 0 \<or> bit (cc_qp_cnt c) 8"
proof -
  have high: "\<not> bit (cc_db_burst_cnt c) n" if "4 \<le> n" for n
    using that by (subst assms [symmetric]) (simp add: bit_take_bit_iff)
  show "\<not> bit (cfg_word c) 0" "bit (cfg_word c) 1 \<longleftrightarrow> cc_burst_mode c = 0" by (simp_all add: bit_cfg_word)
  show "bit (cfg_word c) 14 \<longleftrightarrow> cc_data_pattern_en c \<noteq> 0 \<or> bit (cc_qp_cnt c) 8" using high [of 12] by (auto simp: bit_cfg_word)
  show "take_bit 4 (drop_bit 2 (cfg_word c)) = ucast (cc_db_burst_cnt c)"
  proof (rule bit_word_eqI)
    fix n assume "n < LENGTH(32)"
    then show "bit (take_bit 4 (drop_bit 2 (cfg_word c))) n = bit (ucast (cc_db_burst_cnt c) :: u32) n"
      using high [of n] by (cases "n < 4") (auto simp: bit_take_bit_iff bit_drop_bit_eq bit_cfg_word bit_ucast_iff)
  qed
  show "take_bit 8 (drop_bit 6 (cfg_word c)) = take_bit 8 (cc_qp_cnt c)"
  proof (rule bit_word_eqI)
    fix n assume "n < LENGTH(32)"
    then show "bit (take_bit 8 (drop_bit 6 (cfg_word c))) n = bit (take_bit 8 (cc_qp_cnt c)) n"
      using high [of "n + 4"] by (auto simp: bit_take_bit_iff bit_drop_bit_eq bit_cfg_word add.commute)
  qed
qed

lemma fix_counts_burst:
  "take_bit 4 (cc_db_burst_cnt (fix_counts c)) = cc_db_burst_cnt (fix_counts c)" "cc_db_burst_cnt (fix_counts c) \<noteq> 0"
proof -
  let ?b = "if cc_db_burst_cnt c = 0 then 1 else cc_db_burst_cnt c"
  let ?b' = "if 16 \<le> ?b then 15 else ?b :: u8"
  have "unat ?b' < 16" "?b' \<noteq> 0" by (auto simp: not_le word_less_nat_alt word_le_nat_alt)
  then have "take_bit 4 ?b' = ?b'" by (simp add: word_unat_eq_iff unsigned_take_bit_eq take_bit_nat_eq_self_iff)
  then show "take_bit 4 (cc_db_burst_cnt (fix_counts c)) = cc_db_burst_cnt (fix_counts c)" "cc_db_burst_cnt (fix_counts c) \<noteq> 0"
    using \<open>?b' \<noteq> 0\<close> by (simp_all add: fix_counts_def Let_def small_burst)
qed

text \<open>C24: from the word that an accepted configuration writes, the engine reads the mode, the burst count and, up to 255 queue
  pairs, their number, and depth and count of work requests are in their registers; a count with bit 8 set also switches the
  data pattern on.\<close>

theorem old_cmn_cfg_word:
  assumes "run_state (hw_hs_cmn_cfg table d) log = ((0, d'), log')"
  shows "let w = reg_value init log' (hh_base + HW_HS_CFG_REG_OFS); c = od_ctrl_cfg d' in
    \<not> bit w 0 \<and> (bit w 1 \<longleftrightarrow> cc_burst_mode c = 0) \<and> take_bit 4 (drop_bit 2 w) = ucast (cc_db_burst_cnt c) \<and> cc_db_burst_cnt c \<noteq> 0 \<and>
    take_bit 8 (drop_bit 6 w) = take_bit 8 (cc_qp_cnt c) \<and> (bit w 14 \<longleftrightarrow> cc_data_pattern_en c \<noteq> 0 \<or> bit (cc_qp_cnt c) 8) \<and>
    reg_value init log' (hh_base + HW_HS_Q_DEPTH_OFS) = ucast (cc_queue_depth c) \<and> cc_queue_depth c \<noteq> 0 \<and>
    reg_value init log' (hh_base + HW_HS_WQE_CNT_OFS) = cc_qp_wqe_cnt c"
proof -
  let ?c = "fix_counts (fix_depth (od_ctrl_cfg d))"
  have ctrl: "od_ctrl_cfg d' = ?c"
    and log: "log' = log @ [IoW (hh_base + 12) (ucast (cc_queue_depth (fix_depth (od_ctrl_cfg d)))),
      IoW (hh_base + 16) (cc_qp_wqe_cnt (fix_depth (od_ctrl_cfg d))), IoW (hh_base + 0) (cfg_word ?c)]"
    using assms by (auto simp: hw_hs_cmn_cfg_def Let_def xib_iow32_def HW_HS_Q_DEPTH_OFS_def HW_HS_WQE_CNT_OFS_def HW_HS_CFG_REG_OFS_def
        split: if_splits option.splits)
  have k: "cc_queue_depth ?c = cc_queue_depth (fix_depth (od_ctrl_cfg d))" "cc_qp_wqe_cnt ?c = cc_qp_wqe_cnt (fix_depth (od_ctrl_cfg d))"
    "cc_queue_depth (fix_depth (od_ctrl_cfg d)) \<noteq> 0" by (simp_all add: fix_counts_def Let_def fix_depth_def)
  then show ?thesis using cfg_word_fields [OF fix_counts_burst(1)] fix_counts_burst(2)
    by (simp add: Let_def ctrl log HW_HS_Q_DEPTH_OFS_def HW_HS_WQE_CNT_OFS_def HW_HS_CFG_REG_OFS_def)
qed

subsection \<open>The server on this driver\<close>

text \<open>The server's argument as the driver finds it in the process, and what the driver leaves there.\<close>

definition srv_user :: "srv_arg \<Rightarrow> old_user" where
  "srv_user arg = \<lparr>ou_access_ok = True, ou_ctrl = (case arg of ArgCtrl c \<Rightarrow> (c, True) | _ \<Rightarrow> (zero_ctrl, False)),
     ou_qp = (case arg of ArgQp c \<Rightarrow> Some c | _ \<Rightarrow> None), ou_qp_num = (case arg of ArgPerf q \<Rightarrow> Some q | _ \<Rightarrow> None),
     ou_direct = (\<lambda>n. case arg of ArgPerf q \<Rightarrow> q | _ \<Rightarrow> 0), ou_left = (\<lambda>n. 0)\<rparr>"

fun srv_words :: "old_out \<Rightarrow> u32 \<times> u64" where
  "srv_words OldNone = (0, 0)"
| "srv_words (OldPerf n c) = (n, c)"
| "srv_words (OldStat w) = (w, 0)"

definition former_ioctl ::
  "hs_env \<Rightarrow> (nat \<Rightarrow> u64 list option) \<Rightarrow> u64 \<Rightarrow> (old_hs_dev \<times> xrnic_local option \<times> io list) option srv_ioctl" where
  "former_ioctl env table junk cmd arg s =
     (case s of
        None \<Rightarrow> (- 1, (0, 0), None)
      | Some (d, xlp, l) \<Rightarrow>
          (case run_state (old_hh_dev_ioctl env table junk (srv_user arg) d xlp cmd) l of
             (None, l') \<Rightarrow> (- 1, (0, 0), None)
           | (Some (r, out, d', xlp'), l') \<Rightarrow> (if r < 0 then - 1 else r, srv_words out, Some (d', xlp', l'))))"

text \<open>What the driver has after the server's first command.\<close>

lemma former_cmn_cfg:
  assumes "cc_qp_cnt c \<noteq> 0" "cc_qp_cnt c \<le> od_num_qp d - 2" "table (unat (cc_qp_cnt c AND 0x7FF)) = Some t"
  shows "\<exists>log'. former_ioctl env table junk HH_WRITE_CMN_CFG (ArgCtrl c) (Some (d, xlp, log)) =
    (0, (0, 0), Some (d\<lparr>od_ctrl_cfg := fix_counts (fix_depth c), od_qp_info := Table t\<rparr>, xlp, log'))"
proof -
  have cnt: "cc_qp_cnt (fix_depth c) = cc_qp_cnt c" "cc_qp_cnt (fix_counts (fix_depth c)) = cc_qp_cnt c AND 0x7FF"
    using assms(1) by (simp_all add: fix_depth_def fix_counts_def Let_def)
  have u: "ou_access_ok (srv_user (ArgCtrl c))" "ou_ctrl (srv_user (ArgCtrl c)) = (c, True)" by (simp_all add: srv_user_def)
  show ?thesis
    using assms cnt by (auto simp: former_ioctl_def old_cmn_cfg_ioctl [OF u] hw_hs_cmn_cfg_def Let_def not_less)
qed

lemma former_qp_cfg:
  assumes "od_qp_info d = Table t" "unat (pq_qp_num c) < length t" "unat (pq_qp_num c) < 2 ^ 12 - 1" "od_addr_width d = 64"
    and "pq_qp_num c \<le> cc_qp_cnt (od_ctrl_cfg d)"
  shows "\<exists>d' log'. former_ioctl env table junk HH_WRITE_QP_CFG (ArgQp c) (Some (d, Some x, log)) = (0, (0, 0), Some (d', Some x, log')) \<and>
    old_programmed c (reg_value init log')"
proof -
  have u: "ou_access_ok (srv_user (ArgQp c))" "ou_qp (srv_user (ArgQp c)) = Some c" by (simp_all add: srv_user_def)
  have "od_qp_info d \<noteq> NoTable" using assms(1) by simp
  then show ?thesis using old_qp_cfg_run [OF assms(1-4), of junk x log init] assms(5)
    by (auto simp: former_ioctl_def old_cmn_cfg_ioctl old_qp_cfg_ioctl [OF u] old_quiet_def)
qed

text \<open>on its own driver the server gets past its start from every accepted command line whose number of queue pairs the engine
  supports; the driver then has a table with an entry for each of them.\<close>

theorem server_starts_on_former:
  assumes "init_xperf_app addr opts fd = (0, p)" "argc \<noteq> 1" "rp_help p = 0" "rp_db_burst_cnt p \<noteq> 0"
    and "rp_qp_cnt p \<le> od_num_qp d - 2" "rp_qp_cnt p < 2048" "\<And>n. \<exists>t. table n = Some t \<and> length t = n"
  shows "\<exists>s0 d' l' t. server_start (former_ioctl env table junk) argc addr opts fd m (Some (d, xlp, l)) = Some (Inr (p, s0)) \<and>
    sv_drv s0 = Some (d', xlp, l') \<and> cc_qp_cnt (od_ctrl_cfg d') = rp_qp_cnt p \<and> od_qp_info d' = Table t \<and> length t = unat (rp_qp_cnt p)"
proof -
  obtain c where c: "ctrl_cfg p = Some c" using init_accepts(4) [OF assms(1)] assms(4) ctrl_cfg_None by fastforce
  have cnt: "cc_qp_cnt c = rp_qp_cnt p" using c by (auto simp: ctrl_cfg_def Let_def split: if_splits)
  have pos: "rp_qp_cnt p \<noteq> 0" using init_accepts(1) [OF assms(1)] by auto
  have k: "(0x7FF :: u32) = mask 11" by (simp add: mask_eq_exp_minus_1)
  have m: "rp_qp_cnt p AND 0x7FF = rp_qp_cnt p"
    unfolding k by (rule and_mask_small) (use assms(6) in \<open>simp_all add: word_less_nat_alt\<close>)
  obtain t where t: "table (unat (rp_qp_cnt p)) = Some t" "length t = unat (rp_qp_cnt p)" using assms(7) by blast
  obtain l' where run: "former_ioctl env table junk HH_WRITE_CMN_CFG (ArgCtrl c) (Some (d, xlp, l)) =
      (0, (0, 0), Some (d\<lparr>od_ctrl_cfg := fix_counts (fix_depth c), od_qp_info := Table t\<rparr>, xlp, l'))"
    using former_cmn_cfg [of c d table t env junk xlp l] cnt pos assms(5) m t(1) by auto
  have "cc_qp_cnt (fix_counts (fix_depth c)) = rp_qp_cnt p" using cnt pos m by (simp add: fix_counts_def Let_def fix_depth_def)
  then show ?thesis using assms(1-3) c run t(2) by (simp add: server_start_def fill_hh_ctrl_cfg_def)
qed

text \<open>C8: when the exchange with a client succeeds on this driver, the engine's registers for the context's number hold the key and the
  address that the client sent, and the other queue pairs keep theirs.\<close>

theorem server_exchange_programs:
  assumes "test_server_rping (former_ioctl env table junk) y p cb st m (Some (d, Some x, log)) = Some (0, cb', st', m', drv)"
    and "od_qp_info d = Table t" "unat (ac_qp_num cb) < length t" "length t \<le> unat (cc_qp_cnt (od_ctrl_cfg d))" "length t < 2 ^ 12"
    and "od_addr_width d = 64"
  shows "\<exists>d' log'. drv = Some (d', Some x, log') \<and>
    (let r = (\<lambda>ofs. reg_value init log' (qp_cfg_base + ofs)); q = ac_qp_num cb in
     r (HW_HS_QP_RKEY q) = pi_rkey (rx_info (xe_rx y)) \<and> u64_of r (HW_HS_QP_VA_LSB q) (HW_HS_QP_VA_MSB q) = pi_buf (rx_info (xe_rx y)))"
proof -
  obtain pa sqa w where peer: "ac_qp_num cb' = ac_qp_num cb" "ac_remote_rkey cb' = pi_rkey (rx_info (xe_rx y))"
      "ac_remote_addr cb' = pi_buf (rx_info (xe_rx y))"
    and call: "former_ioctl env table junk HH_WRITE_QP_CFG (ArgQp (qp_reg_info p cb' pa sqa)) (Some (d, Some x, log)) = (0, w, drv)"
    using exchange_calls [OF assms(1)] by auto
  let ?c = "qp_reg_info p cb' pa sqa"
  have q: "pq_qp_num ?c = ac_qp_num cb" using peer(1) by (simp add: qp_reg_info_def)
  have "\<exists>d' log'. former_ioctl env table junk HH_WRITE_QP_CFG (ArgQp ?c) (Some (d, Some x, log)) = (0, (0, 0), Some (d', Some x, log')) \<and>
      old_programmed ?c (reg_value init log')"
    by (rule former_qp_cfg [OF assms(2) _ _ assms(6)]) (use assms(3-5) q in \<open>simp_all add: word_le_nat_alt\<close>)
  then obtain d' log' where "drv = Some (d', Some x, log')" "old_programmed ?c (reg_value init log')" using call by auto
  then show ?thesis using peer q by (auto simp: old_programmed_def Let_def qp_reg_info_def u64_of_def split_64)
qed

subsection \<open>Witnesses\<close>

definition demo_table :: "nat \<Rightarrow> u64 list option" where "demo_table n = Some (replicate n 0)"

definition demo_former :: "(old_hs_dev \<times> xrnic_local option \<times> io list) option srv_ioctl" where
  "demo_former = former_ioctl (demo_hs_env []) demo_table 0xDEAD"

definition demo_former_start :: "(rdma_param \<times> (old_hs_dev \<times> xrnic_local option \<times> io list) option srv) option" where
  "demo_former_start =
     (case server_start demo_former 5 (\<lambda>s. 0) [(CHR ''Q'', ''1''), (CHR ''N'', ''3'')] 4 demo_srv_mem (Some (fresh_old_dev 64 8, Some demo_hs_xl, [])) of
        Some (Inr q) \<Rightarrow> Some q | _ \<Rightarrow> None)"

definition demo_late_steps :: "srv_step list" where
  "demo_late_steps = [StCm 5 EvConnectRequest (Some demo_raw), StCm 8 EvConnectRequest (Some demo_raw), StEst demo_est, StCm 8 EvEstablished None,
     StEst demo_est, StServe demo_xchg]"

text \<open>a server for one queue pair whose second client is established first passes the driver the number 1, and the driver writes
  outside its table.\<close>

theorem server_overruns_former:
  "map_option (\<lambda>s. (sv_ret s, sv_drv s = None)) (Option.bind demo_former_start (\<lambda>(p, s). srv_run demo_former p demo_late_steps s)) =
     Some (Some (- EFAULT), True)"
proof -
  have "map_option (\<lambda>s. (sv_ret s, Option.is_none (sv_drv s))) (Option.bind demo_former_start (\<lambda>(p, s). srv_run demo_former p demo_late_steps s)) =
     Some (Some (- EFAULT), True)" by code_simp
  then show ?thesis by (simp add: Option.is_none_def)
qed

definition demo_old_dev :: "old_hs_dev" where
  "demo_old_dev = (fresh_old_dev 64 8)\<lparr>od_ctrl_cfg := zero_ctrl\<lparr>cc_qp_cnt := 2\<rparr>, od_qp_info := Table [0, 0]\<rparr>"

definition demo_reg_info :: per_qp_reg_info where
  "demo_reg_info = \<lparr>pq_qp_num = 1, pq_data_pattern = 5, pq_rkey = 6, pq_va_lsb = 7, pq_va_msb = 8, pq_data_addr = 0x900000000, pq_sq_addr = 0xA00000000,
     pq_data_size_kb = 64, pq_wqe_opcode = 2\<rparr>"

theorem old_qp_cfg_programs_witness:
  "\<exists>d' log'. run_state (old_hh_dev_ioctl (demo_hs_env []) demo_table 3 (srv_user (ArgQp demo_reg_info)) demo_old_dev (Some demo_hs_xl) HH_WRITE_QP_CFG) [] =
     (Some (0, OldNone, d', Some demo_hs_xl), log') \<and> reg_value (\<lambda>_. 0x11) log' (qp_cfg_base + HW_HS_WQE_OPCODE_OFS 1) = 0x23 \<and>
     reg_value (\<lambda>_. 0x11) log' (old_qp_reg 0 44) = 0x11"
proof -
  have a: "ou_access_ok (srv_user (ArgQp demo_reg_info))" "ou_qp (srv_user (ArgQp demo_reg_info)) = Some demo_reg_info"
    "pq_qp_num demo_reg_info \<le> cc_qp_cnt (od_ctrl_cfg demo_old_dev)" "od_qp_info demo_old_dev = Table [0, 0]"
    "unat (pq_qp_num demo_reg_info) < length [0::u64, 0]" "unat (pq_qp_num demo_reg_info) < 2 ^ 12 - 1" "od_addr_width demo_old_dev = 64"
    by (simp_all add: srv_user_def demo_reg_info_def demo_old_dev_def fresh_old_dev_def)
  have w: "opcode_word demo_reg_info = 0x23" "pq_qp_num demo_reg_info = 1" by (simp_all add: opcode_word_def demo_reg_info_def data_size_code_def)
  from old_qp_cfg_programs [OF a, of "demo_hs_env []" demo_table 3 demo_hs_xl "[]" "\<lambda>_. 0x11"] w show ?thesis
    by (auto simp: old_programmed_def Let_def)
qed

theorem old_cmn_cfg_word_witness:
  "\<exists>d' log'. run_state (hw_hs_cmn_cfg demo_table ((fresh_old_dev 64 512)\<lparr>od_ctrl_cfg := zero_ctrl\<lparr>cc_qp_cnt := 256\<rparr>\<rparr>)) [] = ((0, d'), log') \<and>
     cc_data_pattern_en (od_ctrl_cfg d') = 0 \<and> bit (reg_value (\<lambda>_. 0) log' (hh_base + HW_HS_CFG_REG_OFS)) 14"
proof -
  let ?d = "(fresh_old_dev 64 512)\<lparr>od_ctrl_cfg := zero_ctrl\<lparr>cc_qp_cnt := 256\<rparr>\<rparr>"
  have c: "(case run_state (hw_hs_cmn_cfg demo_table ?d) [] of ((r, d'), l) \<Rightarrow> (r, cc_data_pattern_en (od_ctrl_cfg d'), cc_qp_cnt (od_ctrl_cfg d'))) = (0, 0, 256)"
    by code_simp
  obtain r d' log' where run: "run_state (hw_hs_cmn_cfg demo_table ?d) [] = ((r, d'), log')" by (metis prod.exhaust)
  then have r: "r = 0" "cc_data_pattern_en (od_ctrl_cfg d') = 0" "cc_qp_cnt (od_ctrl_cfg d') = 256" using c by simp_all
  have "bit (256 :: u32) 8" by code_simp
  then show ?thesis using old_cmn_cfg_word [OF run [unfolded r(1)], of "\<lambda>_. 0"] run r by (auto simp: Let_def)
qed

theorem server_starts_on_former_witness:
  "\<exists>s0 d' l' t. server_start demo_former 5 (\<lambda>s. 0) [(CHR ''N'', ''7'')] 4 demo_srv_mem (Some (fresh_old_dev 64 8, None, [])) = Some (Inr (demo_param, s0)) \<and>
     sv_drv s0 = Some (d', None, l') \<and> od_qp_info d' = Table t \<and> length t = 1"
proof -
  have i: "init_xperf_app (\<lambda>s. 0) [(CHR ''N'', ''7'')] 4 = (0, demo_param)" unfolding demo_param_def by code_simp
  have p: "rp_help demo_param = 0" "rp_db_burst_cnt demo_param \<noteq> 0" "rp_qp_cnt demo_param = 1" by code_simp+
  have n: "rp_qp_cnt demo_param \<le> od_num_qp (fresh_old_dev 64 8) - 2" "rp_qp_cnt demo_param < 2048" by (simp_all add: p fresh_old_dev_def)
  have t: "\<exists>t. demo_table n = Some t \<and> length t = n" for n by (simp add: demo_table_def)
  from server_starts_on_former [where argc = "5" and env = "demo_hs_env []" and junk = "0xDEAD" and m = demo_srv_mem and xlp = None and l = "[]" and
      table = demo_table, OF i _ p(1,2) n t] p(3) show ?thesis
    by (auto simp: demo_former_def)
qed

definition demo_cb :: app_context where "demo_cb = demo_raw\<lparr>ac_qp_num := 1, ac_send_buf := 0x50000000\<rparr>"

theorem server_exchange_programs_witness:
  "\<exists>cb' st' m' d' log'. test_server_rping demo_former (demo_xchg 0) demo_param demo_cb init_statics demo_srv_mem (Some (demo_old_dev, Some demo_hs_xl, [])) =
      Some (0, cb', st', m', Some (d', Some demo_hs_xl, log')) \<and>
    reg_value (\<lambda>_. 0) log' (qp_cfg_base + HW_HS_QP_RKEY 1) = 0x01010101"
proof -
  have "map_option fst (test_server_rping demo_former (demo_xchg 0) demo_param demo_cb init_statics demo_srv_mem (Some (demo_old_dev, Some demo_hs_xl, []))) = Some 0"
    by code_simp
  then obtain cb' st' m' drv where run: "test_server_rping (former_ioctl (demo_hs_env []) demo_table 0xDEAD) (demo_xchg 0) demo_param demo_cb init_statics demo_srv_mem
      (Some (demo_old_dev, Some demo_hs_xl, [])) = Some (0, cb', st', m', drv)"
    by (auto simp: demo_former_def)
  have a: "od_qp_info demo_old_dev = Table [0, 0]" "unat (ac_qp_num demo_cb) < length [0::u64, 0]"
    "length [0::u64, 0] \<le> unat (cc_qp_cnt (od_ctrl_cfg demo_old_dev))" "length [0::u64, 0] < 2 ^ 12" "od_addr_width demo_old_dev = 64"
    by (simp_all add: demo_cb_def demo_old_dev_def fresh_old_dev_def)
  have k: "pi_rkey (rx_info (xe_rx (demo_xchg 0))) = 0x01010101" "ac_qp_num demo_cb = 1" by code_simp+
  from server_exchange_programs [OF run a, of "\<lambda>_. 0"] run k show ?thesis by (auto simp: Let_def demo_former_def)
qed

end
