(* ===== verification/Xrping.thy ===== *)
theory Xrping
  imports Hs_Server
begin

text \<open>
  The ping program \<open>recipes-apps/xrping/files/xrping.c\<close>: the message in which a client describes its buffer, client and
  server as sequences of calls of the verbs library with their waiting loops, the command line, and the data thread of the client.
  The library and the connection below it are the parameter \<open>xr_verbs\<close>; what the program relies on is the hypothesis
  \<open>rc_connection\<close>, the documented behaviour of a reliable connection: requests complete in order, a message waits for a
  receive that is posted, reads and writes of a registered buffer move its bytes.  The second half gives, for every number of steps
  that client, server and connection have made, the state they are in, and shows that each step leads from one such state to the next;
  \<open>Xrping_Session\<close> draws the conclusions.
\<close>

unbundle bit_operations_syntax

subsection \<open>The message\<close>

text \<open>\<open>struct rping_rdma_info\<close>, the values its fields carry in network order.\<close>

record rdma_info =
  ri_buf :: u64
  ri_rkey :: u32
  ri_size :: u32
  ri_iter_cnt :: u32
  ri_qp_cnt :: u32

definition net_bytes :: "nat \<Rightarrow> u64 \<Rightarrow> u8 list" where
  "net_bytes n v = map (\<lambda>k. ucast (drop_bit (8 * (n - 1 - k)) v)) [0..<n]"

definition info_bytes :: "rdma_info \<Rightarrow> u8 list" where
  "info_bytes i = net_bytes 8 (ri_buf i) @ net_bytes 4 (ucast (ri_rkey i)) @ net_bytes 4 (ucast (ri_size i)) @
     net_bytes 4 (ucast (ri_iter_cnt i)) @ net_bytes 4 (ucast (ri_qp_cnt i))"

text \<open>The message is written over the first 24 bytes of the send buffer, which has more.\<close>

definition rping_format_send :: "rdma_info \<Rightarrow> u8 list \<Rightarrow> u8 list" where
  "rping_format_send i buf = info_bytes i @ drop 24 buf"

text \<open>What the server reads from the buffer it received.\<close>

definition parse_info :: "u8 list \<Rightarrow> rdma_info" where
  "parse_info bs = \<lparr>ri_buf = be_value 0 (take 8 bs), ri_rkey = ucast (be_value 0 (take 4 (drop 8 bs))),
     ri_size = ucast (be_value 0 (take 4 (drop 12 bs))), ri_iter_cnt = ucast (be_value 0 (take 4 (drop 16 bs))),
     ri_qp_cnt = ucast (be_value 0 (take 4 (drop 20 bs)))\<rparr>"

lemma length_net_bytes [simp]: "length (net_bytes n v) = n"
  by (simp add: net_bytes_def)

lemma length_info_bytes [simp]: "length (info_bytes i) = 24"
  by (simp add: info_bytes_def)

lemma be_value_append: "be_value a (xs @ ys) = be_value (be_value a xs) ys"
  by (induction xs arbitrary: a) simp_all

lemma net_bytes_Suc: "net_bytes (Suc n) v = net_bytes n (drop_bit 8 v) @ [ucast v]"
proof -
  have "drop_bit (8 * (Suc n - 1 - k)) v = drop_bit (8 * (n - 1 - k)) (drop_bit 8 v)" if "k < n" for k
  proof -
    have "8 * (Suc n - 1 - k) = 8 * (n - 1 - k) + 8" using that by simp
    then show ?thesis by (simp only: drop_bit_drop_bit)
  qed
  then show ?thesis by (simp add: net_bytes_def)
qed

lemma be_value_bytes: "n \<le> 8 \<Longrightarrow> be_value 0 (net_bytes n v) = take_bit (8 * n) v"
proof (induction n arbitrary: v)
  case 0
  then show ?case by (simp add: net_bytes_def)
next
  case (Suc n)
  have "be_value 0 (net_bytes (Suc n) v) = 256 * take_bit (8 * n) (drop_bit 8 v) + ucast (ucast v :: u8)"
    using Suc by (simp add: net_bytes_Suc be_value_append)
  also have "\<dots> = push_bit 8 (take_bit (8 * n) (drop_bit 8 v)) OR take_bit 8 v"
  proof -
    have "(256 :: u64) * x = push_bit 8 x" for x by (simp add: push_bit_eq_mult)
    moreover have "ucast (ucast v :: u8) = take_bit 8 v" by (rule bit_word_eqI) (auto simp: bit_simps)
    moreover have "push_bit 8 x + take_bit 8 v = push_bit 8 x OR take_bit 8 v" for x :: u64
      by (rule disjunctive_add) (auto simp: bit_simps)
    ultimately show ?thesis by simp
  qed
  also have "\<dots> = take_bit (8 * Suc n) v" by (rule bit_word_eqI) (use Suc.prems in \<open>auto simp: bit_simps\<close>)
  finally show ?case .
qed

text \<open>the server reads from the message exactly what the client wrote into it.\<close>

lemma format_parse: "parse_info (rping_format_send i buf) = i"
proof -
  have "take_bit 64 v = v" for v :: u64 by (rule bit_word_eqI) (auto simp: bit_simps)
  then have q: "be_value 0 (net_bytes 8 v) = v" for v by (simp add: be_value_bytes)
  have d: "ucast (take_bit 32 (ucast w :: u64)) = w" for w :: u32 by (rule bit_word_eqI) (auto simp: bit_simps)
  have "ucast (be_value 0 (net_bytes 4 (ucast w))) = w" for w :: u32 by (simp add: be_value_bytes d)
  with q show ?thesis by (simp add: parse_info_def rping_format_send_def info_bytes_def)
qed

subsection \<open>The two ends of a connection\<close>

text \<open>The send work requests with the remote address, key and length of the one-sided ones.\<close>

datatype send_op = OpSend | OpRead u64 u32 u32 | OpWrite u64 u32 u32

record send_req =
  sr_id :: u64
  sr_op :: send_op

text \<open>What one end of the connection holds: of its context the identifiers in \<open>rq_wr\<close> and \<open>sq_wr\<close>, what it knows of the other end and
  its buffers, and the receives, sends and completions that are outstanding.\<close>

record xr_peer =
  rq_id :: u64
  sq_id :: u64
  rem_addr :: u64
  rem_rkey :: u32
  rem_len :: u32
  start_buf :: "u8 list"
  send_buf :: "u8 list"
  recv_buf :: "u8 list"
  rdma_buf :: "u8 list"
  rdma_addr :: u64
  rdma_rkey :: u32
  recvq :: "u64 list"
  sendq :: "send_req list"
  wcq :: "(u64 \<times> bool) list"

text \<open>The library: the values that posting a request returns, 0 when it was accepted; whether polling fails; and the execution of the first
  send request of one end against the other, \<open>None\<close> while it cannot be executed.\<close>

record xr_verbs =
  v_send :: "xr_peer \<Rightarrow> int"
  v_recv :: "xr_peer \<Rightarrow> int"
  v_poll_fails :: "xr_peer \<Rightarrow> bool"
  v_exec :: "xr_peer \<Rightarrow> xr_peer \<Rightarrow> (xr_peer \<times> xr_peer) option"

text \<open>The two access an \<open>int\<close> at the start of a work request: the lower half of its 64-bit identifier.  A plain assignment of an
  \<open>int\<close> extends its sign.\<close>

definition get_wr_id :: "u64 \<Rightarrow> u32" where
  "get_wr_id v = ucast v"

definition set_wr_id :: "u64 \<Rightarrow> u32 \<Rightarrow> u64" where
  "set_wr_id v i = push_bit 32 (drop_bit 32 v) OR ucast i"

definition int_id :: "u32 \<Rightarrow> u64" where
  "int_id i = scast i"

definition post_send :: "xr_verbs \<Rightarrow> send_op \<Rightarrow> xr_peer \<Rightarrow> int \<times> xr_peer" where
  "post_send v op p = (let e = v_send v p in (e, if e = 0 then p\<lparr>sendq := sendq p @ [\<lparr>sr_id = sq_id p, sr_op = op\<rparr>]\<rparr> else p))"

definition post_recv :: "xr_verbs \<Rightarrow> xr_peer \<Rightarrow> int \<times> xr_peer" where
  "post_recv v p = (let e = v_recv v p in (e, if e = 0 then p\<lparr>recvq := recvq p @ [rq_id p]\<rparr> else p))"

datatype poll_res = PollWait | PollMore xr_peer | PollGot xr_peer | PollBad xr_peer

text \<open>One turn of the loop of \<open>rdmatest_poll_cq\<close>: nothing there, another completion, the one waited for, or an error.\<close>

definition xr_poll_cq :: "xr_verbs \<Rightarrow> u32 \<Rightarrow> xr_peer \<Rightarrow> poll_res" where
  "xr_poll_cq v i p = (if v_poll_fails v p then PollBad p
     else case wcq p of
       [] \<Rightarrow> PollWait
     | (j, ok) # q \<Rightarrow> let p' = p\<lparr>wcq := q\<rparr> in
         if \<not> ok then PollBad p' else if j = ucast i then PollGot p' else PollMore p')"

subsection \<open>The client\<close>

record ping_cfg =
  pg_size :: nat
  pg_count :: int
  pg_format :: bool
  pg_validate :: bool
  pg_verbose :: bool
  pg_qp_cnt :: u32

datatype test_state = IDLE | CONNECT_REQUEST | ADDR_RESOLVED | ROUTE_RESOLVED | CONNECTED | RDMA_READ_ADV | RDMA_READ_COMPLETE
  | RDMA_WRITE_ADV | RDMA_WRITE_COMPLETE | DISCONNECTED | HW_HS_RECV_CMPLT | ERROR

text \<open>The text of a ping: the prefix as \<open>snprintf\<close> writes it, then letters from 65 to 122 in turn, and a zero at the end.\<close>

fun dec_text :: "nat \<Rightarrow> u8 list" where
  "dec_text n = (if n < 10 then [of_nat (48 + n)] else dec_text (n div 10) @ [of_nat (48 + n mod 10)])"

declare dec_text.simps [simp del]

definition ping_prefix :: "int \<Rightarrow> u8 list" where
  "ping_prefix ping = [114, 100, 109, 97, 45, 112, 105, 110, 103, 45] @ dec_text (nat ping) @ [58, 32]"

fun fill_chars :: "nat \<Rightarrow> u8 \<Rightarrow> u8 list" where
  "fill_chars 0 c = []"
| "fill_chars (Suc n) c = c # fill_chars n (if c + 1 > 122 then 65 else c + 1)"

definition ping_text :: "nat \<Rightarrow> int \<Rightarrow> u8 list" where
  "ping_text n ping = (let h = ping_prefix ping; cc = length h
     in (if cc < n then h @ fill_chars (n - cc) 65 else take (n - 1) h @ [0])[n - 1 := 0])"

definition fill_ping :: "ping_cfg \<Rightarrow> int \<Rightarrow> xr_peer \<Rightarrow> xr_peer" where
  "fill_ping g ping p = (if pg_format g then
       (let t = ping_text (pg_size g) ping in p\<lparr>start_buf := t, rdma_buf := t @ drop (pg_size g) (rdma_buf p)\<rparr>)
     else p)"

definition info_of :: "ping_cfg \<Rightarrow> xr_peer \<Rightarrow> rdma_info" where
  "info_of g p = \<lparr>ri_buf = rdma_addr p, ri_rkey = rdma_rkey p, ri_size = of_nat (pg_size g), ri_iter_cnt = of_int (pg_count g),
     ri_qp_cnt = pg_qp_cnt g\<rparr>"

definition format_peer :: "ping_cfg \<Rightarrow> xr_peer \<Rightarrow> xr_peer" where
  "format_peer g p = p\<lparr>send_buf := rping_format_send (info_of g p) (send_buf p)\<rparr>"

text \<open>Where the client stands; the argument is the identifier that the ping started with.\<close>

datatype client_pc = CPing | CFmt1 u32 | CPoll1 u32 | CRecv u32 | CFmt2 u32 | CPoll2 u32 | CCheck | CRet int

record xr_client =
  cl_pc :: client_pc
  cl_ping :: int
  cl_state :: test_state
  cl_peer :: xr_peer

definition client_end :: "xr_client \<Rightarrow> int \<Rightarrow> xr_client" where
  "client_end c ret = c\<lparr>cl_pc := CRet (if cl_state c = DISCONNECTED then 0 else ret)\<rparr>"

definition client_poll :: "xr_verbs \<Rightarrow> u32 \<Rightarrow> client_pc \<Rightarrow> xr_client \<Rightarrow> xr_client option" where
  "client_poll v i nxt c = (case xr_poll_cq v i (cl_peer c) of
       PollWait \<Rightarrow> None
     | PollMore p \<Rightarrow> Some (c\<lparr>cl_peer := p\<rparr>)
     | PollGot p \<Rightarrow> Some (c\<lparr>cl_peer := p, cl_pc := nxt\<rparr>)
     | PollBad p \<Rightarrow> Some (c\<lparr>cl_peer := p, cl_pc := CRet (- EFAULT)\<rparr>))"

definition client_send :: "xr_verbs \<Rightarrow> ping_cfg \<Rightarrow> u32 \<Rightarrow> client_pc \<Rightarrow> xr_client \<Rightarrow> xr_client" where
  "client_send v g i nxt c = (let p = format_peer g (cl_peer c);
       (e, p') = post_send v OpSend (p\<lparr>sq_id := set_wr_id (sq_id p) i\<rparr>); c' = c\<lparr>cl_peer := p'\<rparr>
     in if e \<noteq> 0 then client_end c' e else c'\<lparr>cl_pc := nxt\<rparr>)"

text \<open>One step of the client, up to the next call of the library.  The byte that \<open>-v\<close> overwrites lies behind a buffer of up to 20 bytes.\<close>

definition rping_test_client :: "xr_verbs \<Rightarrow> ping_cfg \<Rightarrow> xr_client \<Rightarrow> xr_client option" where
  "rping_test_client v g c = (let p = cl_peer c in case cl_pc c of
       CPing \<Rightarrow>
         if pg_count g = 0 \<or> cl_ping c < pg_count g
         then Some (c\<lparr>cl_state := RDMA_READ_ADV, cl_peer := fill_ping g (cl_ping c) p, cl_pc := CFmt1 (get_wr_id (rq_id p))\<rparr>)
         else Some (client_end c 0)
     | CFmt1 w \<Rightarrow> Some (client_send v g (w + 1) (CPoll1 w) c)
     | CPoll1 w \<Rightarrow> client_poll v w (CRecv w) c
     | CRecv w \<Rightarrow>
         (let (e, p') = post_recv v (p\<lparr>rq_id := set_wr_id (rq_id p) (w + 2)\<rparr>)
          in Some (c\<lparr>cl_peer := p', cl_pc := (if e \<noteq> 0 then CRet e else CFmt2 w)\<rparr>))
     | CFmt2 w \<Rightarrow> Some (client_send v g (w + 3) (CPoll2 w) c)
     | CPoll2 w \<Rightarrow> client_poll v (w + 2) CCheck c
     | CCheck \<Rightarrow>
         if pg_format g \<and> pg_validate g \<and> take (pg_size g) (start_buf p) \<noteq> take (pg_size g) (rdma_buf p)
         then Some (client_end c (- 1))
         else Some (c\<lparr>cl_peer := (if pg_verbose g then p\<lparr>rdma_buf := (rdma_buf p)[20 := 0]\<rparr> else p),
                      cl_ping := cl_ping c + 1, cl_pc := CPing\<rparr>)
     | CRet r \<Rightarrow> None)"

subsection \<open>The server\<close>

text \<open>Where the server stands; the argument is the random number of the round.\<close>

datatype server_pc = SIter | SPoll1 u32 | SRead u32 | SPoll2 u32 | SRecv u32 | SSend u32 | SPoll3 u32 | SWrite u32 | SPoll4 u32
  | SDone u32 | SPoll5 u32 | SRet int

record xr_server =
  sv_pc :: server_pc
  sv_i :: nat
  sv_iter_cnt :: u32
  sv_rx_qp_cnt :: u32
  sv_qp_cnt :: u32
  sv_peer :: xr_peer

definition server_poll :: "xr_verbs \<Rightarrow> u32 \<Rightarrow> server_pc \<Rightarrow> xr_server \<Rightarrow> xr_server option" where
  "server_poll v i nxt s = (case xr_poll_cq v i (sv_peer s) of
       PollWait \<Rightarrow> None
     | PollMore p \<Rightarrow> Some (s\<lparr>sv_peer := p\<rparr>)
     | PollGot p \<Rightarrow> Some (s\<lparr>sv_peer := p, sv_pc := nxt\<rparr>)
     | PollBad p \<Rightarrow> Some (s\<lparr>sv_peer := p, sv_pc := SRet (- EFAULT)\<rparr>))"

text \<open>After a request was posted: only a negative value is taken for an error.\<close>

definition server_on :: "int \<times> xr_peer \<Rightarrow> server_pc \<Rightarrow> xr_server \<Rightarrow> xr_server option" where
  "server_on ep nxt s = Some (s\<lparr>sv_peer := snd ep, sv_pc := (if fst ep < 0 then SRet (- 1) else nxt)\<rparr>)"

definition take_info :: "xr_server \<Rightarrow> xr_server" where
  "take_info s = (let i = parse_info (recv_buf (sv_peer s));
       s' = s\<lparr>sv_peer := (sv_peer s)\<lparr>rem_rkey := ri_rkey i, rem_addr := ri_buf i, rem_len := ri_size i\<rparr>\<rparr>
     in if sv_i s \<noteq> 0 then s'
        else s'\<lparr>sv_rx_qp_cnt := (if sv_rx_qp_cnt s = sv_qp_cnt s then ri_qp_cnt i else sv_rx_qp_cnt s), sv_iter_cnt := ri_iter_cnt i\<rparr>)"

definition xr_test_server :: "xr_verbs \<Rightarrow> (nat \<Rightarrow> u32) \<Rightarrow> xr_server \<Rightarrow> xr_server option" where
  "xr_test_server v rnd s = (let p = sv_peer s in case sv_pc s of
       SIter \<Rightarrow>
         if (of_nat (sv_i s) :: u32) < sv_iter_cnt s
         then server_on (post_recv v (p\<lparr>rq_id := set_wr_id (rq_id p) (rnd (sv_i s))\<rparr>)) (SPoll1 (rnd (sv_i s))) s
         else Some (s\<lparr>sv_pc := SRet 0\<rparr>)
     | SPoll1 r \<Rightarrow> server_poll v r (SRead r) s
     | SRead r \<Rightarrow>
         (let s' = take_info s; q = sv_peer s'
          in server_on (post_send v (OpRead (rem_addr q) (rem_rkey q) (rem_len q)) (q\<lparr>sq_id := int_id (r + 1)\<rparr>)) (SPoll2 r) s')
     | SPoll2 r \<Rightarrow> server_poll v (r + 1) (SRecv r) s
     | SRecv r \<Rightarrow> server_on (post_recv v (p\<lparr>rq_id := set_wr_id (rq_id p) (r + 3)\<rparr>)) (SSend r) s
     | SSend r \<Rightarrow> server_on (post_send v OpSend (p\<lparr>sq_id := set_wr_id (sq_id p) (r + 2)\<rparr>)) (SPoll3 r) s
     | SPoll3 r \<Rightarrow> server_poll v (r + 3) (SWrite r) s
     | SWrite r \<Rightarrow>
         server_on (post_send v (OpWrite (rem_addr p) (rem_rkey p) (rem_len p)) (p\<lparr>sq_id := int_id (r + 4)\<rparr>)) (SPoll4 r) s
     | SPoll4 r \<Rightarrow> server_poll v (r + 4) (SDone r) s
     | SDone r \<Rightarrow> server_on (post_send v OpSend (p\<lparr>sq_id := set_wr_id (sq_id p) (r + 5)\<rparr>)) (SPoll5 r) s
     | SPoll5 r \<Rightarrow> (case server_poll v (r + 5) SIter s of
           Some s' \<Rightarrow> Some (if sv_pc s' = SIter then s'\<lparr>sv_i := sv_i s + 1\<rparr> else s') | None \<Rightarrow> None)
     | SRet r \<Rightarrow> None)"

subsection \<open>Client and server on a connection\<close>

record xr_world =
  w_cl :: xr_client
  w_sv :: xr_server

text \<open>Client, server and the two directions of the connection, in any order.  An empty completion queue is waiting, not a step.\<close>

inductive xr_step :: "xr_verbs \<Rightarrow> ping_cfg \<Rightarrow> (nat \<Rightarrow> u32) \<Rightarrow> xr_world \<Rightarrow> xr_world \<Rightarrow> bool" for v g rnd where
  client: "rping_test_client v g (w_cl w) = Some c \<Longrightarrow> xr_step v g rnd w (w\<lparr>w_cl := c\<rparr>)"
| server: "xr_test_server v rnd (w_sv w) = Some s \<Longrightarrow> xr_step v g rnd w (w\<lparr>w_sv := s\<rparr>)"
| from_client: "v_exec v (cl_peer (w_cl w)) (sv_peer (w_sv w)) = Some (p, q) \<Longrightarrow>
    xr_step v g rnd w \<lparr>w_cl = (w_cl w)\<lparr>cl_peer := p\<rparr>, w_sv = (w_sv w)\<lparr>sv_peer := q\<rparr>\<rparr>"
| from_server: "v_exec v (sv_peer (w_sv w)) (cl_peer (w_cl w)) = Some (q, p) \<Longrightarrow>
    xr_step v g rnd w \<lparr>w_cl = (w_cl w)\<lparr>cl_peer := p\<rparr>, w_sv = (w_sv w)\<lparr>sv_peer := q\<rparr>\<rparr>"

definition completed :: "send_req list \<Rightarrow> send_req \<Rightarrow> xr_peer \<Rightarrow> xr_peer" where
  "completed q x e = e\<lparr>sendq := q, wcq := wcq e @ [(sr_id x, True)]\<rparr>"

text \<open>The documented behaviour of a reliable connection.\<close>

definition rc_connection :: "xr_verbs \<Rightarrow> bool" where
  "rc_connection v \<longleftrightarrow>
     (\<forall>p. v_send v p = 0 \<and> v_recv v p = 0 \<and> \<not> v_poll_fails v p) \<and>
     (\<forall>e p. sendq e = [] \<longrightarrow> v_exec v e p = None) \<and>
     (\<forall>e p x q. sendq e = x # q \<and> sr_op x = OpSend \<and> recvq p = [] \<longrightarrow> v_exec v e p = None) \<and>
     (\<forall>e p x q i js. sendq e = x # q \<and> sr_op x = OpSend \<and> recvq p = i # js \<and> length (send_buf e) = length (recv_buf p) \<longrightarrow>
        v_exec v e p = Some (completed q x e, p\<lparr>recvq := js, recv_buf := send_buf e, wcq := wcq p @ [(i, True)]\<rparr>)) \<and>
     (\<forall>e p x q n. sendq e = x # q \<and> sr_op x = OpRead (rdma_addr p) (rdma_rkey p) n \<and>
          unat n \<le> length (rdma_buf p) \<and> unat n \<le> length (rdma_buf e) \<longrightarrow>
        v_exec v e p = Some ((completed q x e)\<lparr>rdma_buf := take (unat n) (rdma_buf p) @ drop (unat n) (rdma_buf e)\<rparr>, p)) \<and>
     (\<forall>e p x q n. sendq e = x # q \<and> sr_op x = OpWrite (rdma_addr p) (rdma_rkey p) n \<and>
          unat n \<le> length (rdma_buf p) \<and> unat n \<le> length (rdma_buf e) \<longrightarrow>
        v_exec v e p = Some (completed q x e, p\<lparr>rdma_buf := take (unat n) (rdma_buf e) @ drop (unat n) (rdma_buf p)\<rparr>))"

subsection \<open>Options and the end of the client\<close>

text \<open>The options as \<open>getopt\<close> returns them; \<open>addr\<close> is what \<open>get_addr\<close> returns.  Numbers are the words of C's
  integers, read with their sign where the code compares them with zero.\<close>

record xr_opts =
  xo_server :: bool
  xo_size :: u32
  xo_port :: u16
  xo_qp_cnt :: u32
  xo_rx_qp_cnt :: u32
  xo_count :: u32
  xo_q_depth :: u32
  xo_format :: bool
  xo_mul_mr :: bool
  xo_verbose :: u32
  xo_validate :: u32
  xo_mem_type :: int
  xo_max_rq_sge :: u32

definition xr_defaults :: xr_opts where
  "xr_defaults = \<lparr>xo_server = False, xo_size = 4096, xo_port = bswap16 7175, xo_qp_cnt = 1, xo_rx_qp_cnt = 0, xo_count = 0, xo_q_depth = 32,
     xo_format = False, xo_mul_mr = False, xo_verbose = 0, xo_validate = 0, xo_mem_type = uint XMEM_PL_DDR, xo_max_rq_sge = 16\<rparr>"

definition xr_opt :: "(string \<Rightarrow> int) \<Rightarrow> char \<times> string \<Rightarrow> int \<times> xr_opts \<Rightarrow> int + int \<times> xr_opts" where
  "xr_opt addr x st = (case (x, st) of ((c, arg), (ret, p)) \<Rightarrow>
     if c = CHR ''r'' then Inr (ret, p\<lparr>xo_max_rq_sge := (if atoi arg < 16 then 16 else atoi arg), xo_format := True\<rparr>)
     else if c = CHR ''f'' then Inr (ret, p\<lparr>xo_format := True\<rparr>)
     else if c = CHR ''R'' then Inr (ret, p\<lparr>xo_mul_mr := True\<rparr>)
     else if c = CHR ''D'' then Inr (ret, p\<lparr>xo_q_depth := atoi arg\<rparr>)
     else if c = CHR ''Q'' then (if sint (atoi arg) \<le> 0 then Inl (- 1) else Inr (ret, p\<lparr>xo_qp_cnt := atoi arg, xo_rx_qp_cnt := atoi arg\<rparr>))
     else if c = CHR ''a'' then Inr (addr arg, p)
     else if c = CHR ''I'' then Inr (addr arg, p)
     else if c = CHR ''p'' then Inr (ret, p\<lparr>xo_port := bswap16 (ucast (atoi arg))\<rparr>)
     else if c = CHR ''c'' then Inr (ret, p\<lparr>xo_server := False\<rparr>)
     else if c = CHR ''s'' then Inr (ret, p\<lparr>xo_server := True\<rparr>)
     else if c = CHR ''S'' then Inr (ret, p\<lparr>xo_size := atoi arg\<rparr>)
     else if c = CHR ''C'' then (if sint (atoi arg) < 0 then Inl (- EINVAL) else Inr (ret, p\<lparr>xo_count := atoi arg\<rparr>))
     else if c = CHR ''m'' then (let t = xib_mem_str_to_mem_type (Some arg) in if t < 0 then Inl t else Inr (t, p\<lparr>xo_mem_type := t\<rparr>))
     else if c = CHR ''v'' then Inr (ret, p\<lparr>xo_verbose := xo_verbose p + 1\<rparr>)
     else if c = CHR ''V'' then Inr (ret, p\<lparr>xo_validate := xo_validate p + 1\<rparr>)
     else if c = CHR ''d'' then Inr (ret, p)
     else Inl (- EINVAL))"

fun xr_opts_loop :: "(string \<Rightarrow> int) \<Rightarrow> (char \<times> string) list \<Rightarrow> int \<times> xr_opts \<Rightarrow> int + int \<times> xr_opts" where
  "xr_opts_loop addr [] st = Inr st"
| "xr_opts_loop addr (x # xs) st = (case xr_opt addr x st of Inl r \<Rightarrow> Inl r | Inr st' \<Rightarrow> xr_opts_loop addr xs st')"

text \<open>What the two roles start with: no count means one, and a server without a number of connections takes the number of queue pairs.\<close>

definition xr_params :: "(string \<Rightarrow> int) \<Rightarrow> (char \<times> string) list \<Rightarrow> int + xr_opts" where
  "xr_params addr opts = (case xr_opts_loop addr opts (0, xr_defaults) of
       Inl r \<Rightarrow> Inl r
     | Inr (ret, p) \<Rightarrow> (let q = p\<lparr>xo_count := (if xo_count p = 0 then 1 else xo_count p)\<rparr>
         in Inr (if xo_server q \<and> xo_rx_qp_cnt q = 0 then q\<lparr>xo_rx_qp_cnt := xo_qp_cnt q\<rparr> else q)))"

text \<open>The condition of the loop in which the client waits for its tests, before it destroys the queue pairs.\<close>

definition client_waits :: "xr_opts \<Rightarrow> u32 \<Rightarrow> bool" where
  "client_waits p done_cnt \<longleftrightarrow> sint done_cnt < sint (xo_rx_qp_cnt p)"

definition cfg_of_opts :: "xr_opts \<Rightarrow> ping_cfg" where
  "cfg_of_opts p = \<lparr>pg_size = unat (xo_size p), pg_count = sint (xo_count p), pg_format = xo_format p, pg_validate = xo_validate p \<noteq> 0,
     pg_verbose = xo_verbose p \<noteq> 0, pg_qp_cnt = xo_qp_cnt p\<rparr>"

definition counts_ok :: "xr_opts \<Rightarrow> bool" where
  "counts_ok p \<longleftrightarrow> 0 \<le> sint (xo_count p) \<and> (xo_qp_cnt p = 1 \<and> xo_rx_qp_cnt p = 0 \<or> xo_rx_qp_cnt p = xo_qp_cnt p \<and> 0 < sint (xo_qp_cnt p))"

lemma xr_opt_counts: "xr_opt addr x (ret, p) = Inr (ret', p') \<Longrightarrow> counts_ok p \<Longrightarrow> counts_ok p'"
  by (cases x) (auto simp: xr_opt_def counts_ok_def Let_def split: if_splits)

lemma xr_opt_rx: "xr_opt addr x (ret, p) = Inr (ret', p') \<Longrightarrow>
    (fst x \<noteq> CHR ''Q'' \<longrightarrow> xo_rx_qp_cnt p' = xo_rx_qp_cnt p) \<and> (fst x = CHR ''Q'' \<longrightarrow> xo_rx_qp_cnt p' \<noteq> 0)"
  by (cases x) (auto simp: xr_opt_def Let_def split: if_splits)

lemma xr_loop_Cons:
  "xr_opts_loop addr (x # xs) (ret, p) = Inr z \<Longrightarrow> \<exists>r q. xr_opt addr x (ret, p) = Inr (r, q) \<and> xr_opts_loop addr xs (r, q) = Inr z"
  by (auto split: sum.splits)

lemma xr_loop_counts:
  "xr_opts_loop addr opts (ret, p) = Inr (ret', p') \<Longrightarrow> counts_ok p \<Longrightarrow>
    counts_ok p' \<and> (xo_rx_qp_cnt p' = 0 \<longleftrightarrow> CHR ''Q'' \<notin> fst ` set opts \<and> xo_rx_qp_cnt p = 0)"
proof (induction opts arbitrary: ret p)
  case (Cons x xs)
  obtain r q where q: "xr_opt addr x (ret, p) = Inr (r, q)" "xr_opts_loop addr xs (r, q) = Inr (ret', p')"
    using xr_loop_Cons [OF Cons.prems(1)] by blast
  have "counts_ok q" using xr_opt_counts [OF q(1) Cons.prems(2)] .
  from Cons.IH [OF q(2) this] xr_opt_rx [OF q(1)] show ?case by (cases "fst x = CHR ''Q''") auto
qed simp

text \<open>from every accepted command line the number of pings is positive; a client that was given the number of queue pairs waits
  until as many tests are done, and one that was not has one queue pair and waits for none.\<close>

theorem client_waits_exactly:
  assumes "xr_params addr opts = Inr p" "\<not> xo_server p" "0 \<le> sint d"
  shows "1 \<le> pg_count (cfg_of_opts p) \<and> pg_count (cfg_of_opts p) < 2 ^ 31 \<and>
     (if CHR ''Q'' \<in> fst ` set opts then client_waits p d \<longleftrightarrow> sint d < sint (xo_qp_cnt p)
      else xo_qp_cnt p = 1 \<and> \<not> client_waits p d)"
proof -
  obtain ret q where l: "xr_opts_loop addr opts (0, xr_defaults) = Inr (ret, q)" and
    p: "p = q\<lparr>xo_count := (if xo_count q = 0 then 1 else xo_count q)\<rparr>"
    using assms(1,2) by (auto simp: xr_params_def Let_def split: sum.splits if_splits)
  have c: "counts_ok q \<and> (xo_rx_qp_cnt q = 0 \<longleftrightarrow> CHR ''Q'' \<notin> fst ` set opts)"
    using xr_loop_counts [OF l] by (auto simp: counts_ok_def xr_defaults_def)
  have "sint (xo_count q) < 2 ^ 31" using sint_lt [of "xo_count q"] by simp
  moreover have "0 < sint (xo_count q)" if "xo_count q \<noteq> 0"
    using c that signed_word_eqI [of "xo_count q" 0] by (auto simp: counts_ok_def less_le)
  ultimately have "1 \<le> pg_count (cfg_of_opts p) \<and> pg_count (cfg_of_opts p) < 2 ^ 31" by (auto simp: cfg_of_opts_def p)
  then show ?thesis using c assms(3) by (auto simp: client_waits_def counts_ok_def p)
qed

theorem client_waits_exactly_witness:
  "\<exists>p. xr_params (\<lambda>_. 0) [(CHR ''a'', ''10.0.0.2''), (CHR ''C'', ''3''), (CHR ''V'', [])] = Inr p \<and> xo_qp_cnt p = 1 \<and> \<not> client_waits p 0"
proof -
  obtain p where p: "xr_params (\<lambda>_. 0) [(CHR ''a'', ''10.0.0.2''), (CHR ''C'', ''3''), (CHR ''V'', [])] = Inr p" "\<not> xo_server p"
    by (simp add: xr_params_def xr_opt_def xr_defaults_def atoi_def Let_def)
  from client_waits_exactly [OF p, of 0] p show ?thesis by (intro exI [of _ p]) simp
qed

subsection \<open>The client's data thread\<close>

text \<open>The flags of a context that the threads of the client share, and the counters of the test.\<close>

record cl_slot =
  sl_cm_established :: bool
  sl_test_done :: bool
  sl_cm_chnl_en :: bool

record cl_data =
  cd_slots :: "cl_slot list"
  low_proc_qp_num :: nat
  low_cm_est_qp_num :: nat
  cd_done_cnt :: nat

definition data_start :: "nat \<Rightarrow> cl_data" where
  "data_start n = \<lparr>cd_slots = replicate n \<lparr>sl_cm_established = False, sl_test_done = False, sl_cm_chnl_en = True\<rparr>,
     low_proc_qp_num = 0, low_cm_est_qp_num = 0, cd_done_cnt = 0\<rparr>"

text \<open>The connection of context \<open>q\<close> is established: the event clears the channel flag and moves the bound, and the main thread, which waits
  for the event before it goes on to the next context, enables the transfer.\<close>

definition cm_established :: "nat \<Rightarrow> cl_data \<Rightarrow> cl_data" where
  "cm_established q d = d\<lparr>cd_slots := (cd_slots d)[q := (cd_slots d ! q)\<lparr>sl_cm_chnl_en := False, sl_cm_established := True\<rparr>],
     low_cm_est_qp_num := (if q = low_cm_est_qp_num d then q + 1 else low_cm_est_qp_num d)\<rparr>"

text \<open>A pass of the data thread over the given contexts; the array ends after the last one.  What the test returns is only printed.\<close>

fun data_scan :: "nat list \<Rightarrow> cl_data \<Rightarrow> cl_data outcome" where
  "data_scan [] d = Go d"
| "data_scan (i # is) d =
     (if length (cd_slots d) \<le> i then Fault
      else if sl_cm_established (cd_slots d ! i) \<and> \<not> sl_test_done (cd_slots d ! i)
      then data_scan is (d\<lparr>cd_slots := (cd_slots d)[i := \<lparr>sl_cm_established = False, sl_test_done = True, sl_cm_chnl_en = False\<rparr>],
             low_proc_qp_num := (if i = low_proc_qp_num d then i + 1 else low_proc_qp_num d), cd_done_cnt := cd_done_cnt d + 1\<rparr>)
      else data_scan is d)"

definition data_pass :: "cl_data \<Rightarrow> cl_data outcome" where
  "data_pass d = data_scan [low_proc_qp_num d..<low_cm_est_qp_num d + 1] d"

text \<open>The threads in any order: \<open>Some q\<close> is the establishment of connection \<open>q\<close>, \<open>None\<close> a pass.\<close>

fun data_run :: "nat option list \<Rightarrow> cl_data \<Rightarrow> cl_data outcome" where
  "data_run [] d = Go d"
| "data_run (Some q # es) d = data_run es (cm_established q d)"
| "data_run (None # es) d = (case data_pass d of Go d' \<Rightarrow> data_run es d' | Exit c \<Rightarrow> Exit c | Fault \<Rightarrow> Fault)"

lemma data_scan_keeps:
  "data_scan is d = Go d' \<Longrightarrow> length (cd_slots d') = length (cd_slots d) \<and> low_cm_est_qp_num d' = low_cm_est_qp_num d"
  by (induction "is" d rule: data_scan.induct) (auto split: if_splits)

lemma data_scan_low:
  "data_scan is d = Go d' \<Longrightarrow> low_proc_qp_num d \<le> length (cd_slots d) \<Longrightarrow> low_proc_qp_num d' \<le> length (cd_slots d)"
  by (induction "is" d rule: data_scan.induct) (auto split: if_splits)

lemma data_scan_no_exit: "data_scan is d \<noteq> Exit c"
  by (induction "is" d rule: data_scan.induct) auto

lemma data_scan_fault: "data_scan is d = Fault \<longleftrightarrow> (\<exists>i\<in>set is. length (cd_slots d) \<le> i)"
  by (induction "is" d rule: data_scan.induct) auto

text \<open>C40: in whatever order connections are established and the data thread looks at the contexts, it reads past the end of their array as
  soon as it looks after the last connection was established.\<close>

theorem data_thread_overruns:
  assumes "concat (map (\<lambda>e. case e of None \<Rightarrow> [] | Some q \<Rightarrow> [q]) es) = [0..<n]"
  shows "data_run (es @ [None]) (data_start n) = Fault"
proof -
  have "data_run (es @ [None]) d = Fault"
    if "concat (map (\<lambda>e. case e of None \<Rightarrow> [] | Some q \<Rightarrow> [q]) es) = [a..<n]" "a \<le> n" "length (cd_slots d) = n"
      "low_cm_est_qp_num d = a" "low_proc_qp_num d \<le> n" for a d
    using that
  proof (induction es arbitrary: a d)
    case Nil
    then have "a = n" by (metis concat.simps(1) list.simps(8) upt_eq_Nil_conv le_antisym not_less_zero le_0_eq)
    then have "data_pass d = Fault" using Nil by (auto simp: data_pass_def data_scan_fault simp del: upt_Suc)
    then show ?case by simp
  next
    case (Cons e es)
    show ?case
    proof (cases e)
      case None
      show ?thesis
      proof (cases "data_pass d")
        case (Go d')
        then show ?thesis using Cons None data_scan_keeps data_scan_low by (fastforce simp: data_pass_def)
      qed (use None data_scan_no_exit in \<open>simp_all add: data_pass_def\<close>)
    next
      case (Some q)
      then have "[a..<n] = q # concat (map (\<lambda>e. case e of None \<Rightarrow> [] | Some q \<Rightarrow> [q]) es)" using Cons.prems(1) by simp
      then have "q = a" "a < n" "concat (map (\<lambda>e. case e of None \<Rightarrow> [] | Some q \<Rightarrow> [q]) es) = [Suc a..<n]"
        by (auto simp: upt_eq_Cons_conv)
      then show ?thesis using Cons.IH [of "Suc a" "cm_established q d"] Cons.prems Some by (simp add: cm_established_def)
    qed
  qed
  from this [of 0 "data_start n"] assms show ?thesis by (simp add: data_start_def)
qed

theorem data_thread_overruns_witness: "data_run [None, Some 0, None, Some 1, None] (data_start 2) = Fault"
  using data_thread_overruns [of "[None, Some 0, None, Some 1]" 2] by (simp add: upt_rec)

subsection \<open>Where the two programs stand\<close>

text \<open>Where the data path begins: the client's context is cleared and its first receive is posted; the server's is as it was allocated.\<close>

definition client_start :: "u32 \<Rightarrow> xr_peer \<Rightarrow> xr_client" where
  "client_start w p = \<lparr>cl_pc = CPing, cl_ping = 0, cl_state = CONNECTED, cl_peer = p\<lparr>rq_id := set_wr_id 0 w, sq_id := 0,
     recvq := [set_wr_id 0 w], sendq := [], wcq := []\<rparr>\<rparr>"

definition xr_server_start :: "u32 \<Rightarrow> u32 \<Rightarrow> xr_peer \<Rightarrow> xr_server" where
  "xr_server_start rx q p = \<lparr>sv_pc = SIter, sv_i = 0, sv_iter_cnt = 1, sv_rx_qp_cnt = rx, sv_qp_cnt = q,
     sv_peer = p\<lparr>recvq := [], sendq := [], wcq := []\<rparr>\<rparr>"

definition ping_data :: "ping_cfg \<Rightarrow> u8 list \<Rightarrow> u8 list" where
  "ping_data g d = (if pg_format g then ping_text (pg_size g) 0 else d)"

definition shown_data :: "ping_cfg \<Rightarrow> u8 list \<Rightarrow> u8 list" where
  "shown_data g d = (if pg_verbose g then d[20 := 0] else d)"

definition next_data :: "ping_cfg \<Rightarrow> u8 list \<Rightarrow> u8 list" where
  "next_data g d = (if pg_format g then ping_text (pg_size g) 1 else shown_data g (ping_data g d))"

text \<open>The state after \<open>i\<close> steps of the client, \<open>j\<close> of the server and \<open>n\<close> of the connection: the
  completions, requests and receives so far, less those consumed.\<close>

definition c_wcs :: "u32 \<Rightarrow> (u64 \<times> bool) list" where
  "c_wcs w = [(ucast (w + 1), True), (ucast w, True), (ucast (w + 3), True), (ucast (w + 2), True), (ucast (w + 3), True)]"

definition c_sends :: "u32 \<Rightarrow> send_req list" where
  "c_sends w = [\<lparr>sr_id = ucast (w + 1), sr_op = OpSend\<rparr>, \<lparr>sr_id = ucast (w + 3), sr_op = OpSend\<rparr>,
     \<lparr>sr_id = ucast (w + 3), sr_op = OpSend\<rparr>]"

definition c_data_at :: "ping_cfg \<Rightarrow> u8 list \<Rightarrow> nat \<Rightarrow> u8 list" where
  "c_data_at g d i = (if i = 0 then d else if i < 9 then ping_data g d
     else if i < 10 \<or> pg_count g = 1 then shown_data g (ping_data g d) else next_data g d)"

definition c_peer_at :: "ping_cfg \<Rightarrow> u32 \<Rightarrow> xr_peer \<Rightarrow> xr_peer \<Rightarrow> nat \<Rightarrow> nat \<Rightarrow> xr_peer" where
  "c_peer_at g w c s i n = c\<lparr>
     rq_id := ucast (if i < 5 then w else w + 2),
     sq_id := (if i < 2 then 0 else ucast (if i < 6 then w + 1 else w + 3)),
     start_buf := (if i = 0 \<or> \<not> pg_format g then start_buf c else ping_text (pg_size g) (if i < 10 \<or> pg_count g = 1 then 0 else 1)),
     send_buf := (if i < 2 then send_buf c else rping_format_send (info_of g c) (send_buf c)),
     recv_buf := (if n < 3 then recv_buf c else send_buf s),
     rdma_buf := c_data_at g (rdma_buf c) i,
     recvq := drop ([0, 0, 0, 1, 1, 1, 2, 2, 2] ! n) (take (if i < 5 then 1 else 2) [ucast w, ucast (w + 2)]),
     sendq := drop ([0, 1, 1, 1, 2, 2, 2, 3, 3] ! n) (take ([0, 0, 1, 1, 1, 1, 2, 2, 2, 2, 2, 3, 3] ! i) (c_sends w)),
     wcq := drop ([0, 0, 0, 1, 2, 2, 2, 3, 4, 4, 4, 4, 5] ! i) (take ([0, 1, 1, 2, 3, 3, 4, 5, 5] ! n) (c_wcs w))\<rparr>"

definition client_at :: "ping_cfg \<Rightarrow> u32 \<Rightarrow> xr_peer \<Rightarrow> xr_peer \<Rightarrow> nat \<Rightarrow> nat \<Rightarrow> xr_client" where
  "client_at g w c s i n = \<lparr>
     cl_pc = [CPing, CFmt1 w, CPoll1 w, CPoll1 w, CRecv w, CFmt2 w, CPoll2 w, CPoll2 w, CCheck, CPing,
       (if pg_count g = 1 then CRet 0 else CFmt1 (w + 2)), CPoll1 (w + 2), CPoll1 (w + 2)] ! i,
     cl_ping = (if i < 9 then 0 else 1), cl_state = (if i = 0 then CONNECTED else RDMA_READ_ADV),
     cl_peer = c_peer_at g w c s i n\<rparr>"

definition s_wcs :: "u32 \<Rightarrow> u32 \<Rightarrow> (u64 \<times> bool) list" where
  "s_wcs r q = map (\<lambda>i. (ucast i, True)) [r, r + 1, r + 2, r + 3, r + 4, r + 5, q, q + 1]"

definition s_sends :: "u64 \<Rightarrow> u32 \<Rightarrow> u32 \<Rightarrow> u32 \<Rightarrow> u32 \<Rightarrow> send_req list" where
  "s_sends a k l r q = [\<lparr>sr_id = ucast (r + 1), sr_op = OpRead a k l\<rparr>, \<lparr>sr_id = ucast (r + 2), sr_op = OpSend\<rparr>,
     \<lparr>sr_id = ucast (r + 4), sr_op = OpWrite a k l\<rparr>, \<lparr>sr_id = ucast (r + 5), sr_op = OpSend\<rparr>,
     \<lparr>sr_id = ucast (q + 1), sr_op = OpRead a k l\<rparr>, \<lparr>sr_id = ucast (q + 2), sr_op = OpSend\<rparr>]"

definition s_peer_at :: "ping_cfg \<Rightarrow> u32 \<Rightarrow> u32 \<Rightarrow> xr_peer \<Rightarrow> xr_peer \<Rightarrow> nat \<Rightarrow> nat \<Rightarrow> xr_peer" where
  "s_peer_at g r q c s j n = s\<lparr>
     rq_id := (if j = 0 then rq_id s else ucast (if j < 5 then r else if j < 13 \<or> pg_count g = 1 then r + 3 else if j < 17 then q else q + 3)),
     sq_id := (if j < 3 then sq_id s else ucast (if j < 6 then r + 1 else if j < 9 then r + 2 else if j < 11 then r + 4
       else if j < 15 then r + 5 else if j < 18 then q + 1 else q + 2)),
     rem_addr := (if j < 3 then rem_addr s else rdma_addr c),
     rem_rkey := (if j < 3 then rem_rkey s else rdma_rkey c),
     rem_len := (if j < 3 then rem_len s else of_nat (pg_size g)),
     recv_buf := (if n < 1 then recv_buf s else rping_format_send (info_of g c) (send_buf c)),
     rdma_buf := (if n < 2 then rdma_buf s else if n < 8 then ping_data g (rdma_buf c) else next_data g (rdma_buf c)),
     recvq := drop ([0, 1, 1, 1, 2, 2, 2, 3, 3] ! n) (take ([0, 1, 1, 1, 1, 2, 2, 2, 2, 2, 2, 2, 2,
         (if pg_count g = 1 then 2 else 3), 3, 3, 3, 4, 4] ! j) [ucast r, ucast (r + 3), ucast q, ucast (q + 3)]),
     sendq := drop ([0, 0, 1, 2, 2, 3, 4, 4, 5] ! n) (take ([0, 0, 0, 1, 1, 1, 2, 2, 2, 3, 3, 4, 4, 4, 4, 5, 5, 5, 6] ! j)
       (s_sends (rdma_addr c) (rdma_rkey c) (of_nat (pg_size g)) r q)),
     wcq := drop ([0, 0, 1, 1, 2, 2, 2, 3, 4, 4, 5, 5, 6, 6, 7, 7, 8, 8, 8] ! j) (take n (s_wcs r q))\<rparr>"

definition server_at :: "ping_cfg \<Rightarrow> u32 \<Rightarrow> u32 \<Rightarrow> u32 \<Rightarrow> u32 \<Rightarrow> xr_peer \<Rightarrow> xr_peer \<Rightarrow> nat \<Rightarrow> nat \<Rightarrow> xr_server" where
  "server_at g rx m r q c s j n = \<lparr>
     sv_pc = [SIter, SPoll1 r, SRead r, SPoll2 r, SRecv r, SSend r, SPoll3 r, SPoll3 r, SWrite r, SPoll4 r, SDone r, SPoll5 r, SIter,
       (if pg_count g = 1 then SRet 0 else SPoll1 q), SRead q, SPoll2 q, SRecv q, SSend q, SPoll3 q] ! j,
     sv_i = (if j < 12 then 0 else 1), sv_iter_cnt = (if j < 3 then 1 else of_int (pg_count g)),
     sv_rx_qp_cnt = (if j < 3 then rx else if rx = m then pg_qp_cnt g else rx), sv_qp_cnt = m,
     sv_peer = s_peer_at g r q c s j n\<rparr>"

definition c_ready :: "ping_cfg \<Rightarrow> nat \<Rightarrow> nat \<Rightarrow> bool" where
  "c_ready g i n = ([True, True, n \<ge> 1, n \<ge> 3, True, True, n \<ge> 4, n \<ge> 6, True, True, pg_count g \<noteq> 1, n \<ge> 7, False] ! i)"

definition s_ready :: "ping_cfg \<Rightarrow> nat \<Rightarrow> nat \<Rightarrow> bool" where
  "s_ready g j n = ([True, n \<ge> 1, True, n \<ge> 2, True, True, n \<ge> 3, n \<ge> 4, True, n \<ge> 5, True, n \<ge> 6, True, pg_count g \<noteq> 1 \<and> n \<ge> 7,
     True, n \<ge> 8, True, True, False] ! j)"

lemma set_wr_id_low: "drop_bit 32 v = 0 \<Longrightarrow> set_wr_id v i = ucast i"
  by (simp add: set_wr_id_def)

lemma drop_bit_ucast32 [simp]: "drop_bit 32 (ucast (i :: u32) :: u64) = 0"
  by (rule bit_word_eqI) (auto simp: bit_simps dest: bit_imp_le_length)

lemma set_wr_id_ucast [simp]: "set_wr_id (ucast (j :: u32)) i = ucast i" "set_wr_id 0 i = ucast i"
  by (simp_all add: set_wr_id_low)

lemma get_wr_id_ucast [simp]: "get_wr_id (ucast (i :: u32)) = i"
  unfolding get_wr_id_def by (rule bit_word_eqI) (auto simp: bit_simps)

lemma ucast64_eq [simp]: "(ucast (i :: u32) :: u64) = ucast j \<longleftrightarrow> i = j"
  using get_wr_id_ucast by metis

text \<open>The pairs of numbers of steps that occur together.\<close>

definition c_pairs :: "(nat \<times> nat) set" where
  "c_pairs = {(0, 0), (1, 0), (2, 0), (2, 1), (2, 2), (2, 3), (3, 1), (3, 2), (3, 3), (4, 3), (5, 3), (6, 3), (6, 4), (6, 5), (6, 6), (7, 4), (7, 5), (7, 6), (8, 6), (9, 6), (10, 6), (11, 6), (11, 7), (11, 8), (12, 7), (12, 8)}"

definition s_pairs :: "(nat \<times> nat) set" where
  "s_pairs = {(0, 0), (1, 0), (1, 1), (2, 1), (3, 1), (3, 2), (4, 2), (5, 2), (6, 2), (6, 3), (6, 4), (7, 3), (7, 4), (8, 4), (9, 4), (9, 5), (10, 5), (11, 5), (11, 6), (12, 6), (13, 6), (13, 7), (14, 7), (15, 7), (15, 8), (16, 8), (17, 8), (18, 8)}"

lemma info_of_peer [simp]: "info_of g (c_peer_at g w c s i n) = info_of g c"
  by (simp add: info_of_def c_peer_at_def)

lemma format_again [simp]: "rping_format_send i (rping_format_send i b) = rping_format_send i b"
  by (simp add: rping_format_send_def)

lemma length_fill_chars [simp]: "length (fill_chars n c) = n"
  by (induction n c rule: fill_chars.induct) simp_all

lemma length_ping_text [simp]: "0 < n \<Longrightarrow> length (ping_text n k) = n"
  by (simp add: ping_text_def Let_def)


lemmas rc_posts = rc_connection_def [THEN iffD1, THEN conjunct1, rule_format]

lemma rc_send [simp]: "rc_connection v \<Longrightarrow> post_send v op p = (0, p\<lparr>sendq := sendq p @ [\<lparr>sr_id = sq_id p, sr_op = op\<rparr>]\<rparr>)"
  using rc_posts [of v p] by (simp add: post_send_def)

lemma rc_recv [simp]: "rc_connection v \<Longrightarrow> post_recv v p = (0, p\<lparr>recvq := recvq p @ [rq_id p]\<rparr>)"
  using rc_posts [of v p] by (simp add: post_recv_def)

lemma rc_poll [simp]: "rc_connection v \<Longrightarrow> xr_poll_cq v i p = (case wcq p of [] \<Rightarrow> PollWait
     | x # q \<Rightarrow> (let p' = p\<lparr>wcq := q\<rparr> in if \<not> snd x then PollBad p' else if fst x = ucast i then PollGot p' else PollMore p'))"
  using rc_posts [of v p] by (cases "wcq p") (auto simp: xr_poll_cq_def Let_def split: prod.split)

lemmas c_peer_sel [simp] = arg_cong [OF c_peer_at_def, of rq_id, simplified] arg_cong [OF c_peer_at_def, of sq_id, simplified]
  arg_cong [OF c_peer_at_def, of start_buf, simplified] arg_cong [OF c_peer_at_def, of send_buf, simplified]
  arg_cong [OF c_peer_at_def, of recv_buf, simplified] arg_cong [OF c_peer_at_def, of rdma_buf, simplified]
  arg_cong [OF c_peer_at_def, of recvq, simplified] arg_cong [OF c_peer_at_def, of sendq, simplified]
  arg_cong [OF c_peer_at_def, of wcq, simplified] arg_cong [OF c_peer_at_def, of rdma_addr, simplified]
  arg_cong [OF c_peer_at_def, of rdma_rkey, simplified]

lemmas client_code = rping_test_client_def client_at_def client_send_def client_poll_def client_end_def format_peer_def c_ready_def
  c_wcs_def
lemmas client_places = c_peer_at_def c_data_at_def c_sends_def c_wcs_def fill_ping_def ping_data_def shown_data_def next_data_def Let_def

lemma client_moves:
  assumes v: "rc_connection v" and g: "pg_count g \<ge> 1" "0 < pg_size g" "length (rdma_buf c) = pg_size g" and "(i, n) \<in> c_pairs"
  shows "rping_test_client v g (client_at g w c s i n) = (if c_ready g i n then Some (client_at g w c s (i + 1) n) else None)"
  using assms(5) unfolding c_pairs_def
  by (elim insertE emptyE; elim Pair_inject; hypsubst; insert v g; simp add: client_code; (simp add: client_places)?)

lemmas s_peer_sel [simp] = arg_cong [OF s_peer_at_def, of rq_id, simplified] arg_cong [OF s_peer_at_def, of sq_id, simplified]
  arg_cong [OF s_peer_at_def, of rem_addr, simplified] arg_cong [OF s_peer_at_def, of rem_rkey, simplified]
  arg_cong [OF s_peer_at_def, of rem_len, simplified] arg_cong [OF s_peer_at_def, of send_buf, simplified]
  arg_cong [OF s_peer_at_def, of recv_buf, simplified] arg_cong [OF s_peer_at_def, of rdma_buf, simplified]
  arg_cong [OF s_peer_at_def, of recvq, simplified] arg_cong [OF s_peer_at_def, of sendq, simplified]
  arg_cong [OF s_peer_at_def, of wcq, simplified]

lemmas server_code = xr_test_server_def server_at_def server_poll_def server_on_def take_info_def s_ready_def s_wcs_def

lemma int_id_small:
  assumes "r < 2 ^ 31"
  shows "int_id r = ucast r"
proof -
  have "unat r < 2 ^ 31" using assms by (simp add: word_less_nat_alt)
  then have "take_bit 31 (unat r) = unat r" by (simp add: take_bit_nat_eq_self)
  then have "bit (unat r) k \<Longrightarrow> k < 31" for k by (metis bit_take_bit_iff)
  then have b: "bit r k \<Longrightarrow> k < 31" for k by (auto simp: bit_unsigned_iff dest: bit_imp_le_length)
  show ?thesis
  proof (rule bit_word_eqI)
    fix n
    assume "n < LENGTH(64)"
    then show "bit (int_id r) n \<longleftrightarrow> bit (ucast r :: u64) n"
      using b [of n] b [of 31] by (cases "n < 31") (auto simp: int_id_def bit_simps min_def)
  qed
qed

lemma more_rounds: "1 \<le> k \<Longrightarrow> k < 2 ^ 31 \<Longrightarrow> (1 :: u32) < of_int k \<longleftrightarrow> k \<noteq> 1"
  by (auto simp: word_less_def uint_word_of_int)

lemma server_moves:
  assumes "rc_connection v" "pg_count g \<ge> 1" "pg_count g < 2 ^ 31" "j < 14 \<or> pg_count g \<noteq> 1" "drop_bit 32 (rq_id s) = 0"
    "int_id (r + 1) = ucast (r + 1)" "int_id (r + 4) = ucast (r + 4)" "int_id (q + 1) = ucast (q + 1)"
    "rnd 0 = r" "rnd (Suc 0) = q" "(j, n) \<in> s_pairs"
  shows "xr_test_server v rnd (server_at g rx m r q c s j n) =
     (if s_ready g j n then Some (server_at g rx m r q c s (j + 1) n) else None)"
  using assms(4,11) unfolding s_pairs_def
  apply (elim insertE emptyE)
  apply (elim Pair_inject; hypsubst)
  apply (insert assms(1-3,5-10); simp add: server_code format_parse info_of_def set_wr_id_low more_rounds;
      (simp add: s_peer_at_def s_sends_def s_wcs_def)?; fail)+
  done

definition buffers_fit :: "ping_cfg \<Rightarrow> xr_peer \<Rightarrow> xr_peer \<Rightarrow> bool" where
  "buffers_fit g c s \<longleftrightarrow> 0 < pg_size g \<and> pg_size g < 2 ^ 32 \<and> length (rdma_buf c) = pg_size g \<and> length (rdma_buf s) = pg_size g \<and>
     length (send_buf c) = 4096 \<and> length (recv_buf c) = 4096 \<and> length (send_buf s) = 4096 \<and> length (recv_buf s) = 4096"

definition from_client_ready :: "nat \<Rightarrow> nat \<Rightarrow> nat \<Rightarrow> bool" where
  "from_client_ready i j n \<longleftrightarrow> n = 0 \<and> i \<ge> 2 \<and> j \<ge> 1 \<or> n = 3 \<and> i \<ge> 6 \<or> n = 6 \<and> i \<ge> 11 \<and> j \<ge> 13"

definition from_server_ready :: "nat \<Rightarrow> nat \<Rightarrow> bool" where
  "from_server_ready j n \<longleftrightarrow> n = 1 \<and> j \<ge> 3 \<or> n = 2 \<and> j \<ge> 6 \<or> n = 4 \<and> j \<ge> 9 \<or> n = 5 \<and> j \<ge> 11 \<or> n = 7 \<and> j \<ge> 15"

definition placed :: "ping_cfg \<Rightarrow> nat \<Rightarrow> nat \<Rightarrow> nat \<Rightarrow> bool" where
  "placed g i j n \<longleftrightarrow> (i, n) \<in> c_pairs \<and> (j, n) \<in> s_pairs \<and> (pg_count g = 1 \<longrightarrow> i \<le> 10 \<and> j \<le> 13 \<and> n \<le> 6)"

lemma rc_idle: "rc_connection v \<Longrightarrow> sendq e = [] \<Longrightarrow> v_exec v e p = None"
  by (simp add: rc_connection_def)

lemma rc_no_recv:
  "rc_connection v \<Longrightarrow> sendq e \<noteq> [] \<Longrightarrow> sr_op (hd (sendq e)) = OpSend \<Longrightarrow> recvq p = [] \<Longrightarrow> v_exec v e p = None"
  by (cases "sendq e") (auto simp: rc_connection_def)

lemma rc_delivers:
  assumes "rc_connection v" "sendq e \<noteq> []" "sr_op (hd (sendq e)) = OpSend" "recvq p \<noteq> []" "length (send_buf e) = length (recv_buf p)"
  shows "v_exec v e p = Some (completed (tl (sendq e)) (hd (sendq e)) e,
     p\<lparr>recvq := tl (recvq p), recv_buf := send_buf e, wcq := wcq p @ [(hd (recvq p), True)]\<rparr>)"
  using assms rc_connection_def [THEN iffD1, THEN conjunct2, THEN conjunct2, THEN conjunct2, THEN conjunct1, rule_format, of v e
    "hd (sendq e)" "tl (sendq e)" p "hd (recvq p)" "tl (recvq p)"] by simp

lemma rc_reads:
  assumes "rc_connection v" "sendq e \<noteq> []" "sr_op (hd (sendq e)) = OpRead (rdma_addr p) (rdma_rkey p) (of_nat (length (rdma_buf p)))"
    "length (rdma_buf e) = length (rdma_buf p)" "length (rdma_buf p) < 2 ^ 32"
  shows "v_exec v e p = Some ((completed (tl (sendq e)) (hd (sendq e)) e)\<lparr>rdma_buf := rdma_buf p\<rparr>, p)"
  using assms rc_connection_def [THEN iffD1, THEN conjunct2, THEN conjunct2, THEN conjunct2, THEN conjunct2, THEN conjunct1, rule_format,
    of v e "hd (sendq e)" "tl (sendq e)" p "of_nat (length (rdma_buf p))"] by (simp add: unat_of_nat)

lemma rc_writes:
  assumes "rc_connection v" "sendq e \<noteq> []" "sr_op (hd (sendq e)) = OpWrite (rdma_addr p) (rdma_rkey p) (of_nat (length (rdma_buf p)))"
    "length (rdma_buf e) = length (rdma_buf p)" "length (rdma_buf p) < 2 ^ 32"
  shows "v_exec v e p = Some (completed (tl (sendq e)) (hd (sendq e)) e, p\<lparr>rdma_buf := rdma_buf e\<rparr>)"
  using assms rc_connection_def [THEN iffD1, THEN conjunct2, THEN conjunct2, THEN conjunct2, THEN conjunct2, THEN conjunct2, rule_format,
    of v e "hd (sendq e)" "tl (sendq e)" p "of_nat (length (rdma_buf p))"] by (simp add: unat_of_nat)

lemma length_data [simp]: "0 < pg_size g \<Longrightarrow> length d = pg_size g \<Longrightarrow> length (ping_data g d) = pg_size g"
    "0 < pg_size g \<Longrightarrow> length d = pg_size g \<Longrightarrow> length (next_data g d) = pg_size g"
    "length (shown_data g e) = length e"
  by (simp_all add: ping_data_def next_data_def shown_data_def)

lemma length_format [simp]: "24 \<le> length b \<Longrightarrow> length (rping_format_send x b) = length b"
  by (simp add: rping_format_send_def)

lemma placed_cases:
  assumes "placed g i j n"
  shows "n \<in> {0, 1, 2, 3, 4, 5, 6, 7, 8}"
    "i \<in> [{0, 1, 2}, {2, 3}, {2, 3}, {2, 3, 4, 5, 6}, {6, 7}, {6, 7}, {6, 7, 8, 9, 10, 11}, {11, 12}, {11, 12}] ! n"
    "j \<in> [{0, 1}, {1, 2, 3}, {3, 4, 5, 6}, {6, 7}, {6, 7, 8, 9}, {9, 10, 11}, {11, 12, 13}, {13, 14, 15}, {15, 16, 17, 18}] ! n"
proof -
  have c: "(i, n) \<in> c_pairs" and s: "(j, n) \<in> s_pairs" using assms by (simp_all add: placed_def)
  show "n \<in> {0, 1, 2, 3, 4, 5, 6, 7, 8}" using c by (auto simp: c_pairs_def)
  show "i \<in> [{0, 1, 2}, {2, 3}, {2, 3}, {2, 3, 4, 5, 6}, {6, 7}, {6, 7}, {6, 7, 8, 9, 10, 11}, {11, 12}, {11, 12}] ! n"
    using c by (auto simp: c_pairs_def)
  show "j \<in> [{0, 1}, {1, 2, 3}, {3, 4, 5, 6}, {6, 7}, {6, 7, 8, 9}, {9, 10, 11}, {11, 12, 13}, {13, 14, 15}, {15, 16, 17, 18}] ! n"
    using s by (auto simp: s_pairs_def)
qed

lemmas delivery = completed_def c_peer_at_def s_peer_at_def c_data_at_def c_sends_def s_sends_def c_wcs_def s_wcs_def

lemma from_client_moves:
  assumes "rc_connection v" "buffers_fit g c s" "placed g i j n"
  shows "v_exec v (c_peer_at g w c s i n) (s_peer_at g r q c s j n) = (if from_client_ready i j n
     then Some (c_peer_at g w c s i (n + 1), s_peer_at g r q c s j (n + 1)) else None)"
proof -
  have idle: "v_exec v (c_peer_at g w c s i n) p = None" if "n \<in> {1, 2, 4, 5, 7, 8} \<or> i < [2, 0, 0, 6, 0, 0, 11] ! n" for p
    using placed_cases [OF assms(3)] that
    by (intro rc_idle [OF assms(1)]) (auto simp: c_sends_def)
  have no_recv: "v_exec v (c_peer_at g w c s i n) (s_peer_at g r q c s j n) = None"
    if "(i, j, n) \<in> {(2, 0, 0), (11, 11, 6), (11, 12, 6)}"
    using that assms(1) by (auto simp: c_sends_def intro!: rc_no_recv)
  have g1: "v_exec v (c_peer_at g w c s 2 0) (s_peer_at g r q c s 1 0) = Some (c_peer_at g w c s 2 1, s_peer_at g r q c s 1 1)"
    using assms(1,2) by (simp add: buffers_fit_def c_sends_def rc_delivers; simp add: delivery)
  have g2: "v_exec v (c_peer_at g w c s 6 3) (s_peer_at g r q c s j 3) = Some (c_peer_at g w c s 6 4, s_peer_at g r q c s j 4)" if "j = 6 \<or> j = 7"
    using assms(1,2) that by (elim disjE; simp add: buffers_fit_def c_sends_def rc_delivers; simp add: delivery)
  have g3: "v_exec v (c_peer_at g w c s 11 6) (s_peer_at g r q c s 13 6) = Some (c_peer_at g w c s 11 7, s_peer_at g r q c s 13 7)" if "pg_count g \<noteq> 1"
    using assms(1,2) that by (simp add: buffers_fit_def c_sends_def rc_delivers; simp add: delivery)
  have m: "pg_count g \<noteq> 1" if "i = 11" using assms(3) that by (auto simp: placed_def)
  show ?thesis
  proof (cases "from_client_ready i j n")
    case True
    then have "i = 2 \<and> j = 1 \<and> n = 0 \<or> i = 6 \<and> (j = 6 \<or> j = 7) \<and> n = 3 \<or> i = 11 \<and> j = 13 \<and> n = 6"
      using placed_cases [OF assms(3)] by (auto simp: from_client_ready_def)
    then show ?thesis using True g1 g2 g3 m by (elim disjE conjE) simp_all
  next
    case False
    then have "(n \<in> {1, 2, 4, 5, 7, 8} \<or> i < [2, 0, 0, 6, 0, 0, 11] ! n) \<or> (i, j, n) \<in> {(2, 0, 0), (11, 11, 6), (11, 12, 6)}"
      using placed_cases [OF assms(3)] by (elim insertE emptyE; hypsubst; force simp: from_client_ready_def)
    then have "v_exec v (c_peer_at g w c s i n) (s_peer_at g r q c s j n) = None" by (rule disjE) (erule idle, erule no_recv)
    with False show ?thesis by simp
  qed
qed

lemma from_server_moves:
  assumes "rc_connection v" "buffers_fit g c s" "placed g i j n"
  shows "v_exec v (s_peer_at g r q c s j n) (c_peer_at g w c s i n) = (if from_server_ready j n
     then Some (s_peer_at g r q c s j (n + 1), c_peer_at g w c s i (n + 1)) else None)"
proof -
  let ?c = "c_peer_at g w c s" and ?s = "s_peer_at g r q c s"
  have idle: "v_exec v (?s j n) p = None" if "n \<in> {0, 3, 6} \<or> j < [0, 3, 6, 0, 9, 11, 0, 15, 18] ! n" for p
    using placed_cases [OF assms(3)] that by (intro rc_idle [OF assms(1)]) (auto simp: s_sends_def)
  have no_recv: "v_exec v (?s j n) (?c i n) = None" if "n = 8 \<and> j = 18"
    using that assms(1) placed_cases(2) [OF assms(3)] by (auto simp: s_sends_def intro!: rc_no_recv)
  have g1: "v_exec v (?s 3 1) (?c i 1) = Some (?s 3 2, ?c i 2)" if "i = 2 \<or> i = 3"
    using assms(1,2) that by (elim disjE; simp add: buffers_fit_def s_sends_def c_data_at_def rc_reads; simp add: delivery)
  have g2: "v_exec v (?s 6 2) (?c i 2) = Some (?s 6 3, ?c i 3)" if "i = 2 \<or> i = 3"
    using assms(1,2) that by (elim disjE; simp add: buffers_fit_def s_sends_def rc_delivers; simp add: delivery)
  have g4: "v_exec v (?s 9 4) (?c i 4) = Some (?s 9 5, ?c i 5)" if "i = 6 \<or> i = 7"
    using assms(1,2) that by (elim disjE; simp add: buffers_fit_def s_sends_def c_data_at_def rc_writes; simp add: delivery)
  have g5: "v_exec v (?s 11 5) (?c i 5) = Some (?s 11 6, ?c i 6)" if "i = 6 \<or> i = 7"
    using assms(1,2) that by (elim disjE; simp add: buffers_fit_def s_sends_def rc_delivers; simp add: delivery)
  have g7: "v_exec v (?s 15 7) (?c i 7) = Some (?s 15 8, ?c i 8)" if "i = 11 \<or> i = 12" "pg_count g \<noteq> 1"
    using assms(1,2) that by (elim disjE; simp add: buffers_fit_def s_sends_def c_data_at_def rc_reads; simp add: delivery)
  have m: "pg_count g \<noteq> 1" if "n = 7" using assms(3) that by (auto simp: placed_def)
  show ?thesis
  proof (cases "from_server_ready j n")
    case True
    then have "n = 1 \<and> j = 3 \<and> (i = 2 \<or> i = 3) \<or> n = 2 \<and> j = 6 \<and> (i = 2 \<or> i = 3) \<or> n = 4 \<and> j = 9 \<and> (i = 6 \<or> i = 7) \<or>
        n = 5 \<and> j = 11 \<and> (i = 6 \<or> i = 7) \<or> n = 7 \<and> j = 15 \<and> (i = 11 \<or> i = 12)"
      using placed_cases(2,3) [OF assms(3)] unfolding from_server_ready_def by (elim disjE conjE; hypsubst; simp; linarith)
    then show ?thesis using True g1 g2 g4 g5 g7 m by (elim disjE conjE) (simp_all add: eval_nat_numeral)
  next
    case False
    have "n = 8 \<longrightarrow> j < 18 \<or> j = 18" using placed_cases(3) [OF assms(3)] by auto
    with False have "(n \<in> {0, 3, 6} \<or> j < [0, 3, 6, 0, 9, 11, 0, 15, 18] ! n) \<or> n = 8 \<and> j = 18"
      using placed_cases(1) [OF assms(3)] by (elim insertE emptyE; hypsubst; simp add: from_server_ready_def not_le)
    then have "v_exec v (?s j n) (?c i n) = None" by (rule disjE) (erule idle, erule no_recv)
    with False show ?thesis by simp
  qed
qed


lemma placed_client: "placed g i j n \<Longrightarrow> c_ready g i n \<Longrightarrow> placed g (i + 1) j n"
proof -
  assume p: "placed g i j n" and c: "c_ready g i n"
  have "(i, n) \<in> c_pairs" using p by (simp add: placed_def)
  then have "(i + 1, n) \<in> c_pairs \<and> (pg_count g = 1 \<longrightarrow> i + 1 \<le> 10 \<or> 6 < n)" using c unfolding c_pairs_def
    by (elim insertE emptyE; elim Pair_inject; hypsubst; simp add: c_ready_def)
  then show ?thesis using p by (auto simp: placed_def)
qed

lemma placed_server: "placed g i j n \<Longrightarrow> s_ready g j n \<Longrightarrow> placed g i (j + 1) n"
proof -
  assume p: "placed g i j n" and c: "s_ready g j n"
  have "(j, n) \<in> s_pairs" using p by (simp add: placed_def)
  then have "(j + 1, n) \<in> s_pairs \<and> (pg_count g = 1 \<longrightarrow> j + 1 \<le> 13 \<or> 6 < n)" using c unfolding s_pairs_def
    by (elim insertE emptyE; elim Pair_inject; hypsubst; simp add: s_ready_def)
  then show ?thesis using p by (auto simp: placed_def)
qed

lemma placed_from_client: "placed g i j n \<Longrightarrow> from_client_ready i j n \<Longrightarrow> placed g i j (n + 1)"
  apply (frule placed_cases(2)) apply (frule placed_cases(3))
  unfolding from_client_ready_def
  apply (elim disjE conjE; hypsubst; simp add: placed_def)
  apply (auto simp: c_pairs_def s_pairs_def)
  done

lemma placed_from_server: "placed g i j n \<Longrightarrow> from_server_ready j n \<Longrightarrow> placed g i j (n + 1)"
  apply (frule placed_cases(2)) apply (frule placed_cases(3))
  unfolding from_server_ready_def
  apply (elim disjE conjE; hypsubst; simp add: placed_def)
  apply (auto simp: c_pairs_def s_pairs_def)
  done

lemma placed_end: 
  assumes p: "placed g i j n" and "\<not> c_ready g i n" "\<not> s_ready g j n" "\<not> from_client_ready i j n" "\<not> from_server_ready j n"
  shows "if pg_count g = 1 then i = 10 \<and> j = 13 \<and> n = 6 else i = 12 \<and> j = 18 \<and> n = 8"
proof -
  have "(i, n) \<in> c_pairs" using p by (simp add: placed_def)
  then have i: "i = [2, 3, 3, 6, 7, 7, if pg_count g = 1 then 10 else 11, 12, 12] ! n \<or> pg_count g = 1 \<and> (6 < n \<or> i > 10)" using assms(2) unfolding c_pairs_def
    by (elim insertE emptyE; elim Pair_inject; hypsubst; simp add: c_ready_def)
  have "(j, n) \<in> s_pairs" using p by (simp add: placed_def)
  then have j: "j = [1, 3, 6, 7, 9, 11, 13, 15, 18] ! n \<or> pg_count g = 1 \<and> 6 < n" using assms(3) unfolding s_pairs_def
    by (elim insertE emptyE; elim Pair_inject; hypsubst; simp add: s_ready_def)
  have m: "pg_count g = 1 \<longrightarrow> n \<le> 6 \<and> i \<le> 10" using p by (simp add: placed_def)
  have i': "i = [2, 3, 3, 6, 7, 7, if pg_count g = 1 then 10 else 11, 12, 12] ! n" using i m by linarith
  have j': "j = [1, 3, 6, 7, 9, 11, 13, 15, 18] ! n" using j m by linarith
  show ?thesis using placed_cases(1) [OF p] i' j' m assms(4,5)
    by (elim insertE emptyE; hypsubst; simp add: from_client_ready_def from_server_ready_def split: if_splits)
qed

end
