(* ===== verification/Xrping_Session.thy ===== *)
theory Xrping_Session
  imports Xrping
begin

text \<open>
  Sessions of \<open>recipes-apps/xrping/files/xrping.c\<close>: all runs of a client and a server over a reliable connection.  One ping always
  completes with the data at both ends; a second one never does; and a server whose context was allocated with a non-zero upper half of
  its receive identifier waits for ever.
\<close>

unbundle bit_operations_syntax

definition world_at :: "ping_cfg \<Rightarrow> u32 \<Rightarrow> u32 \<Rightarrow> u32 \<Rightarrow> u32 \<Rightarrow> u32 \<Rightarrow> xr_peer \<Rightarrow> xr_peer \<Rightarrow> nat \<Rightarrow> nat \<Rightarrow> nat \<Rightarrow> xr_world" where
  "world_at g rx m w r q c s i j n = \<lparr>w_cl = client_at g w c s i n, w_sv = server_at g rx m r q c s j n\<rparr>"

definition world_start :: "u32 \<Rightarrow> u32 \<Rightarrow> u32 \<Rightarrow> xr_peer \<Rightarrow> xr_peer \<Rightarrow> xr_world" where
  "world_start rx m w c s = \<lparr>w_cl = client_start w c, w_sv = xr_server_start rx m s\<rparr>"

lemma world_start_at: "world_start rx m w c s = world_at g rx m w r q c s 0 0 0"
  by (simp add: world_start_def world_at_def client_start_def xr_server_start_def client_at_def server_at_def c_peer_at_def s_peer_at_def
      c_data_at_def)

definition session_ok :: "xr_verbs \<Rightarrow> ping_cfg \<Rightarrow> (nat \<Rightarrow> u32) \<Rightarrow> xr_peer \<Rightarrow> xr_peer \<Rightarrow> bool" where
  "session_ok v g rnd c s \<longleftrightarrow> rc_connection v \<and> buffers_fit g c s \<and> 1 \<le> pg_count g \<and> pg_count g < 2 ^ 31 \<and>
     drop_bit 32 (rq_id s) = 0 \<and> rnd 0 < 2 ^ 31 - 5 \<and> rnd 1 < 2 ^ 31 - 5"

lemma int_id_add:
  assumes "r < 2 ^ 31 - 5" "d \<le> 5"
  shows "int_id (r + d) = ucast (r + d)"
proof (rule int_id_small)
  have "unat r < 2 ^ 31 - 5" "unat d \<le> 5" using assms by (simp_all add: word_less_nat_alt word_le_nat_alt)
  then show "r + d < 2 ^ 31" by (simp add: word_less_nat_alt unat_word_ariths)
qed

lemma session_moves:
  fixes w rx m :: u32
  assumes o: "session_ok v g rnd c s" and p: "placed g i j n"
  defines "at \<equiv> world_at g rx m w (rnd 0) (rnd 1) c s"
  shows "rping_test_client v g (w_cl (at i j n)) = (if c_ready g i n then Some (w_cl (at (i + 1) j n)) else None)"
    "xr_test_server v rnd (w_sv (at i j n)) = (if s_ready g j n then Some (w_sv (at i (j + 1) n)) else None)"
    "v_exec v (cl_peer (w_cl (at i j n))) (sv_peer (w_sv (at i j n))) = (if from_client_ready i j n
       then Some (cl_peer (w_cl (at i j (n + 1))), sv_peer (w_sv (at i j (n + 1)))) else None)"
    "v_exec v (sv_peer (w_sv (at i j n))) (cl_peer (w_cl (at i j n))) = (if from_server_ready j n
       then Some (sv_peer (w_sv (at i j (n + 1))), cl_peer (w_cl (at i j (n + 1)))) else None)"
proof -
  have pr: "(i, n) \<in> c_pairs" "(j, n) \<in> s_pairs" "j < 14 \<or> pg_count g \<noteq> 1" using p by (auto simp: placed_def)
  have h: "rc_connection v" "buffers_fit g c s" "1 \<le> pg_count g" "pg_count g < 2 ^ 31" "drop_bit 32 (rq_id s) = 0"
    "0 < pg_size g" "length (rdma_buf c) = pg_size g" "rnd 0 < 2 ^ 31 - 5" "rnd 1 < 2 ^ 31 - 5"
    using o by (simp_all add: session_ok_def buffers_fit_def)
  have ids: "int_id (rnd 0 + 1) = ucast (rnd 0 + 1)" "int_id (rnd 0 + 4) = ucast (rnd 0 + 4)" "int_id (rnd 1 + 1) = ucast (rnd 1 + 1)"
    by (rule int_id_add, fact h, simp)+
  show "rping_test_client v g (w_cl (at i j n)) = (if c_ready g i n then Some (w_cl (at (i + 1) j n)) else None)"
    using client_moves [OF h(1,3,6,7) pr(1)] by (simp add: at_def world_at_def)
  show "xr_test_server v rnd (w_sv (at i j n)) = (if s_ready g j n then Some (w_sv (at i (j + 1) n)) else None)"
    using server_moves [OF h(1,3,4) pr(3) h(5) ids, where rnd = rnd, OF _ _ pr(2)] by (simp add: at_def world_at_def)
  show "v_exec v (cl_peer (w_cl (at i j n))) (sv_peer (w_sv (at i j n))) = (if from_client_ready i j n
       then Some (cl_peer (w_cl (at i j (n + 1))), sv_peer (w_sv (at i j (n + 1)))) else None)"
    using from_client_moves [OF h(1,2) p] by (simp add: at_def world_at_def client_at_def server_at_def)
  show "v_exec v (sv_peer (w_sv (at i j n))) (cl_peer (w_cl (at i j n))) = (if from_server_ready j n
       then Some (sv_peer (w_sv (at i j (n + 1))), cl_peer (w_cl (at i j (n + 1)))) else None)"
    using from_server_moves [OF h(1,2) p] by (simp add: at_def world_at_def client_at_def server_at_def)
qed

lemma session_step:
  assumes o: "session_ok v g rnd c s" and p: "placed g i j n"
    and "xr_step v g rnd (world_at g rx m w (rnd 0) (rnd 1) c s i j n) W"
  shows "\<exists>i' j' n'. placed g i' j' n' \<and> W = world_at g rx m w (rnd 0) (rnd 1) c s i' j' n' \<and> i' + j' + n' = i + j + n + 1"
proof -
  let ?at = "world_at g rx m w (rnd 0) (rnd 1) c s"
  note mv = session_moves [OF o p, of rx m w]
  show ?thesis using assms(3)
  proof cases
    case (client c')
    then have "c_ready g i n \<and> W = ?at (i + 1) j n" using mv(1) by (simp add: world_at_def split: if_splits)
    then show ?thesis using placed_client [OF p] by (intro exI [of _ "i + 1"] exI [of _ j] exI [of _ n]) simp
  next
    case (server s')
    then have "s_ready g j n \<and> W = ?at i (j + 1) n" using mv(2) by (simp add: world_at_def split: if_splits)
    then show ?thesis using placed_server [OF p] by (intro exI [of _ i] exI [of _ "j + 1"] exI [of _ n]) simp
  next
    case (from_client p' q')
    then have "from_client_ready i j n \<and> W = ?at i j (n + 1)"
      using mv(3) by (simp add: world_at_def client_at_def server_at_def split: if_splits)
    then show ?thesis using placed_from_client [OF p] by (intro exI [of _ i] exI [of _ j] exI [of _ "n + 1"]) simp
  next
    case (from_server q' p')
    then have "from_server_ready j n \<and> W = ?at i j (n + 1)"
      using mv(4) by (simp add: world_at_def client_at_def server_at_def split: if_splits)
    then show ?thesis using placed_from_server [OF p] by (intro exI [of _ i] exI [of _ j] exI [of _ "n + 1"]) simp
  qed
qed

lemma session_stuck:
  assumes o: "session_ok v g rnd c s" and p: "placed g i j n"
    and st: "\<nexists>W. xr_step v g rnd (world_at g rx m w (rnd 0) (rnd 1) c s i j n) W"
  shows "if pg_count g = 1 then i = 10 \<and> j = 13 \<and> n = 6 else i = 12 \<and> j = 18 \<and> n = 8"
proof (rule placed_end [OF p])
  note mv = session_moves [OF o p, of rx m w]
  show "\<not> c_ready g i n" using st mv(1) xr_step.client by (metis)
  show "\<not> s_ready g j n" using st mv(2) xr_step.server by (metis)
  show "\<not> from_client_ready i j n" using st mv(3) xr_step.from_client by (metis)
  show "\<not> from_server_ready j n" using st mv(4) xr_step.from_server by (metis)
qed

lemma session_run:
  assumes "session_ok v g rnd c s" "(xr_step v g rnd ^^ k) (world_start rx m w c s) W"
  shows "\<exists>i j n. placed g i j n \<and> W = world_at g rx m w (rnd 0) (rnd 1) c s i j n \<and> i + j + n = k"
  using assms(2)
proof (induction k arbitrary: W)
  case 0
  have "placed g 0 0 0" by (simp add: placed_def c_pairs_def s_pairs_def)
  moreover have "W = world_at g rx m w (rnd 0) (rnd 1) c s 0 0 0" using 0 world_start_at by simp
  ultimately show ?case by blast
next
  case (Suc k)
  then obtain U where u: "(xr_step v g rnd ^^ k) (world_start rx m w c s) U" "xr_step v g rnd U W" by auto
  from Suc.IH [OF u(1)] obtain i j n where
    p: "placed g i j n" "U = world_at g rx m w (rnd 0) (rnd 1) c s i j n" "i + j + n = k" by blast
  from session_step [OF assms(1) p(1)] u(2) p(2,3) show ?case by fastforce
qed

lemma placed_bound: "placed g i j n \<Longrightarrow> i + j + n \<le> (if pg_count g = 1 then 29 else 38)"
proof -
  assume p: "placed g i j n"
  have "i \<le> 12" using p unfolding placed_def c_pairs_def by (elim conjE insertE emptyE) simp_all
  moreover have "j \<le> 18 \<and> n \<le> 8" using p unfolding placed_def s_pairs_def by (elim conjE insertE emptyE) simp_all
  ultimately show ?thesis using p by (auto simp: placed_def)
qed

lemma bounded_run_ends:
  assumes "\<And>k W. (R ^^ k) a W \<Longrightarrow> k \<le> b"
  shows "\<exists>k W. (R ^^ k) a W \<and> (\<nexists>U. R W U)"
proof (rule ccontr)
  assume "\<not> ?thesis"
  then have go: "(R ^^ k) a W \<Longrightarrow> \<exists>U. (R ^^ Suc k) a U" for k W by (metis relpowp_Suc_I)
  have "\<exists>W. (R ^^ k) a W" for k
  proof (induction k)
    case 0
    show ?case by (intro exI [of _ a]) simp
  next
    case (Suc k)
    then show ?case using go by blast
  qed
  then obtain W where "(R ^^ Suc b) a W" by blast
  then show False using assms [of "Suc b" W] by simp
qed

lemma session_ends:
  assumes "session_ok v g rnd c s"
  shows "\<exists>k W. (xr_step v g rnd ^^ k) (world_start rx m w c s) W \<and> (\<nexists>U. xr_step v g rnd W U)"
proof (rule bounded_run_ends)
  fix k W
  assume "(xr_step v g rnd ^^ k) (world_start rx m w c s) W"
  from session_run [OF assms this] obtain i j n where "placed g i j n" "i + j + n = k" by blast
  then show "k \<le> 38" using placed_bound [of g i j n] by (simp split: if_splits)
qed


text \<open>C27: with a count of two or more no run of client and server ever returns: after at most 38 steps nothing moves any more, the client
  polls in its second ping for the identifier of a receive that was completed in the first and has none posted, and the server's message to it
  is never delivered.\<close>

theorem second_ping_hangs:
  assumes "session_ok v g rnd c s" "pg_count g \<noteq> 1" "(xr_step v g rnd ^^ k) (world_start rx m w c s) W"
  shows "k \<le> 38 \<and> (\<forall>x. cl_pc (w_cl W) \<noteq> CRet x \<and> sv_pc (w_sv W) \<noteq> SRet x) \<and> ((\<nexists>U. xr_step v g rnd W U) \<longrightarrow>
     cl_ping (w_cl W) = 1 \<and> cl_pc (w_cl W) = CPoll1 (w + 2) \<and> recvq (cl_peer (w_cl W)) = [] \<and> wcq (cl_peer (w_cl W)) = [] \<and>
     sv_i (w_sv W) = 1 \<and> sv_pc (w_sv W) = SPoll3 (rnd 1) \<and> map sr_op (sendq (sv_peer (w_sv W))) = [OpSend] \<and> wcq (sv_peer (w_sv W)) = [])"
proof -
  obtain i j n where p: "placed g i j n" "W = world_at g rx m w (rnd 0) (rnd 1) c s i j n" "i + j + n = k"
    using session_run [OF assms(1,3)] by blast
  have e: "W = world_at g rx m w (rnd 0) (rnd 1) c s 12 18 8" if "\<nexists>U. xr_step v g rnd W U"
    using session_stuck [OF assms(1) p(1), of rx m w] that p(2) assms(2) by simp
  have "k \<le> 38" using placed_bound [OF p(1)] p(3) assms(2) by simp
  moreover have "cl_pc (w_cl W) \<noteq> CRet x" for x
    using p(1,2) assms(2) unfolding placed_def c_pairs_def
    by (elim conjE insertE emptyE) (simp_all add: world_at_def client_at_def)
  moreover have "sv_pc (w_sv W) \<noteq> SRet x" for x
    using p(1,2) assms(2) unfolding placed_def s_pairs_def
    by (elim conjE insertE emptyE) (simp_all add: world_at_def server_at_def)
  moreover note assms(2) e
  ultimately show ?thesis
    by (intro conjI impI allI) (simp_all add: world_at_def client_at_def server_at_def c_wcs_def s_wcs_def s_sends_def)
qed

subsection \<open>What the allocation leaves in the identifier\<close>

definition lost_client :: "u32 \<Rightarrow> xr_client \<Rightarrow> bool" where
  "lost_client w x \<longleftrightarrow> cl_pc x \<in> {CPing, CFmt1 w, CPoll1 w} \<and> cl_ping x = 0 \<and> rq_id (cl_peer x) = ucast w \<and>
     drop_bit 32 (sq_id (cl_peer x)) = 0 \<and> length (send_buf (cl_peer x)) = 4096 \<and>
     (\<forall>y\<in>set (sendq (cl_peer x)). sr_op y = OpSend \<and> sr_id y \<noteq> ucast w) \<and> (\<forall>y\<in>set (wcq (cl_peer x)). snd y \<and> fst y \<noteq> ucast w)"

definition lost_server :: "u32 \<Rightarrow> xr_server \<Rightarrow> bool" where
  "lost_server r x \<longleftrightarrow> (sv_pc x = SIter \<and> sv_i x = 0 \<and> sv_iter_cnt x = 1 \<or> sv_pc x = SPoll1 r) \<and> drop_bit 32 (rq_id (sv_peer x)) \<noteq> 0 \<and>
     sendq (sv_peer x) = [] \<and> length (recv_buf (sv_peer x)) = 4096 \<and>
     (\<forall>y\<in>set (recvq (sv_peer x)). drop_bit 32 y \<noteq> 0) \<and> (\<forall>y\<in>set (wcq (sv_peer x)). snd y \<and> drop_bit 32 (fst y) \<noteq> 0)"

lemma set_wr_id_high: "drop_bit 32 (set_wr_id v i) = drop_bit 32 v"
  unfolding set_wr_id_def by (rule bit_word_eqI) (auto simp: bit_simps dest: bit_imp_le_length)

lemma lost_client_step:
  assumes v: "rc_connection v" and g: "1 \<le> pg_count g" and l: "lost_client w x" and st: "rping_test_client v g x = Some y"
  shows "lost_client w y"
proof -
  consider "cl_pc x = CPing" | "cl_pc x = CFmt1 w" | "cl_pc x = CPoll1 w" using l by (auto simp: lost_client_def)
  then show ?thesis
  proof cases
    case 1
    then have "y = x\<lparr>cl_state := RDMA_READ_ADV, cl_peer := fill_ping g 0 (cl_peer x), cl_pc := CFmt1 w\<rparr>"
      using st g l by (simp add: rping_test_client_def lost_client_def)
    then show ?thesis using l by (simp add: lost_client_def fill_ping_def Let_def)
  next
    case 2
    then have "y = x\<lparr>cl_peer := (format_peer g (cl_peer x))\<lparr>sq_id := ucast (w + 1), sendq := sendq (cl_peer x) @
        [\<lparr>sr_id = ucast (w + 1), sr_op = OpSend\<rparr>]\<rparr>, cl_pc := CPoll1 w\<rparr>"
      using st v l by (simp add: rping_test_client_def lost_client_def client_send_def format_peer_def set_wr_id_low)
    then show ?thesis using l by (simp add: lost_client_def format_peer_def)
  next
    case 3
    then obtain z q where z: "wcq (cl_peer x) = z # q" using st v by (cases "wcq (cl_peer x)") (simp_all add: rping_test_client_def client_poll_def)
    then have "y = x\<lparr>cl_peer := (cl_peer x)\<lparr>wcq := q\<rparr>\<rparr>"
      using st v l 3 by (simp add: rping_test_client_def client_poll_def lost_client_def Let_def)
    then show ?thesis using l z by (simp add: lost_client_def)
  qed
qed

lemma lost_server_step:
  assumes v: "rc_connection v" and l: "lost_server (rnd 0) x" and st: "xr_test_server v rnd x = Some y"
  shows "lost_server (rnd 0) y"
proof -
  consider "sv_pc x = SIter" "sv_i x = 0" "sv_iter_cnt x = 1" | "sv_pc x = SPoll1 (rnd 0)" using l by (auto simp: lost_server_def)
  then show ?thesis
  proof cases
    case 1
    then have "y = x\<lparr>sv_peer := (sv_peer x)\<lparr>rq_id := set_wr_id (rq_id (sv_peer x)) (rnd 0),
        recvq := recvq (sv_peer x) @ [set_wr_id (rq_id (sv_peer x)) (rnd 0)]\<rparr>, sv_pc := SPoll1 (rnd 0)\<rparr>"
      using st v by (simp add: xr_test_server_def server_on_def Let_def)
    then show ?thesis using l by (auto simp: lost_server_def set_wr_id_high)
  next
    case 2
    then obtain z q where z: "wcq (sv_peer x) = z # q" using st v by (cases "wcq (sv_peer x)") (simp_all add: xr_test_server_def server_poll_def)
    then have "snd z" "fst z \<noteq> ucast (rnd 0)" using l by (auto simp: lost_server_def)
    with z have "y = x\<lparr>sv_peer := (sv_peer x)\<lparr>wcq := q\<rparr>\<rparr>"
      using st v 2 by (simp add: xr_test_server_def server_poll_def Let_def)
    then show ?thesis using l z by (simp add: lost_server_def)
  qed
qed

lemma lost_step:
  assumes v: "rc_connection v" and g: "1 \<le> pg_count g" and l: "lost_client w (w_cl W)" "lost_server (rnd 0) (w_sv W)" and "xr_step v g rnd W U"
  shows "lost_client w (w_cl U) \<and> lost_server (rnd 0) (w_sv U)"
  using assms(5)
proof cases
  case (client c')
  then show ?thesis using lost_client_step [OF v g l(1)] l(2) by simp
next
  case (server s')
  then show ?thesis using lost_server_step [OF v, of rnd] l by simp
next
  case (from_client p q)
  let ?c = "cl_peer (w_cl W)" and ?s = "sv_peer (w_sv W)"
  have "sendq ?c \<noteq> []" using from_client(2) rc_idle [OF v, of ?c ?s] by force
  moreover from this have o: "sr_op (hd (sendq ?c)) = OpSend" using l(1) by (simp add: lost_client_def)
  moreover from calculation have r: "recvq ?s \<noteq> []" using from_client(2) rc_no_recv [OF v, of ?c ?s] by force
  moreover have "length (send_buf ?c) = length (recv_buf ?s)" using l by (simp add: lost_client_def lost_server_def)
  ultimately have "p = completed (tl (sendq ?c)) (hd (sendq ?c)) ?c"
    "q = ?s\<lparr>recvq := tl (recvq ?s), recv_buf := send_buf ?c, wcq := wcq ?s @ [(hd (recvq ?s), True)]\<rparr>"
    using rc_delivers [OF v, of ?c ?s] from_client(2) by simp_all
  then show ?thesis using l from_client(1) \<open>sendq ?c \<noteq> []\<close> r
    by (auto simp: lost_client_def lost_server_def completed_def dest: list.set_sel(2))
next
  case (from_server q p)
  then show ?thesis using l(2) rc_idle [OF v] by (simp add: lost_server_def)
qed

text \<open>C39: only the first pointer of the server's context is cleared when it is allocated; where the upper half of the receive
  identifier is not zero, no run gets the server past its first wait, although the message arrives.\<close>

theorem server_waits_on_garbage:
  assumes "rc_connection v" "buffers_fit g c s" "1 \<le> pg_count g" "drop_bit 32 (rq_id s) \<noteq> 0"
    "(xr_step v g rnd ^^ k) (world_start rx m w c s) W"
  shows "sv_pc (w_sv W) = SIter \<or> sv_pc (w_sv W) = SPoll1 (rnd 0)"
proof -
  have "lost_client w (w_cl W) \<and> lost_server (rnd 0) (w_sv W)" using assms(5)
  proof (induction k arbitrary: W)
    case 0
    then have "W = world_start rx m w c s" by simp
    then show ?case using assms(2,4)
      by (simp add: world_start_def client_start_def xr_server_start_def lost_client_def lost_server_def buffers_fit_def)
  next
    case (Suc k)
    from Suc.prems obtain U where "(xr_step v g rnd ^^ k) (world_start rx m w c s) U" "xr_step v g rnd U W" by auto
    then show ?case using Suc.IH [of U] lost_step [OF assms(1,3), of w U rnd W] by blast
  qed
  then show ?thesis by (auto simp: lost_server_def)
qed

subsection \<open>A connection and a session on it\<close>

definition demo_exec :: "xr_peer \<Rightarrow> xr_peer \<Rightarrow> (xr_peer \<times> xr_peer) option" where
  "demo_exec e p = (case sendq e of [] \<Rightarrow> None | x # q \<Rightarrow> (case sr_op x of
       OpSend \<Rightarrow> (case recvq p of [] \<Rightarrow> None
         | i # js \<Rightarrow> Some (completed q x e, p\<lparr>recvq := js, recv_buf := send_buf e, wcq := wcq p @ [(i, True)]\<rparr>))
     | OpRead a k n \<Rightarrow> Some ((completed q x e)\<lparr>rdma_buf := take (unat n) (rdma_buf p) @ drop (unat n) (rdma_buf e)\<rparr>, p)
     | OpWrite a k n \<Rightarrow> Some (completed q x e, p\<lparr>rdma_buf := take (unat n) (rdma_buf e) @ drop (unat n) (rdma_buf p)\<rparr>)))"

definition demo_rc :: xr_verbs where
  "demo_rc = \<lparr>v_send = \<lambda>_. 0, v_recv = \<lambda>_. 0, v_poll_fails = \<lambda>_. False, v_exec = demo_exec\<rparr>"

definition demo_ping :: "int \<Rightarrow> ping_cfg" where
  "demo_ping k = \<lparr>pg_size = 64, pg_count = k, pg_format = True, pg_validate = True, pg_verbose = False, pg_qp_cnt = 1\<rparr>"

definition demo_end :: "u64 \<Rightarrow> xr_peer" where
  "demo_end i = \<lparr>rq_id = i, sq_id = 0, rem_addr = 0, rem_rkey = 0, rem_len = 0, start_buf = [], send_buf = replicate 4096 0,
     recv_buf = replicate 4096 0, rdma_buf = replicate 64 1, rdma_addr = 0x8000, rdma_rkey = 0x101, recvq = [], sendq = [], wcq = []\<rparr>"

lemma demo_rc_connection: "rc_connection demo_rc"
  by (auto simp: rc_connection_def demo_rc_def demo_exec_def)

lemma demo_fits: "buffers_fit (demo_ping k) (demo_end i) (demo_end j)"
  by (simp add: buffers_fit_def demo_ping_def demo_end_def)

lemma demo_session: "1 \<le> k \<Longrightarrow> k < 2 ^ 31 \<Longrightarrow> session_ok demo_rc (demo_ping k) (\<lambda>_. 7) (demo_end 0) (demo_end 0)"
  using demo_fits [of k 0 0] by (simp add: session_ok_def demo_rc_connection) (simp add: demo_ping_def demo_end_def)


theorem second_ping_hangs_witness:
  "\<exists>k W. (xr_step demo_rc (demo_ping 2) (\<lambda>_. 7) ^^ k) (world_start 1 1 40 (demo_end 0) (demo_end 0)) W \<and>
     (\<nexists>U. xr_step demo_rc (demo_ping 2) (\<lambda>_. 7) W U) \<and> cl_pc (w_cl W) = CPoll1 42 \<and> recvq (cl_peer (w_cl W)) = []"
proof -
  have o: "session_ok demo_rc (demo_ping 2) (\<lambda>_. 7) (demo_end 0) (demo_end 0)" by (rule demo_session) simp_all
  from session_ends [OF o] obtain k W where
    r: "(xr_step demo_rc (demo_ping 2) (\<lambda>_. 7) ^^ k) (world_start 1 1 40 (demo_end 0) (demo_end 0)) W"
       "\<nexists>U. xr_step demo_rc (demo_ping 2) (\<lambda>_. 7) W U" by blast
  have "pg_count (demo_ping 2) \<noteq> 1" by (simp add: demo_ping_def)
  from second_ping_hangs [OF o this r(1)] r show ?thesis by (intro exI [of _ k] exI [of _ W]) simp
qed

theorem server_waits_on_garbage_witness:
  "\<exists>W. (xr_step demo_rc (demo_ping 1) (\<lambda>_. 7) ^^ 1) (world_start 1 1 40 (demo_end 0) (demo_end 0xDEAD00000000)) W \<and>
     (sv_pc (w_sv W) = SIter \<or> sv_pc (w_sv W) = SPoll1 7) \<and> recvq (sv_peer (w_sv W)) = [0xDEAD00000007]"
proof -
  let ?a = "world_start 1 1 40 (demo_end 0) (demo_end 0xDEAD00000000)"
  obtain y where y: "xr_test_server demo_rc (\<lambda>_. 7) (w_sv ?a) = Some y" "recvq (sv_peer y) = [0xDEAD00000007]"
    by (simp add: world_start_def xr_server_start_def xr_test_server_def server_on_def demo_rc_connection demo_end_def set_wr_id_def
        push_bit_eq_mult Let_def)
  then have r: "(xr_step demo_rc (demo_ping 1) (\<lambda>_. 7) ^^ 1) ?a (?a\<lparr>w_sv := y\<rparr>)" unfolding relpowp_1 by (intro xr_step.server)
  have "drop_bit 32 (rq_id (demo_end 0xDEAD00000000)) \<noteq> 0" "1 \<le> pg_count (demo_ping 1)"
    by (simp_all add: demo_end_def demo_ping_def)
  from server_waits_on_garbage [OF demo_rc_connection demo_fits this(2,1) r] y(2) r show ?thesis
    by (intro exI [of _ "?a\<lparr>w_sv := y\<rparr>"]) simp
qed

end
