(* ===== verification/Spec2Isabelle.thy ===== *)
theory Spec2Isabelle
  imports Xib_Probe Hw_Hs_Old Xrping_Session
begin

text \<open>
  This development models the software of an RDMA network card on an FPGA: the AMD ERNIC core with the
  kernel drivers and the user-space memory manager that run it, and the driver of the hardware handshake
  engine that is attached to it.  All paths are relative to \<open>src/code/meta-user\<close>; the drivers are under
  \<open>recipes-modules\<close>, the programs under \<open>recipes-apps\<close>.

  \<^bold>\<open>The parts and how they interact.\<close>  \<open>xib-kmm\<close> hands out physical chunks of the memory regions of the device tree
  to user processes; \<open>umm\<close> is its library in the process, which divides chunks into blocks with bitmaps
  (\<open>bit_ops.c\<close>).  \<open>xib-module\<close> is the verbs provider of the Linux RDMA core: \<open>mem.c\<close> manages on-chip
  memory, \<open>rnic.c\<close> programs the registers and serves interrupts, \<open>verbs.c\<close> and \<open>main.c\<close> create queue pairs,
  post and poll work, and bring the device up.  \<open>hw-hs\<close> binds queue pairs of \<open>xib-module\<close> to the handshake
  engine, which then rings the doorbells itself.

  \<^bold>\<open>How code is modelled.\<close>  A C structure is a record, an enumeration a datatype, an integer the word of its
  width with the wrap-around of C; an errno is a negative integer; a null pointer or an access outside an
  array is \<open>None\<close>.  Functions take and return the state they change.  Code that reads and writes device
  registers is a computation in the state monad over the list of the accesses made so far (\<open>Xib_Regs\<close>); the
  device is an argument \<open>hw\<close> that answers a read from that list, so nothing is assumed about it, and
  theorems that need registers which keep what is written say so with \<open>readback\<close>.  Kernel services are
  arguments too: the DMA allocator (\<open>dma\<close>), success of an allocation (\<open>kzalloc_ok\<close>, \<open>le_kcalloc\<close>), the
  clock (\<open>jiffies\<close>), the copies from and to user space, the transition table of the core (\<open>is_ok\<close>), and the
  packet library (\<open>ud_lib\<close>), and for the server the verbs, the connection manager and the driver behind its file
  (\<open>ioctl\<close>), and for the ping program the verbs and the connection (\<open>xr_verbs\<close>, with the hypothesis \<open>rc_connection\<close>).  Constants of kernel headers are written as numbers.

  \<^bold>\<open>Loops and bounds.\<close>  Loops over arrays and lists are structural recursion.  The waiting loops on hardware
  (\<open>wait_sq_empty\<close>, \<open>wait_sq_drained\<close>, \<open>wait_rq_drained\<close>), those of the server on the completion queue and the
  engine, and the walks over pointer lists in \<open>Umm\<close> are \<open>partial_function (option)\<close>, where \<open>None\<close> is a loop that does not end; that they end is proved from a
  device that becomes ready and a clock that runs.  The polling loop is a \<open>while_option\<close> whose termination
  is proved.  No function takes fuel.

  \<^bold>\<open>The theories\<close>, in the order of their imports:
  \<^item> \<open>Xib_Prelude\<close>: word types, errno values, bit lemmas, the collection \<open>dev_run\<close>.
  \<^item> \<open>Range_Alloc\<close>, \<open>Fifo\<close>: the contracts of a range allocator and of a bounded queue, as locales.
    The first is interpreted by the managers of \<open>mem.c\<close> and by the identifier bitmaps, the second by the
    receive ring.
  \<^item> \<open>Umm_Bit_Ops\<close>: \<open>umm/files/bit_ops.c\<close>.  The scan for free blocks is sound; set and clear are exact.
  \<^item> \<open>Xib_Kmm\<close>: \<open>xib-kmm/files/xib_kmm.c\<close>.  Chunks of a region stay ordered, disjoint and accounted for.
  \<^item> \<open>Umm\<close>: \<open>umm/files/umm.c\<close>, chunk lists in an explicit heap.  The pointer operations refine operations on
    lists; a block allocation takes free blocks only, and freeing restores the context.
  \<^item> \<open>Xib_Mem\<close>, \<open>Xib_Bmap\<close>: \<open>xib-module/files/mem.c\<close> and the bitmaps of \<open>verbs.c\<close>.
  \<^item> \<open>Xib_Regs\<close>, \<open>Xib_Types\<close>: \<open>rnic.h\<close> and \<open>ib_verbs.h\<close>: registers, queue pairs, rings.
  \<^item> \<open>Xib_Rnic\<close>, \<open>Xib_Irq\<close>: \<open>rnic.c\<close>.  Modification keeps to its own registers, memory regions are programmed
    as asked, recovery returns; the interrupt loops schedule exactly what the status words say.
  \<^item> \<open>Xib_Poll\<close>, \<open>Xib_Send\<close>: posting and polling.  Completions are exactly the signalled requests in order.
  \<^item> \<open>Xib_Qp\<close>, \<open>Xib_Qp_Life\<close>: creation, modification, query, reset and destruction of queue pairs.
  \<^item> \<open>Xib_Verbs\<close>: the other verbs of \<open>main.c\<close>: domains, memory regions, completion queues, user contexts, queries.
    The keys of the regions in use differ; what a release of a region leaves behind.
  \<^item> \<open>Xib_Pfc\<close>, \<open>Xib_Netdev\<close>: the flow-control files and the network notifiers of \<open>main.c\<close>.  A file shows what was
    stored and disturbs no other; an address that comes up reaches the device.
  \<^item> \<open>Axidma\<close>: \<open>axidma.c\<close>, the ring of notifications.  The handler takes each completed one once and in order, and
    what it records is reported with the completion.
  \<^item> \<open>Xib_Probe\<close>: probe and remove of \<open>main.c\<close> and \<open>pl-allocator/files/pl_allocater.c\<close>.  A successful probe establishes
    what the theorems on queue pairs assume, and from then on their numbers stay apart.
  \<^item> \<open>Hw_Hs\<close>, \<open>Hw_Hs_Session\<close>: \<open>hw-hs/files/hw_hs.c\<close>: which contexts are accepted, what a rebind and a reset do,
    and that sessions exclude each other.
  \<^item> \<open>Hs_Server\<close>: the handshake server, \<open>xhw-hs-server/files/xhw_hs_server.c\<close>, with its three threads as steps that
    interleave.  Contexts are numbered and configured once; the driver that is built refuses the server's commands.
  \<^item> \<open>Hw_Hs_Old\<close>: \<open>hw-hs/files/hw_hs_old.c\<close>, the driver those commands belong to.  What a configuration programs, and
    that the server on this driver programs what its clients send.
  \<^item> \<open>Xrping\<close>, \<open>Xrping_Session\<close>: \<open>xrping/files/xrping.c\<close>, the ping program: its message, client and server as
    steps over a connection that is an argument, command line and data thread.  One ping completes in every order of steps; a second never does.
  \<^item> This theory: properties that span components.  A chunk of \<open>umm\<close> is backed by a chunk of \<open>xib-kmm\<close>; a
    region registered by \<open>rnic.c\<close> survives a rebase by \<open>hw-hs\<close>; the receive ring is a queue.

  \<^bold>\<open>What the theorems show of the code's faults.\<close>  Where the code does not do what it means to, the model does what
  the code does, and a theorem shows the fault on every input it concerns: overlapping chunks in
  \<open>xib_kmm.c\<close>, runs that pass the end of a bitmap in \<open>bit_ops.c\<close>, a merge that frees live memory in \<open>mem.c\<close>,
  a deadlock in \<open>umm.c\<close>, lost interrupts in \<open>rnic.c\<close>, lost numbers and stale entries in \<open>verbs.c\<close> and
  \<open>main.c\<close>, access that outlives a memory region, a failed probe that reports success, exchanged
  arguments in \<open>axidma.c\<close>, a queue pair left in handshake mode in \<open>hw_hs.c\<close>, a server that does not fit its driver,
  tables written outside their bounds and after they were freed in \<open>hw_hs_old.c\<close>,
  pings that never end in \<open>xrping.c\<close>.

  \<^bold>\<open>Not modelled.\<close>  Locks and tasklet scheduling are atomic steps; concurrency inside a handler is not modelled.
  Printing, tracing and registration with kernel frameworks have no state of the program.  \<open>axi_timer.c\<close>
  is a clock source for measurements on MicroBlaze.  The other test programs
  (the host's \<open>xrping\<close>, \<open>xhw-hs-client\<close>, \<open>inv-imm-test-app\<close>, \<open>xlarge-mr-test\<close>, \<open>xkperftest-server\<close>) drive
  the libraries of the RDMA core, which are not part of the repository; of the board's \<open>xrping\<close> the allocation of buffers and the events
  of the connection manager are left out for the same reason; the board utilities only pass
  values between the command line and device files.
\<close>

unbundle bit_operations_syntax

subsection \<open>A chunk of the user-space manager is backed by the kernel's\<close>

lemma alloc_ioctl_run:
  assumes "access_ok ie" "copy_to_user ie = 0"
  shows "umm_ioctl ie k XMM_ALLOC_OPC req = do {
     (err, req', k') \<leftarrow> alloc_mem (env_kmalloc_ok ie) k req;
     Some (if err < 0 then - 1 else err, if err \<noteq> 0 then NoReply else InfoReply req', k')}"
proof -
  have "IOC_TYPE XMM_ALLOC_OPC = XMEM_MGR_MAGIC_KEY" "\<not> XMEM_MAX_KMM_FNS < IOC_NR XMM_ALLOC_OPC"
    by (simp_all add: ioctl_defs)
  then show ?thesis
    using assms unfolding umm_ioctl_def xib_ioctl_def reply_def
    by (cases "alloc_mem (env_kmalloc_ok ie) k req") auto
qed

lemma alloc_ioctl:
  assumes "kmm_inv k" "access_ok ie" "copy_to_user ie = 0" "umm_ioctl ie k XMM_ALLOC_OPC req = Some (r, rep, k')"
  shows "r = 0 \<Longrightarrow> \<exists>req'. alloc_mem (env_kmalloc_ok ie) k req = Some (0, req', k') \<and> rep = InfoReply req'"
    and "r \<noteq> 0 \<Longrightarrow> r = - 1"
  using assms(4) unfolding alloc_ioctl_run [OF assms(2,3)]
  by (auto simp: bind_eq_Some_conv dest: alloc_mem_failure [OF assms(1)] split: if_splits)

lemma chunk_added_member:
  "kmm_inv k \<Longrightarrow> alloc_mem kz k req = Some (0, req', k') \<Longrightarrow>
     \<exists>c \<in> set (chunks_of k' (req_type req)). start_addr c = req_chunk_ofs req' \<and> chunk_size c = req_size req \<and>
       chunk_id c = req_chunk_id req'"
proof -
  assume inv: "kmm_inv k" and run: "alloc_mem kz k req = Some (0, req', k')"
  obtain n a i where n: "find_node (mmr_head k) (req_type req) = Some n"
      "req' = req\<lparr>req_chunk_ofs := a, req_chunk_id := (max_chunk n AND 0x00FFFFFF) OR push_bit 24 (req_type req)\<rparr>"
      "k' = k\<lparr>mmr_head := update_node (mmr_head k) (chunk_added n i a (req_size req) (req_type req))\<rparr>"
    by (rule alloc_mem_success [OF inv run])
  let ?n = "chunk_added n i a (req_size req) (req_type req)"
  have "mem_type ?n = req_type req" using find_node_SomeD [OF n(1)] by (simp add: chunk_added_def)
  then have "find_node (update_node (mmr_head k) ?n) (req_type req) = Some ?n" using n(1) find_node_update by metis
  then have "chunks_of k' (req_type req) = chunk_list ?n" using n(1,3) by (simp add: chunks_of_def)
  then show ?thesis using n(2) by (simp add: chunk_added_def insert_at_def new_chunk_def)
qed


subsection \<open>A region of the RDMA driver, rebased by the handshake driver\<close>

text \<open>C28: pointing a registered memory region at a block RAM changes the physical base of exactly that region: after
  \<open>xrnic_reg_mr\<close> and \<open>hw_hs_mr_rebase\<close> with the region's \<open>rkey\<close>, the base is the new address and virtual
  address, protection domain, key, length and access rights are those that were registered.\<close>

theorem mr_rebase_keeps_registration:
  assumes "unat m < 2 ^ 24" "hh_addr_width d = 64"
  shows "let log1 = snd (run_state (xrnic_reg_mr va len pbl pdn m key) log);
      (r, log2) = run_state (hw_hs_mr_rebase d (Some x) \<lparr>mb_rkey = push_bit 8 m OR ucast key, mb_bram_pa = pa\<rparr>) log1;
      before = reg_value init log1; after = reg_value init log2
    in r = Some (0, d, Some x) \<and> u64_of after (XRNIC_MR_BUF_BASE_LO m) (XRNIC_MR_BUF_BASE_HI m) = pa \<and>
      u64_of after (XRNIC_MR_VA_LO m) (XRNIC_MR_VA_HI m) = va \<and> after (XRNIC_MR_PDNUM m) = pdn \<and>
      after (XRNIC_MR_BUF_RKEY m) = ucast key \<and>
      (\<forall>off. off \<noteq> XRNIC_MR_BUF_BASE_LO m \<longrightarrow> off \<noteq> XRNIC_MR_BUF_BASE_HI m \<longrightarrow> after off = before off)"
  using region_of_rkey [OF assms(1), of key] assms(2)
  by (simp add: Let_def hw_hs_mr_rebase_def xrnic_reg_mr_def u64_of_def mreg_defs split_64 ucast_u8_and_ff)

subsection \<open>The receive ring\<close>


subsection \<open>Examples\<close>


theorem mr_rebase_keeps_registration_witness:
  "let log1 = snd (run_state (xrnic_reg_mr 0x7000 0x1000 [0x80000000] 2 5 0x21) []);
      (r, log2) = run_state (hw_hs_mr_rebase demo_hs_dev (Some demo_hs_xl) \<lparr>mb_rkey = push_bit 8 5 OR ucast (0x21::u8), mb_bram_pa = 0xA0000000\<rparr>) log1
    in u64_of (reg_value (\<lambda>_. 0) log2) (XRNIC_MR_BUF_BASE_LO 5) (XRNIC_MR_BUF_BASE_HI 5) = 0xA0000000"
  using mr_rebase_keeps_registration [of 5 demo_hs_dev "0x7000" "0x1000" "[0x80000000]" 2 "0x21" "[]" demo_hs_xl "0xA0000000" "\<lambda>_. 0"]
  by (auto simp: Let_def split: prod.splits)

end
